(* ===== verification/Driver_Prelude.thy ===== *)
theory Driver_Prelude
  imports Main "HOL-Library.Word"
begin

text \<open>
  What every component of the development shares: the C integer types as machine words,
  the kernel's error numbers, byte buffers (reading a window, overwriting a window, the
  little and big endian images of an integer), and the interfaces stated as locales:
  \<^item> \<open>step_system\<close>: an operation set that keeps an invariant, lifted to runs;
  \<^item> \<open>lts\<close> and \<open>simulation\<close>: the same for a labelled transition relation, and for one that an
    abstract system with the same labels can follow step by step;
  \<^item> \<open>byte_codec\<close>: a wire format whose decoder returns the unread rest;
  \<^item> \<open>byte_region\<close>: a store of bytes with bounds-checked reads and writes.
  Each is interpreted on the code's model in the theory of the component that provides it.
\<close>

unbundle bit_operations_syntax

section \<open>Machine types, error numbers\<close>

type_synonym u8 = "8 word"
type_synonym u16 = "16 word"
type_synonym u32 = "32 word"
type_synonym u64 = "64 word"
type_synonym bytes = "8 word list"

text \<open>A function returning a negative errno returns \<open>- E...\<close>, an \<open>int\<close>.\<close>

abbreviation (input) EPERM :: int where "EPERM \<equiv> 1"
abbreviation (input) ENOENT :: int where "ENOENT \<equiv> 2"
abbreviation (input) EINTR :: int where "EINTR \<equiv> 4"
abbreviation (input) EIO :: int where "EIO \<equiv> 5"
abbreviation (input) ENXIO :: int where "ENXIO \<equiv> 6"
abbreviation (input) EAGAIN :: int where "EAGAIN \<equiv> 11"
abbreviation (input) ENOMEM :: int where "ENOMEM \<equiv> 12"
abbreviation (input) EFAULT :: int where "EFAULT \<equiv> 14"
abbreviation (input) EBUSY :: int where "EBUSY \<equiv> 16"
abbreviation (input) ENODEV :: int where "ENODEV \<equiv> 19"
abbreviation (input) EINVAL :: int where "EINVAL \<equiv> 22"
abbreviation (input) ENOTTY :: int where "ENOTTY \<equiv> 25"
abbreviation (input) ENOSPC :: int where "ENOSPC \<equiv> 28"
abbreviation (input) EPIPE :: int where "EPIPE \<equiv> 32"
abbreviation (input) ERANGE :: int where "ERANGE \<equiv> 34"
abbreviation (input) EBADMSG :: int where "EBADMSG \<equiv> 74"
abbreviation (input) EMSGSIZE :: int where "EMSGSIZE \<equiv> 90"
abbreviation (input) EOPNOTSUPP :: int where "EOPNOTSUPP \<equiv> 95"
abbreviation (input) EADDRNOTAVAIL :: int where "EADDRNOTAVAIL \<equiv> 99"
abbreviation (input) ECONNRESET :: int where "ECONNRESET \<equiv> 104"
abbreviation (input) ENOBUFS :: int where "ENOBUFS \<equiv> 105"
abbreviation (input) ENOTCONN :: int where "ENOTCONN \<equiv> 107"
abbreviation (input) ESHUTDOWN :: int where "ESHUTDOWN \<equiv> 108"
abbreviation (input) EINPROGRESS :: int where "EINPROGRESS \<equiv> 115"
abbreviation (input) ERESTARTSYS :: int where "ERESTARTSYS \<equiv> 512"

section \<open>Hint collections\<close>

named_theorems buf_simps \<open>windows of byte buffers\<close>
named_theorems field_simps16 \<open>reading back what an integer field was written with\<close>

section \<open>Windows of a buffer\<close>

definition window :: "'a list \<Rightarrow> nat \<Rightarrow> nat \<Rightarrow> 'a list" where
  "window xs off n = take n (drop off xs)"

text \<open>\<open>memcpy(buf + off, src, len)\<close> with the destination inside the buffer.\<close>

definition blit :: "'a list \<Rightarrow> nat \<Rightarrow> 'a list \<Rightarrow> 'a list" where
  "blit xs off src = take off xs @ src @ drop (off + length src) xs"

lemma length_window [buf_simps]:
  "off + n \<le> length xs \<Longrightarrow> length (window xs off n) = n"
  by (simp add: window_def)

lemma length_window_le: "length (window xs off n) \<le> n"
  by (simp add: window_def)

lemma length_blit [buf_simps]:
  "off + length src \<le> length xs \<Longrightarrow> length (blit xs off src) = length xs"
  by (simp add: blit_def)

lemma window_blit_same [buf_simps]:
  "off + length src \<le> length xs \<Longrightarrow> window (blit xs off src) off (length src) = src"
  by (simp add: window_def blit_def)

lemma nth_blit:
  assumes "off + length src \<le> length xs" "i < length xs"
  shows "blit xs off src ! i =
    (if off \<le> i \<and> i < off + length src then src ! (i - off) else xs ! i)"
  using assms by (auto simp: blit_def nth_append not_less)

lemma nth_window:
  assumes "off + n \<le> length xs" "i < n"
  shows "window xs off n ! i = xs ! (off + i)"
  using assms by (simp add: window_def)

lemma window_blit_disjoint [buf_simps]:
  assumes "off + length src \<le> length xs" "o2 + n \<le> length xs"
    and "o2 + n \<le> off \<or> off + length src \<le> o2"
  shows "window (blit xs off src) o2 n = window xs o2 n"
proof (rule nth_equalityI)
  show "length (window (blit xs off src) o2 n) = length (window xs o2 n)"
    using assms by (simp add: length_window length_blit)
next
  fix i assume "i < length (window (blit xs off src) o2 n)"
  then have i: "i < n" using length_window_le le_trans not_le by blast
  show "window (blit xs off src) o2 n ! i = window xs o2 n ! i"
    using assms i by (auto simp: nth_window nth_blit length_blit)
qed

lemma window_append [buf_simps]:
  "off + n \<le> length xs \<Longrightarrow> window (xs @ ys) off n = window xs off n"
  by (simp add: window_def)

lemma window_append_at [buf_simps]:
  "off = length xs \<Longrightarrow> n = length ys \<Longrightarrow> window (xs @ ys @ zs) off n = ys"
  by (simp add: window_def)

section \<open>Integers as bytes\<close>

text \<open>
  \<open>le_bytes k n\<close> is the little endian image of \<open>n\<close> in \<open>k\<close> bytes. Storing \<open>cpu_to_le16(n)\<close>
  keeps the low 16 bits of \<open>n\<close>; so does \<open>le16 n\<close>, since a byte keeps its value modulo 256.
\<close>

fun le_bytes :: "nat \<Rightarrow> nat \<Rightarrow> bytes" where
  "le_bytes 0 n = []"
| "le_bytes (Suc k) n = word_of_nat n # le_bytes k (n div 256)"

definition be_bytes :: "nat \<Rightarrow> nat \<Rightarrow> bytes" where
  "be_bytes k n = rev (le_bytes k n)"

fun rd_le :: "bytes \<Rightarrow> nat" where
  "rd_le [] = 0"
| "rd_le (b # bs) = unat b + 256 * rd_le bs"

definition rd_be :: "bytes \<Rightarrow> nat" where
  "rd_be bs = rd_le (rev bs)"

lemma length_le_bytes [simp]: "length (le_bytes k n) = k"
  by (induction k arbitrary: n) simp_all

lemma length_be_bytes [simp]: "length (be_bytes k n) = k"
  by (simp add: be_bytes_def)

lemma unat_byte: "unat (word_of_nat n :: u8) = n mod 256"
  by (simp add: unat_of_nat)

lemma rd_le_le_bytes [simp, field_simps16]: "rd_le (le_bytes k n) = n mod 256 ^ k"
proof (induction k arbitrary: n)
  case 0
  then show ?case by simp
next
  case (Suc k)
  have "n mod (256 * 256 ^ k) = 256 * (n div 256 mod 256 ^ k) + n mod 256"
    by (rule mod_mult2_eq)
  then show ?case using Suc.IH by (simp add: unat_byte)
qed

lemma rd_be_be_bytes [simp, field_simps16]: "rd_be (be_bytes k n) = n mod 256 ^ k"
  by (simp add: rd_be_def be_bytes_def)

lemma rd_le_bound: "rd_le bs < 256 ^ length bs"
proof (induction bs)
  case Nil
  then show ?case by simp
next
  case (Cons b bs)
  have "unat b < 256" using unsigned_less [of b] by simp
  moreover have "rd_le bs + 1 \<le> 256 ^ length bs" using Cons.IH by simp
  then have "256 * rd_le bs + 256 \<le> 256 ^ length (b # bs)" by simp
  ultimately show ?case by simp
qed

lemma rd_be_bound: "rd_be bs < 256 ^ length bs"
  using rd_le_bound [of "rev bs"] by (simp add: rd_be_def)

lemma le_bytes_rd_le: "le_bytes (length bs) (rd_le bs) = bs"
proof (induction bs)
  case Nil
  then show ?case by simp
next
  case (Cons b bs)
  have b: "unat b < 256" using unsigned_less [of b] by simp
  then have "(unat b + 256 * rd_le bs) div 256 = rd_le bs" by simp
  moreover have "(word_of_nat (unat b + 256 * rd_le bs) :: u8) = b"
    unfolding word_unat_eq_iff unat_byte using b by simp
  ultimately show ?case using Cons.IH by simp
qed

lemma le_bytes_inj: "le_bytes k m = le_bytes k n \<Longrightarrow> m mod 256 ^ k = n mod 256 ^ k"
  using rd_le_le_bytes by metis

lemma rd_le_append: "rd_le (xs @ ys) = rd_le xs + 256 ^ length xs * rd_le ys"
  by (induction xs) (simp_all add: algebra_simps)

lemma le_bytes_add: "le_bytes (j + k) n = le_bytes j n @ le_bytes k (n div 256 ^ j)"
  by (induction j arbitrary: n) (simp_all add: div_mult2_eq)

lemma le_bytes_zero: "le_bytes k 0 = replicate k 0"
  by (induction k) simp_all

lemma rd_le_zeros: "rd_le (replicate k 0) = 0"
  by (induction k) simp_all

abbreviation le16 :: "nat \<Rightarrow> bytes" where "le16 \<equiv> le_bytes 2"
abbreviation le32 :: "nat \<Rightarrow> bytes" where "le32 \<equiv> le_bytes 4"
abbreviation be16 :: "nat \<Rightarrow> bytes" where "be16 \<equiv> be_bytes 2"
abbreviation be32 :: "nat \<Rightarrow> bytes" where "be32 \<equiv> be_bytes 4"

text \<open>
  The byte swap behind \<open>cpu_to_be32\<close>, \<open>be32_to_cpu\<close> and their 16 and 64 bit kin on a little
  endian host: the value whose bytes, lowest first, are the reversed bytes.
\<close>

definition bswap :: "nat \<Rightarrow> nat \<Rightarrow> nat" where
  "bswap k n = rd_be (le_bytes k n)"

lemma bswap_bound: "bswap k n < 256 ^ k"
  using rd_be_bound [of "le_bytes k n"] by (simp add: bswap_def)

lemma bswap_bswap: "n < 256 ^ k \<Longrightarrow> bswap k (bswap k n) = n"
  using le_bytes_rd_le [of "rev (le_bytes k n)"] by (simp add: bswap_def rd_be_def)

definition bswap32 :: "u32 \<Rightarrow> u32" where
  "bswap32 w = word_of_nat (bswap 4 (unat w))"

definition bswap64 :: "u64 \<Rightarrow> u64" where
  "bswap64 w = word_of_nat (bswap 8 (unat w))"

lemma unat_u32_bound: "unat (w :: u32) < 4294967296"
proof -
  have "unat w < 2 ^ LENGTH(32)" by (rule unsigned_less)
  then show ?thesis by simp
qed

lemma unat_u64_bound: "unat (w :: u64) < 18446744073709551616"
proof -
  have "unat w < 2 ^ LENGTH(64)" by (rule unsigned_less)
  then show ?thesis by simp
qed

lemma bswap32_bswap32 [simp]: "bswap32 (bswap32 w) = w"
  using bswap_bound [of 4 "unat w"] bswap_bswap [of "unat w" 4] unat_u32_bound [of w]
  by (simp add: bswap32_def unat_of_nat)

lemma bswap64_bswap64 [simp]: "bswap64 (bswap64 w) = w"
  using bswap_bound [of 8 "unat w"] bswap_bswap [of "unat w" 8] unat_u64_bound [of w]
  by (simp add: bswap64_def unat_of_nat)

lemma bswap32_eq_iff: "bswap32 a = bswap32 b \<longleftrightarrow> a = b"
  by (metis bswap32_bswap32)

lemma bswap64_low_half:
  assumes "n < 4294967296"
  shows "(ucast (bswap64 (word_of_nat n)) :: u32) = 0"
proof -
  have "le_bytes 8 n = le_bytes 4 n @ replicate 4 0"
    using le_bytes_add [of 4 4 n] assms by (simp add: le_bytes_zero)
  then have b: "bswap 8 n = 4294967296 * rd_le (rev (le_bytes 4 n))"
    by (simp add: bswap_def rd_be_def rd_le_append rd_le_zeros)
  have "unat (bswap64 (word_of_nat n)) = bswap 8 n"
    using assms bswap_bound [of 8 n] by (simp add: bswap64_def unat_of_nat)
  then have "unat (bswap64 (word_of_nat n)) mod 4294967296 = 0" unfolding b by simp
  then show ?thesis
    unfolding word_unat_eq_iff by (simp add: unsigned_ucast_eq take_bit_eq_mod)
qed

text \<open>Clearing the low bits with a mask, as \<open>ALIGN\<close> does.\<close>

lemma and_not_mask: "(w :: u32) AND NOT (mask k) = push_bit k (drop_bit k w)"
  by (rule bit_eqI) (auto simp: bit_simps)

lemma unat_and_not_mask: "unat ((w :: u32) AND NOT (2 ^ k - 1)) = unat w - unat w mod 2 ^ k"
proof -
  have "push_bit k (drop_bit k w) = w - take_bit k w"
    using bits_ident [of k w] by (simp add: eq_diff_eq)
  moreover have t: "unat (take_bit k w) = unat w mod 2 ^ k"
    by (subst unsigned_take_bit_eq) (rule take_bit_eq_mod)
  moreover have "take_bit k w \<le> w" unfolding word_le_nat_alt t by simp
  ultimately show ?thesis
    by (simp only: and_not_mask [unfolded mask_eq_exp_minus_1] unat_sub)
qed

lemma unat_round_up_u32:
  assumes "x + 2 ^ k < 2 ^ 32"
  shows "unat ((word_of_nat x :: u32) + (word_of_nat (2 ^ k) - 1)) = x + 2 ^ k - 1"
proof -
  have "(word_of_nat x :: u32) + (word_of_nat (2 ^ k) - 1) = word_of_nat (x + (2 ^ k - 1))"
    by (simp only: of_nat_add of_nat_diff one_le_power one_le_numeral of_nat_1)
  then show ?thesis using assms by (simp add: unat_of_nat del: of_nat_add)
qed

text \<open>The conversion of a 32-bit value to a C \<open>int\<close>.\<close>

definition int_of_u32 :: "nat \<Rightarrow> int" where
  "int_of_u32 n = (let m = int n mod 4294967296 in if m < 2147483648 then m else m - 4294967296)"

lemma int_of_u32_small: "n < 2147483648 \<Longrightarrow> int_of_u32 n = int n"
  by (simp add: int_of_u32_def Let_def)

section \<open>Interfaces\<close>

text \<open>
  Runs of a labelled transition relation, and two interfaces over it: an invariant that every step
  keeps, and a simulation of the steps by an abstract system with the same labels.
\<close>

inductive lts_run :: "('s \<Rightarrow> 'l \<Rightarrow> 's \<Rightarrow> bool) \<Rightarrow> 's \<Rightarrow> 'l list \<Rightarrow> 's \<Rightarrow> bool"
  for T where
  lts_done: "lts_run T s [] s"
| lts_more: "T s l s' \<Longrightarrow> lts_run T s' ls s'' \<Longrightarrow> lts_run T s (l # ls) s''"

inductive_simps lts_run_Nil: "lts_run T s [] s'"
inductive_simps lts_run_Cons: "lts_run T s (l # ls) s'"

locale lts =
  fixes trans :: "'s \<Rightarrow> 'l \<Rightarrow> 's \<Rightarrow> bool"
    and good :: "'s \<Rightarrow> bool"
  assumes trans_good: "good s \<Longrightarrow> trans s l s' \<Longrightarrow> good s'"
begin

lemma run_good: "lts_run trans s ls s' \<Longrightarrow> good s \<Longrightarrow> good s'"
  by (induction rule: lts_run.induct) (auto dest: trans_good)

end

locale simulation = lts +
  fixes abs :: "'s \<Rightarrow> 'a"
    and atrans :: "'a \<Rightarrow> 'l \<Rightarrow> 'a \<Rightarrow> bool"
  assumes simulates: "good s \<Longrightarrow> trans s l s' \<Longrightarrow> atrans (abs s) l (abs s')"
begin

lemma run_simulates: "lts_run trans s ls s' \<Longrightarrow> good s \<Longrightarrow> lts_run atrans (abs s) ls (abs s')"
  by (induction rule: lts_run.induct) (auto intro: lts_run.intros dest: trans_good simulates)

end

text \<open>An operation set that keeps an invariant: every run from a good state is good.\<close>

locale step_system =
  fixes step :: "'s \<Rightarrow> 'e \<Rightarrow> 's"
    and inv :: "'s \<Rightarrow> bool"
  assumes step_inv: "inv s \<Longrightarrow> inv (step s e)"
begin

lemma run_inv: "inv s \<Longrightarrow> inv (foldl step s es)"
  by (induction es arbitrary: s) (simp_all add: step_inv)

lemma run_preserves:
  assumes "\<And>s e. inv s \<Longrightarrow> f (step s e) = f s"
  shows "inv s \<Longrightarrow> f (foldl step s es) = f s"
  by (induction es arbitrary: s) (simp_all add: step_inv assms)

lemma run_monotone:
  fixes m :: "'s \<Rightarrow> nat"
  assumes mono: "\<And>s e. inv s \<Longrightarrow> m s \<le> m (step s e)"
  shows "inv s \<Longrightarrow> m s \<le> m (foldl step s es)"
proof (induction es arbitrary: s)
  case Nil
  then show ?case by simp
next
  case (Cons e es)
  have "m s \<le> m (step s e)" using Cons.prems by (rule mono)
  also have "\<dots> \<le> m (foldl step (step s e) es)"
    using Cons.prems by (intro Cons.IH step_inv)
  finally show ?case by simp
qed

end

text \<open>
  A wire format: \<open>enc\<close> writes a message, \<open>dec\<close> reads one message off the front of a
  buffer and hands back what follows it.
\<close>

locale byte_codec =
  fixes enc :: "'m \<Rightarrow> bytes"
    and dec :: "bytes \<Rightarrow> ('m \<times> bytes) option"
    and wf :: "'m \<Rightarrow> bool"
  assumes dec_enc: "wf m \<Longrightarrow> dec (enc m @ rest) = Some (m, rest)"
begin

lemma enc_inj: "wf m \<Longrightarrow> wf m' \<Longrightarrow> enc m = enc m' \<Longrightarrow> m = m'"
  using dec_enc [of m "[]"] dec_enc [of m' "[]"] by simp

lemma enc_prefix_free:
  assumes "wf m" "wf m'" "enc m @ r = enc m' @ r'"
  shows "m = m' \<and> r = r'"
proof -
  have "Some (m, r) = Some (m', r')"
    using dec_enc [OF assms(1), of r] dec_enc [OF assms(2), of r'] assms(3) by metis
  then show ?thesis by simp
qed

lemma dec_concat:
  "list_all wf ms \<Longrightarrow> ms \<noteq> [] \<Longrightarrow>
     dec (concat (map enc ms) @ rest) = Some (hd ms, concat (map enc (tl ms)) @ rest)"
  by (cases ms) (simp_all add: dec_enc)

end

text \<open>A store of bytes: a checked read returns what the last checked write put there.\<close>

locale byte_region =
  fixes rd :: "'s \<Rightarrow> nat \<Rightarrow> nat \<Rightarrow> bytes option"
    and wr :: "'s \<Rightarrow> nat \<Rightarrow> bytes \<Rightarrow> 's option"
    and good :: "'s \<Rightarrow> bool"
  assumes wr_rd: "good s \<Longrightarrow> wr s a bs = Some s' \<Longrightarrow> rd s' a (length bs) = Some bs"
    and wr_frame: "good s \<Longrightarrow> wr s a bs = Some s' \<Longrightarrow> rd s b n = Some xs \<Longrightarrow>
      b + n \<le> a \<or> a + length bs \<le> b \<Longrightarrow> rd s' b n = Some xs"
    and wr_defined: "good s \<Longrightarrow> wr s a bs = None \<longleftrightarrow> rd s a (length bs) = None"
    and wr_good: "good s \<Longrightarrow> wr s a bs = Some s' \<Longrightarrow> good s'"
begin

lemma write_twice:
  assumes g: "good s" and w1: "wr s a bs = Some s1" and len: "length cs = length bs"
  shows "\<exists>s2. wr s1 a cs = Some s2 \<and> rd s2 a (length bs) = Some cs"
proof -
  have g1: "good s1" using g w1 by (rule wr_good)
  have "wr s1 a cs \<noteq> None"
    using wr_rd [OF g w1] wr_defined [OF g1, of a cs] len by simp
  then obtain s2 where "wr s1 a cs = Some s2" by blast
  then show ?thesis using wr_rd [OF g1] len by metis
qed

lemma disjoint_writes:
  assumes "good s" "wr s a bs = Some s1" "wr s1 b cs = Some s2"
    and "a + length bs \<le> b \<or> b + length cs \<le> a"
  shows "rd s2 a (length bs) = Some bs \<and> rd s2 b (length cs) = Some cs"
  using assms wr_rd wr_frame wr_good by meson

end

end
