(* ===== verification/Soft_Dma.thy ===== *)
theory Soft_Dma
  imports Driver_Prelude "HOL-Library.Multiset"
begin

text \<open>
  The software DMA controller \<open>modules/dma/soft-dma/soft_dma.c\<close>: one channel with its three
  descriptor lists, the kernel thread that performs the copies, the dmaengine callbacks, and
  the probe/remove and module init/exit paths.

  The thread body is cut at its lock regions, so that the other callbacks can run between two
  of its sections. Physical memory is a function from addresses to bytes. What the kernel
  returns (an allocation, \<open>kthread_run\<close>, a registration) is an argument. A use of freed
  memory or of an error pointer, a call of a null function pointer and a \<open>memcpy\<close> between
  overlapping ranges are recorded as a fault that stops the channel.

  Each section of the thread is one step of the model. The code appends to \<open>completed\<close> outside
  the lock (\<open>soft_dma.c:145\<close>), so on a multiprocessor that list operation can interleave with
  one of \<open>terminate_all\<close> on the same list; the model does not describe what the list looks
  like then.
\<close>

section \<open>Data\<close>

datatype dma_direction = Dma_bidirectional | Dma_mem_to_mem
datatype dma_status = Dma_complete | Dma_in_progress

text \<open>\<open>d_id\<close> stands for the address of the object, \<open>d_tx_submit\<close> for the function pointer
  \<open>tx.tx_submit\<close>, \<open>d_callback\<close> for \<open>tx.callback\<close> with its parameter.\<close>

record sdma_desc =
  d_id :: nat
  d_cookie :: int
  d_tx_submit :: "nat option"
  d_callback :: "nat option"
  d_flags :: nat
  d_src :: nat
  d_dst :: nat
  d_len :: nat
  d_direction :: dma_direction
  d_active :: bool

datatype sdma_fault =
  Use_after_free nat | Bad_thread_pointer | Null_submit nat | Copy_overlap nat

datatype sdma_thread = No_thread | Thread | Thread_err int

text \<open>Where the channel's thread stands between two lock regions of its loop.\<close>

datatype sdma_pc = Waiting | Taken sdma_desc | Copied sdma_desc | Unlinked sdma_desc

record sdma_chan =
  c_thread :: sdma_thread
  c_task_count :: int
  c_stop :: bool
  c_submitted :: "sdma_desc list"
  c_issued :: "sdma_desc list"
  c_completed :: "sdma_desc list"
  c_bytes :: u64
  c_transactions :: u64
  c_pc :: sdma_pc
  c_mem :: "nat \<Rightarrow> u8"
  c_freed :: "nat list"
  c_callbacks :: "nat list"
  c_fault :: "sdma_fault option"

section \<open>Descriptors\<close>

text \<open>\<open>kzalloc\<close> zeroes the object and \<open>dma_async_tx_descriptor_init\<close> only sets the channel,
  so the submit hook, the callback and the cookie stay zero.\<close>

definition soft_dma_prep_dma_memcpy ::
  "nat option \<Rightarrow> nat \<Rightarrow> nat \<Rightarrow> nat \<Rightarrow> nat \<Rightarrow> sdma_desc option" where
  "soft_dma_prep_dma_memcpy kz dst src len flags =
     (if len = 0 then None
      else case kz of
        None \<Rightarrow> None
      | Some addr \<Rightarrow> Some \<lparr> d_id = addr, d_cookie = 0, d_tx_submit = None, d_callback = None,
          d_flags = flags, d_src = src, d_dst = dst, d_len = len,
          d_direction = Dma_bidirectional, d_active = False \<rparr>)"

text \<open>\<open>list_del\<close> takes the node itself off its list.\<close>

definition list_del_desc :: "sdma_desc \<Rightarrow> sdma_desc list \<Rightarrow> sdma_desc list" where
  "list_del_desc d ds = filter (\<lambda>x. d_id x \<noteq> d_id d) ds"

definition phys_memcpy :: "nat \<Rightarrow> nat \<Rightarrow> nat \<Rightarrow> (nat \<Rightarrow> u8) \<Rightarrow> (nat \<Rightarrow> u8)" where
  "phys_memcpy dst src n m = (\<lambda>a. if dst \<le> a \<and> a < dst + n then m (src + (a - dst)) else m a)"

section \<open>The channel thread\<close>

text \<open>Up to the first unlock: wait for a task, give up when nothing is submitted, otherwise
  move the first submitted descriptor to \<open>issued\<close>.\<close>

definition thread_take :: "sdma_chan \<Rightarrow> sdma_chan" where
  "thread_take c =
     (if \<not> c_task_count c > 0 then c
      else case c_submitted c of
        [] \<Rightarrow> c
      | d # ds \<Rightarrow> let d' = d\<lparr>d_active := True\<rparr> in
          c\<lparr>c_submitted := ds, c_issued := c_issued c @ [d'],
            c_task_count := c_task_count c - 1, c_pc := Taken d'\<rparr>)"

text \<open>\<open>memcpy\<close> is defined on disjoint ranges only; nothing in the driver checks that.\<close>

definition ranges_overlap :: "nat \<Rightarrow> nat \<Rightarrow> nat \<Rightarrow> bool" where
  "ranges_overlap dst src n \<longleftrightarrow> dst < src + n \<and> src < dst + n"

definition thread_copy :: "sdma_desc \<Rightarrow> sdma_chan \<Rightarrow> sdma_chan" where
  "thread_copy d c =
     (if d_len d > 0
      then if ranges_overlap (d_dst d) (d_src d) (d_len d)
           then c\<lparr>c_fault := Some (Copy_overlap (d_id d))\<rparr>
           else c\<lparr>c_mem := phys_memcpy (d_dst d) (d_src d) (d_len d) (c_mem c),
                  c_bytes := c_bytes c + word_of_nat (d_len d), c_pc := Copied d\<rparr>
      else c\<lparr>c_pc := Copied d\<rparr>)"

text \<open>The second lock region, then the callback, which runs unlocked.\<close>

definition thread_unlink :: "sdma_desc \<Rightarrow> sdma_chan \<Rightarrow> sdma_chan" where
  "thread_unlink d c =
     (let c1 = c\<lparr>c_issued := list_del_desc d (c_issued c), c_pc := Unlinked d\<rparr>
      in case d_callback d of
           None \<Rightarrow> c1
         | Some cb \<Rightarrow> c1\<lparr>c_callbacks := c_callbacks c1 @ [cb]\<rparr>)"

definition thread_complete :: "sdma_desc \<Rightarrow> sdma_chan \<Rightarrow> sdma_chan" where
  "thread_complete d c =
     c\<lparr>c_completed := c_completed c @ [d], c_transactions := c_transactions c + 1,
       c_pc := Waiting\<rparr>"

text \<open>Every section after the first works on the descriptor object: when another path has
  freed it meanwhile, the access is a fault.\<close>

definition soft_dma_thread_fn :: "sdma_chan \<Rightarrow> sdma_chan" where
  "soft_dma_thread_fn c =
     (let guard = (\<lambda>d f. if d_id d \<in> set (c_freed c)
                         then c\<lparr>c_fault := Some (Use_after_free (d_id d))\<rparr> else f d c)
      in if c_thread c \<noteq> Thread then c
         else case c_pc c of
           Waiting \<Rightarrow> thread_take c
         | Taken d \<Rightarrow> guard d thread_copy
         | Copied d \<Rightarrow> guard d thread_unlink
         | Unlinked d \<Rightarrow> guard d thread_complete)"

section \<open>Callbacks of the dmaengine\<close>

definition soft_dma_issue_pending :: "sdma_chan \<Rightarrow> sdma_chan" where
  "soft_dma_issue_pending c =
     c\<lparr>c_issued := c_issued c @ c_submitted c, c_submitted := [],
       c_task_count := c_task_count c + 1\<rparr>"

text \<open>One pass over a list for \<open>soft_dma_tx_status\<close>: status and residue of the wanted cookie,
  and the largest cookie seen.\<close>

fun scan_issued :: "int \<Rightarrow> sdma_desc list \<Rightarrow> dma_status \<times> nat \<times> int \<Rightarrow> dma_status \<times> nat \<times> int" where
  "scan_issued ck [] acc = acc"
| "scan_issued ck (d # ds) (st, res, used) =
     scan_issued ck ds
       (if d_cookie d = ck then Dma_in_progress else st,
        if d_cookie d = ck then d_len d mod 4294967296 else res,
        if d_cookie d > used then d_cookie d else used)"

fun scan_completed :: "int \<Rightarrow> sdma_desc list \<Rightarrow> dma_status \<times> nat \<times> int \<Rightarrow> dma_status \<times> nat \<times> int" where
  "scan_completed ck [] acc = acc"
| "scan_completed ck (d # ds) (st, res, lst) =
     scan_completed ck ds
       (if d_cookie d = ck then Dma_complete else st,
        if d_cookie d = ck then 0 else res,
        if d_cookie d > lst then d_cookie d else lst)"

record dma_tx_state =
  ts_last :: int
  ts_used :: int
  ts_residue :: nat

text \<open>The second component is what is stored through \<open>txstate\<close>, when it is not NULL.\<close>

definition soft_dma_tx_status ::
  "sdma_chan \<Rightarrow> int \<Rightarrow> bool \<Rightarrow> dma_status \<times> dma_tx_state option" where
  "soft_dma_tx_status c ck has_txstate =
     (if \<not> has_txstate then (Dma_complete, None)
      else let (st1, res1, used) = scan_issued ck (c_issued c) (Dma_complete, 0, 0);
               (st2, res2, lst) = scan_completed ck (c_completed c) (st1, res1, 0)
           in (st2, Some \<lparr> ts_last = lst, ts_used = used, ts_residue = res2 \<rparr>))"

text \<open>
  \<open>list_for_each_entry(sdesc, &head, node) soft_dma_desc_free(sdesc)\<close>: the macro reads
  \<open>sdesc->node.next\<close> after the body has freed \<open>sdesc\<close>.
\<close>

definition read_next :: "nat list \<Rightarrow> sdma_desc \<Rightarrow> 'a \<Rightarrow> sdma_fault + 'a" where
  "read_next freed d nxt = (if d_id d \<in> set freed then Inl (Use_after_free (d_id d)) else Inr nxt)"

fun free_descs :: "nat list \<Rightarrow> sdma_desc list \<Rightarrow> sdma_fault + nat list" where
  "free_descs freed [] = Inr freed"
| "free_descs freed (d # ds) =
     (let freed' = d_id d # freed in
      case read_next freed' d ds of
        Inl e \<Rightarrow> Inl e
      | Inr nxt \<Rightarrow> free_descs freed' ds)"

text \<open>\<open>list_splice_init\<close> puts each list in front of what \<open>head\<close> holds already.\<close>

definition soft_dma_terminate_all :: "sdma_chan \<Rightarrow> sdma_chan" where
  "soft_dma_terminate_all c =
     (let head = c_completed c @ c_issued c @ c_submitted c;
          c1 = c\<lparr>c_submitted := [], c_issued := [], c_completed := []\<rparr>
      in case free_descs (c_freed c) head of
           Inl e \<Rightarrow> c1\<lparr>c_freed := map d_id (take 1 head) @ c_freed c, c_fault := Some e\<rparr>
         | Inr freed \<Rightarrow> c1\<lparr>c_freed := freed\<rparr>)"

definition soft_dma_device_config :: "sdma_chan \<Rightarrow> int \<times> sdma_chan" where
  "soft_dma_device_config c = (0, c)"

text \<open>\<open>kt = 0\<close>: \<open>kthread_run\<close> returned a thread; otherwise it returned \<open>ERR_PTR(kt)\<close>, which
  stays in \<open>schan->thread\<close>.\<close>

definition soft_dma_alloc_chan_resources :: "int \<Rightarrow> sdma_chan \<Rightarrow> int \<times> sdma_chan" where
  "soft_dma_alloc_chan_resources kt c =
     (let c1 = c\<lparr>c_submitted := [], c_issued := [], c_completed := [], c_pc := Waiting\<rparr>
      in if kt = 0 then (0, c1\<lparr>c_thread := Thread\<rparr>)
         else (kt, c1\<lparr>c_thread := Thread_err kt\<rparr>))"

text \<open>\<open>kthread_stop\<close> waits for the thread, which finishes the iteration it is in; called on
  an error pointer it dereferences it.\<close>

definition kthread_stop_chan :: "sdma_chan \<Rightarrow> sdma_chan" where
  "kthread_stop_chan c =
     (case c_thread c of
        Thread_err e \<Rightarrow> c\<lparr>c_fault := Some Bad_thread_pointer\<rparr>
      | _ \<Rightarrow> (case c_pc c of
                Waiting \<Rightarrow> c
              | Taken d \<Rightarrow> soft_dma_thread_fn (soft_dma_thread_fn (soft_dma_thread_fn c))
              | Copied d \<Rightarrow> soft_dma_thread_fn (soft_dma_thread_fn c)
              | Unlinked d \<Rightarrow> soft_dma_thread_fn c))"

definition soft_dma_free_chan_resources :: "sdma_chan \<Rightarrow> sdma_chan" where
  "soft_dma_free_chan_resources c =
     (let c1 = c\<lparr>c_stop := True\<rparr>;
          c2 = (if c_thread c1 \<noteq> No_thread then (kthread_stop_chan c1)\<lparr>c_thread := No_thread\<rparr> else c1)
      in if c_fault c2 \<noteq> None then c2 else soft_dma_terminate_all c2)"

section \<open>Device: debugfs, probe, remove, module init and exit\<close>

definition NUM_CHANNELS :: nat where "NUM_CHANNELS = 4"

text \<open>One row of the \<open>stats\<close> file: channel, running, bytes, completed, pending.\<close>

definition soft_dma_debugfs_show :: "sdma_chan list \<Rightarrow> (nat \<times> bool \<times> u64 \<times> u64 \<times> int) list" where
  "soft_dma_debugfs_show chans =
     map (\<lambda>i. let c = chans ! i in
            (i, c_thread c \<noteq> No_thread, c_bytes c, c_transactions c, c_task_count c))
         [0..<NUM_CHANNELS]"

text \<open>The zeroed channel of \<open>devm_kcalloc\<close> as the probe loop leaves it; the list heads are
  initialised when the channel is allocated.\<close>

definition sdma_chan_init :: "(nat \<Rightarrow> u8) \<Rightarrow> sdma_chan" where
  "sdma_chan_init m = \<lparr> c_thread = No_thread, c_task_count = 0, c_stop = False,
     c_submitted = [], c_issued = [], c_completed = [], c_bytes = 0, c_transactions = 0,
     c_pc = Waiting, c_mem = m, c_freed = [], c_callbacks = [], c_fault = None \<rparr>"

record sdma_dev =
  sd_global :: bool
  sd_channels :: "sdma_chan list"
  sd_registered :: bool
  sd_debugfs :: bool

text \<open>\<open>soft_dma_device = sdev\<close> is assigned before the channels are allocated.\<close>

definition soft_dma_probe ::
  "bool \<Rightarrow> bool \<Rightarrow> int \<Rightarrow> bool \<Rightarrow> (nat \<Rightarrow> u8) \<Rightarrow> sdma_dev \<Rightarrow> int \<times> sdma_dev" where
  "soft_dma_probe sdev_ok chans_ok reg dbg m s =
     (if \<not> sdev_ok then (- ENOMEM, s)
      else let s1 = s\<lparr>sd_global := True\<rparr> in
        if \<not> chans_ok then (- ENOMEM, s1)
        else let s2 = s1\<lparr>sd_channels := replicate NUM_CHANNELS (sdma_chan_init m)\<rparr> in
          if reg \<noteq> 0 then (reg, s2)
          else (0, s2\<lparr>sd_registered := True, sd_debugfs := dbg\<rparr>))"

definition soft_dma_remove :: "sdma_dev \<Rightarrow> sdma_dev" where
  "soft_dma_remove s =
     s\<lparr>sd_registered := False,
       sd_channels := map (\<lambda>c. if c_thread c \<noteq> No_thread
                              then kthread_stop_chan (c\<lparr>c_stop := True\<rparr>) else c) (sd_channels s),
       sd_debugfs := False\<rparr>"

datatype sdma_res = Res_driver | Res_pdev | Res_pdev_added

definition soft_dma_init :: "int \<Rightarrow> bool \<Rightarrow> int \<Rightarrow> int \<times> sdma_res list" where
  "soft_dma_init drv alloc_ok add =
     (if drv \<noteq> 0 then (drv, [])
      else let r1 = [Res_driver] in
        if \<not> alloc_ok then (- ENOMEM, remove1 Res_driver r1)
        else let r2 = Res_pdev # r1 in
          if add \<noteq> 0 then (add, remove1 Res_driver (remove1 Res_pdev r2))
          else (0, Res_pdev_added # r2))"

definition soft_dma_exit :: "sdma_res list \<Rightarrow> sdma_res list" where
  "soft_dma_exit rs =
     (let r1 = (if Res_pdev \<in> set rs then remove1 Res_pdev (remove1 Res_pdev_added rs) else rs)
      in remove1 Res_driver r1)"

section \<open>The channel as a transition system\<close>

text \<open>What the dmaengine can make the driver do on an allocated channel, one lock region at a
  time; a channel that has faulted does nothing more.\<close>

datatype sdma_op = Op_thread | Op_issue_pending | Op_terminate_all | Op_tx_status int

fun sdma_op_step :: "sdma_chan \<Rightarrow> sdma_op \<Rightarrow> sdma_chan" where
  "sdma_op_step c Op_thread = (if c_fault c \<noteq> None then c else soft_dma_thread_fn c)"
| "sdma_op_step c Op_issue_pending = (if c_fault c \<noteq> None then c else soft_dma_issue_pending c)"
| "sdma_op_step c Op_terminate_all = (if c_fault c \<noteq> None then c else soft_dma_terminate_all c)"
| "sdma_op_step c (Op_tx_status ck) = c"

text \<open>
  Every descriptor the channel knows: those on its three lists and the one the thread holds
  between taking it off \<open>issued\<close> and appending it to \<open>completed\<close>.
\<close>

definition live_ids :: "sdma_chan \<Rightarrow> nat list" where
  "live_ids c = map d_id (c_submitted c @ c_issued c @ c_completed c) @
     (case c_pc c of Unlinked d \<Rightarrow> [d_id d] | _ \<Rightarrow> [])"

lemmas sdma_defs = soft_dma_thread_fn_def thread_take_def thread_copy_def thread_unlink_def
  thread_complete_def soft_dma_issue_pending_def soft_dma_terminate_all_def list_del_desc_def

subsection \<open>The channel with a client\<close>

text \<open>
  The whole life of a channel as the dmaengine drives it: allocating and releasing its
  resources, preparing a descriptor (which the client then holds), submitting one it holds, and
  the operations above in any order. \<open>dmaengine_submit\<close> calls the hook \<open>tx_submit\<close> of the
  descriptor. The driver has no such hook, so what a hook would do is the parameter \<open>hook\<close>.
\<close>

datatype sdma_client_op =
    Cl_alloc int
  | Cl_free
  | Cl_prep "nat option" nat nat nat nat
  | Cl_submit nat
  | Cl_op sdma_op

definition dmaengine_submit ::
  "(nat \<Rightarrow> sdma_desc \<Rightarrow> sdma_chan \<Rightarrow> sdma_chan) \<Rightarrow> sdma_desc \<Rightarrow> sdma_chan \<Rightarrow> sdma_chan" where
  "dmaengine_submit hook d c =
     (case d_tx_submit d of
        None \<Rightarrow> c\<lparr>c_fault := Some (Null_submit (d_id d))\<rparr>
      | Some f \<Rightarrow> hook f d c)"

fun sdma_client_step ::
  "(nat \<Rightarrow> sdma_desc \<Rightarrow> sdma_chan \<Rightarrow> sdma_chan) \<Rightarrow> sdma_chan \<times> sdma_desc list \<Rightarrow> sdma_client_op
     \<Rightarrow> sdma_chan \<times> sdma_desc list" where
  "sdma_client_step hook (c, held) (Cl_alloc kt) =
     (if c_fault c \<noteq> None then c else snd (soft_dma_alloc_chan_resources kt c), held)"
| "sdma_client_step hook (c, held) Cl_free =
     (if c_fault c \<noteq> None then c else soft_dma_free_chan_resources c, held)"
| "sdma_client_step hook (c, held) (Cl_prep kz dst src len flags) =
     (c, case soft_dma_prep_dma_memcpy kz dst src len flags of None \<Rightarrow> held | Some d \<Rightarrow> held @ [d])"
| "sdma_client_step hook (c, held) (Cl_submit i) =
     (if c_fault c \<noteq> None \<or> i \<ge> length held then c else dmaengine_submit hook (held ! i) c, held)"
| "sdma_client_step hook (c, held) (Cl_op x) = (sdma_op_step c x, held)"

definition sdma_idle :: "(nat \<Rightarrow> u8) \<Rightarrow> sdma_chan \<times> sdma_desc list \<Rightarrow> bool" where
  "sdma_idle m s \<longleftrightarrow> (case s of (c, held) \<Rightarrow>
     c_submitted c = [] \<and> c_issued c = [] \<and> c_completed c = [] \<and> c_pc c = Waiting \<and>
     c_mem c = m \<and> c_bytes c = 0 \<and> c_transactions c = 0 \<and> c_callbacks c = [] \<and>
     list_all (\<lambda>d. d_tx_submit d = None) held)"

lemma terminate_all_idle:
  "c_submitted c = [] \<Longrightarrow> c_issued c = [] \<Longrightarrow> c_completed c = [] \<Longrightarrow>
     soft_dma_terminate_all c = c"
  by (simp add: soft_dma_terminate_all_def)

lemma sdma_idle_op: "sdma_idle m (c, held) \<Longrightarrow> sdma_idle m (sdma_op_step c x, held)"
  by (cases x) (auto simp: sdma_idle_def terminate_all_idle soft_dma_thread_fn_def thread_take_def
      soft_dma_issue_pending_def split: list.splits)

lemma sdma_idle_free: "sdma_idle m (c, held) \<Longrightarrow> sdma_idle m (soft_dma_free_chan_resources c, held)"
  by (auto simp: sdma_idle_def soft_dma_free_chan_resources_def kthread_stop_chan_def
      terminate_all_idle Let_def split: sdma_thread.splits)

lemma sdma_idle_step: "sdma_idle m s \<Longrightarrow> sdma_idle m (sdma_client_step hook s x)"
proof (cases s)
  case (Pair c held)
  show "sdma_idle m s \<Longrightarrow> ?thesis"
  proof (cases x)
    case (Cl_submit i)
    then show "sdma_idle m s \<Longrightarrow> ?thesis" using Pair
      by (auto simp: sdma_idle_def dmaengine_submit_def list_all_length split: option.splits)
  qed (use Pair in \<open>auto simp: sdma_idle_free sdma_idle_op\<close>,
       auto simp: sdma_idle_def soft_dma_alloc_chan_resources_def soft_dma_prep_dma_memcpy_def Let_def
        split: option.splits)
qed

interpretation dma_idle: step_system "sdma_client_step hook" "sdma_idle m" for hook m
  by unfold_locales (rule sdma_idle_step)

subsection \<open>Each descriptor is in one place\<close>

definition sdma_wf :: "sdma_chan \<Rightarrow> bool" where
  "sdma_wf c \<longleftrightarrow> c_fault c \<noteq> None \<or>
     (distinct (live_ids c) \<and> set (live_ids c) \<inter> set (c_freed c) = {} \<and>
      (case c_pc c of Taken d \<Rightarrow> d \<in> set (c_issued c)
        | Copied d \<Rightarrow> d \<in> set (c_issued c) | _ \<Rightarrow> True))"

lemma free_descs_fault: "ds \<noteq> [] \<Longrightarrow> free_descs freed ds = Inl (Use_after_free (d_id (hd ds)))"
  by (cases ds) (simp_all add: read_next_def Let_def)

lemma terminate_all_cases:
  "soft_dma_terminate_all c =
     (if c_submitted c = [] \<and> c_issued c = [] \<and> c_completed c = [] then c
      else let h = hd (c_completed c @ c_issued c @ c_submitted c) in
        c\<lparr>c_submitted := [], c_issued := [], c_completed := [],
          c_freed := d_id h # c_freed c, c_fault := Some (Use_after_free (d_id h))\<rparr>)"
proof (cases "c_completed c @ c_issued c @ c_submitted c")
  case Nil
  then show ?thesis by (simp add: soft_dma_terminate_all_def Let_def)
next
  case (Cons h t)
  then have "\<not> (c_submitted c = [] \<and> c_issued c = [] \<and> c_completed c = [])" by auto
  then show ?thesis using Cons
    by (auto simp: soft_dma_terminate_all_def free_descs_fault Let_def simp del: free_descs.simps)
qed

lemma list_del_last:
  "distinct (map d_id ds) \<Longrightarrow> d \<in> set ds \<Longrightarrow>
     set (map d_id (list_del_desc d ds)) = set (map d_id ds) - {d_id d}"
  by (auto simp: list_del_desc_def)

lemma distinct_list_del: "distinct (map d_id ds) \<Longrightarrow> distinct (map d_id (list_del_desc d ds))"
  by (simp add: list_del_desc_def distinct_map_filter)

lemma sdma_wf_take: "sdma_wf c \<Longrightarrow> c_pc c = Waiting \<Longrightarrow> sdma_wf (thread_take c)"
  by (cases "c_submitted c") (auto simp: sdma_wf_def live_ids_def thread_take_def Let_def)

lemma sdma_wf_copy:
  "sdma_wf c \<Longrightarrow> c_pc c = Taken d \<Longrightarrow> sdma_wf (thread_copy d c)"
  by (simp add: sdma_wf_def live_ids_def thread_copy_def)

lemma distinct_move_to_end:
  "distinct (A @ I @ C) \<Longrightarrow> distinct I' \<Longrightarrow> set I' \<subseteq> set I - {x} \<Longrightarrow> x \<in> set I \<Longrightarrow>
     distinct (A @ I' @ C @ [x])"
  by auto

lemma sdma_wf_unlink:
  assumes "sdma_wf c" "c_pc c = Copied d" "c_fault c = None"
  shows "sdma_wf (thread_unlink d c)"
proof -
  let ?A = "map d_id (c_submitted c)" and ?I = "map d_id (c_issued c)"
    and ?C = "map d_id (c_completed c)" and ?I' = "map d_id (list_del_desc d (c_issued c))"
  have d: "d \<in> set (c_issued c)" "distinct (?A @ ?I @ ?C)"
    "set (?A @ ?I @ ?C) \<inter> set (c_freed c) = {}"
    using assms by (auto simp: sdma_wf_def live_ids_def)
  have I': "distinct ?I'" "set ?I' = set ?I - {d_id d}"
    using d list_del_last [of "c_issued c" d] distinct_list_del [of "c_issued c" d] by auto
  have "distinct (?A @ ?I' @ ?C @ [d_id d])"
    using d I' by (intro distinct_move_to_end [of ?A ?I]) auto
  moreover have "set (?A @ ?I' @ ?C @ [d_id d]) \<inter> set (c_freed c) = {}"
    using d I' by auto
  ultimately show ?thesis
    by (simp add: sdma_wf_def live_ids_def thread_unlink_def Let_def split: option.splits)
qed

lemma sdma_wf_complete:
  "sdma_wf c \<Longrightarrow> c_pc c = Unlinked d \<Longrightarrow> sdma_wf (thread_complete d c)"
  by (auto simp: sdma_wf_def live_ids_def thread_complete_def)

lemma sdma_wf_thread:
  assumes "sdma_wf c" "c_fault c = None"
  shows "sdma_wf (soft_dma_thread_fn c)"
proof (cases "c_pc c")
  case Waiting
  then show ?thesis using assms by (simp add: soft_dma_thread_fn_def sdma_wf_take)
next
  case (Taken d)
  then show ?thesis using assms sdma_wf_copy [OF assms(1)]
    by (auto simp: soft_dma_thread_fn_def Let_def) (simp add: sdma_wf_def)
next
  case (Copied d)
  then show ?thesis using assms sdma_wf_unlink [OF assms(1)]
    by (auto simp: soft_dma_thread_fn_def Let_def) (simp add: sdma_wf_def)
next
  case (Unlinked d)
  then show ?thesis using assms sdma_wf_complete [OF assms(1)]
    by (auto simp: soft_dma_thread_fn_def Let_def) (simp add: sdma_wf_def)
qed

lemma sdma_wf_op: "sdma_wf c \<Longrightarrow> sdma_wf (sdma_op_step c x)"
proof (cases x)
  case Op_thread
  then show "sdma_wf c \<Longrightarrow> ?thesis" by (simp add: sdma_wf_thread)
next
  case Op_issue_pending
  then show "sdma_wf c \<Longrightarrow> ?thesis"
    by (auto simp: sdma_wf_def live_ids_def soft_dma_issue_pending_def split: sdma_pc.splits)
next
  case Op_terminate_all
  then show "sdma_wf c \<Longrightarrow> ?thesis"
    by (auto simp: terminate_all_cases sdma_wf_def live_ids_def Let_def split: sdma_pc.splits)
qed simp

lemma live_ids_unlink:
  assumes "sdma_wf c" "c_pc c = Copied d" "c_fault c = None"
  shows "mset (live_ids (thread_unlink d c)) = mset (live_ids c)"
proof -
  have d: "d \<in> set (c_issued c)" "distinct (map d_id (c_issued c))"
    using assms by (auto simp: sdma_wf_def live_ids_def)
  have "distinct (map d_id (list_del_desc d (c_issued c)) @ [d_id d])"
    using d list_del_last [of "c_issued c" d] distinct_list_del [of "c_issued c" d] by auto
  moreover have "set (map d_id (list_del_desc d (c_issued c)) @ [d_id d])
      = set (map d_id (c_issued c))"
    using d list_del_last [of "c_issued c" d] by auto
  ultimately have "mset (map d_id (list_del_desc d (c_issued c)) @ [d_id d])
      = mset (map d_id (c_issued c))"
    using d(2) by (metis set_eq_iff_mset_eq_distinct)
  then show ?thesis using assms(2)
    by (simp add: live_ids_def thread_unlink_def Let_def split: option.splits)
qed

lemma live_ids_op:
  assumes "sdma_wf c" "c_fault (sdma_op_step c x) = None"
  shows "mset (live_ids (sdma_op_step c x)) = mset (live_ids c)"
proof (cases x)
  case Op_thread
  have c: "c_fault c = None" using assms(2) Op_thread by (auto split: if_splits)
  show ?thesis
  proof (cases "c_pc c")
    case (Copied d)
    then show ?thesis using assms Op_thread c live_ids_unlink [OF assms(1) Copied c]
      by (auto simp: soft_dma_thread_fn_def Let_def split: if_splits)
  qed (use assms(2) Op_thread c in \<open>auto simp: soft_dma_thread_fn_def thread_take_def thread_copy_def
      thread_complete_def live_ids_def Let_def split: list.splits\<close>)
next
  case Op_issue_pending
  then show ?thesis by (auto simp: live_ids_def soft_dma_issue_pending_def split: sdma_pc.splits)
next
  case Op_terminate_all
  then show ?thesis using assms by (auto simp: terminate_all_cases Let_def split: if_splits)
qed simp

lemma sdma_fault_stays: "c_fault c \<noteq> None \<Longrightarrow> sdma_op_step c x = c"
  by (cases x) auto

text \<open>The invariant of a run: well formed, and until a fault the same descriptors as at its
  start.\<close>

definition sdma_keeps :: "nat multiset \<Rightarrow> sdma_chan \<Rightarrow> bool" where
  "sdma_keeps L c \<longleftrightarrow> sdma_wf c \<and> (c_fault c = None \<longrightarrow> mset (live_ids c) = L)"

lemma sdma_keeps_step: "sdma_keeps L c \<Longrightarrow> sdma_keeps L (sdma_op_step c x)"
  using sdma_wf_op [of c x] live_ids_op [of c x] sdma_fault_stays [of c x]
  by (auto simp: sdma_keeps_def)

interpretation dma_keeps: step_system sdma_op_step "sdma_keeps L" for L
  by unfold_locales (rule sdma_keeps_step)

section \<open>Properties\<close>

text \<open>Fact: with a task pending and a descriptor submitted, one undisturbed iteration of
  the channel thread copies exactly the descriptor's bytes, leaves the rest of memory alone,
  moves the descriptor from the head of \<open>submitted\<close> to the end of \<open>completed\<close>, runs its callback
  once and updates the counters. The source and destination ranges must be disjoint. The driver
  itself never reaches such a state, see \<open>sdma_driver_never_transfers\<close>.\<close>

theorem sdma_thread_transfers:
  assumes "c_thread c = Thread" "c_pc c = Waiting" "sdma_wf c" "c_fault c = None"
    and "c_task_count c > 0" "c_submitted c = d # ds" "d_len d > 0"
    and "\<not> ranges_overlap (d_dst d) (d_src d) (d_len d)"
  shows "\<exists>m'. (soft_dma_thread_fn ^^ 4) c =
      c\<lparr>c_submitted := ds, c_completed := c_completed c @ [d\<lparr>d_active := True\<rparr>],
        c_task_count := c_task_count c - 1, c_mem := m',
        c_bytes := c_bytes c + word_of_nat (d_len d), c_transactions := c_transactions c + 1,
        c_callbacks := c_callbacks c @ (case d_callback d of None \<Rightarrow> [] | Some cb \<Rightarrow> [cb])\<rparr>
    \<and> (\<forall>a. m' a = (if d_dst d \<le> a \<and> a < d_dst d + d_len d
                   then c_mem c (d_src d + (a - d_dst d)) else c_mem c a))"
proof -
  let ?d = "d\<lparr>d_active := True\<rparr>"
  have fresh: "d_id d \<notin> d_id ` set (c_issued c)" "d_id d \<notin> set (c_freed c)"
    using assms by (auto simp: sdma_wf_def live_ids_def)
  then have del: "list_del_desc ?d (c_issued c @ [?d]) = c_issued c"
    by (auto simp: list_del_desc_def filter_id_conv) (metis imageI)
  have four: "(f ^^ 4) x = f (f (f (f x)))" for f :: "sdma_chan \<Rightarrow> sdma_chan" and x
    by (simp add: eval_nat_numeral)
  show ?thesis
    using assms(1,2,4-8) fresh(2) del
    by (intro exI [of _ "phys_memcpy (d_dst d) (d_src d) (d_len d) (c_mem c)"])
      (simp add: four soft_dma_thread_fn_def thread_take_def thread_copy_def thread_unlink_def
        thread_complete_def phys_memcpy_def Let_def split: option.splits)
qed

definition sdma_example :: sdma_chan where
  "sdma_example = (sdma_chan_init (\<lambda>a. word_of_nat a))\<lparr>c_thread := Thread, c_task_count := 1,
     c_submitted := [\<lparr> d_id = 7, d_cookie = 1, d_tx_submit = None, d_callback = Some 3,
       d_flags = 0, d_src = 16, d_dst = 64, d_len = 2, d_direction = Dma_bidirectional,
       d_active = False \<rparr>]\<rparr>"

theorem sdma_thread_transfers_witness:
  "c_mem ((soft_dma_thread_fn ^^ 4) sdma_example) 65 = 17 \<and>
   c_callbacks ((soft_dma_thread_fn ^^ 4) sdma_example) = [3]"
proof -
  have "sdma_wf sdma_example"
    by (simp add: sdma_example_def sdma_chan_init_def sdma_wf_def live_ids_def)
  from sdma_thread_transfers [OF _ _ this, of "hd (c_submitted sdma_example)" "[]"]
  show ?thesis by (auto simp: sdma_example_def sdma_chan_init_def ranges_overlap_def)
qed

text \<open>Fact: what \<open>issue_pending\<close> has moved to \<open>issued\<close> is never picked up again: the
  waiting thread, which looks at \<open>submitted\<close> only, finds it empty however often it runs, and
  keeps spinning because the task count stays positive.\<close>

theorem sdma_issued_never_transferred:
  "c_pc c = Waiting \<Longrightarrow>
     (soft_dma_thread_fn ^^ n) (soft_dma_issue_pending c) = soft_dma_issue_pending c"
proof (induction n)
  case 0
  then show ?case by simp
next
  case (Suc n)
  then show ?case
    by (simp add: soft_dma_issue_pending_def soft_dma_thread_fn_def thread_take_def)
qed

theorem sdma_issued_never_transferred_witness:
  "c_completed ((soft_dma_thread_fn ^^ 1000) (soft_dma_issue_pending sdma_example)) = []"
  using sdma_issued_never_transferred [of sdma_example 1000]
  by (simp add: soft_dma_issue_pending_def sdma_example_def sdma_chan_init_def)

text \<open>Property C6: the controller never transfers anything. Whatever the dmaengine and a client
  call on a channel, in any order and any interleaving with the thread - allocate, prepare,
  submit, issue, terminate, release - memory, counters, lists and callbacks stay as they were,
  and whenever the client submits a descriptor it has prepared, the dmaengine calls a null
  function pointer.\<close>

theorem sdma_driver_never_transfers:
  "case foldl (sdma_client_step hook) (sdma_chan_init m, []) ops of (c, held) \<Rightarrow>
     c_mem c = m \<and> c_bytes c = 0 \<and> c_transactions c = 0 \<and> c_callbacks c = [] \<and>
     c_submitted c = [] \<and> c_issued c = [] \<and> c_completed c = [] \<and>
     list_all (\<lambda>d. c_fault (dmaengine_submit hook d c) = Some (Null_submit (d_id d))) held"
proof -
  have "sdma_idle m (sdma_chan_init m, [])" by (simp add: sdma_chan_init_def sdma_idle_def)
  from dma_idle.run_inv [OF this, of hook ops] show ?thesis
    by (auto simp: sdma_idle_def dmaengine_submit_def list_all_length)
qed

theorem sdma_driver_never_transfers_demo:
  "c_fault (fst (foldl (sdma_client_step hook) (sdma_chan_init m, [])
      [Cl_alloc 0, Cl_prep (Some 7) 64 16 2 0, Cl_submit 0])) = Some (Null_submit 7)"
  by (simp add: sdma_chan_init_def soft_dma_alloc_chan_resources_def soft_dma_prep_dma_memcpy_def
      dmaengine_submit_def Let_def)

text \<open>Fact: until a fault, every run of thread sections and callbacks on a channel keeps each of
  its descriptors in exactly one place: none is lost, listed twice, or listed after it was
  freed.\<close>

theorem sdma_descriptors_conserved:
  assumes "sdma_wf c" and "c' = foldl sdma_op_step c ops" and "c_fault c' = None"
  shows "mset (live_ids c') = mset (live_ids c) \<and> distinct (live_ids c') \<and>
    set (live_ids c') \<inter> set (c_freed c') = {}"
proof (cases "c_fault c = None")
  case True
  then have "sdma_keeps (mset (live_ids c)) c" using assms(1) by (simp add: sdma_keeps_def)
  from dma_keeps.run_inv [OF this, of ops] assms(2,3)
  show ?thesis by (simp add: sdma_keeps_def sdma_wf_def)
next
  case False
  have "foldl sdma_op_step c ops = c"
    by (induction ops) (simp_all add: sdma_fault_stays False)
  then show ?thesis using assms(2,3) False by simp
qed

theorem sdma_descriptors_conserved_witness:
  "mset (live_ids (foldl sdma_op_step sdma_example [Op_thread, Op_thread, Op_thread, Op_thread])) = {#7#}"
proof -
  have wf: "sdma_wf sdma_example"
    by (simp add: sdma_example_def sdma_chan_init_def sdma_wf_def live_ids_def)
  have nf: "c_fault (foldl sdma_op_step sdma_example [Op_thread, Op_thread, Op_thread, Op_thread]) = None"
    by (simp add: Let_def sdma_example_def sdma_chan_init_def sdma_defs ranges_overlap_def)
  from sdma_descriptors_conserved [OF wf refl nf] show ?thesis
    by (simp add: live_ids_def sdma_example_def sdma_chan_init_def)
qed

text \<open>Fact: \<open>terminate_all\<close> is harmless on an empty channel only. With a descriptor on
  any list, the walk that frees the descriptors reads the successor of the first one through
  the object it has just freed.\<close>

theorem sdma_terminate_all_use_after_free:
  "c_fault (soft_dma_terminate_all c) =
     (if c_submitted c = [] \<and> c_issued c = [] \<and> c_completed c = [] then c_fault c
      else Some (Use_after_free (d_id (hd (c_completed c @ c_issued c @ c_submitted c)))))"
  by (simp add: terminate_all_cases Let_def)

lemma scan_issued_status:
  "fst (scan_issued ck ds (st, res, u)) =
     (if \<exists>d \<in> set ds. d_cookie d = ck then Dma_in_progress else st)"
  by (induction ds arbitrary: st res u) auto

lemma scan_completed_status:
  "fst (scan_completed ck ds (st, res, u)) =
     (if \<exists>d \<in> set ds. d_cookie d = ck then Dma_complete else st)"
  by (induction ds arbitrary: st res u) auto

lemma scan_issued_residue:
  "fst (snd (scan_issued ck ds (st, res, u))) =
     (case filter (\<lambda>d. d_cookie d = ck) ds of [] \<Rightarrow> res
        | xs \<Rightarrow> d_len (last xs) mod 4294967296)"
  by (induction ds arbitrary: st res u) (auto split: list.splits)

lemma scan_completed_residue:
  "fst (snd (scan_completed ck ds (st, res, u))) =
     (if \<exists>d \<in> set ds. d_cookie d = ck then 0 else res)"
  by (induction ds arbitrary: st res u) auto

text \<open>Fact: \<open>tx_status\<close> reports a cookie in progress exactly when a descriptor with it
  is on \<open>issued\<close> and none is on \<open>completed\<close>, with that descriptor's length as the residue;
  a descriptor that is only on \<open>submitted\<close> is reported as complete.\<close>

theorem sdma_tx_status_reports:
  "(let (st, ts) = soft_dma_tx_status c ck True in
     (st = Dma_in_progress \<longleftrightarrow> (\<exists>d \<in> set (c_issued c). d_cookie d = ck) \<and>
        \<not> (\<exists>d \<in> set (c_completed c). d_cookie d = ck)) \<and>
     map_option ts_residue ts =
       Some (if st = Dma_complete then 0
             else d_len (last (filter (\<lambda>d. d_cookie d = ck) (c_issued c))) mod 4294967296))"
proof -
  obtain st1 res1 u where i: "scan_issued ck (c_issued c) (Dma_complete, 0, 0) = (st1, res1, u)"
    by (cases "scan_issued ck (c_issued c) (Dma_complete, 0, 0)") auto
  obtain st2 res2 l where k: "scan_completed ck (c_completed c) (st1, res1, 0) = (st2, res2, l)"
    by (cases "scan_completed ck (c_completed c) (st1, res1, 0)") auto
  have st: "st1 = (if \<exists>d \<in> set (c_issued c). d_cookie d = ck then Dma_in_progress else Dma_complete)"
    "st2 = (if \<exists>d \<in> set (c_completed c). d_cookie d = ck then Dma_complete else st1)"
    using scan_issued_status [of ck "c_issued c" Dma_complete 0 0]
      scan_completed_status [of ck "c_completed c" st1 res1 0] i k by simp_all
  have res: "res1 = (case filter (\<lambda>d. d_cookie d = ck) (c_issued c) of [] \<Rightarrow> 0
        | xs \<Rightarrow> d_len (last xs) mod 4294967296)"
    "res2 = (if \<exists>d \<in> set (c_completed c). d_cookie d = ck then 0 else res1)"
    using scan_issued_residue [of ck "c_issued c" Dma_complete 0 0]
      scan_completed_residue [of ck "c_completed c" st1 res1 0] i k by simp_all
  have emp: "filter (\<lambda>d. d_cookie d = ck) (c_issued c) = [] \<longleftrightarrow>
      \<not> (\<exists>d \<in> set (c_issued c). d_cookie d = ck)" by (auto simp: filter_empty_conv)
  have eq: "soft_dma_tx_status c ck True =
      (st2, Some \<lparr> ts_last = l, ts_used = u, ts_residue = res2 \<rparr>)"
    by (simp add: soft_dma_tx_status_def i k)
  show ?thesis
  proof (cases "\<exists>d \<in> set (c_issued c). d_cookie d = ck")
    case True
    then obtain x xs where "filter (\<lambda>d. d_cookie d = ck) (c_issued c) = x # xs"
      using emp by (cases "filter (\<lambda>d. d_cookie d = ck) (c_issued c)") auto
    then show ?thesis using st res True by (simp add: eq)
  next
    case False
    then show ?thesis using st res emp by (simp add: eq)
  qed
qed

text \<open>Fact: when \<open>kthread_run\<close> fails for a channel, the error pointer stays in the
  channel, and removing the device stops it as if it were a thread.\<close>

theorem sdma_remove_after_failed_alloc:
  assumes "kt \<noteq> 0" "i < length (sd_channels s)"
  shows "fst (soft_dma_alloc_chan_resources kt (sd_channels s ! i)) = kt \<and>
    c_fault (sd_channels (soft_dma_remove
      (s\<lparr>sd_channels := (sd_channels s)[i := snd (soft_dma_alloc_chan_resources kt
         (sd_channels s ! i))]\<rparr>)) ! i) = Some Bad_thread_pointer"
  using assms
  by (simp add: soft_dma_alloc_chan_resources_def soft_dma_remove_def kthread_stop_chan_def Let_def)

theorem sdma_remove_after_failed_alloc_witness:
  "fst (soft_dma_alloc_chan_resources (- ENOMEM) (sdma_chan_init (\<lambda>_. 0))) = - ENOMEM"
  using sdma_remove_after_failed_alloc
    [of "- ENOMEM" 2 "snd (soft_dma_probe True True 0 True (\<lambda>_. 0)
       \<lparr> sd_global = False, sd_channels = [], sd_registered = False, sd_debugfs = False \<rparr>)"]
  by (simp add: soft_dma_probe_def NUM_CHANNELS_def)

text \<open>Fact: loading the module either succeeds with the driver and the device registered,
  or fails with nothing left behind; unloading releases all of it.\<close>

theorem sdma_init_unwinds:
  "snd (soft_dma_init drv ok add) =
     (if fst (soft_dma_init drv ok add) = 0 then [Res_pdev_added, Res_pdev, Res_driver] else []) \<and>
   soft_dma_exit (snd (soft_dma_init drv ok add)) = []"
  by (simp add: soft_dma_init_def soft_dma_exit_def Let_def)

end
