(* ===== verification/Vpci_Store.thy ===== *)
theory Vpci_Store
  imports Driver_Prelude
begin

text \<open>
  Virtual PCIe over Ethernet, the state (\<open>modules/virtual_pcie/virtual_pcie.h\<close>) and its memory
  (\<open>virtual_pcie_shmem.c\<close>): the device structure, packets, the BARs and the configuration
  space with their bounds checks in 64-bit arithmetic. A mapped BAR is the list of its bytes;
  \<open>ioremap\<close> is a parameter. An access that passes the code's check but leaves the buffer is
  the fault \<open>Out_of_bounds\<close>.
\<close>

section \<open>Protocol constants, packets, the device\<close>

definition VPCI_VERSION :: nat where "VPCI_VERSION = 1"
definition VPCI_MAX_PAYLOAD :: nat where "VPCI_MAX_PAYLOAD = 1460"
definition VPCI_MAX_BARS :: nat where "VPCI_MAX_BARS = 6"
definition VPCI_MAGIC :: u32 where "VPCI_MAGIC = 0x56494345"
definition VPCI_SHMEM_SIZE :: nat where "VPCI_SHMEM_SIZE = 4 * 1024 * 1024"
definition VPCI_MAX_DEVS :: nat where "VPCI_MAX_DEVS = 16"

datatype vpci_msg_type =
  VPCI_MSG_CONFIG_READ | VPCI_MSG_CONFIG_WRITE | VPCI_MSG_MEM_READ | VPCI_MSG_MEM_WRITE
  | VPCI_MSG_IRQ | VPCI_MSG_DMA_READ | VPCI_MSG_DMA_WRITE | VPCI_MSG_ACK | VPCI_MSG_NACK
  | VPCI_MSG_HANDSHAKE | VPCI_MSG_KEEPALIVE

fun vpci_msg_code :: "vpci_msg_type \<Rightarrow> u8" where
  "vpci_msg_code VPCI_MSG_CONFIG_READ = 0x01"
| "vpci_msg_code VPCI_MSG_CONFIG_WRITE = 0x02"
| "vpci_msg_code VPCI_MSG_MEM_READ = 0x03"
| "vpci_msg_code VPCI_MSG_MEM_WRITE = 0x04"
| "vpci_msg_code VPCI_MSG_IRQ = 0x05"
| "vpci_msg_code VPCI_MSG_DMA_READ = 0x06"
| "vpci_msg_code VPCI_MSG_DMA_WRITE = 0x07"
| "vpci_msg_code VPCI_MSG_ACK = 0x10"
| "vpci_msg_code VPCI_MSG_NACK = 0x11"
| "vpci_msg_code VPCI_MSG_HANDSHAKE = 0x20"
| "vpci_msg_code VPCI_MSG_KEEPALIVE = 0x21"

datatype vpci_role = VPCI_ROLE_NONE | VPCI_ROLE_RC | VPCI_ROLE_EP | VPCI_ROLE_LOOPBACK

text \<open>\<open>addr\<close> is the mapping: \<open>None\<close> for NULL, otherwise the bytes behind it.\<close>

record vpci_bar_info =
  bar_phys_addr :: u64
  bar_size :: u64
  bar_addr :: "bytes option"
  bar_flags :: nat

text \<open>Header fields as they are stored; a \<open>__be32\<close> field is the value a little endian host
  reads from it, so converting it is a byte swap. \<open>hdr_version\<close> is kept as it was converted.\<close>

record vpci_pkt_header =
  hdr_magic :: u32
  hdr_version :: u16
  hdr_type :: u8
  hdr_flags :: u8
  hdr_session_id :: u32
  hdr_seq_num :: u32
  hdr_length :: u32
  hdr_address :: u64

datatype vpci_storage = Heap | Stack

record vpci_packet =
  pkt_hdr :: vpci_pkt_header
  pkt_data :: "bytes option"
  pkt_storage :: vpci_storage

record vpci_stats =
  rx_packets :: u64
  tx_packets :: u64
  rx_bytes :: u64
  tx_bytes :: u64
  errors :: u64
  dropped :: u64

record vpci_device =
  dev_id :: nat
  dev_role :: vpci_role
  dev_sock :: bool
  dev_keepalive_armed :: bool
  dev_reconnect_pending :: bool
  dev_connected :: bool
  dev_session_id :: u32
  dev_seq_num :: u32
  dev_handshake_done :: nat
  dev_handshake_status :: int
  dev_refcount :: int
  dev_tx_list :: "vpci_packet list"
  dev_rx_thread :: bool
  dev_tx_thread :: bool
  dev_bars :: "vpci_bar_info list"
  dev_bar_count :: int
  dev_config_space :: bytes
  dev_config_size :: u64
  dev_shmem_size :: nat
  dev_irq_handler :: bool
  dev_irq_log :: "u32 list"
  dev_ack_wakeups :: nat
  dev_stats :: vpci_stats

text \<open>What a handler or thread can run into, besides an error code: an access outside its buffer,
  freeing an object that is not on the heap, using one after it was freed, a thread waiting for its own end.\<close>

datatype vpci_fault = Out_of_bounds | Bad_free | Use_after_free | Self_stop | Errno int

section \<open>BAR mapping\<close>

definition empty_bar :: "vpci_bar_info \<Rightarrow> vpci_bar_info" where
  "empty_bar b = b\<lparr>bar_addr := None, bar_phys_addr := 0, bar_size := 0\<rparr>"

definition vpci_bar_unmap :: "vpci_device \<Rightarrow> int \<Rightarrow> vpci_device" where
  "vpci_bar_unmap d n =
     (if n < 0 \<or> n \<ge> int VPCI_MAX_BARS then d
      else let b = dev_bars d ! nat n in
        if bar_addr b \<noteq> None
        then d\<lparr>dev_bars := (dev_bars d)[nat n := empty_bar b], dev_bar_count := dev_bar_count d - 1\<rparr>
        else d)"

definition vpci_bar_map ::
  "(u64 \<Rightarrow> u64 \<Rightarrow> bytes option) \<Rightarrow> vpci_device \<Rightarrow> int \<Rightarrow> u64 \<Rightarrow> u64 \<Rightarrow> int \<times> vpci_device" where
  "vpci_bar_map ioremap d n addr sz =
     (if n < 0 \<or> n \<ge> int VPCI_MAX_BARS then (- EINVAL, d)
      else let d1 = (if bar_addr (dev_bars d ! nat n) \<noteq> None then vpci_bar_unmap d n else d);
               b = (dev_bars d1 ! nat n)\<lparr>bar_phys_addr := addr, bar_size := sz\<rparr>
           in if sz > 0
              then (let b' = b\<lparr>bar_addr := ioremap addr sz\<rparr>;
                        d2 = d1\<lparr>dev_bars := (dev_bars d1)[nat n := b']\<rparr>
                    in if bar_addr b' = None then (- ENOMEM, d2)
                       else (0, d2\<lparr>dev_bar_count := dev_bar_count d2 + 1\<rparr>))
              else (0, d1\<lparr>dev_bars := (dev_bars d1)[nat n := b],
                         dev_bar_count := dev_bar_count d1 + 1\<rparr>))"

section \<open>Configuration space\<close>

text \<open>\<open>addr + len > dev->config_size\<close>, with \<open>addr\<close> and \<open>config_size\<close> 64 bits wide.\<close>

definition config_check :: "vpci_device \<Rightarrow> u64 \<Rightarrow> u32 \<Rightarrow> bool" where
  "config_check d addr len \<longleftrightarrow> addr + ucast len > dev_config_size d"

definition vpci_config_read :: "vpci_device \<Rightarrow> u64 \<Rightarrow> u32 \<Rightarrow> vpci_fault + bytes" where
  "vpci_config_read d addr len =
     (if config_check d addr len then Inl (Errno (- ERANGE))
      else if unat addr + unat len > length (dev_config_space d) then Inl Out_of_bounds
      else Inr (window (dev_config_space d) (unat addr) (unat len)))"

text \<open>The source buffer \<open>data\<close> may be shorter than \<open>len\<close>: then the copy reads past it.\<close>

definition vpci_config_write :: "vpci_device \<Rightarrow> u64 \<Rightarrow> bytes \<Rightarrow> u32 \<Rightarrow> vpci_fault + vpci_device" where
  "vpci_config_write d addr data len =
     (if config_check d addr len then Inl (Errno (- ERANGE))
      else if unat addr + unat len > length (dev_config_space d) \<or> unat len > length data
      then Inl Out_of_bounds
      else Inr (d\<lparr>dev_config_space :=
                  blit (dev_config_space d) (unat addr) (take (unat len) data)\<rparr>))"

section \<open>BAR memory\<close>

definition bar_matches :: "u64 \<Rightarrow> u32 \<Rightarrow> vpci_bar_info \<Rightarrow> bool" where
  "bar_matches addr len b \<longleftrightarrow> bar_addr b \<noteq> None \<and> addr \<ge> bar_phys_addr b \<and>
     addr + ucast len \<le> bar_phys_addr b + bar_size b"

text \<open>The index of the first BAR the loop accepts. The I/O and the memory branch copy alike.\<close>

fun find_bar :: "u64 \<Rightarrow> u32 \<Rightarrow> nat \<Rightarrow> vpci_bar_info list \<Rightarrow> nat option" where
  "find_bar addr len i [] = None"
| "find_bar addr len i (b # bs) =
     (if bar_matches addr len b then Some i else find_bar addr len (Suc i) bs)"

definition vpci_mem_read :: "vpci_device \<Rightarrow> u64 \<Rightarrow> u32 \<Rightarrow> vpci_fault + bytes" where
  "vpci_mem_read d addr len =
     (case find_bar addr len 0 (take VPCI_MAX_BARS (dev_bars d)) of
        None \<Rightarrow> Inl (Errno (- ENXIO))
      | Some i \<Rightarrow>
          let b = dev_bars d ! i; offset = addr - bar_phys_addr b; mem = the (bar_addr b)
          in if unat offset + unat len > length mem then Inl Out_of_bounds
             else Inr (window mem (unat offset) (unat len)))"

definition vpci_mem_write :: "vpci_device \<Rightarrow> u64 \<Rightarrow> bytes \<Rightarrow> u32 \<Rightarrow> vpci_fault + vpci_device" where
  "vpci_mem_write d addr data len =
     (case find_bar addr len 0 (take VPCI_MAX_BARS (dev_bars d)) of
        None \<Rightarrow> Inl (Errno (- ENXIO))
      | Some i \<Rightarrow>
          let b = dev_bars d ! i; offset = addr - bar_phys_addr b; mem = the (bar_addr b)
          in if unat offset + unat len > length mem \<or> unat len > length data
             then Inl Out_of_bounds
             else Inr (d\<lparr>dev_bars := (dev_bars d)[i :=
                    b\<lparr>bar_addr := Some (blit mem (unat offset) (take (unat len) data))\<rparr>]\<rparr>))"

section \<open>Well-formed stores\<close>

text \<open>What \<open>vpci_device_init\<close> establishes for the configuration space, and \<open>ioremap\<close> for each
  mapping: the buffer is as long as the size field says.\<close>

definition config_wf :: "vpci_device \<Rightarrow> bool" where
  "config_wf d \<longleftrightarrow> length (dev_config_space d) = unat (dev_config_size d)"

definition bar_wf :: "vpci_bar_info \<Rightarrow> bool" where
  "bar_wf b \<longleftrightarrow> (case bar_addr b of None \<Rightarrow> True | Some m \<Rightarrow> length m = unat (bar_size b))"

definition bars_wf :: "vpci_device \<Rightarrow> bool" where
  "bars_wf d \<longleftrightarrow> length (dev_bars d) = VPCI_MAX_BARS \<and> list_all bar_wf (dev_bars d)"

definition mapped_bars :: "vpci_device \<Rightarrow> nat" where
  "mapped_bars d = length (filter (\<lambda>b. bar_addr b \<noteq> None) (dev_bars d))"

lemma unat_ucast_u32 [simp]: "unat (ucast (len :: u32) :: u64) = unat len"
  using unat_u32_bound [of len] by (simp add: unsigned_ucast_eq take_bit_eq_mod)

lemma unat_add_u64:
  "unat ((a :: u64) + ucast (len :: u32)) =
     (if unat a + unat len < 2 ^ 64 then unat a + unat len else unat a + unat len - 2 ^ 64)"
  using unat_u32_bound [of len] unat_u64_bound [of a]
  by (auto simp: unat_word_ariths mod_if)

lemma config_check_iff:
  "config_wf d \<Longrightarrow> config_check d addr len \<longleftrightarrow>
     length (dev_config_space d) <
       (if unat addr + unat len < 2 ^ 64 then unat addr + unat len
        else unat addr + unat len - 2 ^ 64)"
  by (simp add: config_check_def config_wf_def word_less_nat_alt unat_add_u64)


section \<open>The configuration space as a byte region\<close>

text \<open>Accesses by natural addresses below the 64-bit limit.\<close>

definition config_rd :: "vpci_device \<Rightarrow> nat \<Rightarrow> nat \<Rightarrow> bytes option" where
  "config_rd d a n = (if a + n < 2 ^ 64 \<and> n < 2 ^ 32
     then case vpci_config_read d (word_of_nat a) (word_of_nat n) of Inr bs \<Rightarrow> Some bs | Inl _ \<Rightarrow> None
     else None)"

definition config_wr :: "vpci_device \<Rightarrow> nat \<Rightarrow> bytes \<Rightarrow> vpci_device option" where
  "config_wr d a bs = (if a + length bs < 2 ^ 64 \<and> length bs < 2 ^ 32
     then case vpci_config_write d (word_of_nat a) bs (word_of_nat (length bs)) of
            Inr d' \<Rightarrow> Some d' | Inl _ \<Rightarrow> None
     else None)"

lemma config_rd_eq:
  "config_wf d \<Longrightarrow> config_rd d a n =
     (if a + n < 2 ^ 64 \<and> n < 2 ^ 32 \<and> a + n \<le> length (dev_config_space d)
      then Some (window (dev_config_space d) a n) else None)"
  by (auto simp: config_rd_def vpci_config_read_def config_check_iff unat_of_nat)

lemma config_wr_eq:
  "config_wf d \<Longrightarrow> config_wr d a bs =
     (if a + length bs < 2 ^ 64 \<and> length bs < 2 ^ 32 \<and> a + length bs \<le> length (dev_config_space d)
      then Some (d\<lparr>dev_config_space := blit (dev_config_space d) a bs\<rparr>) else None)"
  by (auto simp: config_wr_def vpci_config_write_def config_check_iff unat_of_nat)

lemma config_wr_wf: "config_wf d \<Longrightarrow> config_wr d a bs = Some d' \<Longrightarrow> config_wf d'"
  by (auto simp: config_wr_eq config_wf_def length_blit split: if_splits)

interpretation config: byte_region config_rd config_wr config_wf
proof (unfold_locales, goal_cases)
  case (1 d a bs d')
  have wf: "config_wf d'" using 1 by (rule config_wr_wf)
  have fits: "a + length bs < 2 ^ 64" "length bs < 2 ^ 32"
      "a + length bs \<le> length (dev_config_space d)"
      "dev_config_space d' = blit (dev_config_space d) a bs"
    using 1 by (simp_all add: config_wr_eq split: if_split_asm) auto
  show ?case unfolding config_rd_eq [OF wf] using fits by (simp add: buf_simps)
next
  case (2 d a bs d' b n xs)
  have wf: "config_wf d'" using 2(1,2) by (rule config_wr_wf)
  have fits: "a + length bs \<le> length (dev_config_space d)"
      "dev_config_space d' = blit (dev_config_space d) a bs"
    using 2(1,2) by (simp_all add: config_wr_eq split: if_split_asm) auto
  have rd: "b + n < 2 ^ 64" "n < 2 ^ 32" "b + n \<le> length (dev_config_space d)"
      "xs = window (dev_config_space d) b n"
    using 2(1,3) by (simp_all add: config_rd_eq split: if_split_asm)
  show ?case unfolding config_rd_eq [OF wf] using fits rd 2(4) by (simp add: buf_simps)
next
  case (3 d a bs)
  then show ?case by (simp add: config_wr_eq config_rd_eq)
next
  case (4 d a bs d')
  then show ?case by (rule config_wr_wf)
qed

section \<open>BAR bookkeeping as a transition system\<close>

datatype vpci_bar_op = Bar_map int u64 u64 | Bar_unmap int

fun vpci_bar_step :: "(u64 \<Rightarrow> u64 \<Rightarrow> bytes option) \<Rightarrow> vpci_device \<Rightarrow> vpci_bar_op \<Rightarrow> vpci_device" where
  "vpci_bar_step ioremap d (Bar_map n addr sz) = snd (vpci_bar_map ioremap d n addr sz)"
| "vpci_bar_step ioremap d (Bar_unmap n) = vpci_bar_unmap d n"

definition vpci_bars_inv :: "vpci_device \<Rightarrow> bool" where
  "vpci_bars_inv d \<longleftrightarrow> length (dev_bars d) = VPCI_MAX_BARS \<and> int (mapped_bars d) \<le> dev_bar_count d"

lemma length_filter_split:
  assumes "i < length xs"
  shows "length (filter P xs) = length (filter P (take i xs)) + (if P (xs ! i) then 1 else 0) +
    length (filter P (drop (Suc i) xs))"
proof -
  have "filter P xs = filter P (take i xs @ xs ! i # drop (Suc i) xs)"
    using id_take_nth_drop [OF assms] by simp
  then show ?thesis by simp
qed

lemma filter_update_length:
  assumes "i < length xs"
  shows "int (length (filter P (xs[i := x]))) =
    int (length (filter P xs)) + (if P x then 1 else 0) - (if P (xs ! i) then 1 else 0)"
  using assms length_filter_split [OF assms, of P] length_filter_split [of i "xs[i := x]" P]
  by simp

lemma bar_unmap_drift:
  assumes "length (dev_bars d) = VPCI_MAX_BARS"
  shows "dev_bar_count (vpci_bar_unmap d n) - int (mapped_bars (vpci_bar_unmap d n)) =
    dev_bar_count d - int (mapped_bars d)"
  using assms filter_update_length [of "nat n" "dev_bars d" "\<lambda>b. bar_addr b \<noteq> None"]
  by (auto simp: vpci_bar_unmap_def mapped_bars_def empty_bar_def Let_def)

lemma bar_unmap_length [simp]: "length (dev_bars (vpci_bar_unmap d n)) = length (dev_bars d)"
  by (simp add: vpci_bar_unmap_def Let_def)

lemma bar_unmap_unmapped:
  "length (dev_bars d) = VPCI_MAX_BARS \<Longrightarrow> 0 \<le> n \<Longrightarrow> n < int VPCI_MAX_BARS \<Longrightarrow>
     bar_addr (dev_bars (vpci_bar_unmap d n) ! nat n) = None"
  by (auto simp: vpci_bar_unmap_def empty_bar_def Let_def)

lemma bar_map_length [simp]:
  "length (dev_bars (snd (vpci_bar_map ioremap d n addr sz))) = length (dev_bars d)"
  by (simp add: vpci_bar_map_def Let_def)

lemma bar_map_drift:
  assumes "length (dev_bars d) = VPCI_MAX_BARS" "vpci_bar_map ioremap d n addr sz = (r, d')"
  shows "dev_bar_count d' - int (mapped_bars d') =
    dev_bar_count d - int (mapped_bars d) + (if r = 0 \<and> sz = 0 \<and> 0 \<le> n then 1 else 0)"
proof (cases "n < 0 \<or> n \<ge> int VPCI_MAX_BARS")
  case True
  then show ?thesis using assms(2) by (auto simp: vpci_bar_map_def)
next
  case False
  define d1 where "d1 = (if bar_addr (dev_bars d ! nat n) \<noteq> None then vpci_bar_unmap d n else d)"
  have n: "0 \<le> n" "nat n < VPCI_MAX_BARS" using False by linarith+
  have len: "length (dev_bars d1) = VPCI_MAX_BARS" using assms(1) by (simp add: d1_def)
  have none: "bar_addr (dev_bars d1 ! nat n) = None"
    using assms(1) False by (simp add: d1_def bar_unmap_unmapped)
  have drift: "dev_bar_count d1 - int (mapped_bars d1) = dev_bar_count d - int (mapped_bars d)"
    using bar_unmap_drift [OF assms(1)] by (simp add: d1_def)
  have upd: "int (length (filter (\<lambda>b. bar_addr b \<noteq> None) ((dev_bars d1)[nat n := b]))) =
      int (mapped_bars d1) + (if bar_addr b \<noteq> None then 1 else 0)" for b
    using filter_update_length [of "nat n" "dev_bars d1" "\<lambda>b. bar_addr b \<noteq> None" b]
      len n none unfolding mapped_bars_def by simp
  have up: "int (mapped_bars (d1\<lparr>dev_bars := (dev_bars d1)[nat n := b], dev_bar_count := c\<rparr>)) =
      int (mapped_bars d1) + (if bar_addr b \<noteq> None then 1 else 0)"
    "int (mapped_bars (d1\<lparr>dev_bars := (dev_bars d1)[nat n := b]\<rparr>)) =
      int (mapped_bars d1) + (if bar_addr b \<noteq> None then 1 else 0)" for b c
    using upd [of b] unfolding mapped_bars_def by simp_all
  have m: "vpci_bar_map ioremap d n addr sz =
     (let b = (dev_bars d1 ! nat n)\<lparr>bar_phys_addr := addr, bar_size := sz\<rparr>
           in if sz > 0
              then (let b' = b\<lparr>bar_addr := ioremap addr sz\<rparr>;
                        d2 = d1\<lparr>dev_bars := (dev_bars d1)[nat n := b']\<rparr>
                    in if bar_addr b' = None then (- ENOMEM, d2)
                       else (0, d2\<lparr>dev_bar_count := dev_bar_count d2 + 1\<rparr>))
              else (0, d1\<lparr>dev_bars := (dev_bars d1)[nat n := b],
                         dev_bar_count := dev_bar_count d1 + 1\<rparr>))"
    unfolding vpci_bar_map_def Let_def d1_def [symmetric] using False by simp
  show ?thesis
  proof (cases "sz > 0")
    case True
    then show ?thesis
      using assms(2) drift up n by (auto simp: m Let_def split: if_splits)
  next
    case False
    then have "sz = 0" by (simp add: word_gt_0)
    then show ?thesis using assms(2) [unfolded m] drift up n none by (auto simp: Let_def)
  qed
qed

text \<open>Fact: the BAR counter against the BARs that are mapped: mapping with a size keeps the
  difference, whatever \<open>ioremap\<close> answers and whether or not the BAR was mapped before; mapping
  with size zero counts a BAR that has no mapping, and unmapping it again does not uncount it.\<close>

theorem vpci_bar_count_drift:
  assumes "length (dev_bars d) = VPCI_MAX_BARS" "vpci_bar_map ioremap d n addr sz = (r, d')"
    "r = 0" "0 \<le> n"
  shows "dev_bar_count (vpci_bar_unmap d' n) - int (mapped_bars (vpci_bar_unmap d' n)) =
    dev_bar_count d - int (mapped_bars d) + (if sz = 0 then 1 else 0)"
proof -
  have "length (dev_bars d') = VPCI_MAX_BARS"
    using bar_map_length [of ioremap d n addr sz] assms(1,2) by simp
  then show ?thesis
    using bar_unmap_drift [of d' n] bar_map_drift [OF assms(1,2)] assms(3,4) by simp
qed

lemma vpci_bars_inv_step: "vpci_bars_inv d \<Longrightarrow> vpci_bars_inv (vpci_bar_step ioremap d x)"
proof (cases x)
  case (Bar_map n addr sz)
  then show "vpci_bars_inv d \<Longrightarrow> ?thesis"
    using bar_map_drift [of d ioremap n addr sz] bar_map_length [of ioremap d n addr sz]
    by (cases "vpci_bar_map ioremap d n addr sz") (auto simp: vpci_bars_inv_def split: if_splits)
next
  case (Bar_unmap n)
  then show "vpci_bars_inv d \<Longrightarrow> ?thesis"
    using bar_unmap_drift [of d n] by (auto simp: vpci_bars_inv_def)
qed

interpretation vpci_bars: step_system "vpci_bar_step ioremap" vpci_bars_inv for ioremap
  by unfold_locales (rule vpci_bars_inv_step)


section \<open>What the bounds checks guarantee\<close>

text \<open>Fact: configuration space accesses are exact when the range does not wrap around
  2^64: in range they read what is stored, out of range they return \<open>-ERANGE\<close>, and no access
  leaves the buffer.\<close>

theorem vpci_config_read_exact:
  assumes "config_wf d" "unat addr + unat len < 2 ^ 64"
  shows "vpci_config_read d addr len =
    (if unat addr + unat len \<le> unat (dev_config_size d)
     then Inr (window (dev_config_space d) (unat addr) (unat len)) else Inl (Errno (- ERANGE)))"
  using assms config_check_iff [OF assms(1), of addr len]
  by (simp add: vpci_config_read_def config_wf_def)

text \<open>Fact: the check is an addition of 64-bit values. It is passed by exactly those ranges
  that leave the buffer whose end wraps around to at most the size of the space: those accesses
  read and write outside the allocation.\<close>

theorem vpci_config_read_wraps:
  assumes "config_wf d"
  shows "vpci_config_read d addr len = Inl Out_of_bounds \<longleftrightarrow>
    2 ^ 64 \<le> unat addr + unat len \<and> unat addr + unat len - 2 ^ 64 \<le> unat (dev_config_size d)"
  using config_check_iff [OF assms, of addr len] assms unat_u64_bound [of "dev_config_size d"]
  by (auto simp: vpci_config_read_def config_wf_def)

lemma find_bar_Some:
  "find_bar addr len i bs = Some j \<Longrightarrow> i \<le> j \<and> j < i + length bs \<and> bar_matches addr len (bs ! (j - i))"
  by (induction bs arbitrary: i) (fastforce split: if_splits simp: nth_Cons')+

lemma find_bar_None: "find_bar addr len i bs = None \<longleftrightarrow> (\<forall>b \<in> set bs. \<not> bar_matches addr len b)"
  by (induction bs arbitrary: i) auto

lemma find_bar_update:
  "find_bar addr len k bs = Some (k + i) \<Longrightarrow> i < length bs \<Longrightarrow>
   bar_matches addr len b' = bar_matches addr len (bs ! i) \<Longrightarrow>
   find_bar addr len k (bs[i := b']) = Some (k + i)"
proof (induction bs arbitrary: i k)
  case Nil
  then show ?case by simp
next
  case (Cons b bs)
  show ?case
  proof (cases i)
    case 0
    then show ?thesis
      using Cons.prems find_bar_Some [of addr len "Suc k" bs k] by (auto split: if_splits)
  next
    case (Suc j)
    then show ?thesis using Cons.prems Cons.IH [of "Suc k" j] by (auto split: if_splits)
  qed
qed

text \<open>The ends of the access and of the BAR do not wrap around.\<close>

definition bar_nowrap :: "u64 \<Rightarrow> u32 \<Rightarrow> vpci_bar_info \<Rightarrow> bool" where
  "bar_nowrap addr len b \<longleftrightarrow> unat addr + unat len < 2 ^ 64 \<and>
     unat (bar_phys_addr b) + unat (bar_size b) < 2 ^ 64"

lemma unat_add_u64_nowrap:
  "unat a + unat b < 2 ^ 64 \<Longrightarrow> unat ((a :: u64) + b) = unat a + unat b"
  by (simp add: unat_word_ariths)

lemma bar_matches_window:
  assumes "bar_wf b" "bar_nowrap addr len b" "bar_matches addr len b"
  shows "\<exists>m. bar_addr b = Some m \<and> unat (addr - bar_phys_addr b) + unat len \<le> length m \<and>
    unat (addr - bar_phys_addr b) = unat addr - unat (bar_phys_addr b)"
proof -
  have le: "bar_phys_addr b \<le> addr" using assms(3) by (simp add: bar_matches_def)
  have "unat addr + unat len \<le> unat (bar_phys_addr b) + unat (bar_size b)"
    using assms(2,3) unat_add_u64_nowrap [of "bar_phys_addr b" "bar_size b"]
      unat_add_u64 [of addr len]
    by (simp add: bar_matches_def bar_nowrap_def word_le_nat_alt)
  moreover have "unat (addr - bar_phys_addr b) = unat addr - unat (bar_phys_addr b)"
    using le by (simp add: unat_sub)
  moreover have "unat (bar_phys_addr b) \<le> unat addr" using le by (simp add: word_le_nat_alt)
  ultimately show ?thesis
    using assms(1,3) by (auto simp: bar_matches_def bar_wf_def)
qed

lemma find_bar_window:
  assumes "bars_wf d" "list_all (bar_nowrap addr len) (dev_bars d)"
    and f: "find_bar addr len 0 (take VPCI_MAX_BARS (dev_bars d)) = Some i"
  shows "\<exists>m. i < length (dev_bars d) \<and> bar_addr (dev_bars d ! i) = Some m \<and>
    unat (addr - bar_phys_addr (dev_bars d ! i)) + unat len \<le> length m"
proof -
  have i: "i < length (dev_bars d)" "bar_matches addr len (dev_bars d ! i)"
    using find_bar_Some [OF f] assms(1) by (simp_all add: bars_wf_def)
  moreover have "bar_wf (dev_bars d ! i)" "bar_nowrap addr len (dev_bars d ! i)"
    using assms(1,2) i by (simp_all add: bars_wf_def list_all_length)
  ultimately show ?thesis using bar_matches_window by blast
qed

text \<open>Fact: BAR accesses are safe when nothing wraps around 2^64: an access either finds no
  BAR (\<open>-ENXIO\<close>) or copies bytes inside the BAR it found, and what a write puts there is what the
  same read returns; no such access leaves a mapping.\<close>

theorem vpci_mem_write_read:
  assumes "bars_wf d" "list_all (bar_nowrap addr len) (dev_bars d)" "unat len = length bs"
  shows "(vpci_mem_write d addr bs len = Inl (Errno (- ENXIO)) \<and>
      (\<forall>b \<in> set (dev_bars d). \<not> bar_matches addr len b)) \<or>
    (\<exists>d'. vpci_mem_write d addr bs len = Inr d' \<and> bars_wf d' \<and> vpci_mem_read d' addr len = Inr bs)"
proof (cases "find_bar addr len 0 (take VPCI_MAX_BARS (dev_bars d))")
  case None
  then show ?thesis
    using assms(1) find_bar_None [of addr len 0 "dev_bars d"]
    by (simp add: vpci_mem_write_def bars_wf_def)
next
  case (Some i)
  obtain m where m: "i < length (dev_bars d)" "bar_addr (dev_bars d ! i) = Some m"
      "unat (addr - bar_phys_addr (dev_bars d ! i)) + unat len \<le> length m"
    using find_bar_window [OF assms(1,2) Some] by blast
  let ?b = "dev_bars d ! i"
  let ?b' = "?b\<lparr>bar_addr := Some (blit m (unat (addr - bar_phys_addr ?b)) bs)\<rparr>"
  let ?d' = "d\<lparr>dev_bars := (dev_bars d)[i := ?b']\<rparr>"
  have w: "vpci_mem_write d addr bs len = Inr ?d'"
    using Some m assms(3) by (simp add: vpci_mem_write_def Let_def)
  have same: "find_bar addr len 0 ((dev_bars d)[i := ?b']) = Some i"
    using find_bar_update [of addr len 0 "dev_bars d" i ?b'] Some m assms(1)
    by (simp add: bars_wf_def bar_matches_def)
  have "bar_wf ?b" using assms(1) m(1) by (simp add: bars_wf_def list_all_length)
  then have "length m = unat (bar_size ?b)" using m(2) by (simp add: bar_wf_def)
  then have "bar_wf ?b'" using m(3) assms(3) by (simp add: bar_wf_def length_blit)
  then have wf: "bars_wf ?d'"
    using assms(1) m by (simp add: bars_wf_def list_all_length nth_list_update)
  have "vpci_mem_read ?d' addr len = Inr bs"
    using same m assms(1,3)
    by (simp add: vpci_mem_read_def bars_wf_def Let_def length_blit window_blit_same)
  then show ?thesis using w wf by (intro disjI2 exI [of _ ?d']) simp
qed

section \<open>Concrete devices\<close>

definition no_bar :: vpci_bar_info where
  "no_bar = \<lparr>bar_phys_addr = 0, bar_size = 0, bar_addr = None, bar_flags = 0\<rparr>"

definition demo_device :: vpci_device where
  "demo_device = \<lparr>dev_id = 0, dev_role = VPCI_ROLE_RC, dev_sock = False, dev_keepalive_armed = False,
     dev_reconnect_pending = False, dev_connected = False, dev_session_id = 0, dev_seq_num = 0,
     dev_handshake_done = 0, dev_handshake_status = 0, dev_refcount = 1, dev_tx_list = [],
     dev_rx_thread = False, dev_tx_thread = False,
     dev_bars = no_bar\<lparr>bar_phys_addr := 0x1000, bar_size := 4, bar_addr := Some [1, 2, 3, 4]\<rparr>
       # replicate 5 no_bar,
     dev_bar_count = 1, dev_config_space = [5, 6, 7, 8], dev_config_size = 4, dev_shmem_size = 4,
     dev_irq_handler = False, dev_irq_log = [], dev_ack_wakeups = 0,
     dev_stats = \<lparr>rx_packets = 0, tx_packets = 0, rx_bytes = 0, tx_bytes = 0, errors = 0,
       dropped = 0\<rparr>\<rparr>"

lemma demo_wf: "config_wf demo_device" "bars_wf demo_device"
  "length (dev_bars demo_device) = VPCI_MAX_BARS"
  by (simp_all add: demo_device_def config_wf_def bars_wf_def bar_wf_def no_bar_def
      VPCI_MAX_BARS_def list_all_iff)

lemma demo_nowrap: "list_all (bar_nowrap 0x1001 2) (dev_bars demo_device)"
  by (simp add: demo_device_def bar_nowrap_def no_bar_def list_all_iff)

theorem vpci_bar_count_drift_witness:
  "\<exists>d'. vpci_bar_map (\<lambda>a sz. None) demo_device 2 0x2000 0 = (0, d') \<and>
     dev_bar_count (vpci_bar_unmap d' 2) = int (mapped_bars (vpci_bar_unmap d' 2)) + 1"
proof -
  obtain r d' where m: "vpci_bar_map (\<lambda>a sz. None) demo_device 2 0x2000 0 = (r, d')"
    by (cases "vpci_bar_map (\<lambda>a sz. None) demo_device 2 0x2000 0")
  have "r = 0"
    using m by (auto simp: vpci_bar_map_def VPCI_MAX_BARS_def demo_device_def Let_def split: if_splits)
  moreover have "dev_bar_count demo_device - int (mapped_bars demo_device) = 0"
    by (simp add: demo_device_def mapped_bars_def no_bar_def)
  ultimately show ?thesis using m vpci_bar_count_drift [OF demo_wf(3) m] by simp
qed

theorem vpci_config_read_exact_witness:
  "vpci_config_read demo_device 1 2 = Inr [6, 7]"
proof -
  have "window (dev_config_space demo_device) 1 2 = [6, 7]" by code_simp
  moreover have "dev_config_size demo_device = 4" by (simp add: demo_device_def)
  ultimately show ?thesis using vpci_config_read_exact [OF demo_wf(1), of 1 2] by simp
qed

theorem vpci_config_read_wraps_witness:
  "vpci_config_read demo_device 0xFFFFFFFFFFFFFFFF 4 = Inl Out_of_bounds"
proof -
  have "dev_config_size demo_device = 4" by (simp add: demo_device_def)
  then show ?thesis using vpci_config_read_wraps [OF demo_wf(1)] by simp
qed

theorem vpci_mem_write_read_witness:
  "\<exists>d'. vpci_mem_write demo_device 0x1001 [9, 9] 2 = Inr d' \<and> vpci_mem_read d' 0x1001 2 = Inr [9, 9]"
proof -
  have "bar_matches 0x1001 2 (hd (dev_bars demo_device))"
    by (simp add: demo_device_def bar_matches_def no_bar_def)
  moreover have "hd (dev_bars demo_device) \<in> set (dev_bars demo_device)"
    by (simp add: demo_device_def)
  ultimately show ?thesis
    using vpci_mem_write_read [OF demo_wf(2) demo_nowrap, of "[9, 9]"] by auto
qed

end
