(* ===== verification/Vpci_Packet.thy ===== *)
theory Vpci_Packet
  imports Vpci_Store
begin

text \<open>
  Virtual PCIe over Ethernet, packet handling (\<open>modules/virtual_pcie/virtual_pcie_pkt.c\<close>): the
  transmit queue, acknowledgements, and the handler of every message type. The allocator is a
  parameter \<open>al\<close>: \<open>al k\<close> says whether the \<open>k\<close>-th allocation of the handler succeeds. A handler
  returns the device it leaves, or the fault its memory accesses run into.
\<close>

section \<open>Counters\<close>

definition count_error :: "vpci_device \<Rightarrow> vpci_device" where
  "count_error d = d\<lparr>dev_stats := (dev_stats d)\<lparr>errors := errors (dev_stats d) + 1\<rparr>\<rparr>"

definition count_dropped :: "vpci_device \<Rightarrow> vpci_device" where
  "count_dropped d = d\<lparr>dev_stats := (dev_stats d)\<lparr>dropped := dropped (dev_stats d) + 1\<rparr>\<rparr>"

definition count_rx :: "u32 \<Rightarrow> vpci_device \<Rightarrow> vpci_device" where
  "count_rx len d = d\<lparr>dev_stats := (dev_stats d)\<lparr>rx_packets := rx_packets (dev_stats d) + 1,
     rx_bytes := rx_bytes (dev_stats d) + ucast len\<rparr>\<rparr>"

section \<open>Sending\<close>

text \<open>A packet refused because the device is not connected is neither queued nor freed.\<close>

definition vpci_packet_send :: "vpci_device \<Rightarrow> vpci_packet \<Rightarrow> int \<times> vpci_device" where
  "vpci_packet_send d pkt =
     (if \<not> dev_connected d then (- ENOTCONN, count_dropped d)
      else (0, d\<lparr>dev_tx_list := dev_tx_list d @ [pkt]\<rparr>))"

definition cpu_to_be16 :: "u16 \<Rightarrow> u16" where
  "cpu_to_be16 w = word_of_nat (bswap 2 (unat w))"

definition vpci_reply_hdr :: "vpci_device \<Rightarrow> vpci_msg_type \<Rightarrow> u32 \<Rightarrow> u32 \<Rightarrow> vpci_pkt_header" where
  "vpci_reply_hdr d ty seq len = \<lparr>hdr_magic = bswap32 VPCI_MAGIC,
     hdr_version = cpu_to_be16 (word_of_nat VPCI_VERSION), hdr_type = vpci_msg_code ty, hdr_flags = 0,
     hdr_session_id = bswap32 (dev_session_id d), hdr_seq_num = bswap32 seq,
     hdr_length = bswap32 len, hdr_address = 0\<rparr>"

text \<open>The bytes of a C \<open>int\<close> in memory.\<close>

definition int_image :: "int \<Rightarrow> bytes" where
  "int_image i = le32 (nat (i mod 2 ^ 32))"

definition vpci_send_status ::
  "vpci_msg_type \<Rightarrow> bool \<Rightarrow> bool \<Rightarrow> vpci_device \<Rightarrow> u32 \<Rightarrow> int \<Rightarrow> vpci_device" where
  "vpci_send_status ty ok_pkt ok_data d seq status =
     (if \<not> ok_pkt then d else if \<not> ok_data then d
      else snd (vpci_packet_send d \<lparr>pkt_hdr = vpci_reply_hdr d ty seq 4,
                  pkt_data = Some (int_image status), pkt_storage = Heap\<rparr>))"

definition vpci_send_ack :: "(nat \<Rightarrow> bool) \<Rightarrow> vpci_device \<Rightarrow> u32 \<Rightarrow> int \<Rightarrow> vpci_device" where
  "vpci_send_ack al = vpci_send_status VPCI_MSG_ACK (al 2) (al 3)"

definition vpci_send_nack :: "(nat \<Rightarrow> bool) \<Rightarrow> vpci_device \<Rightarrow> u32 \<Rightarrow> int \<Rightarrow> vpci_device" where
  "vpci_send_nack al = vpci_send_status VPCI_MSG_NACK (al 2) (al 3)"

section \<open>Handlers\<close>

definition vpci_reply_data :: "(nat \<Rightarrow> bool) \<Rightarrow> vpci_device \<Rightarrow> u32 \<Rightarrow> u32 \<Rightarrow> bytes \<Rightarrow> vpci_device" where
  "vpci_reply_data al d seq len bs =
     (if \<not> al 1 then vpci_send_nack al d seq (- ENOMEM)
      else snd (vpci_packet_send d \<lparr>pkt_hdr = vpci_reply_hdr d VPCI_MSG_ACK seq len,
                  pkt_data = Some bs, pkt_storage = Heap\<rparr>))"

definition vpci_handle_config_read ::
  "(nat \<Rightarrow> bool) \<Rightarrow> vpci_device \<Rightarrow> vpci_packet \<Rightarrow> vpci_fault + vpci_device" where
  "vpci_handle_config_read al d pkt =
     (let addr = bswap64 (hdr_address (pkt_hdr pkt)); len = bswap32 (hdr_length (pkt_hdr pkt));
          seq = bswap32 (hdr_seq_num (pkt_hdr pkt))
      in if config_check d addr len then Inr (vpci_send_nack al d seq (- ERANGE))
         else if \<not> al 0 then Inr (vpci_send_nack al d seq (- ENOMEM))
         else if unat addr + unat len > length (dev_config_space d) then Inl Out_of_bounds
         else Inr (vpci_reply_data al d seq len
                (window (dev_config_space d) (unat addr) (unat len))))"

text \<open>The received payload; a packet without one has the NULL pointer, of which no byte can be
  copied.\<close>

definition payload :: "vpci_packet \<Rightarrow> bytes" where
  "payload pkt = (case pkt_data pkt of None \<Rightarrow> [] | Some bs \<Rightarrow> bs)"

definition vpci_handle_config_write ::
  "(nat \<Rightarrow> bool) \<Rightarrow> vpci_device \<Rightarrow> vpci_packet \<Rightarrow> vpci_fault + vpci_device" where
  "vpci_handle_config_write al d pkt =
     (let addr = bswap64 (hdr_address (pkt_hdr pkt)); len = bswap32 (hdr_length (pkt_hdr pkt));
          seq = bswap32 (hdr_seq_num (pkt_hdr pkt))
      in if config_check d addr len then Inr (vpci_send_nack al d seq (- ERANGE))
         else if unat addr + unat len > length (dev_config_space d) \<or> unat len > length (payload pkt)
         then Inl Out_of_bounds
         else Inr (vpci_send_ack al
                (d\<lparr>dev_config_space :=
                     blit (dev_config_space d) (unat addr) (take (unat len) (payload pkt))\<rparr>) seq 0))"

definition vpci_handle_mem_read ::
  "(nat \<Rightarrow> bool) \<Rightarrow> vpci_device \<Rightarrow> vpci_packet \<Rightarrow> vpci_fault + vpci_device" where
  "vpci_handle_mem_read al d pkt =
     (let addr = bswap64 (hdr_address (pkt_hdr pkt)); len = bswap32 (hdr_length (pkt_hdr pkt));
          seq = bswap32 (hdr_seq_num (pkt_hdr pkt))
      in if \<not> al 0 then Inr (vpci_send_nack al d seq (- ENOMEM))
         else case vpci_mem_read d addr len of
                Inl (Errno e) \<Rightarrow> Inr (vpci_send_nack al d seq e)
              | Inl f \<Rightarrow> Inl f
              | Inr bs \<Rightarrow> Inr (vpci_reply_data al d seq len bs))"

definition vpci_handle_mem_write ::
  "(nat \<Rightarrow> bool) \<Rightarrow> vpci_device \<Rightarrow> vpci_packet \<Rightarrow> vpci_fault + vpci_device" where
  "vpci_handle_mem_write al d pkt =
     (let addr = bswap64 (hdr_address (pkt_hdr pkt)); len = bswap32 (hdr_length (pkt_hdr pkt));
          seq = bswap32 (hdr_seq_num (pkt_hdr pkt))
      in case vpci_mem_write d addr (payload pkt) len of
           Inl (Errno e) \<Rightarrow> Inr (vpci_send_nack al d seq e)
         | Inl f \<Rightarrow> Inl f
         | Inr d' \<Rightarrow> Inr (vpci_send_ack al d' seq 0))"

text \<open>\<open>be32_to_cpu\<close> takes a 32-bit argument: the 64-bit address field is truncated first. The
  numbers the registered handler is called with are logged.\<close>

definition vpci_handle_irq ::
  "(nat \<Rightarrow> bool) \<Rightarrow> vpci_device \<Rightarrow> vpci_packet \<Rightarrow> vpci_fault + vpci_device" where
  "vpci_handle_irq al d pkt =
     (let irq_num = bswap32 (ucast (hdr_address (pkt_hdr pkt)));
          seq = bswap32 (hdr_seq_num (pkt_hdr pkt));
          d' = (if dev_irq_handler d then d\<lparr>dev_irq_log := dev_irq_log d @ [irq_num]\<rparr> else d)
      in Inr (vpci_send_ack al d' seq 0))"

definition vpci_handle_ack :: "vpci_device \<Rightarrow> vpci_packet \<Rightarrow> vpci_fault + vpci_device" where
  "vpci_handle_ack d pkt = Inr (d\<lparr>dev_ack_wakeups := dev_ack_wakeups d + 1\<rparr>)"

text \<open>The error code is copied from the payload whatever its length.\<close>

definition vpci_handle_nack :: "vpci_device \<Rightarrow> vpci_packet \<Rightarrow> vpci_fault + vpci_device" where
  "vpci_handle_nack d pkt =
     (if length (payload pkt) < 4 then Inl Out_of_bounds else Inr (count_error d))"

definition vpci_handle_handshake ::
  "(nat \<Rightarrow> bool) \<Rightarrow> vpci_device \<Rightarrow> vpci_packet \<Rightarrow> vpci_fault + vpci_device" where
  "vpci_handle_handshake al d pkt =
     (let seq = bswap32 (hdr_seq_num (pkt_hdr pkt));
          session = bswap32 (hdr_session_id (pkt_hdr pkt))
      in Inr (vpci_send_ack al
           (d\<lparr>dev_session_id := session, dev_handshake_status := 0,
              dev_handshake_done := dev_handshake_done d + 1\<rparr>) seq 0))"

definition vpci_packet_process ::
  "(nat \<Rightarrow> bool) \<Rightarrow> vpci_device \<Rightarrow> vpci_packet \<Rightarrow> vpci_fault + vpci_device" where
  "vpci_packet_process al d0 pkt =
     (let type = hdr_type (pkt_hdr pkt); seq_num = bswap32 (hdr_seq_num (pkt_hdr pkt));
          len = bswap32 (hdr_length (pkt_hdr pkt)); d = count_rx len d0
      in if bswap32 (hdr_magic (pkt_hdr pkt)) \<noteq> VPCI_MAGIC
         then Inr (vpci_send_nack al (count_error d) seq_num (- EBADMSG))
         else if type = vpci_msg_code VPCI_MSG_CONFIG_READ then vpci_handle_config_read al d pkt
         else if type = vpci_msg_code VPCI_MSG_CONFIG_WRITE then vpci_handle_config_write al d pkt
         else if type = vpci_msg_code VPCI_MSG_MEM_READ then vpci_handle_mem_read al d pkt
         else if type = vpci_msg_code VPCI_MSG_MEM_WRITE then vpci_handle_mem_write al d pkt
         else if type = vpci_msg_code VPCI_MSG_IRQ then vpci_handle_irq al d pkt
         else if type = vpci_msg_code VPCI_MSG_ACK then vpci_handle_ack d pkt
         else if type = vpci_msg_code VPCI_MSG_NACK then vpci_handle_nack d pkt
         else if type = vpci_msg_code VPCI_MSG_HANDSHAKE then vpci_handle_handshake al d pkt
         else if type = vpci_msg_code VPCI_MSG_KEEPALIVE then Inr d
         else Inr (vpci_send_nack al (count_error d) seq_num (- EINVAL)))"

section \<open>Replies\<close>

text \<open>The packet is a reply to the request: a status or a data reply with its sequence number.\<close>

definition is_reply :: "u32 \<Rightarrow> vpci_packet \<Rightarrow> bool" where
  "is_reply raw_seq p \<longleftrightarrow> hdr_seq_num (pkt_hdr p) = raw_seq \<and> pkt_storage p = Heap \<and>
     bswap32 (hdr_magic (pkt_hdr p)) = VPCI_MAGIC \<and>
     (hdr_type (pkt_hdr p) = vpci_msg_code VPCI_MSG_ACK \<or>
      hdr_type (pkt_hdr p) = vpci_msg_code VPCI_MSG_NACK) \<and>
     bswap32 (hdr_length (pkt_hdr p)) = word_of_nat (length (payload p))"

named_theorems vpci_handlers \<open>the handlers, for unfolding\<close>
named_theorems vpci_sends \<open>the sending functions, for unfolding\<close>

lemmas [vpci_handlers] = vpci_handle_config_read_def vpci_handle_config_write_def
  vpci_handle_mem_read_def vpci_handle_mem_write_def vpci_handle_irq_def vpci_handle_ack_def
  vpci_handle_nack_def vpci_handle_handshake_def

lemmas [vpci_sends] = vpci_send_ack_def vpci_send_nack_def vpci_send_status_def
  vpci_reply_data_def vpci_packet_send_def

lemma count_simps [simp]:
  "dev_connected (count_error d) = dev_connected d" "dev_tx_list (count_error d) = dev_tx_list d"
  "dev_connected (count_rx n d) = dev_connected d" "dev_tx_list (count_rx n d) = dev_tx_list d"
  "dev_tx_list (count_dropped d) = dev_tx_list d" "dev_bars (count_rx n d) = dev_bars d"
  "dev_config_space (count_rx n d) = dev_config_space d"
  "dev_config_size (count_rx n d) = dev_config_size d"
  "dev_irq_handler (count_rx n d) = dev_irq_handler d" "dev_irq_log (count_rx n d) = dev_irq_log d"
  "dev_session_id (count_error d) = dev_session_id d" "dev_session_id (count_rx n d) = dev_session_id d"
  "dev_config_space (count_error d) = dev_config_space d" "dev_bars (count_error d) = dev_bars d"
  "dev_config_size (count_error d) = dev_config_size d"
  "dev_config_space (count_dropped d) = dev_config_space d" "dev_bars (count_dropped d) = dev_bars d"
  "dev_config_size (count_dropped d) = dev_config_size d"
  "dev_irq_log (count_dropped d) = dev_irq_log d"
  by (simp_all add: count_error_def count_rx_def count_dropped_def)

lemma config_check_count [simp]: "config_check (count_rx n d) = config_check d"
  by (intro ext) (simp add: config_check_def)

lemma is_reply_status:
  "is_reply raw \<lparr>pkt_hdr = vpci_reply_hdr d ty (bswap32 raw) 4, pkt_data = Some (int_image e),
     pkt_storage = Heap\<rparr> \<longleftrightarrow> ty = VPCI_MSG_ACK \<or> ty = VPCI_MSG_NACK"
  by (cases ty) (simp_all add: is_reply_def vpci_reply_hdr_def payload_def int_image_def)

lemma is_reply_data:
  "is_reply raw \<lparr>pkt_hdr = vpci_reply_hdr d VPCI_MSG_ACK (bswap32 raw) len, pkt_data = Some bs,
     pkt_storage = Heap\<rparr> \<longleftrightarrow> len = word_of_nat (length bs)"
  by (simp add: is_reply_def vpci_reply_hdr_def payload_def)


section \<open>What a request is answered with\<close>

lemma send_status_connected:
  "dev_connected d \<Longrightarrow> vpci_send_status ty True True d seq e =
     d\<lparr>dev_tx_list := dev_tx_list d @ [\<lparr>pkt_hdr = vpci_reply_hdr d ty seq 4,
        pkt_data = Some (int_image e), pkt_storage = Heap\<rparr>]\<rparr>"
  by (simp add: vpci_sends)

lemma reply_data_connected:
  "dev_connected d \<Longrightarrow> (\<And>k. al k) \<Longrightarrow> vpci_reply_data al d seq len bs =
     d\<lparr>dev_tx_list := dev_tx_list d @ [\<lparr>pkt_hdr = vpci_reply_hdr d VPCI_MSG_ACK seq len,
        pkt_data = Some bs, pkt_storage = Heap\<rparr>]\<rparr>"
  by (simp add: vpci_sends)

lemma mem_read_length: "vpci_mem_read d addr len = Inr bs \<Longrightarrow> length bs = unat len"
  by (auto simp: vpci_mem_read_def Let_def length_window split: option.splits if_splits)

lemma mem_write_frame:
  "vpci_mem_write d addr bs len = Inr d' \<Longrightarrow> dev_connected d' = dev_connected d \<and>
     dev_tx_list d' = dev_tx_list d \<and> dev_session_id d' = dev_session_id d \<and>
     dev_irq_log d' = dev_irq_log d \<and> dev_config_space d' = dev_config_space d \<and>
     dev_config_size d' = dev_config_size d"
  by (auto simp: vpci_mem_write_def Let_def split: option.splits if_splits)

text \<open>
  What is appended to the transmit queue in answer to a request: at most one packet, a reply; none
  on a device that is not connected (\<open>vpci_packet_send\<close> counts it as dropped); one on a connected
  device if the two allocations of a status packet succeed. A failed allocation of the data of a
  reply is itself answered, with \<open>-ENOMEM\<close>.
\<close>

definition answers :: "(nat \<Rightarrow> bool) \<Rightarrow> vpci_packet \<Rightarrow> vpci_device \<Rightarrow> vpci_fault + vpci_device \<Rightarrow> bool" where
  "answers al pkt d r \<longleftrightarrow> (case r of Inl _ \<Rightarrow> True | Inr d' \<Rightarrow>
     \<exists>ps. dev_tx_list d' = dev_tx_list d @ ps \<and> length ps \<le> 1 \<and>
       list_all (is_reply (hdr_seq_num (pkt_hdr pkt))) ps \<and>
       (\<not> dev_connected d \<longrightarrow> ps = []) \<and> (dev_connected d \<and> al 2 \<and> al 3 \<longrightarrow> ps \<noteq> []))"

lemma send_status_answers:
  assumes "dev_connected d' = dev_connected d" "dev_tx_list d' = dev_tx_list d"
    and "ty = VPCI_MSG_ACK \<or> ty = VPCI_MSG_NACK"
  shows "answers al pkt d (Inr (vpci_send_status ty (al 2) (al 3) d' (bswap32 (hdr_seq_num (pkt_hdr pkt))) e))"
proof (cases "al 2 \<and> al 3 \<and> dev_connected d")
  case True
  then show ?thesis using assms
    by (simp add: answers_def send_status_connected is_reply_status)
next
  case False
  then show ?thesis using assms by (simp add: answers_def vpci_sends)
qed

lemma answers_status:
  "dev_connected d' = dev_connected d \<Longrightarrow> dev_tx_list d' = dev_tx_list d \<Longrightarrow>
     answers al pkt d (Inr (vpci_send_ack al d' (bswap32 (hdr_seq_num (pkt_hdr pkt))) e))"
  "dev_connected d' = dev_connected d \<Longrightarrow> dev_tx_list d' = dev_tx_list d \<Longrightarrow>
     answers al pkt d (Inr (vpci_send_nack al d' (bswap32 (hdr_seq_num (pkt_hdr pkt))) e))"
  by (simp_all add: vpci_send_ack_def vpci_send_nack_def send_status_answers)

lemma answers_data:
  assumes "dev_connected d' = dev_connected d" "dev_tx_list d' = dev_tx_list d"
    and "length bs = unat len"
  shows "answers al pkt d (Inr (vpci_reply_data al d' (bswap32 (hdr_seq_num (pkt_hdr pkt))) len bs))"
proof (cases "al 1")
  case True
  then show ?thesis using assms
    by (auto simp: answers_def vpci_reply_data_def vpci_packet_send_def is_reply_data)
next
  case False
  then show ?thesis using assms answers_status(2) by (simp add: vpci_reply_data_def)
qed

lemma answers_fault [simp]: "answers al pkt d (Inl f)"
  by (simp add: answers_def)

lemma handlers_answer:
  assumes "dev_connected d = dev_connected d0" "dev_tx_list d = dev_tx_list d0"
  shows "answers al pkt d0 (vpci_handle_config_read al d pkt)"
    "answers al pkt d0 (vpci_handle_config_write al d pkt)"
    "answers al pkt d0 (vpci_handle_mem_read al d pkt)"
    "answers al pkt d0 (vpci_handle_mem_write al d pkt)"
    "answers al pkt d0 (vpci_handle_irq al d pkt)"
    "answers al pkt d0 (vpci_handle_handshake al d pkt)"
proof -
  note a = answers_status answers_data
  show "answers al pkt d0 (vpci_handle_config_read al d pkt)"
    using assms by (simp add: vpci_handle_config_read_def Let_def a length_window)
  show "answers al pkt d0 (vpci_handle_config_write al d pkt)"
    using assms by (simp add: vpci_handle_config_write_def Let_def a)
  show "answers al pkt d0 (vpci_handle_mem_read al d pkt)"
    using assms by (auto simp: vpci_handle_mem_read_def Let_def a mem_read_length
        split: sum.splits vpci_fault.splits)
  show "answers al pkt d0 (vpci_handle_mem_write al d pkt)"
    using assms by (auto simp: vpci_handle_mem_write_def Let_def a
        split: sum.splits vpci_fault.splits dest!: mem_write_frame)
  show "answers al pkt d0 (vpci_handle_irq al d pkt)"
    using assms by (simp add: vpci_handle_irq_def Let_def a)
  show "answers al pkt d0 (vpci_handle_handshake al d pkt)"
    using assms by (simp add: vpci_handle_handshake_def Let_def a)
qed

text \<open>Property C9: how a received packet is answered, whatever it is, whichever allocations succeed and
  whether or not the device is connected, unless its handler runs into a memory fault. At most one
  packet is appended to the transmit queue, an ACK or a NACK with the request's sequence number
  field. It is exactly one when the device is connected and the two allocations of a status packet
  succeed. None is sent - the request is dropped silently - when the device is not connected;
  acknowledgements and keepalives are not answered.\<close>

theorem vpci_packet_answered:
  assumes "vpci_packet_process al d pkt = Inr d'"
  shows "\<exists>ps. dev_tx_list d' = dev_tx_list d @ ps \<and> length ps \<le> 1 \<and>
    list_all (is_reply (hdr_seq_num (pkt_hdr pkt))) ps \<and>
    (\<not> dev_connected d \<longrightarrow> ps = []) \<and>
    (if bswap32 (hdr_magic (pkt_hdr pkt)) = VPCI_MAGIC \<and>
        hdr_type (pkt_hdr pkt) \<in> {vpci_msg_code VPCI_MSG_ACK, vpci_msg_code VPCI_MSG_NACK,
          vpci_msg_code VPCI_MSG_KEEPALIVE}
     then ps = [] else dev_connected d \<and> al 2 \<and> al 3 \<longrightarrow> ps \<noteq> [])"
proof (cases "bswap32 (hdr_magic (pkt_hdr pkt)) = VPCI_MAGIC \<and>
    hdr_type (pkt_hdr pkt) \<in> {vpci_msg_code VPCI_MSG_ACK, vpci_msg_code VPCI_MSG_NACK,
      vpci_msg_code VPCI_MSG_KEEPALIVE}")
  case True
  then have "dev_tx_list d' = dev_tx_list d"
    using assms by (auto simp: vpci_packet_process_def vpci_handle_ack_def vpci_handle_nack_def Let_def
        split: if_splits)
  then show ?thesis using True by simp
next
  case False
  let ?d = "count_rx (bswap32 (hdr_length (pkt_hdr pkt))) d"
  note h = handlers_answer [of ?d d al pkt]
  have "bswap32 (hdr_magic (pkt_hdr pkt)) = VPCI_MAGIC \<longrightarrow>
      hdr_type (pkt_hdr pkt) \<notin> {vpci_msg_code VPCI_MSG_ACK, vpci_msg_code VPCI_MSG_NACK,
        vpci_msg_code VPCI_MSG_KEEPALIVE}" using False by blast
  then have "answers al pkt d (vpci_packet_process al d pkt)"
    by (simp add: vpci_packet_process_def Let_def h answers_status(2))
  then show ?thesis using assms by (simp only: answers_def sum.case if_not_P [OF False])
qed

section \<open>Writing the configuration space over the wire\<close>

text \<open>A request as the peer builds it.\<close>

definition vpci_request :: "vpci_msg_type \<Rightarrow> u32 \<Rightarrow> u64 \<Rightarrow> u32 \<Rightarrow> bytes \<Rightarrow> vpci_packet" where
  "vpci_request ty seq addr len bs = \<lparr>pkt_hdr = \<lparr>hdr_magic = bswap32 VPCI_MAGIC,
     hdr_version = cpu_to_be16 (word_of_nat VPCI_VERSION), hdr_type = vpci_msg_code ty, hdr_flags = 0,
     hdr_session_id = 0, hdr_seq_num = bswap32 seq, hdr_length = bswap32 len,
     hdr_address = bswap64 addr\<rparr>, pkt_data = Some bs, pkt_storage = Heap\<rparr>"

lemma vpci_request_simps [simp]:
  "bswap32 (hdr_magic (pkt_hdr (vpci_request ty seq addr len bs))) = VPCI_MAGIC"
  "hdr_type (pkt_hdr (vpci_request ty seq addr len bs)) = vpci_msg_code ty"
  "hdr_seq_num (pkt_hdr (vpci_request ty seq addr len bs)) = bswap32 seq"
  "hdr_length (pkt_hdr (vpci_request ty seq addr len bs)) = bswap32 len"
  "hdr_address (pkt_hdr (vpci_request ty seq addr len bs)) = bswap64 addr"
  "payload (vpci_request ty seq addr len bs) = bs"
  by (simp_all add: vpci_request_def payload_def)

lemma not_config_check:
  "config_wf d \<Longrightarrow> unat addr + unat len \<le> length (dev_config_space d) \<Longrightarrow> \<not> config_check d addr len"
  using unat_u64_bound [of "dev_config_size d"] by (simp add: config_check_iff config_wf_def)

lemma config_wf_count [simp]: "config_wf (count_rx n d) = config_wf d"
  "config_wf (count_error d) = config_wf d" "config_wf (count_dropped d) = config_wf d"
  by (simp_all add: config_wf_def)

text \<open>Property C8: a configuration write followed by a configuration read of the same range, both as
  packets on a connected device, answers the read with an acknowledgement that carries exactly
  the bytes written, whatever else is queued for transmission.\<close>

theorem vpci_config_over_the_wire:
  assumes "\<And>k. al k" "dev_connected d" "config_wf d"
    and "unat len = length bs" "unat addr + length bs \<le> length (dev_config_space d)"
  shows "\<exists>d1 d2 p. vpci_packet_process al d (vpci_request VPCI_MSG_CONFIG_WRITE s1 addr len bs) = Inr d1 \<and>
    vpci_packet_process al d1 (vpci_request VPCI_MSG_CONFIG_READ s2 addr len junk) = Inr d2 \<and>
    dev_tx_list d2 = dev_tx_list d1 @ [p] \<and> pkt_data p = Some bs \<and>
    hdr_type (pkt_hdr p) = vpci_msg_code VPCI_MSG_ACK \<and> bswap32 (hdr_seq_num (pkt_hdr p)) = s2"
proof -
  let ?d = "count_rx len d"
  let ?cs = "blit (dev_config_space d) (unat addr) bs"
  define d1 where "d1 = vpci_send_ack al (?d\<lparr>dev_config_space := ?cs\<rparr>) s1 0"
  have len: "length ?cs = length (dev_config_space d)" using assms(5) by (rule length_blit)
  have w: "vpci_packet_process al d (vpci_request VPCI_MSG_CONFIG_WRITE s1 addr len bs) = Inr d1"
    using assms not_config_check [of d addr len]
    by (simp add: vpci_packet_process_def vpci_handle_config_write_def Let_def d1_def)
  have d1: "dev_connected d1" "dev_config_space d1 = ?cs" "dev_config_size d1 = dev_config_size d"
    using assms(1,2) by (simp_all add: d1_def vpci_send_ack_def send_status_connected)
  have wf: "config_wf d1" using assms(3) len by (simp add: config_wf_def d1)
  have r: "vpci_packet_process al d1 (vpci_request VPCI_MSG_CONFIG_READ s2 addr len junk) =
      Inr (vpci_reply_data al (count_rx len d1) s2 len (window ?cs (unat addr) (unat len)))"
    using assms(1,4,5) wf len not_config_check [OF wf, of addr len]
    by (simp add: vpci_packet_process_def vpci_handle_config_read_def Let_def d1)
  have "window ?cs (unat addr) (unat len) = bs"
    using assms(4,5) by (simp add: window_blit_same)
  then show ?thesis
    using w r assms(1) d1 by (simp add: reply_data_connected vpci_reply_hdr_def)
qed

section \<open>Memory safety of the handlers\<close>

text \<open>Fact: a configuration write takes its length from the header and its bytes from the
  receive buffer without comparing the two: within the configuration space, the copy leaves the
  buffer exactly when the header claims more bytes than the buffer has.\<close>

theorem vpci_config_write_payload_overread:
  assumes "config_wf d" "unat addr + unat len \<le> length (dev_config_space d)"
  shows "vpci_packet_process al d (vpci_request VPCI_MSG_CONFIG_WRITE seq addr len bs) = Inl Out_of_bounds
    \<longleftrightarrow> length bs < unat len"
  using assms not_config_check [OF assms]
  by (auto simp: vpci_packet_process_def vpci_handle_config_write_def Let_def)

lemma bswap32_zero: "bswap32 0 = 0"
  by (simp add: bswap32_def bswap_def le_bytes_zero rd_be_def rd_le_zeros)

text \<open>Fact: the interrupt number. The 64-bit address field is cut to 32 bits before the byte
  swap, which keeps the upper half of the value the peer sent: every interrupt number below 2^32
  reaches the handler as 0.\<close>

theorem vpci_irq_number_lost:
  assumes "dev_irq_handler d" "n < 2 ^ 32"
  shows "\<exists>d'. vpci_packet_process al d (vpci_request VPCI_MSG_IRQ seq (word_of_nat n) 0 []) = Inr d' \<and>
    dev_irq_log d' = dev_irq_log d @ [0]"
proof -
  have "(ucast (bswap64 (word_of_nat n)) :: u32) = 0" using assms(2) by (simp add: bswap64_low_half)
  then show ?thesis
    using assms(1)
    by (simp add: vpci_packet_process_def vpci_handle_irq_def Let_def bswap32_zero vpci_sends)
qed

section \<open>The store stays well formed under any traffic\<close>

lemma send_frame [simp]:
  "dev_config_space (vpci_send_status ty a b d seq e) = dev_config_space d"
  "dev_config_size (vpci_send_status ty a b d seq e) = dev_config_size d"
  "dev_bars (vpci_send_status ty a b d seq e) = dev_bars d"
  "dev_config_space (vpci_reply_data al d seq len bs) = dev_config_space d"
  "dev_config_size (vpci_reply_data al d seq len bs) = dev_config_size d"
  "dev_bars (vpci_reply_data al d seq len bs) = dev_bars d"
  by (simp_all add: vpci_sends)

definition vpci_store_ok :: "vpci_device \<Rightarrow> bool" where
  "vpci_store_ok d \<longleftrightarrow> config_wf d \<and> bars_wf d"

lemma mem_write_store_ok:
  assumes "vpci_store_ok d" "vpci_mem_write d addr bs len = Inr d'"
  shows "vpci_store_ok d'"
proof -
  obtain i where i: "find_bar addr len 0 (take VPCI_MAX_BARS (dev_bars d)) = Some i"
    using assms(2) by (auto simp: vpci_mem_write_def split: option.splits)
  let ?b = "dev_bars d ! i"
  let ?m = "the (bar_addr ?b)"
  let ?o = "unat (addr - bar_phys_addr ?b)"
  let ?b' = "?b\<lparr>bar_addr := Some (blit ?m ?o (take (unat len) bs))\<rparr>"
  have lt: "i < length (dev_bars d)" and "bar_matches addr len ?b"
    using find_bar_Some [OF i] assms(1) by (auto simp: vpci_store_ok_def bars_wf_def)
  then obtain m where m: "bar_addr ?b = Some m" by (auto simp: bar_matches_def)
  have fits: "?o + unat len \<le> length m" "unat len \<le> length bs"
      and d': "d' = d\<lparr>dev_bars := (dev_bars d)[i := ?b']\<rparr>"
    using assms(2) i m by (simp_all add: vpci_mem_write_def Let_def split: if_splits)
  have "bar_wf ?b" using assms(1) lt by (simp add: vpci_store_ok_def bars_wf_def list_all_length)
  then have "bar_wf ?b'" using m fits by (simp add: bar_wf_def length_blit)
  then show ?thesis
    using assms(1) lt unfolding d'
    by (simp add: vpci_store_ok_def bars_wf_def config_wf_def list_all_length nth_list_update)
qed

definition vpci_rx_step :: "(nat \<Rightarrow> bool) \<Rightarrow> vpci_device \<Rightarrow> vpci_packet \<Rightarrow> vpci_device" where
  "vpci_rx_step al d pkt = (case vpci_packet_process al d pkt of Inr d' \<Rightarrow> d' | Inl _ \<Rightarrow> d)"

definition leaves_store_ok :: "vpci_fault + vpci_device \<Rightarrow> bool" where
  "leaves_store_ok r \<longleftrightarrow> (case r of Inl _ \<Rightarrow> True | Inr d \<Rightarrow> vpci_store_ok d)"

lemma leaves_store_ok_simps [simp]:
  "leaves_store_ok (Inl f)" "leaves_store_ok (Inr d) = vpci_store_ok d"
  by (simp_all add: leaves_store_ok_def)

lemma store_ok_sends [simp]:
  "vpci_store_ok (vpci_send_status ty a b d seq e) = vpci_store_ok d"
  "vpci_store_ok (vpci_send_ack al d seq e) = vpci_store_ok d"
  "vpci_store_ok (vpci_send_nack al d seq e) = vpci_store_ok d"
  "vpci_store_ok (vpci_reply_data al d seq len bs) = vpci_store_ok d"
  "vpci_store_ok (count_rx n d) = vpci_store_ok d" "vpci_store_ok (count_error d) = vpci_store_ok d"
  "vpci_store_ok (d\<lparr>dev_irq_log := l\<rparr>) = vpci_store_ok d"
  "vpci_store_ok (d\<lparr>dev_ack_wakeups := w\<rparr>) = vpci_store_ok d"
  "vpci_store_ok (d\<lparr>dev_session_id := s, dev_handshake_status := h, dev_handshake_done := n'\<rparr>) =
     vpci_store_ok d"
  by (simp_all add: vpci_store_ok_def config_wf_def bars_wf_def vpci_send_ack_def vpci_send_nack_def)

lemma blit_store_ok:
  "vpci_store_ok d \<Longrightarrow> off + length src \<le> length (dev_config_space d) \<Longrightarrow>
     vpci_store_ok (d\<lparr>dev_config_space := blit (dev_config_space d) off src\<rparr>)"
  by (simp add: vpci_store_ok_def config_wf_def bars_wf_def length_blit)

lemma process_store_ok:
  assumes "vpci_store_ok d"
  shows "leaves_store_ok (vpci_handle_config_read al d pkt)"
    "leaves_store_ok (vpci_handle_config_write al d pkt)"
    "leaves_store_ok (vpci_handle_mem_read al d pkt)"
    "leaves_store_ok (vpci_handle_mem_write al d pkt)"
    "leaves_store_ok (vpci_handle_irq al d pkt)" "leaves_store_ok (vpci_handle_ack d pkt)"
    "leaves_store_ok (vpci_handle_nack d pkt)" "leaves_store_ok (vpci_handle_handshake al d pkt)"
  using assms mem_write_store_ok [OF assms]
  by (auto simp: vpci_handlers Let_def blit_store_ok split: sum.split vpci_fault.split)

lemma rx_step_store_ok:
  assumes "vpci_store_ok d"
  shows "vpci_store_ok (vpci_rx_step al d pkt)"
proof -
  let ?d = "count_rx (bswap32 (hdr_length (pkt_hdr pkt))) d"
  have ok: "vpci_store_ok ?d" using assms by simp
  have "leaves_store_ok (vpci_packet_process al d pkt)"
    unfolding vpci_packet_process_def Let_def using process_store_ok [OF ok] ok
    by (simp del: vpci_msg_code.simps)
  then show ?thesis
    using assms by (simp add: vpci_rx_step_def leaves_store_ok_def split: sum.splits)
qed

interpretation vpci_rx: step_system "vpci_rx_step al" vpci_store_ok for al
  by unfold_locales (rule rx_step_store_ok)

text \<open>Fact: no sequence of packets, malformed or hostile, makes a BAR or the configuration
  space differ in length from the size the bounds checks use: resizing never happens, every
  stored byte string stays as long as its size field says.\<close>

theorem vpci_traffic_keeps_store:
  assumes "config_wf d" "bars_wf d"
  shows "config_wf (foldl (vpci_rx_step al) d pkts) \<and> bars_wf (foldl (vpci_rx_step al) d pkts)"
  using vpci_rx.run_inv [of d al pkts] assms by (simp add: vpci_store_ok_def)

section \<open>Concrete packets\<close>

definition connected_device :: vpci_device where
  "connected_device = demo_device\<lparr>dev_connected := True, dev_irq_handler := True\<rparr>"

lemma connected_device_simps [simp]:
  "dev_connected connected_device" "dev_irq_handler connected_device"
  "dev_config_space connected_device = [5, 6, 7, 8]" "dev_irq_log connected_device = []"
  "dev_tx_list connected_device = []" "config_wf connected_device" "bars_wf connected_device"
  using demo_wf by (simp_all add: connected_device_def demo_device_def config_wf_def bars_wf_def)

theorem vpci_packet_answered_witness:
  "\<exists>d' ps. vpci_packet_process (\<lambda>k. k \<noteq> 0) connected_device
       (vpci_request VPCI_MSG_MEM_READ 7 0 0 []) = Inr d' \<and>
     length ps = 1 \<and> list_all (is_reply (bswap32 7)) ps \<and> dev_tx_list d' = ps"
proof -
  obtain d' where d': "vpci_packet_process (\<lambda>k. k \<noteq> 0) connected_device
      (vpci_request VPCI_MSG_MEM_READ 7 0 0 []) = Inr d'"
    by (simp add: vpci_packet_process_def vpci_handle_mem_read_def Let_def)
  from vpci_packet_answered [OF this]
  obtain ps where "dev_tx_list d' = ps" "length ps \<le> 1" "ps \<noteq> []"
      "list_all (is_reply (bswap32 7)) ps" by auto
  then show ?thesis using d' by (cases ps) auto
qed

theorem vpci_config_over_the_wire_witness:
  "\<exists>d1 d2 p. vpci_packet_process (\<lambda>k. True) connected_device
       (vpci_request VPCI_MSG_CONFIG_WRITE 1 1 2 [9, 8]) = Inr d1 \<and>
     vpci_packet_process (\<lambda>k. True) d1 (vpci_request VPCI_MSG_CONFIG_READ 2 1 2 []) = Inr d2 \<and>
     pkt_data p = Some [9, 8] \<and> dev_tx_list d2 = dev_tx_list d1 @ [p]"
  using vpci_config_over_the_wire [of "\<lambda>k. True" connected_device 2 "[9, 8]" 1 1 2 "[]"] by auto

theorem vpci_config_write_payload_overread_witness:
  "vpci_packet_process (\<lambda>k. True) connected_device (vpci_request VPCI_MSG_CONFIG_WRITE 1 0 4 [1])
     = Inl Out_of_bounds"
  by (subst vpci_config_write_payload_overread) simp_all

theorem vpci_irq_number_lost_witness:
  "\<exists>d'. vpci_packet_process (\<lambda>k. True) connected_device
     (vpci_request VPCI_MSG_IRQ 1 (word_of_nat 5) 0 []) = Inr d' \<and> dev_irq_log d' = [0]"
  using vpci_irq_number_lost [of connected_device 5 "\<lambda>k. True" 1] by simp

theorem vpci_traffic_keeps_store_witness:
  "bars_wf (foldl (vpci_rx_step (\<lambda>k. True)) connected_device
     [vpci_request VPCI_MSG_MEM_WRITE 1 0x1000 4 [1, 1, 1, 1]])"
  by (rule vpci_traffic_keeps_store [THEN conjunct2]) simp_all

end
