(* ===== verification/Vpci_Net.thy ===== *)
theory Vpci_Net
  imports Vpci_Packet
begin

text \<open>
  Virtual PCIe over Ethernet, the transport (\<open>modules/virtual_pcie/virtual_pcie_net.c\<close>): connecting
  and disconnecting, the keepalive timer, the reconnect work, and one iteration of the receive and
  of the transmit thread. The socket calls, the allocator and \<open>kthread_run\<close> are parameters. Beside
  the device, the model counts the live sockets and threads, so that a leak can be stated.
\<close>

section \<open>Connecting\<close>

text \<open>What the kernel calls of one \<open>vpci_net_connect\<close> return: 0, or a negative error.\<close>

record net_env =
  env_sock_create :: int
  env_connect :: int
  env_rx_run :: int
  env_tx_run :: int

record vpci_live =
  live_socks :: nat
  live_rx :: nat
  live_tx :: nat

definition vpci_net_init :: int where "vpci_net_init = 0"

definition vpci_net_connect ::
  "net_env \<Rightarrow> vpci_device \<times> vpci_live \<Rightarrow> int \<times> vpci_device \<times> vpci_live" where
  "vpci_net_connect e = (\<lambda>(d, l).
     if env_sock_create e < 0 then (env_sock_create e, d, l)
     else let d1 = d\<lparr>dev_sock := True\<rparr>; l1 = l\<lparr>live_socks := live_socks l + 1\<rparr> in
     if env_connect e < 0
     then (env_connect e, d1\<lparr>dev_sock := False\<rparr>, l1\<lparr>live_socks := live_socks l1 - 1\<rparr>)
     else if env_rx_run e < 0
     then (env_rx_run e, d1\<lparr>dev_rx_thread := False, dev_sock := False\<rparr>,
           l1\<lparr>live_socks := live_socks l1 - 1\<rparr>)
     else let d2 = d1\<lparr>dev_rx_thread := True\<rparr>; l2 = l1\<lparr>live_rx := live_rx l1 + 1\<rparr> in
     if env_tx_run e < 0
     then (env_tx_run e, d2\<lparr>dev_tx_thread := False, dev_rx_thread := False, dev_sock := False\<rparr>,
           l2\<lparr>live_rx := live_rx l2 - 1, live_socks := live_socks l2 - 1\<rparr>)
     else (0, d2\<lparr>dev_tx_thread := True, dev_connected := True, dev_keepalive_armed := True\<rparr>,
           l2\<lparr>live_tx := live_tx l2 + 1\<rparr>))"

text \<open>\<open>kthread_stop\<close> waits until the thread has ended: a thread that stops itself never returns.\<close>

datatype vpci_caller = User | Rx_thread | Tx_thread

definition vpci_net_disconnect ::
  "vpci_caller \<Rightarrow> vpci_device \<times> vpci_live \<Rightarrow> vpci_fault + vpci_device \<times> vpci_live" where
  "vpci_net_disconnect who = (\<lambda>(d0, l0).
     let d = d0\<lparr>dev_keepalive_armed := False\<rparr> in
     if dev_tx_thread d \<and> who = Tx_thread then Inl Self_stop
     else let d1 = d\<lparr>dev_tx_thread := False\<rparr>;
              l1 = (if dev_tx_thread d then l0\<lparr>live_tx := live_tx l0 - 1\<rparr> else l0) in
     if dev_rx_thread d1 \<and> who = Rx_thread then Inl Self_stop
     else let d2 = d1\<lparr>dev_rx_thread := False\<rparr>;
              l2 = (if dev_rx_thread d1 then l1\<lparr>live_rx := live_rx l1 - 1\<rparr> else l1);
              d3 = d2\<lparr>dev_sock := False\<rparr>;
              l3 = (if dev_sock d2 then l2\<lparr>live_socks := live_socks l2 - 1\<rparr> else l2)
     in Inr (d3\<lparr>dev_connected := False\<rparr>, l3))"

section \<open>Keepalive\<close>

text \<open>The packet is a local variable of the timer function.\<close>

definition vpci_keepalive_timer :: "vpci_device \<Rightarrow> vpci_device" where
  "vpci_keepalive_timer d =
     (if \<not> dev_connected d then d
      else let d1 = d\<lparr>dev_seq_num := dev_seq_num d + 1\<rparr>;
               pkt = \<lparr>pkt_hdr = vpci_reply_hdr d1 VPCI_MSG_KEEPALIVE (dev_seq_num d1) 0,
                 pkt_data = None, pkt_storage = Stack\<rparr>
           in (snd (vpci_packet_send d1 pkt))\<lparr>dev_keepalive_armed := True\<rparr>)"

section \<open>The reconnect work\<close>

text \<open>One environment per attempt; the loop gives the delays it slept, the state, and whether it
  returned within the attempts listed.\<close>

definition VPCI_RECONNECT_DELAY :: "int \<Rightarrow> int" where
  "VPCI_RECONNECT_DELAY hz = hz * 2"

fun reconnect_loop ::
  "int \<Rightarrow> int \<Rightarrow> net_env list \<Rightarrow> vpci_device \<times> vpci_live \<Rightarrow>
     int list \<times> (vpci_device \<times> vpci_live) \<times> bool" where
  "reconnect_loop hz delay [] s = ([], s, dev_connected (fst s))"
| "reconnect_loop hz delay (e # es) s =
     (if dev_connected (fst s) then ([], s, True)
      else case vpci_net_connect e s of (ret, s') \<Rightarrow>
        if ret = 0 then ([], s', True)
        else case reconnect_loop hz (min (delay * 2) (hz * 30)) es s' of
          (delays, s'', finished) \<Rightarrow> (delay # delays, s'', finished))"

definition vpci_reconnect_work ::
  "int \<Rightarrow> net_env list \<Rightarrow> vpci_device \<times> vpci_live \<Rightarrow>
     int list \<times> (vpci_device \<times> vpci_live) \<times> bool" where
  "vpci_reconnect_work hz = reconnect_loop hz (VPCI_RECONNECT_DELAY hz)"

section \<open>The receive thread\<close>

text \<open>\<open>kernel_recvmsg(sock, msg, vec, num, size, flags)\<close> is called with the payload buffer as
  \<open>vec\<close>, \<open>VPCI_MAX_PAYLOAD\<close> as \<open>num\<close> and 0 as \<open>size\<close>. The parameter \<open>recv num size\<close> gives what it
  returns and what the payload buffer holds afterwards.\<close>

datatype rx_next = Rx_again | Rx_stop

definition zero_hdr :: vpci_pkt_header where
  "zero_hdr = \<lparr>hdr_magic = 0, hdr_version = 0, hdr_type = 0, hdr_flags = 0, hdr_session_id = 0,
     hdr_seq_num = 0, hdr_length = 0, hdr_address = 0\<rparr>"

definition rx_give_up ::
  "vpci_device \<times> vpci_live \<Rightarrow> vpci_fault + rx_next \<times> vpci_device \<times> vpci_live" where
  "rx_give_up s = (case vpci_net_disconnect Rx_thread s of
     Inl f \<Rightarrow> Inl f
   | Inr (d, l) \<Rightarrow> Inr (Rx_stop, d\<lparr>dev_reconnect_pending := True\<rparr>, l))"

definition vpci_rx_iter ::
  "(nat \<Rightarrow> nat \<Rightarrow> int \<times> bytes) \<Rightarrow> bool \<Rightarrow> bool \<Rightarrow> (nat \<Rightarrow> bool) \<Rightarrow> vpci_device \<times> vpci_live \<Rightarrow>
     vpci_fault + rx_next \<times> vpci_device \<times> vpci_live" where
  "vpci_rx_iter recv ok_pkt ok_data al = (\<lambda>(d, l).
     if \<not> ok_pkt then Inr (Rx_again, d, l)
     else if \<not> ok_data then Inr (Rx_again, d, l)
     else case recv VPCI_MAX_PAYLOAD 0 of (ret, buf) \<Rightarrow>
       if ret < 0 then
         (if ret = - EAGAIN then Inr (Rx_again, d, l)
          else let d1 = count_error d in
            if ret = - ECONNRESET \<or> ret = - ENOTCONN then rx_give_up (d1, l)
            else Inr (Rx_again, d1, l))
       else if ret = 0 then rx_give_up (d, l)
       else (case vpci_packet_process al d
                   \<lparr>pkt_hdr = zero_hdr\<lparr>hdr_length := word_of_int ret\<rparr>, pkt_data = Some buf,
                    pkt_storage = Heap\<rparr> of
               Inl f \<Rightarrow> Inl f
             | Inr d' \<Rightarrow> Inr (Rx_again, d', l)))"

section \<open>The transmit thread\<close>

definition count_tx :: "int \<Rightarrow> vpci_device \<Rightarrow> vpci_device" where
  "count_tx ret d = d\<lparr>dev_stats := (dev_stats d)\<lparr>tx_packets := tx_packets (dev_stats d) + 1,
     tx_bytes := tx_bytes (dev_stats d) + word_of_int ret\<rparr>\<rparr>"

text \<open>\<open>kernel_sendmsg\<close> is called with the stored (big endian) length as \<open>num\<close> and 0 as \<open>size\<close>.\<close>

definition vpci_tx_iter ::
  "(vpci_packet \<Rightarrow> u32 \<Rightarrow> nat \<Rightarrow> int) \<Rightarrow> vpci_device \<Rightarrow> vpci_fault + vpci_device" where
  "vpci_tx_iter send d = (case dev_tx_list d of
     [] \<Rightarrow> Inr d
   | pkt # rest \<Rightarrow>
       let d1 = d\<lparr>dev_tx_list := rest\<rparr>;
           d2 = (if dev_connected d1 \<and> dev_sock d1
                 then let ret = send pkt (hdr_length (pkt_hdr pkt)) 0
                      in if ret < 0 then count_error d1 else count_tx ret d1
                 else count_dropped d1)
       in if pkt_storage pkt = Stack then Inl Bad_free else Inr d2)"

fun vpci_tx_run :: "(vpci_packet \<Rightarrow> u32 \<Rightarrow> nat \<Rightarrow> int) \<Rightarrow> nat \<Rightarrow> vpci_device \<Rightarrow> vpci_fault + vpci_device"
where
  "vpci_tx_run send 0 d = Inr d"
| "vpci_tx_run send (Suc n) d = (case vpci_tx_iter send d of Inl f \<Rightarrow> Inl f
     | Inr d' \<Rightarrow> vpci_tx_run send n d')"

section \<open>Connecting leaks nothing, once\<close>

text \<open>The live objects are those the device points to.\<close>

definition live_matches :: "vpci_device \<times> vpci_live \<Rightarrow> bool" where
  "live_matches = (\<lambda>(d, l). live_socks l = (if dev_sock d then 1 else 0) \<and>
     live_rx l = (if dev_rx_thread d then 1 else 0) \<and> live_tx l = (if dev_tx_thread d then 1 else 0))"

definition disconnected :: "vpci_device \<Rightarrow> bool" where
  "disconnected d \<longleftrightarrow> \<not> dev_sock d \<and> \<not> dev_rx_thread d \<and> \<not> dev_tx_thread d \<and> \<not> dev_connected d"

text \<open>Property C40: connecting a disconnected device, at whichever of the four kernel calls it fails:
  it returns the error of the first call that failed, in the order of the code, and leaves the
  device as it was; when none fails it returns 0 and the device is connected with its socket, both
  threads and the keepalive timer; in no case is a socket or a thread alive that the device does
  not point to.\<close>

theorem vpci_connect_all_or_nothing:
  assumes "disconnected d" "live_matches (d, l)" "vpci_net_connect e (d, l) = (ret, d', l')"
  shows "live_matches (d', l') \<and>
    (if env_sock_create e < 0 \<or> env_connect e < 0 \<or> env_rx_run e < 0 \<or> env_tx_run e < 0
     then ret = (if env_sock_create e < 0 then env_sock_create e
                 else if env_connect e < 0 then env_connect e
                 else if env_rx_run e < 0 then env_rx_run e else env_tx_run e) \<and>
       ret < 0 \<and> d' = d
     else ret = 0 \<and> dev_connected d' \<and> dev_sock d' \<and> dev_rx_thread d' \<and> dev_tx_thread d' \<and>
       dev_keepalive_armed d')"
  using assms
  by (auto simp: vpci_net_connect_def disconnected_def live_matches_def Let_def
      split: if_split_asm)

text \<open>Fact: a second connect on a connected device (the ioctl does not check) succeeds and
  overwrites the pointers of the first: after disconnecting, one socket and both of the first
  connection's threads are still alive with nothing pointing at them.\<close>

theorem vpci_connect_twice_leaks:
  assumes "disconnected d" "live_matches (d, l)"
    and "vpci_net_connect e1 (d, l) = (0, s1)" "vpci_net_connect e2 s1 = (0, s2)"
  shows "\<exists>d' l'. vpci_net_disconnect User s2 = Inr (d', l') \<and> disconnected d' \<and>
    live_socks l' = 1 \<and> live_rx l' = 1 \<and> live_tx l' = 1"
proof -
  obtain d1 l1 d2 l2 where s: "s1 = (d1, l1)" "s2 = (d2, l2)" by (meson surj_pair)
  have l0: "live_socks l = 0" "live_rx l = 0" "live_tx l = 0"
    using assms(1,2) by (simp_all add: disconnected_def live_matches_def)
  have 1: "live_socks l1 = 1 \<and> live_rx l1 = 1 \<and> live_tx l1 = 1"
    using assms(3) l0 by (simp add: s vpci_net_connect_def Let_def split: if_split_asm)
      (auto simp: l0)
  have 2: "live_socks l2 = 2 \<and> live_rx l2 = 2 \<and> live_tx l2 = 2 \<and>
      dev_sock d2 \<and> dev_rx_thread d2 \<and> dev_tx_thread d2"
    using assms(4) 1 by (simp add: s vpci_net_connect_def Let_def split: if_split_asm) auto
  show ?thesis using 2 by (simp add: s vpci_net_disconnect_def disconnected_def Let_def)
qed

section \<open>What the receive thread can receive\<close>

lemma rx_give_up_self_stop:
  "dev_rx_thread d \<Longrightarrow> rx_give_up (d, l) = Inl Self_stop"
  by (simp add: rx_give_up_def vpci_net_disconnect_def Let_def)

text \<open>Fact: a receive call that returns at most the \<open>size\<close> it is given never delivers a
  packet to this driver, which passes size 0: an iteration of the running thread either leaves the
  device as it was up to the error counter, or takes the connection for closed and blocks for ever
  stopping itself.\<close>

theorem vpci_rx_never_receives:
  assumes "\<And>num sz. fst (recv num sz) \<le> int sz" "dev_rx_thread d"
  shows "vpci_rx_iter recv ok_pkt ok_data al (d, l) \<in>
    {Inl Self_stop, Inr (Rx_again, d, l), Inr (Rx_again, count_error d, l)}"
proof -
  obtain ret buf where r: "recv VPCI_MAX_PAYLOAD 0 = (ret, buf)" by (meson surj_pair)
  have "ret \<le> 0" using assms(1) [of VPCI_MAX_PAYLOAD 0] r by simp
  moreover have "dev_rx_thread (count_error d)" using assms(2) by (simp add: count_error_def)
  ultimately show ?thesis
    using assms(2) r by (auto simp: vpci_rx_iter_def Let_def rx_give_up_self_stop)
qed

text \<open>Fact: even if bytes arrived, whatever they are, they would never be taken for a
  packet: the receive path fills in the length of a zeroed header only, so every delivery is
  counted as an error and answered with a negative acknowledgement \<open>-EBADMSG\<close> of sequence number 0.\<close>

theorem vpci_rx_rejects_everything:
  assumes "recv VPCI_MAX_PAYLOAD 0 = (ret, buf)" "0 < ret" "dev_connected d" "\<And>k. al k"
  shows "\<exists>d'. vpci_rx_iter recv True True al (d, l) = Inr (Rx_again, d', l) \<and>
    dev_tx_list d' = dev_tx_list d @ [\<lparr>pkt_hdr = vpci_reply_hdr d VPCI_MSG_NACK 0 4,
      pkt_data = Some (int_image (- EBADMSG)), pkt_storage = Heap\<rparr>] \<and>
    dev_config_space d' = dev_config_space d \<and> dev_bars d' = dev_bars d \<and>
    errors (dev_stats d') = errors (dev_stats d) + 1"
proof -
  have "bswap32 0 \<noteq> VPCI_MAGIC" by (simp add: bswap32_zero VPCI_MAGIC_def)
  moreover have "errors (dev_stats (count_error (count_rx n d))) = errors (dev_stats d) + 1" for n
    by (simp add: count_error_def count_rx_def)
  moreover have "dev_connected (count_error (count_rx n d))" for n using assms(3) by simp
  ultimately show ?thesis
    using assms
    by (simp add: vpci_rx_iter_def vpci_packet_process_def zero_hdr_def Let_def bswap32_zero
        vpci_send_nack_def send_status_connected vpci_reply_hdr_def)
qed

section \<open>The transmit queue\<close>

lemma tx_iter_heap:
  "dev_tx_list d = pkt # rest \<Longrightarrow> pkt_storage pkt = Heap \<Longrightarrow>
     \<exists>d'. vpci_tx_iter send d = Inr d' \<and> dev_tx_list d' = rest \<and> dev_connected d' = dev_connected d \<and>
       dev_sock d' = dev_sock d"
  by (simp add: vpci_tx_iter_def Let_def count_error_def count_tx_def count_dropped_def)

lemma tx_run_heap_prefix:
  "dev_tx_list d = ps @ rest \<Longrightarrow> \<forall>p \<in> set ps. pkt_storage p = Heap \<Longrightarrow>
     \<exists>d'. vpci_tx_run send (length ps + n) d = vpci_tx_run send n d' \<and> dev_tx_list d' = rest"
proof (induction ps arbitrary: d)
  case Nil
  then show ?case by auto
next
  case (Cons p ps)
  obtain d1 where "vpci_tx_iter send d = Inr d1" "dev_tx_list d1 = ps @ rest"
    using tx_iter_heap [of d p "ps @ rest" send] Cons.prems by auto
  then show ?case using Cons.IH [of d1] Cons.prems by simp
qed

text \<open>Fact: the keepalive timer queues a packet that lives on its own stack. Whatever heap
  packets are queued before it and whatever the socket returns for them, the transmit thread
  reaches it and frees it.\<close>

theorem vpci_keepalive_bad_free:
  assumes "dev_connected d" "\<forall>p \<in> set (dev_tx_list d). pkt_storage p = Heap"
  shows "vpci_tx_run send (length (dev_tx_list d) + 1) (vpci_keepalive_timer d) = Inl Bad_free"
proof -
  obtain k where k: "dev_tx_list (vpci_keepalive_timer d) = dev_tx_list d @ [k]" "pkt_storage k = Stack"
    using assms(1) by (simp add: vpci_keepalive_timer_def vpci_packet_send_def Let_def)
  then obtain d' where d': "vpci_tx_run send (length (dev_tx_list d) + 1) (vpci_keepalive_timer d) =
      vpci_tx_run send 1 d'" "dev_tx_list d' = [k]"
    using tx_run_heap_prefix [OF k(1) assms(2), of send 1] by blast
  then show ?thesis using k(2) by (simp add: vpci_tx_iter_def Let_def)
qed

section \<open>Reconnecting\<close>

definition env_ok :: "net_env \<Rightarrow> bool" where
  "env_ok e \<longleftrightarrow> 0 \<le> env_sock_create e \<and> 0 \<le> env_connect e \<and> 0 \<le> env_rx_run e \<and> 0 \<le> env_tx_run e"

lemma connect_fails:
  "\<not> env_ok e \<Longrightarrow> disconnected d \<Longrightarrow> \<exists>r. r < 0 \<and> vpci_net_connect e (d, l) = (r, d, l)"
  by (auto simp: env_ok_def vpci_net_connect_def disconnected_def Let_def)

lemma connect_succeeds:
  "env_ok e \<Longrightarrow> \<exists>d' l'. vpci_net_connect e (d, l) = (0, d', l') \<and> dev_connected d'"
  by (auto simp: env_ok_def vpci_net_connect_def Let_def)

lemma capped_doubling:
  assumes "0 \<le> delay" "0 < (cap :: int)"
  shows "min (min (delay * 2) cap * 2 ^ k) cap = min (delay * 2 ^ Suc k) cap"
proof (cases "delay * 2 \<le> cap")
  case False
  have one: "1 \<le> (2::int) ^ k" by simp
  have c: "cap \<le> cap * 2 ^ k" using mult_left_mono [OF one, of cap] assms(2) by simp
  also have "cap * 2 ^ k \<le> delay * 2 ^ Suc k"
    using False mult_right_mono [of cap "delay * 2" "2 ^ k"] by (simp add: mult.assoc)
  finally have "cap \<le> delay * 2 ^ Suc k" .
  moreover have "min (delay * 2) cap = cap" using False by simp
  ultimately show ?thesis using c by (simp only: min_absorb2)
qed (simp add: min_def mult.assoc)

lemma reconnect_delays:
  assumes "0 < hz" "disconnected d" "\<forall>e \<in> set es. \<not> env_ok e" "env_ok e"
    and "0 \<le> delay" "delay \<le> hz * 30"
  shows "\<exists>s. reconnect_loop hz delay (es @ [e]) (d, l) =
      (map (\<lambda>k. min (delay * 2 ^ k) (hz * 30)) [0..<length es], s, True) \<and> dev_connected (fst s)"
  using assms(3,5,6)
proof (induction es arbitrary: delay)
  case Nil
  then show ?case
    using connect_succeeds [OF assms(4), of d l] assms(2) by (auto simp: disconnected_def)
next
  case (Cons f es)
  obtain r where r: "r < 0" "vpci_net_connect f (d, l) = (r, d, l)"
    using connect_fails [OF _ assms(2)] Cons.prems by fastforce
  let ?delay = "min (delay * 2) (hz * 30)"
  obtain s where s: "reconnect_loop hz ?delay (es @ [e]) (d, l) =
      (map (\<lambda>k. min (?delay * 2 ^ k) (hz * 30)) [0..<length es], s, True)" "dev_connected (fst s)"
    using Cons.IH [of ?delay] Cons.prems assms(1) by auto
  have "map (\<lambda>k. min (delay * 2 ^ k) (hz * 30)) [0..<Suc (length es)] =
      delay # map (\<lambda>k. min (?delay * 2 ^ k) (hz * 30)) [0..<length es]"
    unfolding map_upt_Suc using Cons.prems capped_doubling [of delay "hz * 30"] assms(1) by simp
  then show ?case
    using r s assms(2) by (simp add: disconnected_def)
qed

text \<open>Fact: the reconnect work retries until the first attempt whose four kernel calls
  succeed, and before the \<open>k\<close>-th retry it sleeps min(2^(k+1), 30) seconds in ticks: exponential
  back-off with a ceiling.\<close>

theorem vpci_reconnect_backoff:
  assumes "0 < hz" "disconnected d" "\<forall>e \<in> set es. \<not> env_ok e" "env_ok e"
  shows "\<exists>s. vpci_reconnect_work hz (es @ [e]) (d, l) =
      (map (\<lambda>k. min (hz * 2 ^ Suc k) (hz * 30)) [0..<length es], s, True) \<and> dev_connected (fst s)"
proof -
  have "0 \<le> VPCI_RECONNECT_DELAY hz" "VPCI_RECONNECT_DELAY hz \<le> hz * 30"
    using assms(1) by (simp_all add: VPCI_RECONNECT_DELAY_def)
  from reconnect_delays [OF assms this, of l] show ?thesis
    by (simp add: vpci_reconnect_work_def VPCI_RECONNECT_DELAY_def mult.assoc)
qed

section \<open>Concrete connections\<close>

definition good_env :: net_env where
  "good_env = \<lparr>env_sock_create = 0, env_connect = 0, env_rx_run = 0, env_tx_run = 0\<rparr>"

definition refused_env :: net_env where
  "refused_env = good_env\<lparr>env_connect := - 111\<rparr>"

definition no_live :: vpci_live where
  "no_live = \<lparr>live_socks = 0, live_rx = 0, live_tx = 0\<rparr>"

lemma demo_disconnected: "disconnected demo_device" "live_matches (demo_device, no_live)"
  by (simp_all add: disconnected_def demo_device_def live_matches_def no_live_def)

theorem vpci_connect_all_or_nothing_witness:
  "\<exists>ret l'. vpci_net_connect refused_env (demo_device, no_live) = (ret, demo_device, l') \<and>
     live_matches (demo_device, l') \<and> ret < 0"
proof -
  obtain ret d' l' where c: "vpci_net_connect refused_env (demo_device, no_live) = (ret, d', l')"
    by (cases "vpci_net_connect refused_env (demo_device, no_live)")
  show ?thesis using vpci_connect_all_or_nothing [OF demo_disconnected c] c
    by (auto simp: refused_env_def good_env_def)
qed

theorem vpci_connect_twice_leaks_witness:
  "\<exists>s1 s2 d' l'. vpci_net_connect good_env (demo_device, no_live) = (0, s1) \<and>
     vpci_net_connect good_env s1 = (0, s2) \<and>
     vpci_net_disconnect User s2 = Inr (d', l') \<and> live_socks l' = 1"
proof -
  have ok: "env_ok good_env" by (simp add: env_ok_def good_env_def)
  obtain d1 l1 where 1: "vpci_net_connect good_env (demo_device, no_live) = (0, d1, l1)"
    using connect_succeeds [OF ok] by blast
  obtain d2 l2 where 2: "vpci_net_connect good_env (d1, l1) = (0, d2, l2)"
    using connect_succeeds [OF ok] by blast
  show ?thesis using vpci_connect_twice_leaks [OF demo_disconnected 1 2] 1 2 by blast
qed

theorem vpci_rx_never_receives_witness:
  "vpci_rx_iter (\<lambda>num sz. (- ECONNRESET, [])) True True (\<lambda>k. True)
     (demo_device\<lparr>dev_rx_thread := True\<rparr>, no_live) = Inl Self_stop"
  using vpci_rx_never_receives [of "\<lambda>num sz. (- ECONNRESET, [])" "demo_device\<lparr>dev_rx_thread := True\<rparr>"
      True True "\<lambda>k. True" no_live]
  by (simp add: vpci_rx_iter_def rx_give_up_self_stop count_error_def Let_def)

theorem vpci_rx_rejects_everything_witness:
  "\<exists>d'. vpci_rx_iter (\<lambda>num sz. (4, [1, 2, 3, 4])) True True (\<lambda>k. True) (connected_device, no_live) =
      Inr (Rx_again, d', no_live) \<and> errors (dev_stats d') = errors (dev_stats connected_device) + 1"
  using vpci_rx_rejects_everything [of "\<lambda>num sz. (4, [1, 2, 3, 4])" 4 "[1, 2, 3, 4]" connected_device
      "\<lambda>k. True" no_live] by auto

theorem vpci_keepalive_bad_free_witness:
  "vpci_tx_run (\<lambda>p n s. 0) 1 (vpci_keepalive_timer connected_device) = Inl Bad_free"
  using vpci_keepalive_bad_free [of connected_device "\<lambda>p n s. 0"] by simp

theorem vpci_reconnect_backoff_witness:
  "\<exists>s. vpci_reconnect_work 100 ([refused_env, refused_env] @ [good_env]) (demo_device, no_live) =
     (map (\<lambda>k. min (100 * 2 ^ Suc k) (100 * 30)) [0..<length [refused_env, refused_env]], s, True)"
  using vpci_reconnect_backoff [of 100 demo_device "[refused_env, refused_env]" good_env no_live]
    demo_disconnected by (auto simp: env_ok_def refused_env_def good_env_def)

end
