(* ===== verification/Vpci_Core.thy ===== *)
theory Vpci_Core
  imports Vpci_Net
begin

text \<open>
  Virtual PCIe over Ethernet, the driver core (\<open>modules/virtual_pcie/virtual_pcie_core.c\<close>): device
  ids, device initialisation and teardown, the character device's open, release and ioctl, the
  platform driver's probe and remove, and module initialisation with its unwinding. Devices live
  in a heap indexed by object number, so a pointer can outlive its device.
\<close>

section \<open>State\<close>

text \<open>\<open>core_idr id\<close> is \<open>None\<close> for a free id, \<open>Some None\<close> for one allocated with the NULL pointer.\<close>

record vpci_core =
  core_heap :: "nat \<Rightarrow> (vpci_device \<times> vpci_live) option"
  core_next :: nat
  core_idr :: "nat \<Rightarrow> nat option option"
  core_count :: int

section \<open>Ids\<close>

text \<open>\<open>idr_alloc\<close> gives the lowest free id of the range, \<open>-ENOSPC\<close> when there is none, and \<open>-ENOMEM\<close>
  when it cannot allocate (\<open>ok\<close> false).\<close>

definition vpci_get_free_id :: "bool \<Rightarrow> vpci_core \<Rightarrow> int \<times> vpci_core" where
  "vpci_get_free_id ok c = (if \<not> ok then (- ENOMEM, c) else case find (\<lambda>i. core_idr c i = None) [0..<VPCI_MAX_DEVS] of
     None \<Rightarrow> (- ENOSPC, c)
   | Some i \<Rightarrow> (int i, c\<lparr>core_idr := (core_idr c)(i \<mapsto> None)\<rparr>))"

definition vpci_put_id :: "vpci_core \<Rightarrow> nat \<Rightarrow> vpci_core" where
  "vpci_put_id c i = c\<lparr>core_idr := (core_idr c)(i := None)\<rparr>"

section \<open>Devices\<close>

text \<open>A freshly zeroed device; \<open>flags\<close> of its BARs is never set after that.\<close>

definition zero_bar :: vpci_bar_info where
  "zero_bar = \<lparr>bar_phys_addr = 0, bar_size = 0, bar_addr = None, bar_flags = 0\<rparr>"

definition zero_device :: "nat \<Rightarrow> vpci_device" where
  "zero_device i = \<lparr>dev_id = i, dev_role = VPCI_ROLE_NONE, dev_sock = False,
     dev_keepalive_armed = False, dev_reconnect_pending = False, dev_connected = False,
     dev_session_id = 0, dev_seq_num = 0, dev_handshake_done = 0, dev_handshake_status = 0,
     dev_refcount = 0, dev_tx_list = [], dev_rx_thread = False, dev_tx_thread = False,
     dev_bars = replicate VPCI_MAX_BARS zero_bar, dev_bar_count = 0, dev_config_space = [],
     dev_config_size = 0, dev_shmem_size = 0, dev_irq_handler = False, dev_irq_log = [],
     dev_ack_wakeups = 0,
     dev_stats = \<lparr>rx_packets = 0, tx_packets = 0, rx_bytes = 0, tx_bytes = 0, errors = 0,
       dropped = 0\<rparr>\<rparr>"

text \<open>\<open>ok_config\<close> and \<open>ok_shmem\<close> say whether the two buffers can be allocated.\<close>

definition vpci_device_init :: "bool \<Rightarrow> bool \<Rightarrow> vpci_device \<Rightarrow> int \<times> vpci_device" where
  "vpci_device_init ok_config ok_shmem d =
     (let d1 = d\<lparr>dev_connected := False, dev_session_id := 0, dev_seq_num := 0, dev_refcount := 1,
            dev_tx_list := [], dev_handshake_done := 0, dev_sock := False, dev_rx_thread := False,
            dev_tx_thread := False, dev_bars := map empty_bar (dev_bars d), dev_bar_count := 0,
            dev_config_size := 4096\<rparr>
      in if \<not> ok_config then (- ENOMEM, d1\<lparr>dev_config_space := []\<rparr>)
         else let d2 = d1\<lparr>dev_config_space := replicate 4096 0, dev_shmem_size := VPCI_SHMEM_SIZE\<rparr>
         in if \<not> ok_shmem then (- ENOMEM, d2\<lparr>dev_config_space := []\<rparr>)
         else (0, d2\<lparr>dev_keepalive_armed := False\<rparr>))"

definition vpci_device_exit ::
  "vpci_device \<times> vpci_live \<Rightarrow> vpci_fault + vpci_device \<times> vpci_live" where
  "vpci_device_exit s =
     (case (if dev_connected (fst s) then vpci_net_disconnect User s else Inr s) of
        Inl f \<Rightarrow> Inl f
      | Inr (d, l) \<Rightarrow>
          let d1 = d\<lparr>dev_reconnect_pending := False, dev_keepalive_armed := False,
                 dev_config_space := []\<rparr>
          in Inr (vpci_bar_unmap (vpci_bar_unmap d1 0) 1, l))"

section \<open>The character device\<close>

text \<open>A file's private data is the number of its device object.\<close>

definition vpci_open :: "nat \<Rightarrow> vpci_core \<Rightarrow> vpci_fault + nat \<times> vpci_core" where
  "vpci_open i c = (case core_idr c i of
     Some (Some p) \<Rightarrow>
       (case core_heap c p of
          None \<Rightarrow> Inl Use_after_free
        | Some (d, l) \<Rightarrow>
            Inr (p, c\<lparr>core_heap := (core_heap c)(p \<mapsto> (d\<lparr>dev_refcount := dev_refcount d + 1\<rparr>, l))\<rparr>))
   | _ \<Rightarrow> Inl (Errno (- ENODEV)))"

definition vpci_release :: "nat \<Rightarrow> vpci_core \<Rightarrow> vpci_fault + vpci_core" where
  "vpci_release p c = (case core_heap c p of
     None \<Rightarrow> Inl Use_after_free
   | Some (d, l) \<Rightarrow>
       Inr (c\<lparr>core_heap := (core_heap c)(p \<mapsto> (d\<lparr>dev_refcount := dev_refcount d - 1\<rparr>, l))\<rparr>))"

datatype vpci_ioctl_cmd =
  VPCI_IOCTL_CONNECT | VPCI_IOCTL_DISCONNECT | VPCI_IOCTL_GET_STATUS | VPCI_IOCTL_SET_ROLE
  | VPCI_IOCTL_other

fun vpci_role_code :: "vpci_role \<Rightarrow> nat" where
  "vpci_role_code VPCI_ROLE_NONE = 0" | "vpci_role_code VPCI_ROLE_RC = 1"
| "vpci_role_code VPCI_ROLE_EP = 2" | "vpci_role_code VPCI_ROLE_LOOPBACK = 3"

fun ioctl_device ::
  "bool \<Rightarrow> net_env \<Rightarrow> vpci_ioctl_cmd \<Rightarrow> nat \<Rightarrow> vpci_device \<times> vpci_live \<Rightarrow>
     vpci_fault + int \<times> vpci_device \<times> vpci_live" where
  "ioctl_device loopback e VPCI_IOCTL_CONNECT arg (d, l) =
     (if loopback then Inr (0, d\<lparr>dev_role := VPCI_ROLE_LOOPBACK, dev_connected := True\<rparr>, l)
      else Inr (vpci_net_connect e (d\<lparr>dev_role := VPCI_ROLE_RC\<rparr>, l)))"
| "ioctl_device loopback e VPCI_IOCTL_DISCONNECT arg (d, l) =
     (case vpci_net_disconnect User (d, l) of Inl f \<Rightarrow> Inl f
      | Inr (d', l') \<Rightarrow> Inr (0, d'\<lparr>dev_role := VPCI_ROLE_NONE\<rparr>, l'))"
| "ioctl_device loopback e VPCI_IOCTL_GET_STATUS arg (d, l) =
     Inr (if dev_connected d then 1 else 0, d, l)"
| "ioctl_device loopback e VPCI_IOCTL_SET_ROLE arg (d, l) =
     Inr (0, if arg = vpci_role_code VPCI_ROLE_EP then d\<lparr>dev_role := VPCI_ROLE_EP\<rparr> else d, l)"
| "ioctl_device loopback e VPCI_IOCTL_other arg (d, l) = Inr (- EINVAL, d, l)"

definition vpci_ioctl ::
  "bool \<Rightarrow> net_env \<Rightarrow> nat \<Rightarrow> vpci_ioctl_cmd \<Rightarrow> nat \<Rightarrow> vpci_core \<Rightarrow> vpci_fault + int \<times> vpci_core" where
  "vpci_ioctl loopback e p cmd arg c = (case core_heap c p of
     None \<Rightarrow> Inl Use_after_free
   | Some s \<Rightarrow> (case ioctl_device loopback e cmd arg s of Inl f \<Rightarrow> Inl f
       | Inr (r, s') \<Rightarrow> Inr (r, c\<lparr>core_heap := (core_heap c)(p \<mapsto> s')\<rparr>)))"

section \<open>The platform driver\<close>

text \<open>Probing returns the status and, on success, the device object that becomes the driver data.\<close>

definition vpci_probe :: "bool \<Rightarrow> bool \<Rightarrow> bool \<Rightarrow> bool \<Rightarrow> vpci_core \<Rightarrow> int \<times> nat option \<times> vpci_core" where
  "vpci_probe ok_id ok_dev ok_config ok_shmem c =
     (case vpci_get_free_id ok_id c of (i, c1) \<Rightarrow>
        if i < 0 then (- ENODEV, None, c1)
        else if \<not> ok_dev then (- ENOMEM, None, vpci_put_id c1 (nat i))
        else case vpci_device_init ok_config ok_shmem (zero_device (nat i)) of (ret, d) \<Rightarrow>
          if ret < 0 then (ret, None, vpci_put_id c1 (nat i))
          else let p = core_next c1 in
            (0, Some p, c1\<lparr>core_heap := (core_heap c1)(p \<mapsto> (d, no_live)), core_next := p + 1,
               core_idr := (core_idr c1)(nat i \<mapsto> Some p), core_count := core_count c1 + 1\<rparr>))"

text \<open>The device is freed whatever its reference count.\<close>

definition vpci_remove :: "nat option \<Rightarrow> vpci_core \<Rightarrow> vpci_fault + vpci_core" where
  "vpci_remove drvdata c = (case drvdata of
     None \<Rightarrow> Inr (c\<lparr>core_count := core_count c - 1\<rparr>)
   | Some p \<Rightarrow> (case core_heap c p of
       None \<Rightarrow> Inl Use_after_free
     | Some s \<Rightarrow> (case vpci_device_exit s of Inl f \<Rightarrow> Inl f
         | Inr (d, l) \<Rightarrow>
             let c1 = vpci_put_id c (dev_id d)
             in Inr (c1\<lparr>core_heap := (core_heap c1)(p := None), core_count := core_count c1 - 1\<rparr>))))"

section \<open>Module initialisation\<close>

datatype vpci_reg = Reg_chrdev | Reg_class | Reg_cdev | Reg_driver

text \<open>The four registrations' results; the state is the list of what is registered, newest first.\<close>

record core_env =
  env_chrdev :: int
  env_class :: int
  env_cdev :: int
  env_driver :: int

definition vpci_core_init :: "core_env \<Rightarrow> int \<times> vpci_reg list" where
  "vpci_core_init e =
     (let undo_chrdev = removeAll Reg_chrdev; undo_class = removeAll Reg_class;
          undo_cdev = removeAll Reg_cdev in
      if env_chrdev e < 0 then (env_chrdev e, [])
      else let r1 = [Reg_chrdev] in
      if env_class e < 0 then (env_class e, undo_chrdev r1)
      else let r2 = Reg_class # r1 in
      if env_cdev e < 0 then (env_cdev e, undo_chrdev (undo_class r2))
      else let r3 = Reg_cdev # r2 in
      if env_driver e < 0 then (env_driver e, undo_chrdev (undo_class (undo_cdev r3)))
      else let r4 = Reg_driver # r3 in (vpci_net_init, r4))"

definition vpci_core_exit :: "vpci_reg list \<Rightarrow> vpci_reg list" where
  "vpci_core_exit r =
     removeAll Reg_chrdev (removeAll Reg_class (removeAll Reg_cdev (removeAll Reg_driver r)))"

text \<open>Fact: module initialisation either succeeds with all four registrations, or returns the
  error of the first one that failed with none left; module exit removes all of them.\<close>

theorem vpci_core_init_unwinds:
  "(let (ret, regs) = vpci_core_init e in
     (if ret = 0 then regs = [Reg_driver, Reg_cdev, Reg_class, Reg_chrdev]
      else ret < 0 \<and> regs = []) \<and>
     ret = (if env_chrdev e < 0 then env_chrdev e else if env_class e < 0 then env_class e
            else if env_cdev e < 0 then env_cdev e else if env_driver e < 0 then env_driver e else 0) \<and>
     vpci_core_exit regs = [])"
  by (simp add: vpci_core_init_def vpci_core_exit_def vpci_net_init_def Let_def)

section \<open>The device table\<close>

text \<open>Ids are below the limit, point to live devices that carry them, and are not shared.\<close>

definition core_ok :: "vpci_core \<Rightarrow> bool" where
  "core_ok c \<longleftrightarrow>
     (\<forall>i r. core_idr c i = Some r \<longrightarrow> i < VPCI_MAX_DEVS) \<and>
     (\<forall>i p. core_idr c i = Some (Some p) \<longrightarrow> (\<exists>d l. core_heap c p = Some (d, l) \<and> dev_id d = i)) \<and>
     (\<forall>p d l. core_heap c p = Some (d, l) \<longrightarrow>
        p < core_next c \<and> core_idr c (dev_id d) = Some (Some p) \<and>
        length (dev_bars d) = VPCI_MAX_BARS)"

datatype vpci_core_op =
  Op_probe bool bool bool bool | Op_remove nat | Op_open nat | Op_release nat
  | Op_ioctl bool net_env nat vpci_ioctl_cmd nat

fun vpci_core_step :: "vpci_core \<Rightarrow> vpci_core_op \<Rightarrow> vpci_core" where
  "vpci_core_step c (Op_probe k a b s) = snd (snd (vpci_probe k a b s c))"
| "vpci_core_step c (Op_remove p) = (case vpci_remove (Some p) c of Inr c' \<Rightarrow> c' | Inl _ \<Rightarrow> c)"
| "vpci_core_step c (Op_open i) = (case vpci_open i c of Inr (_, c') \<Rightarrow> c' | Inl _ \<Rightarrow> c)"
| "vpci_core_step c (Op_release p) = (case vpci_release p c of Inr c' \<Rightarrow> c' | Inl _ \<Rightarrow> c)"
| "vpci_core_step c (Op_ioctl lb e p cmd arg) =
     (case vpci_ioctl lb e p cmd arg c of Inr (_, c') \<Rightarrow> c' | Inl _ \<Rightarrow> c)"

lemma find_Some_upt:
  "find P [0..<n] = Some i \<Longrightarrow> i < n \<and> P i"
  by (auto simp: find_Some_iff)

lemma find_None_upt: "find P [0..<n] = None \<longleftrightarrow> (\<forall>i < n. \<not> P i)"
  by (simp add: find_None_iff)

lemma get_free_id_cases:
  obtains (nomem) "\<not> ok" "vpci_get_free_id ok c = (- ENOMEM, c)"
  | (full) "\<forall>i < VPCI_MAX_DEVS. core_idr c i \<noteq> None" "vpci_get_free_id ok c = (- ENOSPC, c)"
  | (free) i where "ok" "i < VPCI_MAX_DEVS" "core_idr c i = None"
      "vpci_get_free_id ok c = (int i, c\<lparr>core_idr := (core_idr c)(i \<mapsto> None)\<rparr>)"
proof (cases ok)
  case False
  then show ?thesis using nomem by (simp add: vpci_get_free_id_def)
next
  case ok: True
  show ?thesis
  proof (cases "find (\<lambda>i. core_idr c i = None) [0..<VPCI_MAX_DEVS]")
    case None
    then have "vpci_get_free_id ok c = (- ENOSPC, c)" using ok by (simp add: vpci_get_free_id_def)
    then show ?thesis using full None [unfolded find_None_upt] by blast
  next
    case (Some i)
    then show ?thesis using free ok find_Some_upt [OF Some] by (simp add: vpci_get_free_id_def)
  qed
qed

lemma put_id_undo:
  "core_idr c i = None \<Longrightarrow> vpci_put_id (c\<lparr>core_idr := (core_idr c)(i \<mapsto> x)\<rparr>) i = c"
  by (simp add: vpci_put_id_def fun_upd_idem)

lemma device_init_shape:
  "vpci_device_init a b d = (ret, d') \<Longrightarrow> dev_id d' = dev_id d \<and> length (dev_bars d') = length (dev_bars d)
     \<and> ret \<le> 0 \<and> (ret < 0 \<longleftrightarrow> \<not> (a \<and> b))"
  by (auto simp: vpci_device_init_def Let_def split: if_split_asm)

lemma connect_shape:
  "vpci_net_connect e (d, l) = (ret, d', l') \<Longrightarrow> dev_id d' = dev_id d \<and> dev_bars d' = dev_bars d"
  by (auto simp: vpci_net_connect_def Let_def split: if_split_asm)

lemma disconnect_shape:
  "vpci_net_disconnect who (d, l) = Inr (d', l') \<Longrightarrow> dev_id d' = dev_id d \<and> dev_bars d' = dev_bars d"
  by (auto simp: vpci_net_disconnect_def Let_def split: if_split_asm)

lemma bar_unmap_id [simp]: "dev_id (vpci_bar_unmap d n) = dev_id d"
  by (simp add: vpci_bar_unmap_def Let_def)

lemma device_exit_shape:
  "vpci_device_exit (d, l) = Inr (d', l') \<Longrightarrow>
     dev_id d' = dev_id d \<and> length (dev_bars d') = length (dev_bars d)"
  by (auto simp: vpci_device_exit_def Let_def dest!: disconnect_shape split: if_split_asm sum.splits)

lemma ioctl_shape:
  "ioctl_device lb e cmd arg (d, l) = Inr (r, d', l') \<Longrightarrow>
     dev_id d' = dev_id d \<and> dev_bars d' = dev_bars d"
  by (cases cmd) (auto dest!: connect_shape disconnect_shape split: if_split_asm sum.splits)

lemma core_okI:
  assumes "\<And>i r. core_idr c i = Some r \<Longrightarrow> i < VPCI_MAX_DEVS"
    and "\<And>i p. core_idr c i = Some (Some p) \<Longrightarrow> \<exists>d l. core_heap c p = Some (d, l) \<and> dev_id d = i"
    and "\<And>p d l. core_heap c p = Some (d, l) \<Longrightarrow> p < core_next c \<and>
      core_idr c (dev_id d) = Some (Some p) \<and> length (dev_bars d) = VPCI_MAX_BARS"
  shows "core_ok c"
  using assms by (simp add: core_ok_def)

lemma core_okD:
  assumes "core_ok c"
  shows "core_idr c i = Some r \<Longrightarrow> i < VPCI_MAX_DEVS"
    "core_idr c i = Some (Some p) \<Longrightarrow> \<exists>d l. core_heap c p = Some (d, l) \<and> dev_id d = i"
    "core_heap c p = Some (d, l) \<Longrightarrow> p < core_next c \<and>
      core_idr c (dev_id d) = Some (Some p) \<and> length (dev_bars d) = VPCI_MAX_BARS"
  using assms unfolding core_ok_def by blast+

text \<open>A device replaced by one with the same id and as many BARs.\<close>

lemma core_ok_update:
  assumes "core_ok c" "core_heap c p = Some (d, l)" "dev_id d' = dev_id d"
    "length (dev_bars d') = length (dev_bars d)"
  shows "core_ok (c\<lparr>core_heap := (core_heap c)(p \<mapsto> (d', l'))\<rparr>)"
proof (rule core_okI, goal_cases)
  case (1 i r)
  then show ?case using core_okD(1) [OF assms(1)] by simp
next
  case (2 i q)
  then show ?case using core_okD(2) [OF assms(1), of i q] assms(2,3) by auto
next
  case (3 q d2 l2)
  then show ?case
    using core_okD(3) [OF assms(1), of q d2 l2] core_okD(3) [OF assms(1,2)] assms(3,4)
    by (auto split: if_split_asm)
qed

lemma core_ok_probe:
  assumes ok: "core_ok c"
  shows "core_ok (snd (snd (vpci_probe k a b s c)))"
proof (cases rule: get_free_id_cases [of k c])
  case nomem
  then show ?thesis using ok by (simp add: vpci_probe_def)
next
  case full
  then show ?thesis using ok by (simp add: vpci_probe_def)
next
  case (free i)
  obtain ret d where d: "vpci_device_init b s (zero_device i) = (ret, d)" by (meson surj_pair)
  have new: "dev_id d = i" "length (dev_bars d) = VPCI_MAX_BARS"
    using device_init_shape [OF d] by (simp_all add: zero_device_def)
  have fresh: "core_heap c (core_next c) = None"
    using ok unfolding core_ok_def by (metis less_irrefl not_None_eq surj_pair)
  have "core_ok (c\<lparr>core_heap := (core_heap c)(core_next c \<mapsto> (d, no_live)), core_next := core_next c + 1,
      core_idr := (core_idr c)(i \<mapsto> Some (core_next c)), core_count := core_count c + 1\<rparr>)"
  proof (rule core_okI, goal_cases)
    case (1 j r)
    then show ?case using core_okD(1) [OF ok, of j] free(2) by (simp split: if_split_asm)
  next
    case (2 j q)
    then show ?case
      using core_okD(2) [OF ok, of j q] fresh new by (auto split: if_split_asm)
  next
    case (3 q d' l')
    then show ?case
      using core_okD(3) [OF ok, of q d' l'] free(3) new by (auto split: if_split_asm)
  qed
  then show ?thesis
    using free d ok put_id_undo [OF free(3)] by (simp add: vpci_probe_def Let_def)
qed

lemma core_ok_remove:
  assumes ok: "core_ok c" and r: "vpci_remove (Some p) c = Inr c'"
  shows "core_ok c'"
proof -
  obtain d l where h: "core_heap c p = Some (d, l)"
    using r by (auto simp: vpci_remove_def split: option.splits)
  obtain d' l' where e: "vpci_device_exit (d, l) = Inr (d', l')"
    using r h by (auto simp: vpci_remove_def split: sum.splits)
  have c': "c' = c\<lparr>core_idr := (core_idr c)(dev_id d := None), core_heap := (core_heap c)(p := None),
      core_count := core_count c - 1\<rparr>"
    using r h e device_exit_shape [OF e] by (simp add: vpci_remove_def vpci_put_id_def Let_def)
  have "core_idr c (dev_id d) = Some (Some p)" using ok h by (auto simp: core_ok_def)
  note idr = this
  show ?thesis unfolding c'
  proof (rule core_okI, goal_cases)
    case (1 j r)
    then show ?case using core_okD(1) [OF ok, of j] by (simp split: if_split_asm)
  next
    case (2 j q)
    then show ?case using core_okD(2) [OF ok, of j q] h by (auto split: if_split_asm)
  next
    case (3 q d2 l2)
    then show ?case using core_okD(3) [OF ok, of q d2 l2] idr by (auto split: if_split_asm)
  qed
qed

lemma core_ok_step: "core_ok c \<Longrightarrow> core_ok (vpci_core_step c x)"
proof (cases x)
  case (Op_probe k a b s)
  then show "core_ok c \<Longrightarrow> ?thesis" using core_ok_probe by simp
next
  case (Op_remove p)
  then show "core_ok c \<Longrightarrow> ?thesis" using core_ok_remove by (auto split: sum.split)
next
  case (Op_open i)
  then show "core_ok c \<Longrightarrow> ?thesis"
    by (auto simp: vpci_open_def core_ok_update split: option.split)
next
  case (Op_release p)
  then show "core_ok c \<Longrightarrow> ?thesis"
    by (auto simp: vpci_release_def core_ok_update split: option.split)
next
  case (Op_ioctl lb e p cmd arg)
  then show "core_ok c \<Longrightarrow> ?thesis"
    by (auto simp: vpci_ioctl_def dest!: ioctl_shape intro: core_ok_update
        split: option.split sum.split)
qed

interpretation vpci_core: step_system vpci_core_step core_ok
  by unfold_locales (rule core_ok_step)

definition core_start :: vpci_core where
  "core_start = \<lparr>core_heap = (\<lambda>p. None), core_next = 0, core_idr = (\<lambda>i. None), core_count = 0\<rparr>"

lemma core_start_ok: "core_ok core_start"
  by (simp add: core_ok_def core_start_def)

text \<open>Property C12: from module load, after any sequence of probes, removals, opens, releases and
  ioctls: every device has an id below 16, the id table leads back to it, and so no two devices
  share an id.\<close>

theorem vpci_device_ids_unique:
  "let c = foldl vpci_core_step core_start ops in
     (\<forall>p d l. core_heap c p = Some (d, l) \<longrightarrow>
        dev_id d < VPCI_MAX_DEVS \<and> core_idr c (dev_id d) = Some (Some p)) \<and>
     (\<forall>p q d l d' l'. core_heap c p = Some (d, l) \<and> core_heap c q = Some (d', l') \<and>
        dev_id d = dev_id d' \<longrightarrow> p = q)"
  using vpci_core.run_inv [OF core_start_ok, of ops] unfolding core_ok_def Let_def
  by (metis option.inject)

text \<open>Fact: probing an \<open>n\<close>-th device: with a free id and memory it succeeds with the
  device open-able under its id; without an id (all 16 taken, or no memory for the id table) it
  returns \<open>-ENODEV\<close>, with no memory for the device \<open>-ENOMEM\<close>, and in both cases nothing has
  changed.\<close>

theorem vpci_probe_outcome:
  assumes "core_ok c"
  shows "if \<not> k \<or> (\<forall>i < VPCI_MAX_DEVS. core_idr c i \<noteq> None)
    then vpci_probe k a b s c = (- ENODEV, None, c)
    else if \<not> (a \<and> b \<and> s) then vpci_probe k a b s c = (- ENOMEM, None, c)
    else \<exists>p c' i. vpci_probe k a b s c = (0, Some p, c') \<and> core_heap c p = None \<and>
      i < VPCI_MAX_DEVS \<and> core_idr c i = None \<and> core_count c' = core_count c + 1 \<and>
      (\<exists>c''. vpci_open i c' = Inr (p, c''))"
proof (cases rule: get_free_id_cases [of k c])
  case nomem
  then show ?thesis by (simp add: vpci_probe_def)
next
  case full
  then show ?thesis by (simp add: vpci_probe_def)
next
  case (free i)
  have fresh: "core_heap c (core_next c) = None"
    using assms unfolding core_ok_def by (metis less_irrefl not_None_eq surj_pair)
  have "vpci_probe k a b s c = (- ENOMEM, None, c)" if "\<not> (a \<and> b \<and> s)"
    using that free put_id_undo [OF free(3)]
    by (auto simp: vpci_probe_def vpci_device_init_def Let_def)
  moreover have "\<exists>p c'. vpci_probe k True True True c = (0, Some p, c') \<and> core_heap c p = None \<and>
      core_count c' = core_count c + 1 \<and> (\<exists>c''. vpci_open i c' = Inr (p, c''))"
    using free fresh by (simp add: vpci_probe_def vpci_device_init_def vpci_open_def Let_def)
  ultimately show ?thesis using free by auto
qed

text \<open>Fact: removing a device while a file has it open frees it although it is referenced:
  whatever the file is then used for, an ioctl or its release, reads freed memory.\<close>

theorem vpci_remove_while_open:
  assumes "vpci_open i c = Inr (p, c1)" "vpci_remove (Some p) c1 = Inr c2"
  shows "vpci_release p c2 = Inl Use_after_free \<and> vpci_ioctl lb e p cmd arg c2 = Inl Use_after_free"
proof -
  have "core_heap c2 p = None"
    using assms(2) by (auto simp: vpci_remove_def Let_def split: option.splits sum.splits)
  then show ?thesis by (simp add: vpci_release_def vpci_ioctl_def)
qed

section \<open>Concrete runs\<close>

lemma first_free_id: "find (\<lambda>i. core_idr core_start i = None) [0..<VPCI_MAX_DEVS] = Some 0"
  by (simp add: core_start_def VPCI_MAX_DEVS_def upt_conv_Cons)

theorem vpci_probe_outcome_witness:
  "\<exists>p c'. vpci_probe True True True True core_start = (0, Some p, c') \<and> core_count c' = 1"
proof -
  have free: "\<not> (\<not> True \<or> (\<forall>i < VPCI_MAX_DEVS. core_idr core_start i \<noteq> None))"
    by (auto simp: core_start_def VPCI_MAX_DEVS_def intro: exI [of _ 0])
  obtain p c' where "vpci_probe True True True True core_start = (0, Some p, c')"
      "core_count c' = core_count core_start + 1"
    using vpci_probe_outcome [OF core_start_ok, of True True True True]
    unfolding if_not_P [OF free] by auto
  then show ?thesis by (simp add: core_start_def)
qed

text \<open>The first device, open.\<close>

definition core_one_open :: vpci_core where
  "core_one_open = vpci_core_step (vpci_core_step core_start (Op_probe True True True True)) (Op_open 0)"

lemma first_probe:
  "\<exists>d. vpci_core_step core_start (Op_probe True True True True) =
     core_start\<lparr>core_heap := (\<lambda>p. None)(0 \<mapsto> (d, no_live)), core_next := 1,
       core_idr := (\<lambda>i. None)(0 \<mapsto> Some 0), core_count := 1\<rparr> \<and> dev_connected d = False \<and> dev_id d = 0"
proof (intro exI conjI)
  let ?d = "snd (vpci_device_init True True (zero_device 0))"
  show "vpci_core_step core_start (Op_probe True True True True) =
     core_start\<lparr>core_heap := (\<lambda>p. None)(0 \<mapsto> (?d, no_live)), core_next := 1,
       core_idr := (\<lambda>i. None)(0 \<mapsto> Some 0), core_count := 1\<rparr>"
    using first_free_id
    by (simp add: vpci_probe_def vpci_get_free_id_def vpci_device_init_def Let_def)
      (simp add: core_start_def)
qed (simp_all add: vpci_device_init_def zero_device_def Let_def)

theorem vpci_remove_while_open_witness:
  "\<exists>c c1 c2. vpci_open 0 c = Inr (0, c1) \<and> vpci_remove (Some 0) c1 = Inr c2 \<and>
     vpci_release 0 c2 = Inl Use_after_free"
proof -
  obtain d where d: "vpci_core_step core_start (Op_probe True True True True) =
     core_start\<lparr>core_heap := (\<lambda>p. None)(0 \<mapsto> (d, no_live)), core_next := 1,
       core_idr := (\<lambda>i. None)(0 \<mapsto> Some 0), core_count := 1\<rparr>" "dev_connected d = False"
    using first_probe by blast
  let ?c = "vpci_core_step core_start (Op_probe True True True True)"
  obtain c1 where 1: "vpci_open 0 ?c = Inr (0, c1)"
      "core_heap c1 0 = Some (d\<lparr>dev_refcount := dev_refcount d + 1\<rparr>, no_live)"
    unfolding d(1) by (simp add: vpci_open_def)
  obtain c2 where 2: "vpci_remove (Some 0) c1 = Inr c2"
    using 1(2) d(2) by (simp add: vpci_remove_def vpci_device_exit_def Let_def)
  show ?thesis using vpci_remove_while_open [OF 1(1) 2, of False good_env VPCI_IOCTL_other 0] 1 2
    by blast
qed

theorem vpci_device_ids_unique_witness:
  "\<exists>d l. core_heap core_one_open 0 = Some (d, l) \<and> dev_id d < VPCI_MAX_DEVS \<and>
     core_idr core_one_open (dev_id d) = Some (Some 0)"
proof -
  obtain d where d: "vpci_core_step core_start (Op_probe True True True True) =
     core_start\<lparr>core_heap := (\<lambda>p. None)(0 \<mapsto> (d, no_live)), core_next := 1,
       core_idr := (\<lambda>i. None)(0 \<mapsto> Some 0), core_count := 1\<rparr>"
    using first_probe by blast
  have "\<exists>d l. core_heap core_one_open 0 = Some (d, l)"
    unfolding core_one_open_def d by (simp add: vpci_open_def)
  moreover have "core_one_open = foldl vpci_core_step core_start [Op_probe True True True True, Op_open 0]"
    by (simp add: core_one_open_def)
  ultimately show ?thesis
    using vpci_device_ids_unique [of "[Op_probe True True True True, Op_open 0]"]
    unfolding Let_def by metis
qed

end
