(* ===== verification/Ncm_Param.thy ===== *)
theory Ncm_Param
  imports Driver_Prelude
begin

text \<open>
  CDC NCM (\<open>modules/ncm/cdc_ncm.c\<close>), negotiation: the context, the clamping of the transfer sizes,
  the alignment parameters, the datagram size and MTU, and the sysfs attributes that change them.
  The tunable limits of the kernel header \<open>linux/usb/cdc_ncm.h\<close> are a parameter \<open>L\<close>; the layout of
  the wire structures is that of the NCM specification. The USB control transfers, \<open>kstrtoul\<close> and
  the flush through \<open>usbnet_start_xmit\<close> are parameters.
\<close>

section \<open>Options as lists\<close>

definition opt_list :: "'a option \<Rightarrow> 'a list" where
  "opt_list x = (case x of None \<Rightarrow> [] | Some a \<Rightarrow> [a])"

lemma opt_list_simps [simp]: "opt_list None = []" "opt_list (Some a) = [a]"
  by (simp_all add: opt_list_def)

section \<open>Limits, parameters, context\<close>

record ncm_limits =
  NTB_MAX_SIZE_RX :: nat
  NTB_MAX_SIZE_TX :: nat
  NTB_DEF_SIZE_RX :: nat
  NTB_DEF_SIZE_TX :: nat
  NTB_MIN_IN_SIZE :: nat
  NTB_MIN_OUT_SIZE :: nat
  MAX_DATAGRAM_SIZE :: nat
  MIN_DATAGRAM_SIZE :: nat
  MBIM_MIN_DATAGRAM_SIZE :: nat
  MIN_TX_PKT :: nat
  DPT_DATAGRAMS_MAX :: nat
  NDP_ALIGN_MIN :: nat
  LOW_MEM_MAX_CNT :: nat
  TIMER_INTERVAL_USEC :: nat
  TIMER_INTERVAL_MIN :: nat
  TIMER_INTERVAL_MAX :: nat
  TIMER_PENDING_CNT :: nat
  RESTART_TIMER_DATAGRAM_CNT :: nat

text \<open>The answer to \<open>GET_NTB_PARAMETERS\<close>, in host order.\<close>

record ncm_parm =
  bmNtbFormatsSupported :: nat
  dwNtbInMaxSize :: nat
  dwNtbOutMaxSize :: nat
  wNdpOutDivisor :: nat
  wNdpOutPayloadRemainder :: nat
  wNdpOutAlignment :: nat
  wNtbOutMaxDatagrams :: nat

text \<open>What the functional descriptors of the control interface say; \<open>None\<close> for a missing one.\<close>

record ncm_desc =
  comm_is_mbim :: bool
  func_desc :: "nat option"
  ether_desc :: "nat option"
  mbim_desc :: "(nat \<times> nat) option"
  mbim_extended_desc :: "nat option"

datatype ntb_format = Ntb16 | Ntb32

record sk_buff =
  sk_data :: bytes
  sk_cap :: nat

record ncm_ctx =
  ncm_parm :: ncm_parm
  ncm_desc :: ncm_desc
  ncm_format :: ntb_format
  flag_ndp_to_end :: bool
  flag_prefer_ntb32 :: bool
  rx_max :: nat
  tx_max :: nat
  tx_remainder :: nat
  tx_modulus :: nat
  tx_ndp_modulus :: nat
  tx_max_datagrams :: nat
  max_ndp_size :: nat
  max_datagram_size :: nat
  min_tx_pkt :: nat
  timer_interval :: nat
  tx_timer_pending :: nat
  tx_timer_active :: bool
  ctx_stop :: bool
  tx_seq :: nat
  rx_seq :: nat
  tx_curr_size :: nat
  tx_low_mem_val :: nat
  tx_low_mem_max_cnt :: nat
  tx_curr_frame_num :: nat
  tx_curr_frame_payload :: nat
  tx_curr_skb :: "sk_buff option"
  tx_rem_skb :: "bytes option"
  tx_rem_sign :: bytes
  delayed_ndp :: "bytes option"
  tx_reason_ntb_full :: u32
  tx_reason_ndp_full :: u32
  tx_reason_timeout :: u32
  tx_reason_max_datagram :: u32
  tx_overhead :: u32
  tx_ntbs :: u32
  rx_overhead :: u32
  rx_ntbs :: u32
  net_mtu :: int
  net_running :: bool
  net_tx_dropped :: nat
  net_carrier :: bool
  rx_urb_size :: nat
  hard_mtu :: nat

definition ETH_HLEN :: nat where "ETH_HLEN = 14"

fun nth_size :: "ntb_format \<Rightarrow> nat" where "nth_size Ntb16 = 12" | "nth_size Ntb32 = 16"
fun ndp_size :: "ntb_format \<Rightarrow> nat" where "ndp_size Ntb16 = 8" | "ndp_size Ntb32 = 16"
fun dpe_size :: "ntb_format \<Rightarrow> nat" where "dpe_size Ntb16 = 4" | "dpe_size Ntb32 = 8"

section \<open>C arithmetic\<close>

definition wsub32 :: "nat \<Rightarrow> nat \<Rightarrow> nat" where
  "wsub32 a b = nat ((int a - int b) mod 2 ^ 32)"

definition wsub64 :: "nat \<Rightarrow> nat \<Rightarrow> nat" where
  "wsub64 a b = nat ((int a - int b) mod 2 ^ 64)"

definition clamp :: "nat \<Rightarrow> nat \<Rightarrow> nat \<Rightarrow> nat" where
  "clamp v lo hi = min (max v lo) hi"

lemma wsub32_le: "b \<le> a \<Longrightarrow> a < 2 ^ 32 \<Longrightarrow> wsub32 a b = a - b"
  by (simp add: wsub32_def of_nat_diff [symmetric] del: of_nat_diff)

lemma wsub64_le: "b \<le> a \<Longrightarrow> a < 2 ^ 64 \<Longrightarrow> wsub64 a b = a - b"
  by (simp add: wsub64_def of_nat_diff [symmetric] del: of_nat_diff)

lemma wsub32_less: "wsub32 a b < 2 ^ 32"
  by (simp add: wsub32_def nat_less_iff)

lemma clamp_bounds: "lo \<le> hi \<Longrightarrow> lo \<le> clamp v lo hi \<and> clamp v lo hi \<le> hi"
  by (simp add: clamp_def)

lemma clamp_id: "lo \<le> v \<Longrightarrow> v \<le> hi \<Longrightarrow> clamp v lo hi = v"
  by (simp add: clamp_def)

section \<open>Transfer sizes\<close>

definition cdc_ncm_check_rx_max :: "ncm_limits \<Rightarrow> ncm_ctx \<Rightarrow> nat \<Rightarrow> nat" where
  "cdc_ncm_check_rx_max L c new_rx =
     (let lo = NTB_MIN_IN_SIZE L;
          hi = min (NTB_MAX_SIZE_RX L) (dwNtbInMaxSize (ncm_parm c));
          hi = (if hi < lo then lo else hi)
      in clamp (new_rx mod 2 ^ 32) lo hi)"

definition cdc_ncm_check_tx_max :: "ncm_limits \<Rightarrow> ncm_ctx \<Rightarrow> nat \<Rightarrow> nat" where
  "cdc_ncm_check_tx_max L c new_tx =
     (let lo = max_datagram_size c + max_ndp_size c + nth_size (ncm_format c);
          hi = (if dwNtbOutMaxSize (ncm_parm c) = 0 then NTB_MAX_SIZE_TX L
                else clamp (dwNtbOutMaxSize (ncm_parm c)) (NTB_MIN_OUT_SIZE L) (NTB_MAX_SIZE_TX L));
          lo = min lo hi
      in clamp (new_tx mod 2 ^ 32) lo hi)"

text \<open>\<open>maxp\<close> is \<open>usb_maxpacket\<close> of the out pipe, \<open>cmd_ok\<close> whether the device accepted the new
  input size, \<open>flush\<close> what \<open>usbnet_start_xmit(NULL)\<close> does to the context. \<open>clamp_t(u16, ...)\<close> cuts
  each of its arguments to 16 bits.\<close>

definition cdc_ncm_update_rxtx_max ::
  "ncm_limits \<Rightarrow> nat \<Rightarrow> bool \<Rightarrow> (ncm_ctx \<Rightarrow> ncm_ctx) \<Rightarrow> ncm_ctx \<Rightarrow> nat \<Rightarrow> nat \<Rightarrow> ncm_ctx" where
  "cdc_ncm_update_rxtx_max L maxp cmd_ok flush c new_rx new_tx =
     (let rx = cdc_ncm_check_rx_max L c new_rx;
          rx = (if rx \<noteq> rx_max c \<and> cmd_ok then rx else rx_max c);
          c1 = c\<lparr>rx_max := rx, rx_urb_size := rx\<rparr>;
          tx = cdc_ncm_check_tx_max L c1 new_tx;
          tx = (if tx \<noteq> dwNtbOutMaxSize (ncm_parm c) \<and> tx mod maxp = 0 then tx + 1 else tx);
          c2 = (if net_running c1 \<and> tx > tx_max c1 then (flush c1)\<lparr>tx_curr_skb := None\<rparr> else c1)
      in c2\<lparr>tx_max := tx, hard_mtu := tx,
            min_tx_pkt := clamp (wsub32 tx (3 * maxp) mod 65536) (MIN_TX_PKT L mod 65536)
              (tx mod 65536)\<rparr>)"

section \<open>NCM and MBIM differences\<close>

definition cdc_ncm_flags :: "ncm_ctx \<Rightarrow> nat" where
  "cdc_ncm_flags c = (case (comm_is_mbim (ncm_desc c), mbim_desc (ncm_desc c)) of
     (True, Some (caps, seg)) \<Rightarrow> caps
   | _ \<Rightarrow> (case func_desc (ncm_desc c) of Some caps \<Rightarrow> caps | None \<Rightarrow> 0))"

definition cdc_ncm_eth_hlen :: "ncm_ctx \<Rightarrow> nat" where
  "cdc_ncm_eth_hlen c = (if comm_is_mbim (ncm_desc c) then 0 else ETH_HLEN)"

definition cdc_ncm_min_dgram_size :: "ncm_limits \<Rightarrow> ncm_ctx \<Rightarrow> nat" where
  "cdc_ncm_min_dgram_size L c =
     (if comm_is_mbim (ncm_desc c) then MBIM_MIN_DATAGRAM_SIZE L else MIN_DATAGRAM_SIZE L)"

definition cdc_ncm_max_dgram_size :: "ncm_limits \<Rightarrow> ncm_ctx \<Rightarrow> nat" where
  "cdc_ncm_max_dgram_size L c = (case (comm_is_mbim (ncm_desc c), mbim_desc (ncm_desc c)) of
     (True, Some (caps, seg)) \<Rightarrow> seg
   | _ \<Rightarrow> (case ether_desc (ncm_desc c) of Some seg \<Rightarrow> seg | None \<Rightarrow> MAX_DATAGRAM_SIZE L))"

section \<open>Initialisation\<close>

definition NCAP_CRC_MODE :: nat where "NCAP_CRC_MODE = 16"
definition NCAP_MAX_DATAGRAM_SIZE :: nat where "NCAP_MAX_DATAGRAM_SIZE = 8"
definition NTB32_SUPPORTED :: nat where "NTB32_SUPPORTED = 2"

text \<open>\<open>err\<close> and \<open>p\<close> are the outcome of \<open>GET_NTB_PARAMETERS\<close>, \<open>fmt_err\<close> that of \<open>SET_NTB_FORMAT\<close>.
  The outcome of \<open>SET_CRC_MODE\<close> is only logged.\<close>

definition cdc_ncm_init :: "ncm_limits \<Rightarrow> int \<Rightarrow> ncm_parm \<Rightarrow> int \<Rightarrow> ncm_ctx \<Rightarrow> int \<times> ncm_ctx" where
  "cdc_ncm_init L err p fmt_err c =
     (if err < 0 then (err, c)
      else let c1 = c\<lparr>ncm_parm := p, ncm_format := Ntb16\<rparr>;
               c2 = (if bmNtbFormatsSupported p AND NTB32_SUPPORTED \<noteq> 0
                     then let c2 = c1\<lparr>ncm_format := (if flag_prefer_ntb32 c then Ntb32 else Ntb16)\<rparr>
                          in if fmt_err < 0 then c2\<lparr>ncm_format := Ntb16\<rparr> else c2
                     else c1);
               c3 = c2\<lparr>rx_max := dwNtbInMaxSize p, tx_max := dwNtbOutMaxSize p,
                     tx_remainder := wNdpOutPayloadRemainder p, tx_modulus := wNdpOutDivisor p,
                     tx_ndp_modulus := wNdpOutAlignment p,
                     tx_max_datagrams :=
                       (if wNtbOutMaxDatagrams p = 0 \<or> wNtbOutMaxDatagrams p > DPT_DATAGRAMS_MAX L
                        then DPT_DATAGRAMS_MAX L else wNtbOutMaxDatagrams p)\<rparr>;
               F = ncm_format c3
           in (0, c3\<lparr>max_ndp_size := ndp_size F + (tx_max_datagrams c3 + 1) * dpe_size F,
                     timer_interval := TIMER_INTERVAL_USEC L * 1000\<rparr>))"

text \<open>\<open>new_size\<close> is an \<open>int\<close> read as \<open>u32\<close>. \<open>rd\<close> is the outcome of \<open>GET_MAX_DATAGRAM_SIZE\<close>, whose
  value only decides whether \<open>SET_MAX_DATAGRAM_SIZE\<close> is sent; that command's outcome is ignored.\<close>

definition cdc_ncm_set_dgram_size :: "ncm_limits \<Rightarrow> ncm_ctx \<Rightarrow> int \<Rightarrow> ncm_ctx" where
  "cdc_ncm_set_dgram_size L c new_size =
     (let sz = clamp (nat (new_size mod 2 ^ 32)) (cdc_ncm_min_dgram_size L c) (MAX_DATAGRAM_SIZE L);
          mtu = min (net_mtu c) (int sz - int (cdc_ncm_eth_hlen c));
          mtu = (case mbim_extended_desc (ncm_desc c) of
                   Some m \<Rightarrow> if m \<noteq> 0 \<and> int m < mtu then int m else mtu
                 | None \<Rightarrow> mtu)
      in c\<lparr>max_datagram_size := sz, net_mtu := mtu\<rparr>)"

text \<open>The control transfers \<open>cdc_ncm_set_dgram_size\<close> sends: reading the device's size when the
  capability is there, and writing the new one when the answer is complete and differs.\<close>

definition set_dgram_size_writes :: "ncm_limits \<Rightarrow> ncm_ctx \<Rightarrow> int \<Rightarrow> int \<times> nat \<Rightarrow> nat list" where
  "set_dgram_size_writes L c new_size rd =
     (let sz = clamp (nat (new_size mod 2 ^ 32)) (cdc_ncm_min_dgram_size L c) (MAX_DATAGRAM_SIZE L)
      in if cdc_ncm_flags c AND NCAP_MAX_DATAGRAM_SIZE = 0 then []
         else if fst rd \<noteq> 2 then []
         else if snd rd = sz then [] else [sz mod 65536])"

text \<open>\<open>val != ((-val) & val)\<close> on 32 bits.\<close>

definition not_pow2 :: "nat \<Rightarrow> bool" where
  "not_pow2 v = (let w = word_of_nat v :: u32 in w \<noteq> ((- w) AND w))"

definition bad_modulus :: "ncm_limits \<Rightarrow> nat \<Rightarrow> nat \<Rightarrow> bool" where
  "bad_modulus L maxlen v \<longleftrightarrow> v < NDP_ALIGN_MIN L \<or> not_pow2 v \<or> v \<ge> maxlen"

definition cdc_ncm_fix_modulus :: "ncm_limits \<Rightarrow> ncm_ctx \<Rightarrow> ncm_ctx" where
  "cdc_ncm_fix_modulus L c =
     (let ndp_modulus = (if bad_modulus L (tx_max c) (tx_ndp_modulus c) then NDP_ALIGN_MIN L
                         else tx_ndp_modulus c);
          modulus = (if bad_modulus L (tx_max c) (tx_modulus c) then NDP_ALIGN_MIN L
                     else tx_modulus c);
          remainder = (if tx_remainder c \<ge> modulus then 0 else tx_remainder c)
      in c\<lparr>tx_ndp_modulus := ndp_modulus, tx_modulus := modulus,
           tx_remainder := nat (((int remainder - int (cdc_ncm_eth_hlen c)) AND (int modulus - 1))
             mod 65536)\<rparr>)"

definition cdc_ncm_setup ::
  "ncm_limits \<Rightarrow> nat \<Rightarrow> bool \<Rightarrow> (ncm_ctx \<Rightarrow> ncm_ctx) \<Rightarrow> ncm_ctx \<Rightarrow> ncm_ctx" where
  "cdc_ncm_setup L maxp cmd_ok flush c =
     (let def_rx = min (NTB_DEF_SIZE_RX L) (dwNtbInMaxSize (ncm_parm c));
          def_tx = min (NTB_DEF_SIZE_TX L) (dwNtbOutMaxSize (ncm_parm c));
          c1 = cdc_ncm_update_rxtx_max L maxp cmd_ok flush c def_rx def_tx;
          c2 = cdc_ncm_fix_modulus L c1
      in cdc_ncm_set_dgram_size L c2 (int (cdc_ncm_max_dgram_size L c2)))"

definition cdc_ncm_change_mtu :: "ncm_limits \<Rightarrow> ncm_ctx \<Rightarrow> int \<Rightarrow> int \<times> ncm_ctx" where
  "cdc_ncm_change_mtu L c new_mtu =
     (let c1 = c\<lparr>net_mtu := new_mtu\<rparr>
      in (0, cdc_ncm_set_dgram_size L c1 (new_mtu + int (cdc_ncm_eth_hlen c1))))"

section \<open>Sysfs attributes\<close>

text \<open>\<open>kstrtoul\<close> is a parameter: its result on the buffer, \<open>None\<close> when it fails. The result is the
  store's return value (\<open>Inl\<close> an error, \<open>Inr\<close> the length) and the context.\<close>

definition min_tx_pkt_store :: "nat option \<Rightarrow> nat \<Rightarrow> ncm_ctx \<Rightarrow> (int + nat) \<times> ncm_ctx" where
  "min_tx_pkt_store parsed len c = (case parsed of
     None \<Rightarrow> (Inl (- EINVAL), c)
   | Some val \<Rightarrow> (Inr len, c\<lparr>min_tx_pkt := val mod 65536\<rparr>))"

definition rx_max_store ::
  "ncm_limits \<Rightarrow> nat \<Rightarrow> bool \<Rightarrow> (ncm_ctx \<Rightarrow> ncm_ctx) \<Rightarrow> nat option \<Rightarrow> nat \<Rightarrow> ncm_ctx \<Rightarrow>
     (int + nat) \<times> ncm_ctx" where
  "rx_max_store L maxp cmd_ok flush parsed len c = (case parsed of
     None \<Rightarrow> (Inl (- EINVAL), c)
   | Some val \<Rightarrow> if cdc_ncm_check_rx_max L c val \<noteq> val then (Inl (- EINVAL), c)
       else (Inr len, cdc_ncm_update_rxtx_max L maxp cmd_ok flush c val (tx_max c)))"

definition tx_max_store ::
  "ncm_limits \<Rightarrow> nat \<Rightarrow> bool \<Rightarrow> (ncm_ctx \<Rightarrow> ncm_ctx) \<Rightarrow> nat option \<Rightarrow> nat \<Rightarrow> ncm_ctx \<Rightarrow>
     (int + nat) \<times> ncm_ctx" where
  "tx_max_store L maxp cmd_ok flush parsed len c = (case parsed of
     None \<Rightarrow> (Inl (- EINVAL), c)
   | Some val \<Rightarrow> if cdc_ncm_check_tx_max L c val \<noteq> val then (Inl (- EINVAL), c)
       else (Inr len, cdc_ncm_update_rxtx_max L maxp cmd_ok flush c (rx_max c) val))"

definition tx_timer_usecs_store ::
  "ncm_limits \<Rightarrow> int + nat \<Rightarrow> nat \<Rightarrow> ncm_ctx \<Rightarrow> (int + nat) \<times> ncm_ctx" where
  "tx_timer_usecs_store L parsed len c = (case parsed of
     Inl e \<Rightarrow> (Inl e, c)
   | Inr val \<Rightarrow>
       if val \<noteq> 0 \<and> (val < TIMER_INTERVAL_MIN L \<or> val > TIMER_INTERVAL_MAX L) then (Inl (- EINVAL), c)
       else let c1 = c\<lparr>timer_interval := val * 1000 mod 2 ^ 32\<rparr>
            in (Inr len, if timer_interval c1 = 0 then c1\<lparr>tx_timer_pending := 0\<rparr> else c1))"

text \<open>\<open>enable == (ctx->drvflags & CDC_NCM_FLAG_NDP_TO_END)\<close> compares a bool with the flag's mask
  value \<open>flagval\<close>.\<close>

definition ndp_to_end_store ::
  "nat \<Rightarrow> bool \<Rightarrow> (ncm_ctx \<Rightarrow> ncm_ctx) \<Rightarrow> bool option \<Rightarrow> nat \<Rightarrow> ncm_ctx \<Rightarrow> (int + nat) \<times> ncm_ctx" where
  "ndp_to_end_store flagval alloc_ok flush parsed len c = (case parsed of
     None \<Rightarrow> (Inl (- EINVAL), c)
   | Some enable \<Rightarrow>
       if (if enable then 1 else 0) = (if flag_ndp_to_end c then flagval else 0) then (Inr len, c)
       else if enable \<and> delayed_ndp c = None \<and> \<not> alloc_ok then (Inl (- ENOMEM), c)
       else let c1 = (if enable \<and> delayed_ndp c = None
                      then c\<lparr>delayed_ndp := Some (replicate (max_ndp_size c) 0)\<rparr> else c)
            in (Inr len, (flush c1)\<lparr>flag_ndp_to_end := enable\<rparr>))"

section \<open>Powers of two\<close>

lemma bit_u32_iff: "bit (w :: u32) k \<longleftrightarrow> odd (unat w div 2 ^ k)"
proof -
  have "bit w k = bit (unat w) k" by (simp add: bit_unsigned_iff)
  then show ?thesis by (simp only: bit_iff_odd)
qed

lemma odd_div_top:
  "2 ^ k \<le> n \<Longrightarrow> n < 2 ^ Suc k \<Longrightarrow> odd (n div 2 ^ k)" for n :: nat
proof -
  assume "2 ^ k \<le> n" "n < 2 ^ Suc k"
  then have "n div 2 ^ k = 1" by (intro div_nat_eqI) simp_all
  then show ?thesis by simp
qed

lemma pow2_test:
  assumes "\<not> not_pow2 v" "0 < v" "v < 2 ^ 32"
  shows "\<exists>k. v = 2 ^ k"
proof -
  define w where "w = (word_of_nat v :: u32)"
  have uw: "unat w = v" using assms(3) by (simp add: w_def unat_of_nat)
  have "w AND (w - 1) = 0"
  proof -
    have "w = (- w) AND w" using assms(1) by (simp add: not_pow2_def w_def Let_def)
    also have "- w = NOT (w - 1)" by (simp add: minus_eq_not_minus_1)
    finally have "w AND (w - 1) = (NOT (w - 1) AND w) AND (w - 1)" by simp
    then show ?thesis by (simp add: and.commute and.assoc and.left_commute)
  qed
  obtain k where k: "2 ^ k \<le> v" "v < 2 ^ Suc k"
    using ex_power_ivl1 [of 2 v] assms(2) by auto
  show ?thesis
  proof (rule ccontr)
    assume "\<not> ?thesis"
    then have "2 ^ k \<le> v - 1" using k(1) le_neq_implies_less by fastforce
    moreover have "v - 1 < 2 ^ Suc k" using k(2) by simp
    moreover have "unat (w - 1) = v - 1"
    proof -
      have "w \<noteq> 0" using assms(2) uw by auto
      then show ?thesis using uw by (simp add: unat_minus_one)
    qed
    ultimately have "bit w k" "bit (w - 1) k"
      using odd_div_top [OF k] odd_div_top [of k "v - 1"] by (simp_all add: bit_u32_iff uw)
    then have "bit (w AND (w - 1)) k" by (simp add: bit_and_iff)
    then show False using \<open>w AND (w - 1) = 0\<close> by simp
  qed
qed

section \<open>Sane limits\<close>

text \<open>The relations between the header's constants that the driver relies on.\<close>

definition limits_ok :: "ncm_limits \<Rightarrow> bool" where
  "limits_ok L \<longleftrightarrow> 0 < NTB_MIN_IN_SIZE L \<and> NTB_MIN_IN_SIZE L \<le> NTB_MAX_SIZE_RX L \<and>
     NTB_MIN_OUT_SIZE L \<le> NTB_MAX_SIZE_TX L \<and> NTB_MAX_SIZE_RX L < 2 ^ 31 \<and>
     NTB_MAX_SIZE_TX L < 2 ^ 31 \<and> MIN_DATAGRAM_SIZE L \<le> MAX_DATAGRAM_SIZE L \<and>
     MBIM_MIN_DATAGRAM_SIZE L \<le> MAX_DATAGRAM_SIZE L \<and> ETH_HLEN \<le> MIN_DATAGRAM_SIZE L \<and>
     MAX_DATAGRAM_SIZE L < 2 ^ 16 \<and> NDP_ALIGN_MIN L = 4 \<and> 0 < DPT_DATAGRAMS_MAX L \<and>
     DPT_DATAGRAMS_MAX L < 1000 \<and> NTB_DEF_SIZE_TX L \<le> NTB_MAX_SIZE_TX L"

definition kernel_limits :: ncm_limits where
  "kernel_limits = \<lparr>NTB_MAX_SIZE_RX = 65536, NTB_MAX_SIZE_TX = 65536, NTB_DEF_SIZE_RX = 16384,
     NTB_DEF_SIZE_TX = 16384, NTB_MIN_IN_SIZE = 2048, NTB_MIN_OUT_SIZE = 2048,
     MAX_DATAGRAM_SIZE = 8192, MIN_DATAGRAM_SIZE = 1514, MBIM_MIN_DATAGRAM_SIZE = 2048,
     MIN_TX_PKT = 512, DPT_DATAGRAMS_MAX = 40, NDP_ALIGN_MIN = 4, LOW_MEM_MAX_CNT = 10,
     TIMER_INTERVAL_USEC = 400, TIMER_INTERVAL_MIN = 5, TIMER_INTERVAL_MAX = 4294967,
     TIMER_PENDING_CNT = 2, RESTART_TIMER_DATAGRAM_CNT = 3\<rparr>"

lemma kernel_limits_ok: "limits_ok kernel_limits"
  by (simp add: limits_ok_def kernel_limits_def ETH_HLEN_def)

text \<open>Fact: the receive size is always within the driver's limits and, when the device can
  do the minimum, within the device's; a requested size in that range is kept, so asking for a
  clamped size again changes nothing.\<close>

theorem ncm_rx_max_clamped:
  assumes "limits_ok L"
  shows "let r = cdc_ncm_check_rx_max L c new_rx in
    NTB_MIN_IN_SIZE L \<le> r \<and> r \<le> NTB_MAX_SIZE_RX L \<and>
    r \<le> max (NTB_MIN_IN_SIZE L) (dwNtbInMaxSize (ncm_parm c)) \<and> cdc_ncm_check_rx_max L c r = r"
  using assms by (auto simp: cdc_ncm_check_rx_max_def limits_ok_def clamp_def Let_def min_def max_def)

text \<open>Fact: after the alignment parameters are sanitised they are powers of two of at least 4
  (below the transfer size unless 4), the remainder is below the modulus, and a payload placed at
  the adjusted remainder has its network header, one Ethernet header later, at the remainder the
  device asked for.\<close>

theorem ncm_fix_modulus_sane:
  assumes "limits_ok L" "tx_modulus c < 2 ^ 16" "tx_ndp_modulus c < 2 ^ 16"
  shows "let c' = cdc_ncm_fix_modulus L c in
    (\<exists>k. tx_ndp_modulus c' = 2 ^ k) \<and> (\<exists>k. tx_modulus c' = 2 ^ k) \<and>
    4 \<le> tx_ndp_modulus c' \<and> (tx_ndp_modulus c' < tx_max c \<or> tx_ndp_modulus c' = 4) \<and>
    4 \<le> tx_modulus c' \<and> (tx_modulus c' < tx_max c \<or> tx_modulus c' = 4) \<and>
    tx_remainder c' < tx_modulus c' \<and>
    (tx_remainder c' + cdc_ncm_eth_hlen c) mod tx_modulus c' =
      (if tx_remainder c < tx_modulus c' then tx_remainder c else 0)"
proof -
  have al: "NDP_ALIGN_MIN L = 4" using assms(1) by (simp add: limits_ok_def)
  define m where "m = (if bad_modulus L (tx_max c) (tx_ndp_modulus c) then 4 else tx_ndp_modulus c)"
  define n where "n = (if bad_modulus L (tx_max c) (tx_modulus c) then 4 else tx_modulus c)"
  define r where "r = (if tx_remainder c < n then tx_remainder c else 0)"
  define h where "h = cdc_ncm_eth_hlen c"
  have m: "\<exists>k. m = 2 ^ k" "4 \<le> m" "m < tx_max c \<or> m = 4"
    using pow2_test [of "tx_ndp_modulus c"] assms(3) exI [of "\<lambda>k. (4::nat) = 2 ^ k" 2]
    by (auto simp: m_def bad_modulus_def al)
  have n: "\<exists>k. n = 2 ^ k" "4 \<le> n" "n < tx_max c \<or> n = 4" "n < 2 ^ 16"
    using pow2_test [of "tx_modulus c"] assms(2) exI [of "\<lambda>k. (4::nat) = 2 ^ k" 2]
    by (auto simp: n_def bad_modulus_def al)
  obtain k where k: "n = 2 ^ k" using n(1) by blast
  have r: "r < n" using n(2) by (simp add: r_def)
  let ?R = "(int r - int h) AND (int n - 1)"
  have R: "?R = (int r - int h) mod int n"
    unfolding k by (simp add: take_bit_eq_mod [symmetric] take_bit_eq_mask mask_eq_exp_minus_1)
  have Rb: "0 \<le> ?R" "?R < int n" unfolding R using n(2) by simp_all
  then have nR: "nat (?R mod 65536) = nat ?R" "nat ?R < n" using n(4) by (simp_all add: nat_less_iff)
  have c': "cdc_ncm_fix_modulus L c =
      c\<lparr>tx_ndp_modulus := m, tx_modulus := n, tx_remainder := nat (?R mod 65536)\<rparr>"
    unfolding cdc_ncm_fix_modulus_def al m_def [symmetric] n_def [symmetric] h_def [symmetric]
    by (simp add: Let_def r_def not_le)
  have "int ((nat ?R + h) mod n) = (int (nat ?R) + int h) mod int n" by (simp add: zmod_int)
  also have "\<dots> = int r mod int n"
    using Rb(1) unfolding R by (simp add: mod_add_left_eq)
  finally have "(nat ?R + h) mod n = r" using r by simp
  then show ?thesis
    using m n nR by (simp add: c' Let_def h_def [symmetric] r_def [symmetric])
qed

text \<open>Fact: negotiation accepts any answer of the device: on success between 1 and the
  driver's maximum of datagrams per block, and an NDP sized for that many entries and the closing
  one in the format agreed on; the 32-bit format only if the device supports it, the driver prefers
  it and the device accepted it; on failure the error is returned and nothing has changed.\<close>

theorem ncm_init_negotiates:
  assumes "limits_ok L"
  shows "let (ret, c') = cdc_ncm_init L err p fmt_err c in
    if err < 0 then ret = err \<and> c' = c
    else ret = 0 \<and> ncm_parm c' = p \<and> 1 \<le> tx_max_datagrams c' \<and>
      tx_max_datagrams c' \<le> DPT_DATAGRAMS_MAX L \<and>
      max_ndp_size c' = ndp_size (ncm_format c') + (tx_max_datagrams c' + 1) * dpe_size (ncm_format c') \<and>
      (ncm_format c' = Ntb32 \<longleftrightarrow> bmNtbFormatsSupported p AND NTB32_SUPPORTED \<noteq> 0 \<and>
         flag_prefer_ntb32 c \<and> 0 \<le> fmt_err)"
  using assms unfolding cdc_ncm_init_def limits_ok_def Let_def by (simp; linarith?)

text \<open>Fact: the datagram size follows the MTU asked for within the driver's limits, whatever
  integer is asked for (a negative one is a large unsigned one), and the MTU never exceeds what a
  datagram can carry nor the operator's preference.\<close>

theorem ncm_change_mtu_bounds:
  assumes "limits_ok L"
  shows "let (ret, c') = cdc_ncm_change_mtu L c new_mtu in ret = 0 \<and>
    cdc_ncm_min_dgram_size L c \<le> max_datagram_size c' \<and> max_datagram_size c' \<le> MAX_DATAGRAM_SIZE L \<and>
    net_mtu c' \<le> new_mtu \<and> net_mtu c' + int (cdc_ncm_eth_hlen c) \<le> int (max_datagram_size c') \<and>
    (mbim_extended_desc (ncm_desc c) = Some m \<and> m \<noteq> 0 \<longrightarrow> net_mtu c' \<le> int m)"
proof -
  let ?c = "c\<lparr>net_mtu := new_mtu\<rparr>"
  let ?h = "int (cdc_ncm_eth_hlen c)"
  let ?c' = "cdc_ncm_set_dgram_size L ?c (new_mtu + ?h)"
  have same: "cdc_ncm_min_dgram_size L ?c = cdc_ncm_min_dgram_size L c"
    "cdc_ncm_eth_hlen ?c = cdc_ncm_eth_hlen c" "net_mtu ?c = new_mtu"
    by (simp_all add: cdc_ncm_min_dgram_size_def cdc_ncm_eth_hlen_def)
  define sz where "sz = clamp (nat ((new_mtu + ?h) mod 2 ^ 32)) (cdc_ncm_min_dgram_size L c)
    (MAX_DATAGRAM_SIZE L)"
  have "cdc_ncm_min_dgram_size L c \<le> MAX_DATAGRAM_SIZE L"
    using assms by (simp add: limits_ok_def cdc_ncm_min_dgram_size_def)
  then have sz: "cdc_ncm_min_dgram_size L c \<le> sz" "sz \<le> MAX_DATAGRAM_SIZE L"
    unfolding sz_def using clamp_bounds by blast+
  have c': "max_datagram_size ?c' = sz" "net_mtu ?c' =
      (case mbim_extended_desc (ncm_desc c) of
         Some m \<Rightarrow> if m \<noteq> 0 \<and> int m < min new_mtu (int sz - ?h) then int m else min new_mtu (int sz - ?h)
       | None \<Rightarrow> min new_mtu (int sz - ?h))"
    unfolding cdc_ncm_set_dgram_size_def Let_def same sz_def [symmetric] by simp_all
  have r: "cdc_ncm_change_mtu L c new_mtu = (0, ?c')"
    by (simp add: cdc_ncm_change_mtu_def same Let_def)
  show ?thesis
    unfolding r Let_def prod.case c' using sz by (auto split: option.split)
qed

lemma set_dgram_size_tx_max: "tx_max (cdc_ncm_set_dgram_size L c s) = tx_max c"
  by (simp add: cdc_ncm_set_dgram_size_def Let_def)

lemma fix_modulus_tx_max: "tx_max (cdc_ncm_fix_modulus L c) = tx_max c"
  by (simp add: cdc_ncm_fix_modulus_def Let_def)

text \<open>Fact: a device that reports \<open>dwNtbOutMaxSize = 0\<close> (which the code means to accept as
  "not set") ends up, before its datagram size is known, with a transfer buffer that holds exactly
  one NTB header and one NDP, up to a padding byte: no datagram fits it.\<close>

theorem ncm_unset_out_size_leaves_no_room:
  assumes "limits_ok L" "dwNtbOutMaxSize (ncm_parm c) = 0" "max_datagram_size c = 0"
    and "max_ndp_size c + nth_size (ncm_format c) \<le> NTB_MAX_SIZE_TX L"
  shows "let c' = cdc_ncm_setup L maxp cmd_ok flush c in
    tx_max c' \<in> {nth_size (ncm_format c) + max_ndp_size c, nth_size (ncm_format c) + max_ndp_size c + 1}"
proof -
  let ?v = "max_ndp_size c + nth_size (ncm_format c)"
  define c1 where "c1 = cdc_ncm_update_rxtx_max L maxp cmd_ok flush c
      (min (NTB_DEF_SIZE_RX L) (dwNtbInMaxSize (ncm_parm c))) 0"
  have "cdc_ncm_check_tx_max L (c\<lparr>rx_max := r, rx_urb_size := r\<rparr>) 0 = ?v" for r
    using assms(2,3,4) by (simp add: cdc_ncm_check_tx_max_def clamp_def)
  then have t: "tx_max c1 = (if ?v \<noteq> 0 \<and> ?v mod maxp = 0 then ?v + 1 else ?v)"
    using assms(2) by (simp add: c1_def cdc_ncm_update_rxtx_max_def Let_def)
  have "tx_max (cdc_ncm_setup L maxp cmd_ok flush c) = tx_max c1"
    by (simp only: cdc_ncm_setup_def c1_def Let_def set_dgram_size_tx_max fix_modulus_tx_max
        assms(2) min_0R)
  then show ?thesis unfolding Let_def t by simp
qed

text \<open>Fact: writing a value to \<open>ndp_to_end\<close> and the current setting: disabling is recognised as
  no change when it is off already, but enabling it when it is on is not (the comparison is with
  the flag's mask 2, not with 1): pending data is flushed although nothing changes.\<close>

theorem ncm_ndp_to_end_store_no_change:
  assumes "flag_ndp_to_end c \<longrightarrow> delayed_ndp c \<noteq> None"
  shows "ndp_to_end_store 2 alloc_ok flush (Some (flag_ndp_to_end c)) len c =
    (Inr len, if flag_ndp_to_end c then (flush c)\<lparr>flag_ndp_to_end := True\<rparr> else c)"
  using assms by (cases "flag_ndp_to_end c") (auto simp: ndp_to_end_store_def)

section \<open>A concrete device\<close>

definition demo_ctx :: ncm_ctx where
  "demo_ctx = \<lparr>ncm_parm = \<lparr>bmNtbFormatsSupported = 1, dwNtbInMaxSize = 2048, dwNtbOutMaxSize = 2048,
       wNdpOutDivisor = 4, wNdpOutPayloadRemainder = 0, wNdpOutAlignment = 4, wNtbOutMaxDatagrams = 0\<rparr>,
     ncm_desc = \<lparr>comm_is_mbim = False, func_desc = Some 0, ether_desc = Some 1514, mbim_desc = None,
       mbim_extended_desc = None\<rparr>,
     ncm_format = Ntb16, flag_ndp_to_end = False, flag_prefer_ntb32 = False, rx_max = 2048,
     tx_max = 2048, tx_remainder = 2, tx_modulus = 4, tx_ndp_modulus = 4, tx_max_datagrams = 40,
     max_ndp_size = 172, max_datagram_size = 1514, min_tx_pkt = 512, timer_interval = 400000,
     tx_timer_pending = 0, tx_timer_active = False, ctx_stop = False, tx_seq = 0, rx_seq = 0,
     tx_curr_size = 0, tx_low_mem_val = 0, tx_low_mem_max_cnt = 0, tx_curr_frame_num = 0,
     tx_curr_frame_payload = 0, tx_curr_skb = None, tx_rem_skb = None, tx_rem_sign = [],
     delayed_ndp = None, tx_reason_ntb_full = 0, tx_reason_ndp_full = 0, tx_reason_timeout = 0,
     tx_reason_max_datagram = 0, tx_overhead = 0, tx_ntbs = 0, rx_overhead = 0, rx_ntbs = 0,
     net_mtu = 1500, net_running = True, net_tx_dropped = 0, net_carrier = True, rx_urb_size = 2048,
     hard_mtu = 2048\<rparr>"

lemma demo_ctx_simps [simp]:
  "ncm_format demo_ctx = Ntb16" "tx_max demo_ctx = 2048" "rx_max demo_ctx = 2048"
  by (simp_all add: demo_ctx_def)

theorem ncm_rx_max_clamped_witness:
  "cdc_ncm_check_rx_max kernel_limits demo_ctx (cdc_ncm_check_rx_max kernel_limits demo_ctx 9999) =
     cdc_ncm_check_rx_max kernel_limits demo_ctx 9999"
  using ncm_rx_max_clamped [OF kernel_limits_ok, of demo_ctx 9999] by (simp add: Let_def)

theorem ncm_fix_modulus_sane_witness:
  "(tx_remainder (cdc_ncm_fix_modulus kernel_limits (demo_ctx\<lparr>tx_modulus := 24, tx_remainder := 3\<rparr>)) + 14)
     mod tx_modulus (cdc_ncm_fix_modulus kernel_limits (demo_ctx\<lparr>tx_modulus := 24, tx_remainder := 3\<rparr>)) = 3"
proof -
  let ?c = "demo_ctx\<lparr>tx_modulus := 24, tx_remainder := 3\<rparr>"
  have s: "tx_modulus ?c < 2 ^ 16" "tx_ndp_modulus ?c < 2 ^ 16" by (simp_all add: demo_ctx_def)
  have "4 \<le> tx_modulus (cdc_ncm_fix_modulus kernel_limits ?c)"
    using ncm_fix_modulus_sane [OF kernel_limits_ok s] by (simp only: Let_def)
  moreover have "(tx_remainder (cdc_ncm_fix_modulus kernel_limits ?c) + cdc_ncm_eth_hlen ?c) mod
      tx_modulus (cdc_ncm_fix_modulus kernel_limits ?c) =
      (if tx_remainder ?c < tx_modulus (cdc_ncm_fix_modulus kernel_limits ?c) then tx_remainder ?c else 0)"
    using ncm_fix_modulus_sane [OF kernel_limits_ok s] by (simp only: Let_def)
  moreover have "cdc_ncm_eth_hlen ?c = 14" "tx_remainder ?c = 3"
    by (simp_all add: cdc_ncm_eth_hlen_def ETH_HLEN_def demo_ctx_def)
  ultimately show ?thesis by simp
qed

theorem ncm_init_negotiates_witness:
  "tx_max_datagrams (snd (cdc_ncm_init kernel_limits 0 (ncm_parm demo_ctx) 0 demo_ctx)) \<le> 40"
  using ncm_init_negotiates [OF kernel_limits_ok, of 0 "ncm_parm demo_ctx" 0 demo_ctx]
  by (simp add: kernel_limits_def split: prod.splits)

theorem ncm_change_mtu_bounds_witness:
  "net_mtu (snd (cdc_ncm_change_mtu kernel_limits demo_ctx 9000)) + 14 \<le>
     int (max_datagram_size (snd (cdc_ncm_change_mtu kernel_limits demo_ctx 9000)))"
proof -
  have "cdc_ncm_eth_hlen demo_ctx = 14"
    by (simp add: cdc_ncm_eth_hlen_def ETH_HLEN_def demo_ctx_def)
  then show ?thesis
    using ncm_change_mtu_bounds [OF kernel_limits_ok, of demo_ctx 9000 0]
    by (cases "cdc_ncm_change_mtu kernel_limits demo_ctx 9000") simp
qed

theorem ncm_unset_out_size_leaves_no_room_witness:
  "tx_max (cdc_ncm_setup kernel_limits 64 True id
     (demo_ctx\<lparr>ncm_parm := (ncm_parm demo_ctx)\<lparr>dwNtbOutMaxSize := 0\<rparr>, max_datagram_size := 0\<rparr>)) \<in> {184, 185}"
proof -
  let ?c = "demo_ctx\<lparr>ncm_parm := (ncm_parm demo_ctx)\<lparr>dwNtbOutMaxSize := 0\<rparr>, max_datagram_size := 0\<rparr>"
  have "dwNtbOutMaxSize (ncm_parm ?c) = 0" "max_datagram_size ?c = 0"
    "max_ndp_size ?c + nth_size (ncm_format ?c) \<le> NTB_MAX_SIZE_TX kernel_limits"
    by (simp_all add: demo_ctx_def kernel_limits_def)
  note r = ncm_unset_out_size_leaves_no_room [OF kernel_limits_ok this, of 64 True id]
  have "nth_size (ncm_format ?c) + max_ndp_size ?c = 184" by (simp add: demo_ctx_def)
  with r show ?thesis unfolding Let_def by (simp only:) simp
qed

theorem ncm_ndp_to_end_store_no_change_witness:
  "ndp_to_end_store 2 True (\<lambda>c. c\<lparr>tx_ntbs := 1\<rparr>) (Some True) 1
     (demo_ctx\<lparr>flag_ndp_to_end := True, delayed_ndp := Some []\<rparr>) =
   (Inr 1, demo_ctx\<lparr>flag_ndp_to_end := True, delayed_ndp := Some [], tx_ntbs := 1\<rparr>)"
  using ncm_ndp_to_end_store_no_change [of "demo_ctx\<lparr>flag_ndp_to_end := True, delayed_ndp := Some []\<rparr>"
      True "\<lambda>c. c\<lparr>tx_ntbs := 1\<rparr>" 1]
  by (simp add: demo_ctx_def)

end
