(* ===== verification/Ncm_Tx.thy ===== *)
theory Ncm_Tx
  imports Ncm_Param
begin

text \<open>
  CDC NCM (\<open>modules/ncm/cdc_ncm.c\<close>), transmission: network frames are collected in a transfer block
  (NTB): a header (NTH), a datagram pointer table (NDP) reached through the header, and the frames,
  each aligned. The socket buffer being filled is a byte list with a capacity; writing past the
  capacity is the fault \<open>Skb_over_panic\<close>. The 16 and 32-bit formats share one definition with the
  format as a parameter. The allocator is a parameter that gives a buffer's capacity.
\<close>

datatype ncm_fault = Skb_over_panic | Bad_access | Ndp_cycle

section \<open>Wire layout\<close>

text \<open>Width of an offset or length, and the offsets of the header's and the table's fields.\<close>

fun iw :: "ntb_format \<Rightarrow> nat" where "iw Ntb16 = 2" | "iw Ntb32 = 4"
fun nth_index_off :: "ntb_format \<Rightarrow> nat" where "nth_index_off Ntb16 = 10" | "nth_index_off Ntb32 = 12"
definition nth_block_off :: nat where "nth_block_off = 8"
definition nth_seq_off :: nat where "nth_seq_off = 6"
definition ndp_len_off :: nat where "ndp_len_off = 4"
fun ndp_next_off :: "ntb_format \<Rightarrow> nat" where "ndp_next_off Ntb16 = 6" | "ndp_next_off Ntb32 = 8"

fun nth_sign :: "ntb_format \<Rightarrow> bytes" where
  "nth_sign Ntb16 = [0x4E, 0x43, 0x4D, 0x48]" | "nth_sign Ntb32 = [0x6E, 0x63, 0x6D, 0x68]"

fun ndp_nocrc_sign :: "ntb_format \<Rightarrow> bytes" where
  "ndp_nocrc_sign Ntb16 = [0x4E, 0x43, 0x4D, 0x30]" | "ndp_nocrc_sign Ntb32 = [0x6E, 0x63, 0x6D, 0x30]"

definition get :: "bytes \<Rightarrow> nat \<Rightarrow> nat \<Rightarrow> nat" where
  "get buf off w = rd_le (window buf off w)"

definition put :: "bytes \<Rightarrow> nat \<Rightarrow> nat \<Rightarrow> nat \<Rightarrow> bytes" where
  "put buf off w v = blit buf off (le_bytes w v)"

section \<open>Socket buffers\<close>

definition sk_len :: "sk_buff \<Rightarrow> nat" where "sk_len s = length (sk_data s)"

definition skb_put_data :: "sk_buff \<Rightarrow> bytes \<Rightarrow> ncm_fault + sk_buff" where
  "skb_put_data s bs = (if sk_len s + length bs > sk_cap s then Inl Skb_over_panic
     else Inr (s\<lparr>sk_data := sk_data s @ bs\<rparr>))"

text \<open>\<open>ALIGN(x, a)\<close> on \<open>unsigned int\<close>.\<close>

definition ALIGN :: "nat \<Rightarrow> nat \<Rightarrow> nat" where
  "ALIGN x a = unat (((word_of_nat x :: u32) + (word_of_nat a - 1)) AND NOT (word_of_nat a - 1))"

definition cdc_ncm_align_tail :: "sk_buff \<Rightarrow> nat \<Rightarrow> nat \<Rightarrow> nat \<Rightarrow> sk_buff" where
  "cdc_ncm_align_tail s modulus remainder maxlen =
     (let align = wsub32 (ALIGN (sk_len s) modulus) (sk_len s) + remainder;
          align = (if sk_len s + align > maxlen then wsub64 maxlen (sk_len s) else align)
      in if align \<noteq> 0 \<and> sk_cap s - sk_len s \<ge> align
         then s\<lparr>sk_data := sk_data s @ replicate align 0\<rparr> else s)"

section \<open>The datagram pointer table\<close>

text \<open>Following the chain of tables: the one with the signature, and the last one seen.\<close>

fun ndp_walk ::
  "ntb_format \<Rightarrow> nat \<Rightarrow> bytes \<Rightarrow> bytes \<Rightarrow> nat \<Rightarrow> nat option \<Rightarrow> ncm_fault + nat option \<times> nat option"
where
  "ndp_walk F 0 buf sign off prev = (if off = 0 then Inr (None, prev) else Inl Ndp_cycle)"
| "ndp_walk F (Suc k) buf sign off prev =
     (if off = 0 then Inr (None, prev)
      else if off + ndp_size F > length buf then Inl Bad_access
      else if window buf off 4 = sign then Inr (Some off, Some off)
      else ndp_walk F k buf sign (get buf (off + ndp_next_off F) (iw F)) (Some off))"

datatype ndp_loc = In_skb nat | Delayed

definition ndp_init :: "ntb_format \<Rightarrow> bytes \<Rightarrow> nat \<Rightarrow> bytes \<Rightarrow> bytes" where
  "ndp_init F buf off sign = put (blit buf off sign) (off + ndp_len_off) 2 (ndp_size F + dpe_size F)"

definition ndp_new ::
  "ntb_format \<Rightarrow> ncm_ctx \<Rightarrow> sk_buff \<Rightarrow> bytes \<Rightarrow> nat \<Rightarrow> ncm_fault + ncm_ctx \<times> sk_buff \<times> ndp_loc option"
where
  "ndp_new F c s sign reserve =
     (case ndp_walk F (sk_len s) (sk_data s) sign (get (sk_data s) (nth_index_off F) (iw F)) None of
        Inl f \<Rightarrow> Inl f
      | Inr (Some off, _) \<Rightarrow> Inr (c, s, Some (In_skb off))
      | Inr (None, prev) \<Rightarrow>
          let s1 = (if flag_ndp_to_end c then s
                    else cdc_ncm_align_tail s (tx_ndp_modulus c) 0 (tx_curr_size c))
          in if wsub64 (wsub32 (tx_curr_size c) (sk_len s1)) reserve < max_ndp_size c
             then Inr (c, s1, None)
             else
               let link = (case prev of Some off \<Rightarrow> off + ndp_next_off F | None \<Rightarrow> nth_index_off F);
                   s2 = s1\<lparr>sk_data := put (sk_data s1) link (iw F) (sk_len s1)\<rparr>
               in if flag_ndp_to_end c
                  then (case delayed_ndp c of None \<Rightarrow> Inl Bad_access
                        | Some nd \<Rightarrow> Inr (c\<lparr>delayed_ndp := Some (ndp_init F nd 0 sign)\<rparr>, s2, Some Delayed))
                  else (case skb_put_data s2 (replicate (max_ndp_size c) 0) of
                          Inl f \<Rightarrow> Inl f
                        | Inr s3 \<Rightarrow> Inr (c, s3\<lparr>sk_data := ndp_init F (sk_data s3) (sk_len s1) sign\<rparr>,
                                        Some (In_skb (sk_len s1)))))"

definition cdc_ncm_ndp ::
  "ntb_format \<Rightarrow> ncm_ctx \<Rightarrow> sk_buff \<Rightarrow> bytes \<Rightarrow> nat \<Rightarrow> ncm_fault + ncm_ctx \<times> sk_buff \<times> ndp_loc option"
where
  "cdc_ncm_ndp F c s sign reserve =
     (if flag_ndp_to_end c then
        (case delayed_ndp c of
           None \<Rightarrow> Inl Bad_access
         | Some nd \<Rightarrow>
             if window nd 0 4 = sign then Inr (c, s, Some Delayed)
             else if window nd 0 4 \<noteq> replicate 4 0 then Inr (c, s, None)
             else ndp_new F c s sign reserve)
      else ndp_new F c s sign reserve)"

definition cdc_ncm_ndp16 where "cdc_ncm_ndp16 = cdc_ncm_ndp Ntb16"
definition cdc_ncm_ndp32 where "cdc_ncm_ndp32 = cdc_ncm_ndp Ntb32"

section \<open>Collecting frames\<close>

text \<open>Entering a frame in the table and appending it to the block; the entry's index is returned.\<close>

definition ncm_add_frame ::
  "ntb_format \<Rightarrow> ncm_ctx \<Rightarrow> sk_buff \<Rightarrow> ndp_loc \<Rightarrow> bytes \<Rightarrow> ncm_fault + ncm_ctx \<times> sk_buff \<times> nat" where
  "ncm_add_frame F c s loc frame =
     (let buf = (case loc of In_skb off \<Rightarrow> sk_data s
                 | Delayed \<Rightarrow> (case delayed_ndp c of Some nd \<Rightarrow> nd | None \<Rightarrow> []));
          base = (case loc of In_skb off \<Rightarrow> off | Delayed \<Rightarrow> 0);
          ndplen = get buf (base + ndp_len_off) 2;
          index = nat (((int ndplen - int (ndp_size F)) mod 2 ^ 64 div int (dpe_size F) - 1) mod 65536);
          pos = base + ndp_size F + index * dpe_size F
      in if pos + dpe_size F > length buf then Inl Bad_access
         else let buf1 = put buf (pos + iw F) (iw F) (length frame);
                  buf2 = put buf1 pos (iw F) (sk_len s);
                  buf3 = put buf2 (base + ndp_len_off) 2 (ndplen + dpe_size F);
                  s1 = (case loc of In_skb off \<Rightarrow> s\<lparr>sk_data := buf3\<rparr> | Delayed \<Rightarrow> s);
                  c1 = (case loc of In_skb off \<Rightarrow> c | Delayed \<Rightarrow> c\<lparr>delayed_ndp := Some buf3\<rparr>)
              in case skb_put_data s1 frame of
                   Inl f \<Rightarrow> Inl f
                 | Inr s2 \<Rightarrow>
                     Inr (c1\<lparr>tx_curr_frame_payload := tx_curr_frame_payload c1 + length frame\<rparr>, s2, index))"

text \<open>The loop over the frames that may still go into this block: \<open>k\<close> more, \<open>n\<close> there already. It
  gives the context, the block, the frame left in hand, the frame count and \<open>ready2send\<close>.\<close>

fun tx_loop ::
  "ncm_limits \<Rightarrow> ntb_format \<Rightarrow> nat \<Rightarrow> nat \<Rightarrow> nat \<Rightarrow> ncm_ctx \<Rightarrow> sk_buff \<Rightarrow> bytes option \<Rightarrow> bytes \<Rightarrow> bool \<Rightarrow>
     ncm_fault + ncm_ctx \<times> sk_buff \<times> bytes option \<times> nat \<times> bool"
where
  "tx_loop L F dsz 0 n c s frame sign ready = Inr (c, s, frame, n, ready)"
| "tx_loop L F dsz (Suc k) n c s frame sign ready =
     (let cur = (case frame of Some f \<Rightarrow> Some f | None \<Rightarrow> tx_rem_skb c);
          sg = (case frame of Some f \<Rightarrow> sign | None \<Rightarrow> tx_rem_sign c);
          c0 = (case frame of Some f \<Rightarrow> c | None \<Rightarrow> c\<lparr>tx_rem_skb := None\<rparr>)
      in case cur of
           None \<Rightarrow> Inr (c0, s, None, n, ready)
         | Some f \<Rightarrow>
             (case cdc_ncm_ndp F c0 s sg (length f + tx_modulus c0 + tx_remainder c0) of
                Inl e \<Rightarrow> Inl e
              | Inr (c1, s1, loc) \<Rightarrow>
                  let s2 = cdc_ncm_align_tail s1 (tx_modulus c1) (tx_remainder c1) (tx_curr_size c1)
                  in if loc = None \<or> sk_len s2 + length f + dsz > tx_curr_size c1
                     then (if n = 0
                           then Inr (c1\<lparr>net_tx_dropped := net_tx_dropped c1 + 1\<rparr>, s2, None, n, ready)
                           else Inr ((if tx_rem_skb c1 = None then c1
                                      else c1\<lparr>net_tx_dropped := net_tx_dropped c1 + 1\<rparr>)
                                     \<lparr>tx_rem_skb := Some f, tx_rem_sign := sg,
                                      tx_reason_ntb_full := tx_reason_ntb_full c1 + 1\<rparr>,
                                    s2, None, n, True))
                     else (case ncm_add_frame F c1 s2 (the loc) f of
                             Inl e \<Rightarrow> Inl e
                           | Inr (c2, s3, index) \<Rightarrow>
                               if index \<ge> DPT_DATAGRAMS_MAX L
                               then Inr (c2\<lparr>tx_reason_ndp_full := tx_reason_ndp_full c2 + 1\<rparr>, s3, None,
                                         n, True)
                               else tx_loop L F dsz k (n + 1) c2 s3 None sg ready)))"

section \<open>Sending the block\<close>

definition tx_place_delayed :: "ntb_format \<Rightarrow> ncm_ctx \<Rightarrow> sk_buff \<Rightarrow> ncm_fault + ncm_ctx \<times> sk_buff" where
  "tx_place_delayed F c s =
     (if \<not> flag_ndp_to_end c then Inr (c, s)
      else case delayed_ndp c of None \<Rightarrow> Inl Bad_access
      | Some nd \<Rightarrow>
          let s1 = cdc_ncm_align_tail s (tx_ndp_modulus c) 0 (wsub32 (tx_curr_size c) (max_ndp_size c));
              s2 = s1\<lparr>sk_data := put (sk_data s1) (nth_index_off F) (iw F) (sk_len s1)\<rparr>
          in case skb_put_data s2 (take (max_ndp_size c) nd) of
               Inl f \<Rightarrow> Inl f
             | Inr s3 \<Rightarrow> Inr (c\<lparr>delayed_ndp := Some (replicate (max_ndp_size c) 0)\<rparr>, s3))"

definition tx_pad :: "bool \<Rightarrow> nat \<Rightarrow> ncm_ctx \<Rightarrow> sk_buff \<Rightarrow> ncm_fault + sk_buff" where
  "tx_pad send_zlp maxpacket c s =
     (if \<not> send_zlp \<and> sk_len s > min_tx_pkt c
      then let padding_count = wsub32 (tx_curr_size c) (sk_len s)
           in if padding_count > tx_curr_size c then Inr s
              else skb_put_data s (replicate padding_count 0)
      else if sk_len s < tx_curr_size c \<and> sk_len s mod maxpacket = 0 then skb_put_data s [0]
      else Inr s)"

definition tx_finish ::
  "ntb_format \<Rightarrow> bool \<Rightarrow> nat \<Rightarrow> ncm_ctx \<Rightarrow> sk_buff \<Rightarrow> ncm_fault + ncm_ctx \<times> sk_buff" where
  "tx_finish F send_zlp maxpacket c s =
     (case tx_place_delayed F c s of Inl f \<Rightarrow> Inl f
      | Inr (c1, s1) \<Rightarrow>
        (case tx_pad send_zlp maxpacket c1 s1 of Inl f \<Rightarrow> Inl f
         | Inr s2 \<Rightarrow>
           Inr (c1\<lparr>tx_curr_skb := None,
                  tx_overhead := tx_overhead c1 + word_of_nat (sk_len s2) - word_of_nat (tx_curr_frame_payload c1),
                  tx_ntbs := tx_ntbs c1 + 1\<rparr>,
                s2\<lparr>sk_data := put (sk_data s2) nth_block_off (iw F) (sk_len s2)\<rparr>)))"

section \<open>Starting a block\<close>

text \<open>A buffer of the full size, or, when that fails, of the size one frame may need; after a
  failure the full size is not tried again for a growing number of blocks. \<open>None\<close>: no buffer.\<close>

definition tx_alloc ::
  "ncm_limits \<Rightarrow> (nat \<Rightarrow> nat option) \<Rightarrow> (nat \<Rightarrow> nat option) \<Rightarrow> ncm_ctx \<Rightarrow> bytes option \<Rightarrow>
     ncm_ctx \<times> sk_buff option" where
  "tx_alloc L alloc1 alloc2 c frame =
     (let c1 = (if tx_low_mem_val c = 0 then c\<lparr>tx_curr_size := tx_max c\<rparr> else c);
          first = (if tx_low_mem_val c = 0 then alloc1 (tx_max c) else None)
      in case first of
           Some cap \<Rightarrow> (c1, Some \<lparr>sk_data = [], sk_cap = cap\<rparr>)
         | None \<Rightarrow>
             if tx_low_mem_val c = 0 \<and> tx_curr_size c1 = NTB_MIN_OUT_SIZE L then (c1, None)
             else
               let cnt = min (tx_low_mem_max_cnt c + 1) (LOW_MEM_MAX_CNT L);
                   c2 = (if tx_low_mem_val c = 0
                         then c1\<lparr>tx_low_mem_max_cnt := cnt, tx_low_mem_val := cnt\<rparr> else c1);
                   sz = (case frame of Some f \<Rightarrow> max (length f) (NTB_MIN_OUT_SIZE L)
                         | None \<Rightarrow> NTB_MIN_OUT_SIZE L);
                   c3 = c2\<lparr>tx_curr_size := sz\<rparr>
               in case alloc2 sz of
                    None \<Rightarrow> (c3, None)
                  | Some cap \<Rightarrow> (c3\<lparr>tx_low_mem_val := tx_low_mem_val c3 - 1\<rparr>,
                                 Some \<lparr>sk_data = [], sk_cap = cap\<rparr>))"

definition nth_image :: "ntb_format \<Rightarrow> nat \<Rightarrow> bytes" where
  "nth_image F seq = nth_sign F @ le_bytes 2 (nth_size F) @ le_bytes 2 seq @
     replicate (nth_size F - 8) 0"

definition tx_start_block :: "ntb_format \<Rightarrow> ncm_ctx \<Rightarrow> sk_buff \<Rightarrow> ncm_fault + ncm_ctx \<times> sk_buff" where
  "tx_start_block F c s = (case skb_put_data s (nth_image F (tx_seq c)) of
     Inl f \<Rightarrow> Inl f
   | Inr s1 \<Rightarrow> Inr (c\<lparr>tx_seq := (tx_seq c + 1) mod 65536, tx_curr_frame_num := 0,
                   tx_curr_frame_payload := 0\<rparr>, s1))"

section \<open>The timer\<close>

definition cdc_ncm_tx_timeout_start :: "ncm_ctx \<Rightarrow> ncm_ctx" where
  "cdc_ncm_tx_timeout_start c =
     (if tx_timer_active c \<or> ctx_stop c then c else c\<lparr>tx_timer_active := True\<rparr>)"

text \<open>The callback says whether it schedules the tasklet; the timer is not restarted.\<close>

definition cdc_ncm_tx_timer_cb :: "ncm_ctx \<Rightarrow> bool \<times> ncm_ctx" where
  "cdc_ncm_tx_timer_cb c = (\<not> ctx_stop c, c\<lparr>tx_timer_active := False\<rparr>)"

definition cdc_ncm_txpath_bh :: "(ncm_ctx \<Rightarrow> ncm_ctx) \<Rightarrow> bool \<Rightarrow> ncm_ctx \<Rightarrow> ncm_ctx" where
  "cdc_ncm_txpath_bh flush has_net c =
     (if tx_timer_pending c \<noteq> 0
      then cdc_ncm_tx_timeout_start (c\<lparr>tx_timer_pending := tx_timer_pending c - 1\<rparr>)
      else if has_net then flush (c\<lparr>tx_reason_timeout := tx_reason_timeout c + 1\<rparr>)
      else c)"

section \<open>One call\<close>

text \<open>\<open>tx_send n c s frame ready\<close> is what follows the loop: a frame left in hand is dropped, then
  the block is kept for more frames or sent.\<close>

definition tx_send ::
  "ncm_limits \<Rightarrow> ntb_format \<Rightarrow> bool \<Rightarrow> nat \<Rightarrow> nat \<Rightarrow> ncm_ctx \<Rightarrow> sk_buff \<Rightarrow> bytes option \<Rightarrow> bool \<Rightarrow>
     ncm_fault + ncm_ctx \<times> sk_buff option" where
  "tx_send L F send_zlp maxpacket n c0 s frame ready =
     (let c1 = (case frame of None \<Rightarrow> c0 | Some f \<Rightarrow> c0\<lparr>net_tx_dropped := net_tx_dropped c0 + 1\<rparr>);
          c = c1\<lparr>tx_curr_frame_num := n\<rparr>
      in if n = 0 then Inr (c\<lparr>tx_curr_skb := Some s\<rparr>, None)
         else if n < tx_max_datagrams c \<and> \<not> ready \<and> timer_interval c > 0
         then Inr (cdc_ncm_tx_timeout_start
                (c\<lparr>tx_curr_skb := Some s,
                   tx_timer_pending := (if n < RESTART_TIMER_DATAGRAM_CNT L then TIMER_PENDING_CNT L
                                        else tx_timer_pending c)\<rparr>), None)
         else let c2 = (if n = tx_max_datagrams c
                        then c\<lparr>tx_reason_max_datagram := tx_reason_max_datagram c + 1\<rparr> else c)
              in case tx_finish F send_zlp maxpacket c2 s of Inl f \<Rightarrow> Inl f
                 | Inr (c3, out) \<Rightarrow> Inr (c3, Some out))"

definition delayed_ndp_size :: "ncm_ctx \<Rightarrow> nat" where
  "delayed_ndp_size c = (if flag_ndp_to_end c
     then max_ndp_size c + max (tx_ndp_modulus c) (tx_modulus c + tx_remainder c) - 1 else 0)"

text \<open>A frame handed in changes places with the remaining one; no frame asks for the block to be
  sent.\<close>

definition cdc_ncm_fill_tx_frame ::
  "ncm_limits \<Rightarrow> (nat \<Rightarrow> nat option) \<Rightarrow> (nat \<Rightarrow> nat option) \<Rightarrow> bool \<Rightarrow> nat \<Rightarrow> ncm_ctx \<Rightarrow> bytes option \<Rightarrow>
     bytes \<Rightarrow> ncm_fault + ncm_ctx \<times> sk_buff option" where
  "cdc_ncm_fill_tx_frame L alloc1 alloc2 send_zlp maxpacket c skb sign =
     (let F = ncm_format c;
          frame = (if skb = None then None else tx_rem_skb c);
          sg = (if skb = None then sign else tx_rem_sign c);
          c1 = (if skb = None then c else c\<lparr>tx_rem_skb := skb, tx_rem_sign := sign\<rparr>);
          start = (case tx_curr_skb c1 of
             Some s \<Rightarrow> Inr (c1, Some s)
           | None \<Rightarrow> (case tx_alloc L alloc1 alloc2 c1 frame of
                (c2, None) \<Rightarrow> Inr (c2, None)
              | (c2, Some s) \<Rightarrow> (case tx_start_block F c2 s of Inl f \<Rightarrow> Inl f
                  | Inr (c3, s1) \<Rightarrow> Inr (c3, Some s1))))
      in case start of
           Inl f \<Rightarrow> Inl f
         | Inr (c2, None) \<Rightarrow>
             Inr (if frame = None then c2 else c2\<lparr>net_tx_dropped := net_tx_dropped c2 + 1\<rparr>, None)
         | Inr (c2, Some s) \<Rightarrow>
             (case tx_loop L F (delayed_ndp_size c) (tx_max_datagrams c2 - tx_curr_frame_num c2)
                     (tx_curr_frame_num c2) c2 s frame sg (skb = None) of
                Inl f \<Rightarrow> Inl f
              | Inr (c3, s3, left, n, ready) \<Rightarrow> tx_send L F send_zlp maxpacket n c3 s3 left ready))"

definition cdc_ncm_tx_fixup ::
  "ncm_limits \<Rightarrow> (nat \<Rightarrow> nat option) \<Rightarrow> (nat \<Rightarrow> nat option) \<Rightarrow> bool \<Rightarrow> nat \<Rightarrow> ncm_ctx \<Rightarrow> bytes option \<Rightarrow>
     ncm_fault + ncm_ctx \<times> sk_buff option" where
  "cdc_ncm_tx_fixup L alloc1 alloc2 send_zlp maxpacket c skb =
     cdc_ncm_fill_tx_frame L alloc1 alloc2 send_zlp maxpacket c skb (ndp_nocrc_sign (ncm_format c))"

text \<open>The whole function: with the context pointer of the device NULL the frame is freed (the last
  component) and nothing is sent. The lemmas are about \<open>cdc_ncm_tx_fixup\<close>, the locked part, which
  is all of it on a bound device.\<close>

definition cdc_ncm_tx_fixup_dev ::
  "ncm_limits \<Rightarrow> (nat \<Rightarrow> nat option) \<Rightarrow> (nat \<Rightarrow> nat option) \<Rightarrow> bool \<Rightarrow> nat \<Rightarrow> ncm_ctx option \<Rightarrow>
     bytes option \<Rightarrow> ncm_fault + ncm_ctx option \<times> sk_buff option \<times> bytes list" where
  "cdc_ncm_tx_fixup_dev L alloc1 alloc2 send_zlp maxpacket ctx skb =
     (case ctx of
        None \<Rightarrow> Inr (None, None, opt_list skb)
      | Some c \<Rightarrow> (case cdc_ncm_tx_fixup L alloc1 alloc2 send_zlp maxpacket c skb of
           Inl f \<Rightarrow> Inl f
         | Inr (c', out) \<Rightarrow> Inr (Some c', out, [])))"

end
