(* ===== verification/Ncm_Ntb.thy ===== *)
theory Ncm_Ntb
  imports Ncm_Tx
begin

text \<open>
  CDC NCM transfer blocks as data: reading back the fields a block was written with, what it means
  that a block carries a list of frames (\<open>ntb_frames\<close>), and that the transmit path of
  \<open>modules/ncm/cdc_ncm.c\<close> keeps this: every frame handed in is, in order, in a block sent or still
  held, and none is lost.
\<close>

section \<open>Fields of a block\<close>

named_theorems ntb_simps \<open>fields and windows of a block after writes\<close>

lemma length_put [ntb_simps]: "off + w \<le> length buf \<Longrightarrow> length (put buf off w v) = length buf"
  by (simp add: put_def length_blit)

lemma get_put_same [ntb_simps]:
  "off + w \<le> length buf \<Longrightarrow> get (put buf off w v) off w = v mod 256 ^ w"
  using window_blit_same [of off "le_bytes w v" buf] by (simp add: get_def put_def)

lemma get_put_other [ntb_simps]:
  "off + w \<le> length buf \<Longrightarrow> o2 + n \<le> length buf \<Longrightarrow> o2 + n \<le> off \<or> off + w \<le> o2 \<Longrightarrow>
     get (put buf off w v) o2 n = get buf o2 n"
  by (simp add: get_def put_def window_blit_disjoint)

lemma window_put_other [ntb_simps]:
  "off + w \<le> length buf \<Longrightarrow> o2 + n \<le> length buf \<Longrightarrow> o2 + n \<le> off \<or> off + w \<le> o2 \<Longrightarrow>
     window (put buf off w v) o2 n = window buf o2 n"
  by (simp add: put_def window_blit_disjoint)

lemma get_append [ntb_simps]: "off + n \<le> length buf \<Longrightarrow> get (buf @ xs) off n = get buf off n"
  by (simp add: get_def window_append)

lemma get_blit_other [ntb_simps]:
  "off + length bs \<le> length buf \<Longrightarrow> o2 + n \<le> length buf \<Longrightarrow> o2 + n \<le> off \<or> off + length bs \<le> o2 \<Longrightarrow>
     get (blit buf off bs) o2 n = get buf o2 n"
  by (simp add: get_def window_blit_disjoint)

lemma window_append_right: "window (xs @ ys) (length xs) (length ys) = ys"
  by (simp add: window_def)

lemma ndp_len_off_4: "ndp_len_off = 4"
  by (simp add: ndp_len_off_def)

lemma format_sizes:
  "ndp_len_off + 2 \<le> ndp_next_off F" "nth_block_off = 8 + 0 * iw F" "iw F \<in> {2, 4}" "dpe_size F = 2 * iw F"
  "ndp_next_off F + iw F \<le> ndp_size F" "6 \<le> ndp_next_off F" "8 \<le> ndp_size F"
  "nth_index_off F + iw F \<le> nth_size F" "8 + iw F \<le> nth_index_off F" "nth_size F \<le> 16"
  "length (nth_sign F) = 4" "length (ndp_nocrc_sign F) = 4" "ndp_size F \<le> 16"
  by (cases F; simp add: ndp_len_off_def nth_block_off_def)+

section \<open>Alignment\<close>

lemma ALIGN_pow2:
  assumes "x + 2 ^ k < 2 ^ 32"
  shows "ALIGN x (2 ^ k) = (x + 2 ^ k - 1) - (x + 2 ^ k - 1) mod 2 ^ k"
proof -
  have "(2 ^ k :: nat) < 2 ^ 32" using assms by linarith
  then have "(word_of_nat (2 ^ k) :: u32) - 1 = 2 ^ k - 1" by simp
  then show ?thesis
    using unat_round_up_u32 [OF assms] unat_and_not_mask [of "word_of_nat x + (2 ^ k - 1)" k]
    by (simp add: ALIGN_def)
qed

lemma ALIGN_bounds:
  assumes "x + 2 ^ k < 2 ^ 32"
  shows "x \<le> ALIGN x (2 ^ k)" "ALIGN x (2 ^ k) < x + 2 ^ k" "ALIGN x (2 ^ k) mod 2 ^ k = 0"
proof -
  let ?y = "x + 2 ^ k - 1"
  have m: "?y mod 2 ^ k < 2 ^ k" by simp
  have p: "(0::nat) < 2 ^ k" by simp
  show "x \<le> ALIGN x (2 ^ k)" "ALIGN x (2 ^ k) < x + 2 ^ k"
    unfolding ALIGN_pow2 [OF assms] using m p by linarith+
  show "ALIGN x (2 ^ k) mod 2 ^ k = 0"
    unfolding ALIGN_pow2 [OF assms] by (simp add: minus_mod_eq_mult_div)
qed

text \<open>Aligning appends zeros only, stays below the limit, and grows by less than the modulus and the
  remainder.\<close>

lemma align_tail_shape:
  assumes m: "m = 2 ^ k" and len: "sk_len s \<le> M" and M: "M \<le> sk_cap s" "M < 2 ^ 31" "m \<le> 2 ^ 16"
  obtains z where "cdc_ncm_align_tail s m r M = s\<lparr>sk_data := sk_data s @ replicate z 0\<rparr>"
    "sk_len s + z \<le> M" "z < m + r \<or> z = 0"
proof -
  have lt: "sk_len s + 2 ^ k < 2 ^ 32" using len M m by simp
  define a where "a = wsub32 (ALIGN (sk_len s) m) (sk_len s) + r"
  have "ALIGN (sk_len s) m < 2 ^ 32" using ALIGN_bounds(2) [OF lt] lt m by simp
  then have a: "a = ALIGN (sk_len s) m - sk_len s + r"
    using ALIGN_bounds(1) [OF lt] m by (simp add: a_def wsub32_le)
  then have am: "a < m + r" using ALIGN_bounds(1,2) [OF lt, folded m] by linarith
  have w: "wsub64 M (sk_len s) = M - sk_len s" using len M by (simp add: wsub64_le)
  define b where "b = (if sk_len s + a > M then M - sk_len s else a)"
  have b: "sk_len s + b \<le> M" "b < m + r" using am len by (auto simp: b_def)
  have "cdc_ncm_align_tail s m r M = s\<lparr>sk_data := sk_data s @ replicate b 0\<rparr>"
  proof -
    have "cdc_ncm_align_tail s m r M = (if b \<noteq> 0 \<and> sk_cap s - sk_len s \<ge> b
        then s\<lparr>sk_data := sk_data s @ replicate b 0\<rparr> else s)"
      unfolding cdc_ncm_align_tail_def Let_def a_def [symmetric] w b_def [symmetric] ..
    moreover have "b \<le> sk_cap s - sk_len s" using b(1) M(1) by linarith
    ultimately show ?thesis by simp
  qed
  then show ?thesis using that b by blast
qed

section \<open>A block that carries frames\<close>

definition frame_at :: "ntb_format \<Rightarrow> nat \<Rightarrow> nat \<Rightarrow> bytes \<Rightarrow> nat \<Rightarrow> bytes \<Rightarrow> bool" where
  "frame_at F m off buf i f \<longleftrightarrow>
     (let p = off + ndp_size F + i * dpe_size F; x = get buf p (iw F)
      in off + m \<le> x \<and> x + length f \<le> length buf \<and> get buf (p + iw F) (iw F) = length f \<and>
         window buf x (length f) = f)"

definition ntb_frames :: "ntb_format \<Rightarrow> nat \<Rightarrow> nat \<Rightarrow> bytes \<Rightarrow> bytes list \<Rightarrow> bool" where
  "ntb_frames F m off buf ds \<longleftrightarrow>
     nth_size F \<le> off \<and> off + m \<le> length buf \<and>
     ndp_size F + dpe_size F * (length ds + 1) \<le> m \<and>
     window buf 0 4 = nth_sign F \<and> get buf (nth_index_off F) (iw F) = off \<and>
     window buf off 4 = ndp_nocrc_sign F \<and>
     get buf (off + ndp_len_off) 2 = ndp_size F + dpe_size F * (length ds + 1) \<and>
     get buf (off + ndp_next_off F) (iw F) = 0 \<and>
     (\<forall>i < length ds. frame_at F m off buf i (ds ! i))"

lemma frame_at_append:
  assumes "frame_at F m off buf i f" "ndp_size F + dpe_size F * (i + 1) \<le> m" "off + m \<le> length buf"
  shows "frame_at F m off (buf @ xs) i f"
  using assms format_sizes(4) [of F]
  by (simp add: frame_at_def Let_def get_append window_append algebra_simps)

lemma ntb_frames_append:
  assumes "ntb_frames F m off buf ds"
  shows "ntb_frames F m off (buf @ xs) ds"
proof -
  have "ndp_size F + dpe_size F * (i + 1) \<le> m" if "i < length ds" for i
  proof -
    have "dpe_size F * (i + 1) \<le> dpe_size F * (length ds + 1)" using that by simp
    moreover have "ndp_size F + dpe_size F * (length ds + 1) \<le> m"
      using assms unfolding ntb_frames_def by blast
    ultimately show ?thesis by linarith
  qed
  then have "frame_at F m off (buf @ xs) i (ds ! i)" if "i < length ds" for i
    using that assms frame_at_append [of F m off buf i "ds ! i" xs] by (simp add: ntb_frames_def)
  then show ?thesis
    using assms format_sizes [of F]
    by (auto simp: ntb_frames_def get_append window_append)
qed

text \<open>Writing outside what a frame's entry and data occupy.\<close>

lemma frame_at_put:
  assumes "frame_at F m off buf i f" "o2 + w \<le> off + m" "off + m \<le> length buf"
    and "ndp_size F + dpe_size F * (i + 1) \<le> m"
    and "o2 + w \<le> off + ndp_size F + i * dpe_size F \<or> off + ndp_size F + (i + 1) * dpe_size F \<le> o2"
  shows "frame_at F m off (put buf o2 w v) i f"
proof -
  let ?p = "off + ndp_size F + i * dpe_size F"
  have d: "dpe_size F = 2 * iw F" by (rule format_sizes(4))
  have p: "?p + 2 * iw F \<le> off + m" using assms(4) d by (simp add: algebra_simps)
  have apart: "o2 + w \<le> ?p \<or> ?p + 2 * iw F \<le> o2"
    using assms(5) d by (simp add: algebra_simps)
  have o: "o2 + w \<le> length buf" using assms(2,3) by simp
  have 1: "get (put buf o2 w v) ?p (iw F) = get buf ?p (iw F)"
    by (rule get_put_other [OF o]) (use p apart assms(3) in linarith)+
  have 2: "get (put buf o2 w v) (?p + iw F) (iw F) = get buf (?p + iw F) (iw F)"
    by (rule get_put_other [OF o]) (use p apart assms(3) in linarith)+
  have 3: "window (put buf o2 w v) x (length f) = window buf x (length f)"
    if "off + m \<le> x" "x + length f \<le> length buf" for x
    by (rule window_put_other [OF o that(2)]) (use that assms(2) in linarith)
  show ?thesis
    using assms(1) unfolding frame_at_def Let_def 1 2
    by (simp add: 3 length_put [OF o])
qed

text \<open>Entering one more frame: what \<open>ncm_add_frame\<close> does to the bytes.\<close>

definition ntb_add :: "ntb_format \<Rightarrow> nat \<Rightarrow> bytes \<Rightarrow> nat \<Rightarrow> bytes \<Rightarrow> bytes" where
  "ntb_add F off buf n f =
     (let pos = off + ndp_size F + n * dpe_size F
      in put (put (put buf (pos + iw F) (iw F) (length f)) pos (iw F) (length buf))
           (off + ndp_len_off) 2 (ndp_size F + dpe_size F * (n + 2)) @ f)"

lemma ntb_add_frames:
  assumes nf: "ntb_frames F m off buf ds" and room: "ndp_size F + dpe_size F * (length ds + 2) \<le> m"
    and m: "m < 65536" and small: "length buf + length f < 256 ^ iw F"
  shows "ntb_frames F m off (ntb_add F off buf (length ds) f) (ds @ [f])"
proof -
  let ?n = "length ds"
  let ?p = "off + ndp_size F + ?n * dpe_size F"
  let ?L = "ndp_size F + dpe_size F * (?n + 2)"
  define b1 where "b1 = put buf (?p + iw F) (iw F) (length f)"
  define b2 where "b2 = put b1 ?p (iw F) (length buf)"
  define b3 where "b3 = put b2 (off + ndp_len_off) 2 ?L"
  note fs = format_sizes [of F]
  have d: "dpe_size F = 2 * iw F" by (rule format_sizes(4))
  have nf': "nth_size F \<le> off" "off + m \<le> length buf" "window buf 0 4 = nth_sign F"
      "get buf (nth_index_off F) (iw F) = off" "window buf off 4 = ndp_nocrc_sign F"
      "get buf (off + ndp_next_off F) (iw F) = 0" "\<And>i. i < ?n \<Longrightarrow> frame_at F m off buf i (ds ! i)"
    using nf unfolding ntb_frames_def by blast+
  have p: "?p + 2 * iw F \<le> off + m" using room d by (simp add: algebra_simps)
  have len: "length b1 = length buf" "length b2 = length buf" "length b3 = length buf"
    using p nf'(2) fs(7) ndp_len_off_4 unfolding b1_def b2_def b3_def
    by (simp_all add: length_put)
  have entry: "get b3 ?p (iw F) = length buf" "get b3 (?p + iw F) (iw F) = length f"
    using p nf'(2) fs(7) ndp_len_off_4 small len unfolding b3_def b2_def b1_def
    by (simp_all add: get_put_other get_put_same length_put)
  have L: "get b3 (off + ndp_len_off) 2 = ?L"
    using p nf'(2) fs(7) ndp_len_off_4 room m len unfolding b3_def
    by (simp add: get_put_same)
  have keep: "get b3 o2 k = get buf o2 k" "window b3 o2 k = window buf o2 k"
    if "o2 + k \<le> off + 4 \<or> off + 6 \<le> o2 \<and> o2 + k \<le> off + ndp_size F" for o2 k
    using that p nf'(2) fs(7) ndp_len_off_4 len unfolding b3_def b2_def b1_def
    by (auto simp: get_put_other window_put_other length_put)
  have old: "frame_at F m off b3 i (ds ! i)" if i: "i < ?n" for i
  proof -
    have step: "(i + 1) * dpe_size F \<le> ?n * dpe_size F" using i by (intro mult_right_mono) simp_all
    have r: "ndp_size F + dpe_size F * (i + 1) \<le> m" using step room by (simp add: algebra_simps)
    have a: "off + ndp_size F + (i + 1) * dpe_size F \<le> ?p" using step by simp
    show ?thesis
      unfolding b3_def b2_def b1_def
      by (intro frame_at_put nf'(7) i r) (use a p nf'(2) fs(7) ndp_len_off_4 d in \<open>simp_all add: length_put\<close>)
  qed
  have res: "ntb_add F off buf ?n f = b3 @ f"
    by (simp add: ntb_add_def b1_def b2_def b3_def Let_def)
  have fr: "frame_at F m off (b3 @ f) i ((ds @ [f]) ! i)" if "i < ?n + 1" for i
  proof (cases "i < ?n")
    case True
    then have "dpe_size F * (i + 1) \<le> dpe_size F * (?n + 2)" by (intro mult_left_mono) simp_all
    then have "ndp_size F + dpe_size F * (i + 1) \<le> m" using room by linarith
    then show ?thesis
      using True old frame_at_append [of F m off b3 i "ds ! i" f] nf'(2) len
      by (simp add: nth_append)
  next
    case False
    then have "i = ?n" using that by simp
    then show ?thesis
      using entry len p nf'(2) window_append_right [of b3 f]
      by (simp add: frame_at_def Let_def get_append)
  qed
  show ?thesis
    unfolding res ntb_frames_def
    using nf' fr L keep len fs room p
    by (simp add: get_append window_append algebra_simps)
qed

section \<open>A fresh block\<close>

lemma length_nth_image [simp]: "length (nth_image F seq) = nth_size F"
  by (cases F) (simp_all add: nth_image_def)

lemma window_replicate: "off + n \<le> k \<Longrightarrow> window (replicate k x) off n = replicate n x"
  by (simp add: window_def)

lemma nth_image_sign: "window (nth_image F seq) 0 4 = nth_sign F"
  using format_sizes(11) [of F] by (simp add: nth_image_def window_def)

lemma nth_image_index: "get (nth_image F seq) (nth_index_off F) (iw F) = 0"
proof -
  have "window (nth_image F seq) (nth_index_off F) (iw F) = replicate (iw F) 0"
    by (cases F) (simp_all add: nth_image_def window_def)
  then show ?thesis by (simp add: get_def rd_le_zeros)
qed

definition ntb_new :: "ntb_format \<Rightarrow> nat \<Rightarrow> bytes \<Rightarrow> bytes" where
  "ntb_new F m buf =
     ndp_init F (put buf (nth_index_off F) (iw F) (length buf) @ replicate m 0) (length buf)
       (ndp_nocrc_sign F)"

lemma length_ntb_new:
  assumes "nth_size F \<le> length buf" "ndp_size F + dpe_size F \<le> m"
  shows "length (ntb_new F m buf) = length buf + m"
  using assms format_sizes [of F] ndp_len_off_4
  by (simp add: ntb_new_def ndp_init_def length_put length_blit)

lemma ntb_new_frames:
  assumes m: "ndp_size F + dpe_size F \<le> m" "m < 65536" and len: "length buf < 256 ^ iw F"
    and buf: "buf = nth_image F seq @ replicate z 0"
  shows "ntb_frames F m (length buf) (ntb_new F m buf) []"
proof -
  let ?n = "length buf"
  note fs = format_sizes [of F]
  have n: "nth_size F \<le> ?n" by (simp add: buf)
  define b1 where "b1 = put buf (nth_index_off F) (iw F) ?n"
  define b2 where "b2 = b1 @ replicate m 0"
  define b3 where "b3 = blit b2 ?n (ndp_nocrc_sign F)"
  define b4 where "b4 = put b3 (?n + ndp_len_off) 2 (ndp_size F + dpe_size F)"
  have new: "ntb_new F m buf = b4" by (simp add: ntb_new_def ndp_init_def b1_def b2_def b3_def b4_def)
  have l1: "length b1 = ?n" using n fs by (simp add: b1_def length_put)
  have l2: "length b2 = ?n + m" by (simp add: b2_def l1)
  have l3: "length b3 = ?n + m" using m fs by (simp add: b3_def length_blit l2)
  have s1: "window b1 0 4 = nth_sign F"
    using n fs nth_image_sign [of F seq] by (simp add: b1_def window_put_other) (simp add: buf window_append)
  have i1: "get b1 (nth_index_off F) (iw F) = ?n"
    using n fs len by (simp add: b1_def get_put_same)
  have s4: "window b4 0 4 = nth_sign F"
    using n m fs ndp_len_off_4 l1 l2 l3 s1 unfolding b4_def b3_def
    by (simp add: window_put_other window_blit_disjoint b2_def window_append)
  have i4: "get b4 (nth_index_off F) (iw F) = ?n"
    using n m fs ndp_len_off_4 l1 l2 l3 i1 unfolding b4_def b3_def
    by (simp add: get_put_other get_blit_other b2_def get_append)
  have d4: "window b4 ?n 4 = ndp_nocrc_sign F"
    using m fs ndp_len_off_4 l2 l3 window_blit_same [of ?n "ndp_nocrc_sign F" b2]
    unfolding b4_def by (simp add: window_put_other) (simp add: b3_def)
  have L4: "get b4 (?n + ndp_len_off) 2 = ndp_size F + dpe_size F"
    using m fs ndp_len_off_4 l3 unfolding b4_def by (simp add: get_put_same)
  have z2: "get b2 (?n + ndp_next_off F) (iw F) = 0"
  proof -
    have "window b2 (?n + ndp_next_off F) (iw F) = window (replicate m 0) (ndp_next_off F) (iw F)"
      by (simp add: b2_def window_def l1)
    then show ?thesis using m fs by (simp add: get_def window_replicate rd_le_zeros)
  qed
  have N4: "get b4 (?n + ndp_next_off F) (iw F) = 0"
    using m fs ndp_len_off_4 l2 l3 z2 unfolding b4_def b3_def
    by (simp add: get_put_other get_blit_other l3 [unfolded b3_def])
  show ?thesis
    unfolding new ntb_frames_def
    using n m s4 i4 d4 L4 N4 fs ndp_len_off_4 l3 by (simp add: b4_def length_put)
qed

section \<open>The transmit state\<close>

text \<open>A configuration the theorems are about: the table is placed in front of the frames, its size
  fits the number of frames, the alignments are powers of two, and offsets fit their fields.\<close>

definition tx_cfg :: "ncm_limits \<Rightarrow> ntb_format \<Rightarrow> ncm_ctx \<Rightarrow> bool" where
  "tx_cfg L F c \<longleftrightarrow> ncm_format c = F \<and> \<not> flag_ndp_to_end c \<and>
     max_ndp_size c = ndp_size F + (tx_max_datagrams c + 1) * dpe_size F \<and>
     nth_size F + max_ndp_size c \<le> tx_max c \<and>
     0 < tx_max_datagrams c \<and> tx_max_datagrams c \<le> DPT_DATAGRAMS_MAX L \<and>
     DPT_DATAGRAMS_MAX L < 1000 \<and> tx_max c < 256 ^ iw F \<and> tx_max c < 2 ^ 31 \<and>
     (\<exists>k. tx_ndp_modulus c = 2 ^ k) \<and> (\<exists>k. tx_modulus c = 2 ^ k) \<and>
     tx_ndp_modulus c \<le> 2 ^ 16 \<and> tx_modulus c \<le> 2 ^ 16 \<and> tx_low_mem_val c = 0"

text \<open>The frame fits a fresh block beside the header, the table and both alignments.\<close>

definition fits :: "ntb_format \<Rightarrow> ncm_ctx \<Rightarrow> bytes \<Rightarrow> bool" where
  "fits F c f \<longleftrightarrow> ETH_HLEN \<le> length f \<and>
     nth_size F + tx_ndp_modulus c + max_ndp_size c + length f + tx_modulus c + tx_remainder c \<le> tx_max c"

text \<open>The block holds the frames \<open>ds\<close>.\<close>

definition blk :: "ntb_format \<Rightarrow> ncm_ctx \<Rightarrow> sk_buff \<Rightarrow> bytes list \<Rightarrow> bool" where
  "blk F c s ds \<longleftrightarrow> sk_len s \<le> tx_curr_size c \<and> tx_curr_size c \<le> sk_cap s \<and> tx_curr_size c = tx_max c \<and>
     (if ds = [] then \<exists>seq. sk_data s = nth_image F seq
      else \<exists>off. ntb_frames F (max_ndp_size c) off (sk_data s) ds)"

definition same_cfg :: "ncm_ctx \<Rightarrow> ncm_ctx \<Rightarrow> bool" where
  "same_cfg c c' \<longleftrightarrow> ncm_format c' = ncm_format c \<and> flag_ndp_to_end c' = flag_ndp_to_end c \<and>
     max_ndp_size c' = max_ndp_size c \<and> tx_max_datagrams c' = tx_max_datagrams c \<and>
     tx_max c' = tx_max c \<and> tx_ndp_modulus c' = tx_ndp_modulus c \<and> tx_modulus c' = tx_modulus c \<and>
     tx_remainder c' = tx_remainder c \<and> tx_low_mem_val c' = tx_low_mem_val c \<and>
     timer_interval c' = timer_interval c \<and> net_tx_dropped c' = net_tx_dropped c"

lemma same_cfg_refl [simp]: "same_cfg c c"
  by (simp add: same_cfg_def)

lemma same_cfg_trans: "same_cfg a b \<Longrightarrow> same_cfg b c \<Longrightarrow> same_cfg a c"
  by (simp add: same_cfg_def)

lemma same_cfg_cong:
  assumes "same_cfg c c'"
  shows "tx_cfg L F c' = tx_cfg L F c" "fits F c' f = fits F c f"
    "tx_curr_size c' = tx_curr_size c \<Longrightarrow> blk F c' s ds = blk F c s ds"
  using assms by (simp_all add: same_cfg_def tx_cfg_def fits_def blk_def)

lemma tx_cfg_table: "tx_cfg L F c \<Longrightarrow> n + 1 \<le> tx_max_datagrams c \<Longrightarrow>
    ndp_size F + dpe_size F * (n + 2) \<le> max_ndp_size c"
  by (cases F) (simp_all add: tx_cfg_def)

lemma tx_cfg_ndp_small: "tx_cfg L F c \<Longrightarrow> max_ndp_size c < 65536"
  by (cases F) (simp_all add: tx_cfg_def)

section \<open>Finding or making the table\<close>

lemma ndp_found:
  assumes nf: "ntb_frames F m off (sk_data s) ds" and c: "\<not> flag_ndp_to_end c"
  shows "cdc_ncm_ndp F c s (ndp_nocrc_sign F) reserve = Inr (c, s, Some (In_skb off))"
proof -
  have o: "get (sk_data s) (nth_index_off F) (iw F) = off" "window (sk_data s) off 4 = ndp_nocrc_sign F"
      "nth_size F \<le> off" "off + m \<le> sk_len s" "ndp_size F + dpe_size F * (length ds + 1) \<le> m"
    using nf by (simp_all add: ntb_frames_def sk_len_def)
  have 0: "0 < off" using o(3) by (cases F) simp_all
  have 1: "off + ndp_size F \<le> sk_len s" using o(4,5) by simp
  then obtain k where k: "sk_len s = Suc k" using 0 by (cases "sk_len s") simp_all
  have "ndp_walk F (sk_len s) (sk_data s) (ndp_nocrc_sign F) off None = Inr (Some off, Some off)"
    using 0 1 o(2) unfolding k by (simp add: sk_len_def [symmetric] k)
  then show ?thesis using c by (simp add: cdc_ncm_ndp_def ndp_new_def o(1))
qed

lemma ndp_made:
  assumes cfg: "tx_cfg L F c" and fit: "fits F c f" and b: "blk F c s []"
  obtains s1 where "cdc_ncm_ndp F c s (ndp_nocrc_sign F) (length f + tx_modulus c + tx_remainder c) =
      Inr (c, s1, Some (In_skb (sk_len s1 - max_ndp_size c)))"
    "ntb_frames F (max_ndp_size c) (sk_len s1 - max_ndp_size c) (sk_data s1) []"
    "sk_len s1 + length f + tx_modulus c + tx_remainder c \<le> tx_curr_size c" "sk_cap s1 = sk_cap s"
proof -
  let ?m = "max_ndp_size c"
  obtain seq where data: "sk_data s = nth_image F seq" using b by (auto simp: blk_def)
  have cap: "tx_curr_size c = tx_max c" "tx_curr_size c \<le> sk_cap s" "sk_len s \<le> tx_curr_size c"
    using b by (simp_all add: blk_def)
  have c: "\<not> flag_ndp_to_end c" "tx_max c < 256 ^ iw F" "tx_max c < 2 ^ 31" "tx_ndp_modulus c \<le> 2 ^ 16"
    using cfg by (simp_all add: tx_cfg_def)
  obtain k where k: "tx_ndp_modulus c = 2 ^ k" using cfg by (auto simp: tx_cfg_def)
  have "tx_curr_size c < 2 ^ 31" using c(3) cap(1) by simp
  then obtain z where z: "cdc_ncm_align_tail s (tx_ndp_modulus c) 0 (tx_curr_size c) =
      s\<lparr>sk_data := sk_data s @ replicate z 0\<rparr>" "z < tx_ndp_modulus c + 0 \<or> z = 0"
    using align_tail_shape [OF k cap(3,2) _ c(4), of 0] by metis
  let ?b = "nth_image F seq @ replicate z 0"
  have zm: "z \<le> tx_ndp_modulus c" using z(2) by linarith
  have room: "length ?b + ?m + (length f + tx_modulus c + tx_remainder c) \<le> tx_curr_size c"
    using fit zm cap(1) by (simp add: fits_def)
  have tab: "ndp_size F + dpe_size F \<le> ?m" "?m < 65536"
    using tx_cfg_table [OF cfg, of 0] tx_cfg_ndp_small [OF cfg] cfg by (simp_all add: tx_cfg_def)
  have small: "length ?b < 256 ^ iw F" using room c(2) cap(1) tab format_sizes(7) [of F] by linarith
  let ?s1 = "s\<lparr>sk_data := ntb_new F ?m ?b\<rparr>"
  have len: "sk_len ?s1 = length ?b + ?m"
    using length_ntb_new [of F ?b ?m] tab by (simp add: sk_len_def)
  have w: "wsub64 (wsub32 (tx_curr_size c) (length ?b)) (length f + tx_modulus c + tx_remainder c) =
      tx_curr_size c - length ?b - (length f + tx_modulus c + tx_remainder c)"
    using room c(3) cap(1) by (simp add: wsub32_le wsub64_le)
  have nw: "\<not> wsub64 (wsub32 (tx_curr_size c) (length ?b)) (length f + tx_modulus c + tx_remainder c) < ?m"
    unfolding w using room by linarith
  have walk: "ndp_walk F n buf sg 0 None = Inr (None, None)" for n buf sg
    by (cases n) simp_all
  have put_cap: "length ?b + ?m \<le> sk_cap s" using room cap(2) by linarith
  have lp: "length (put ?b (nth_index_off F) (iw F) (length ?b)) = length ?b"
    using format_sizes(8) [of F] by (simp add: length_put)
  have "cdc_ncm_ndp F c s (ndp_nocrc_sign F) (length f + tx_modulus c + tx_remainder c) =
      Inr (c, ?s1, Some (In_skb (length ?b)))"
    using nw put_cap lp c(1)
    by (simp add: cdc_ncm_ndp_def ndp_new_def data nth_image_index walk z(1) Let_def sk_len_def
        skb_put_data_def ntb_new_def)
  moreover have "ntb_frames F ?m (length ?b) (sk_data ?s1) []"
    using ntb_new_frames [OF tab small] by simp
  moreover have "sk_len ?s1 - ?m = length ?b" using len by simp
  ultimately show ?thesis using that [of ?s1] len room by simp
qed

section \<open>Adding a frame\<close>

lemma entry_index:
  assumes "n < 1000"
  shows "nat (((int (ndp_size F + dpe_size F * (n + 1)) - int (ndp_size F)) mod 2 ^ 64
    div int (dpe_size F) - 1) mod 65536) = n"
  using assms by (cases F) simp_all

lemma add_frame_ntb:
  assumes nf: "ntb_frames F m off (sk_data s) ds"
    and room: "ndp_size F + dpe_size F * (length ds + 2) \<le> m" and n: "length ds < 1000"
    and cap: "sk_len s + length f \<le> sk_cap s"
  shows "ncm_add_frame F c s (In_skb off) f =
    Inr (c\<lparr>tx_curr_frame_payload := tx_curr_frame_payload c + length f\<rparr>,
      s\<lparr>sk_data := ntb_add F off (sk_data s) (length ds) f\<rparr>, length ds)"
proof -
  let ?n = "length ds"
  have L: "get (sk_data s) (off + ndp_len_off) 2 = ndp_size F + dpe_size F * (?n + 1)"
    "off + m \<le> length (sk_data s)"
    using nf by (simp_all add: ntb_frames_def)
  have p: "off + ndp_size F + ?n * dpe_size F + dpe_size F \<le> length (sk_data s)"
    using room L(2) by (simp add: algebra_simps)
  have len: "length (put (put (put (sk_data s) (off + ndp_size F + ?n * dpe_size F + iw F) (iw F) v)
      (off + ndp_size F + ?n * dpe_size F) (iw F) v') (off + ndp_len_off) 2 v'') = length (sk_data s)"
    for v v' v''
    using p format_sizes(4,7) [of F] ndp_len_off_4 by (simp add: length_put)
  have "ndp_size F + dpe_size F * (?n + 1) + dpe_size F = ndp_size F + dpe_size F * (?n + 2)"
    by simp
  note sum = this
  show ?thesis
    unfolding ncm_add_frame_def Let_def ndp_loc.case L(1) entry_index [OF n] sum
    using p cap by (simp add: skb_put_data_def sk_len_def len ntb_add_def Let_def)
qed

text \<open>The block after the frame has been added, or after it turned out not to fit.\<close>

lemma add_step:
  assumes cfg: "tx_cfg L F c" and fit: "fits F c f" and b: "blk F c s ds"
    and n: "length ds < tx_max_datagrams c"
  obtains s1 s2 off where
    "cdc_ncm_ndp F c s (ndp_nocrc_sign F) (length f + tx_modulus c + tx_remainder c) =
      Inr (c, s1, Some (In_skb off))"
    "s2 = cdc_ncm_align_tail s1 (tx_modulus c) (tx_remainder c) (tx_curr_size c)"
    "sk_len s2 \<le> tx_curr_size c" "sk_cap s2 = sk_cap s"
    "ntb_frames F (max_ndp_size c) off (sk_data s2) ds"
    "ds = [] \<Longrightarrow> sk_len s2 + length f \<le> tx_curr_size c"
proof -
  have cap: "tx_curr_size c = tx_max c" "tx_curr_size c \<le> sk_cap s" "sk_len s \<le> tx_curr_size c"
    using b by (simp_all add: blk_def)
  have c: "\<not> flag_ndp_to_end c" "tx_max c < 2 ^ 31" "tx_modulus c \<le> 2 ^ 16"
    using cfg by (simp_all add: tx_cfg_def)
  obtain k where k: "tx_modulus c = 2 ^ k" using cfg by (auto simp: tx_cfg_def)
  have found: "\<exists>s1 off. cdc_ncm_ndp F c s (ndp_nocrc_sign F) (length f + tx_modulus c + tx_remainder c) =
        Inr (c, s1, Some (In_skb off)) \<and> ntb_frames F (max_ndp_size c) off (sk_data s1) ds \<and>
      sk_len s1 \<le> tx_curr_size c \<and> sk_cap s1 = sk_cap s \<and>
      (ds = [] \<longrightarrow> sk_len s1 + length f + tx_modulus c + tx_remainder c \<le> tx_curr_size c)"
  proof (cases "ds = []")
    case True
    obtain s1 where s1: "cdc_ncm_ndp F c s (ndp_nocrc_sign F) (length f + tx_modulus c + tx_remainder c) =
        Inr (c, s1, Some (In_skb (sk_len s1 - max_ndp_size c)))"
      "ntb_frames F (max_ndp_size c) (sk_len s1 - max_ndp_size c) (sk_data s1) []"
      "sk_len s1 + length f + tx_modulus c + tx_remainder c \<le> tx_curr_size c" "sk_cap s1 = sk_cap s"
      by (rule ndp_made [OF cfg fit b [unfolded True]])
    then have "sk_len s1 \<le> tx_curr_size c" by linarith
    then show ?thesis using s1 True by blast
  next
    case False
    then obtain off where off: "ntb_frames F (max_ndp_size c) off (sk_data s) ds"
      using b by (auto simp: blk_def)
    show ?thesis using ndp_found [OF off c(1)] off cap False by blast
  qed
  then obtain s1 off where s1: "cdc_ncm_ndp F c s (ndp_nocrc_sign F)
        (length f + tx_modulus c + tx_remainder c) = Inr (c, s1, Some (In_skb off))"
      "ntb_frames F (max_ndp_size c) off (sk_data s1) ds" "sk_len s1 \<le> tx_curr_size c"
      "sk_cap s1 = sk_cap s"
      "ds = [] \<longrightarrow> sk_len s1 + length f + tx_modulus c + tx_remainder c \<le> tx_curr_size c"
    by blast
  have lt: "tx_curr_size c \<le> sk_cap s1" "tx_curr_size c < 2 ^ 31" using cap c s1(4) by simp_all
  obtain z where z: "cdc_ncm_align_tail s1 (tx_modulus c) (tx_remainder c) (tx_curr_size c) =
      s1\<lparr>sk_data := sk_data s1 @ replicate z 0\<rparr>" "sk_len s1 + z \<le> tx_curr_size c"
      "z < tx_modulus c + tx_remainder c \<or> z = 0"
    using align_tail_shape [OF k s1(3) lt c(3), of "tx_remainder c"] by metis
  let ?s2 = "s1\<lparr>sk_data := sk_data s1 @ replicate z 0\<rparr>"
  have len: "sk_len ?s2 = sk_len s1 + z" by (simp add: sk_len_def)
  have small: "ds = [] \<Longrightarrow> sk_len ?s2 + length f \<le> tx_curr_size c"
    using s1(5) z(3) len by linarith
  show ?thesis
    by (rule that [OF s1(1) refl]) (use z s1 len small ntb_frames_append in simp_all)
qed

section \<open>The loop\<close>

definition signed :: "ntb_format \<Rightarrow> ncm_ctx \<Rightarrow> bool" where
  "signed F c \<longleftrightarrow> tx_rem_skb c \<noteq> None \<longrightarrow> tx_rem_sign c = ndp_nocrc_sign F"

text \<open>What the loop leaves: a block with more frames, and what did not go in.\<close>

definition loop_result ::
  "ntb_format \<Rightarrow> ncm_ctx \<Rightarrow> bytes list \<Rightarrow> bytes list \<Rightarrow> bool \<Rightarrow>
     ncm_fault + ncm_ctx \<times> sk_buff \<times> bytes option \<times> nat \<times> bool \<Rightarrow> bool" where
  "loop_result F c ds q ready r \<longleftrightarrow> (case r of
     Inl _ \<Rightarrow> False
   | Inr (c', s', left, n', ready') \<Rightarrow>
       \<exists>ds'. blk F c' s' ds' \<and> n' = length ds' \<and> left = None \<and>
         ds @ q = ds' @ opt_list (tx_rem_skb c') \<and> same_cfg c c' \<and> signed F c' \<and>
         (ready \<longrightarrow> ready') \<and> length ds' \<le> tx_max_datagrams c \<and>
         (tx_rem_skb c' \<noteq> None \<longrightarrow> ready' \<or> n' = tx_max_datagrams c) \<and>
         (ready' \<longrightarrow> ready \<or> ds' \<noteq> []) \<and> (\<exists>e. ds' = ds @ e) \<and> (ds @ q \<noteq> [] \<longrightarrow> ds' \<noteq> []))"

lemma loop_resultI:
  "blk F c' s' ds' \<Longrightarrow> n' = length ds' \<Longrightarrow> ds @ q = ds' @ opt_list (tx_rem_skb c') \<Longrightarrow> same_cfg c c' \<Longrightarrow>
   signed F c' \<Longrightarrow> (ready \<Longrightarrow> ready') \<Longrightarrow> length ds' \<le> tx_max_datagrams c \<Longrightarrow>
   (tx_rem_skb c' \<noteq> None \<Longrightarrow> ready' \<or> n' = tx_max_datagrams c) \<Longrightarrow> (ready' \<Longrightarrow> ready \<or> ds' \<noteq> []) \<Longrightarrow>
   ds' = ds @ e \<Longrightarrow> (ds @ q \<noteq> [] \<Longrightarrow> ds' \<noteq> []) \<Longrightarrow> loop_result F c ds q ready (Inr (c', s', None, n', ready'))"
  by (auto simp: loop_result_def)

lemma loop_resultE:
  assumes "loop_result F c ds q ready r"
  obtains c' s' n' ready' ds' e where "r = Inr (c', s', None, n', ready')"
    "blk F c' s' ds'" "n' = length ds'" "ds @ q = ds' @ opt_list (tx_rem_skb c')" "same_cfg c c'"
    "signed F c'" "ready \<Longrightarrow> ready'" "length ds' \<le> tx_max_datagrams c"
    "tx_rem_skb c' \<noteq> None \<Longrightarrow> ready' \<or> n' = tx_max_datagrams c" "ready' \<Longrightarrow> ready \<or> ds' \<noteq> []"
    "ds' = ds @ e" "ds @ q \<noteq> [] \<Longrightarrow> ds' \<noteq> []"
proof (cases r)
  case (Inl g)
  then show ?thesis using assms by (simp add: loop_result_def)
next
  case (Inr x)
  obtain c2 s2 left n2 ready2 where x: "x = (c2, s2, left, n2, ready2)" by (cases x)
  show ?thesis
    using assms that unfolding Inr x loop_result_def sum.case prod.case by blast
qed

lemma loop_result_Cons:
  assumes "loop_result F c' (ds @ [f]) q ready r" "same_cfg c c'"
  shows "loop_result F c ds (f # q) ready r"
proof -
  have m: "tx_max_datagrams c' = tx_max_datagrams c" using assms(2) by (simp add: same_cfg_def)
  from assms(1) show ?thesis
  proof (rule loop_resultE)
    fix c2 s2 n2 ready2 ds2 e
    assume h: "r = Inr (c2, s2, None, n2, ready2)" "blk F c2 s2 ds2" "n2 = length ds2"
      "(ds @ [f]) @ q = ds2 @ opt_list (tx_rem_skb c2)" "same_cfg c' c2" "signed F c2"
      "ready \<Longrightarrow> ready2" "length ds2 \<le> tx_max_datagrams c'"
      "tx_rem_skb c2 \<noteq> None \<Longrightarrow> ready2 \<or> n2 = tx_max_datagrams c'" "ds2 = (ds @ [f]) @ e"
    show ?thesis
      unfolding h(1)
    proof (rule loop_resultI [OF h(2,3)])
      show "ds @ f # q = ds2 @ opt_list (tx_rem_skb c2)" using h(4) by simp
      show "same_cfg c c2" using assms(2) h(5) by (rule same_cfg_trans)
      show "ds2 = ds @ (f # e)" using h(10) by simp
    qed (use h m in simp_all)
  qed
qed

lemma loop_result_same:
  assumes "loop_result F c' ds q ready r" "same_cfg c c'"
  shows "loop_result F c ds q ready r"
proof -
  have m: "tx_max_datagrams c' = tx_max_datagrams c" using assms(2) by (simp add: same_cfg_def)
  from assms(1) show ?thesis
  proof (rule loop_resultE)
    fix c2 s2 n2 ready2 ds2 e
    assume h: "r = Inr (c2, s2, None, n2, ready2)" "blk F c2 s2 ds2" "n2 = length ds2"
      "ds @ q = ds2 @ opt_list (tx_rem_skb c2)" "same_cfg c' c2" "signed F c2"
      "ready \<Longrightarrow> ready2" "length ds2 \<le> tx_max_datagrams c'"
      "tx_rem_skb c2 \<noteq> None \<Longrightarrow> ready2 \<or> n2 = tx_max_datagrams c'" "ready2 \<Longrightarrow> ready \<or> ds2 \<noteq> []"
      "ds2 = ds @ e" "ds @ q \<noteq> [] \<Longrightarrow> ds2 \<noteq> []"
    show ?thesis
      unfolding h(1)
      by (rule loop_resultI [OF h(2,3,4) same_cfg_trans [OF assms(2) h(5)] h(6)])
        (use h m in simp_all)
  qed
qed

lemma same_cfg_updates [simp]:
  "same_cfg c (c\<lparr>tx_curr_frame_payload := p\<rparr>)" "same_cfg c (c\<lparr>tx_rem_skb := r\<rparr>)"
  "same_cfg c (c\<lparr>tx_rem_skb := r, tx_rem_sign := sg, tx_reason_ntb_full := k\<rparr>)"
  by (simp_all add: same_cfg_def)

lemma blk_updates [simp]:
  "blk F (c\<lparr>tx_curr_frame_payload := p\<rparr>) s ds = blk F c s ds"
  "blk F (c\<lparr>tx_rem_skb := r\<rparr>) s ds = blk F c s ds"
  "blk F (c\<lparr>tx_rem_skb := r, tx_rem_sign := sg, tx_reason_ntb_full := k\<rparr>) s ds = blk F c s ds"
  by (simp_all add: blk_def)

lemma blk_added:
  assumes cfg: "tx_cfg L F c" and b: "blk F c s ds" and n: "length ds < tx_max_datagrams c"
    and nf: "ntb_frames F (max_ndp_size c) off (sk_data s2) ds" and cap: "sk_cap s2 = sk_cap s"
    and len: "sk_len s2 + length f \<le> tx_curr_size c"
  shows "blk F c (s2\<lparr>sk_data := ntb_add F off (sk_data s2) (length ds) f\<rparr>) (ds @ [f])"
proof -
  let ?m = "max_ndp_size c"
  have tab: "ndp_size F + dpe_size F * (length ds + 2) \<le> ?m" "?m < 65536"
    using tx_cfg_table [OF cfg, of "length ds"] tx_cfg_ndp_small [OF cfg] n by simp_all
  have cs: "tx_curr_size c = tx_max c" "tx_curr_size c \<le> sk_cap s"
    using b by (simp_all add: blk_def)
  have small: "length (sk_data s2) + length f < 256 ^ iw F"
    using len cs cfg by (simp add: tx_cfg_def sk_len_def)
  have frames: "ntb_frames F ?m off (ntb_add F off (sk_data s2) (length ds) f) (ds @ [f])"
    by (rule ntb_add_frames [OF nf tab small])
  have p: "off + ndp_size F + length ds * dpe_size F + dpe_size F \<le> length (sk_data s2)"
    using tab(1) nf by (simp add: ntb_frames_def algebra_simps)
  have "length (ntb_add F off (sk_data s2) (length ds) f) = length (sk_data s2) + length f"
    using p format_sizes(4,7) [of F] ndp_len_off_4 by (simp add: ntb_add_def Let_def length_put)
  then show ?thesis
    using frames len cs cap by (auto simp: blk_def sk_len_def)
qed

lemma loop_frame:
  assumes cfg: "tx_cfg L F c" and fit: "fits F c f" and b: "blk F c s ds"
    and n: "length ds < tx_max_datagrams c"
    and rem: "ds \<noteq> [] \<Longrightarrow> tx_rem_skb c = None"
    and next_ok: "\<And>c' s'. same_cfg c c' \<Longrightarrow> tx_rem_skb c' = tx_rem_skb c \<Longrightarrow>
        tx_rem_sign c' = tx_rem_sign c \<Longrightarrow> blk F c' s' (ds @ [f]) \<Longrightarrow>
        loop_result F c' (ds @ [f]) q ready
          (tx_loop L F 0 k (length ds + 1) c' s' None (ndp_nocrc_sign F) ready)"
    and q: "ds \<noteq> [] \<Longrightarrow> q = []"
  shows "loop_result F c ds (f # q) ready
    (tx_loop L F 0 (Suc k) (length ds) c s (Some f) (ndp_nocrc_sign F) ready)"
proof -
  obtain s1 s2 off where
    ndp: "cdc_ncm_ndp F c s (ndp_nocrc_sign F) (length f + tx_modulus c + tx_remainder c) =
        Inr (c, s1, Some (In_skb off))"
    and s2: "s2 = cdc_ncm_align_tail s1 (tx_modulus c) (tx_remainder c) (tx_curr_size c)"
      "sk_len s2 \<le> tx_curr_size c" "sk_cap s2 = sk_cap s"
      "ntb_frames F (max_ndp_size c) off (sk_data s2) ds"
      "ds = [] \<Longrightarrow> sk_len s2 + length f \<le> tx_curr_size c"
    using add_step [OF cfg fit b n] by metis
  have cs: "tx_curr_size c = tx_max c" "tx_curr_size c \<le> sk_cap s" using b by (simp_all add: blk_def)
  show ?thesis
  proof (cases "sk_len s2 + length f > tx_curr_size c")
    case True
    then have ds: "ds \<noteq> []" using s2(5) by auto
    have b2: "blk F c s2 ds" using s2(2,3,4) cs ds by (auto simp: blk_def)
    have "tx_loop L F 0 (Suc k) (length ds) c s (Some f) (ndp_nocrc_sign F) ready =
        Inr (c\<lparr>tx_rem_skb := Some f, tx_rem_sign := ndp_nocrc_sign F,
               tx_reason_ntb_full := tx_reason_ntb_full c + 1\<rparr>, s2, None, length ds, True)"
      using True ds rem by (simp add: ndp s2(1) [symmetric])
    moreover have "loop_result F c ds (f # q) ready
        (Inr (c\<lparr>tx_rem_skb := Some f, tx_rem_sign := ndp_nocrc_sign F,
               tx_reason_ntb_full := tx_reason_ntb_full c + 1\<rparr>, s2, None, length ds, True))"
      using b2 ds n q by (intro loop_resultI [of F _ _ ds, where e = "[]"]) (simp_all add: signed_def)
    ultimately show ?thesis by simp
  next
    case False
    then have le: "sk_len s2 + length f \<le> tx_curr_size c" by simp
    have n1000: "length ds < 1000" using n cfg by (simp add: tx_cfg_def)
    have tab: "ndp_size F + dpe_size F * (length ds + 2) \<le> max_ndp_size c"
      using tx_cfg_table [OF cfg, of "length ds"] n by simp
    have cap: "sk_len s2 + length f \<le> sk_cap s2" using le s2(3) cs by simp
    let ?c' = "c\<lparr>tx_curr_frame_payload := tx_curr_frame_payload c + length f\<rparr>"
    let ?s' = "s2\<lparr>sk_data := ntb_add F off (sk_data s2) (length ds) f\<rparr>"
    have add: "ncm_add_frame F c s2 (In_skb off) f = Inr (?c', ?s', length ds)"
      by (rule add_frame_ntb [OF s2(4) tab n1000 cap])
    have dpt: "\<not> DPT_DATAGRAMS_MAX L \<le> length ds" using n cfg by (simp add: tx_cfg_def)
    have b': "blk F ?c' ?s' (ds @ [f])"
      using blk_added [OF cfg b n s2(4,3) le] by simp
    have "tx_loop L F 0 (Suc k) (length ds) c s (Some f) (ndp_nocrc_sign F) ready =
        tx_loop L F 0 k (length ds + 1) ?c' ?s' None (ndp_nocrc_sign F) ready"
      using False dpt by (simp add: ndp s2(1) [symmetric] add)
    moreover have "loop_result F ?c' (ds @ [f]) q ready
        (tx_loop L F 0 k (length ds + 1) ?c' ?s' None (ndp_nocrc_sign F) ready)"
      by (rule next_ok [OF _ _ _ b']) simp_all
    ultimately show ?thesis using loop_result_Cons [of F ?c' ds f q ready _ c] by simp
  qed
qed

lemma loop_done:
  assumes "tx_cfg L F c" "blk F c s ds" "length ds \<le> tx_max_datagrams c" "tx_rem_skb c = None"
  shows "loop_result F c ds [] ready (tx_loop L F 0 k (length ds) c s None sg ready)"
proof -
  have "c\<lparr>tx_rem_skb := None\<rparr> = c" using assms(4) by simp
  then have "tx_loop L F 0 k (length ds) c s None sg ready = Inr (c, s, None, length ds, ready)"
    using assms(4) by (cases k) simp_all
  moreover have "loop_result F c ds [] ready (Inr (c, s, None, length ds, ready))"
    by (rule loop_resultI [OF assms(2), where e = "[]"]) (use assms in \<open>simp_all add: signed_def\<close>)
  ultimately show ?thesis by simp
qed

lemma loop_none:
  assumes cfg: "tx_cfg L F c" and b: "blk F c s ds" and k: "length ds + k = tx_max_datagrams c"
    and sg: "signed F c" and fit: "\<forall>f \<in> set (opt_list (tx_rem_skb c)). fits F c f"
  shows "loop_result F c ds (opt_list (tx_rem_skb c)) ready
    (tx_loop L F 0 k (length ds) c s None sign ready)"
proof (cases "tx_rem_skb c")
  case None
  then show ?thesis using loop_done [OF cfg b _ None] k by simp
next
  case (Some f)
  show ?thesis
  proof (cases k)
    case 0
    have "tx_loop L F 0 k (length ds) c s None sign ready = Inr (c, s, None, length ds, ready)"
      by (simp add: 0)
    moreover have "loop_result F c ds (opt_list (tx_rem_skb c)) ready (Inr (c, s, None, length ds, ready))"
      by (rule loop_resultI [OF b, where e = "[]"])
        (use Some sg k 0 cfg in \<open>simp_all add: tx_cfg_def, auto\<close>)
    ultimately show ?thesis by simp
  next
    case (Suc j)
    let ?c = "c\<lparr>tx_rem_skb := None\<rparr>"
    have cfg': "tx_cfg L F ?c" and fit': "fits F ?c f"
      using cfg fit Some same_cfg_cong(1,2) [of c ?c] by simp_all
    have n: "length ds < tx_max_datagrams ?c" using k Suc by simp
    have sign: "tx_rem_sign c = ndp_nocrc_sign F" using sg Some by (simp add: signed_def)
    have eq: "tx_loop L F 0 k (length ds) c s None sign ready =
        tx_loop L F 0 (Suc j) (length ds) ?c s (Some f) (ndp_nocrc_sign F) ready"
      by (simp add: Suc Some sign)
    have "loop_result F ?c ds [f] ready
        (tx_loop L F 0 (Suc j) (length ds) ?c s (Some f) (ndp_nocrc_sign F) ready)"
    proof (rule loop_frame [OF cfg' fit' _ n])
      show "blk F ?c s ds" using b by simp
      fix c' s' assume c': "same_cfg ?c c'" "tx_rem_skb c' = tx_rem_skb ?c" "blk F c' s' (ds @ [f])"
      have "tx_max_datagrams c' = tx_max_datagrams c" using c'(1) by (simp add: same_cfg_def)
      then show "loop_result F c' (ds @ [f]) [] ready
          (tx_loop L F 0 j (length ds + 1) c' s' None (ndp_nocrc_sign F) ready)"
        using loop_done [OF _ c'(3), of L ready j] c'(2) n same_cfg_cong(1) [OF c'(1)] cfg' by simp
    qed simp_all
    then show ?thesis
      unfolding eq Some opt_list_simps by (rule loop_result_same) simp
  qed
qed

section \<open>Sending a block\<close>

lemma put_block_frames:
  assumes nf: "ntb_frames F m off buf ds"
  shows "ntb_frames F m off (put buf nth_block_off (iw F) v) ds"
proof -
  note fs = format_sizes [of F]
  have h: "nth_size F \<le> off" "off + m \<le> length buf" "ndp_size F + dpe_size F * (length ds + 1) \<le> m"
    using nf by (simp_all add: ntb_frames_def)
  have b: "nth_block_off + iw F \<le> nth_index_off F" "nth_block_off + iw F \<le> off" "4 \<le> nth_block_off"
    using fs(2,9,10) h(1) fs(8,9) by (simp_all add: nth_block_off_def)
  have fr: "frame_at F m off (put buf nth_block_off (iw F) v) i (ds ! i)" if i: "i < length ds" for i
  proof (rule frame_at_put)
    show "frame_at F m off buf i (ds ! i)" using nf i by (simp add: ntb_frames_def)
    have "dpe_size F * (i + 1) \<le> dpe_size F * (length ds + 1)" using i by (intro mult_left_mono) simp_all
    then show "ndp_size F + dpe_size F * (i + 1) \<le> m" using h(3) by linarith
  qed (use h b in simp_all)
  have len: "nth_block_off + iw F \<le> length buf" using b h by linarith
  have keep: "get (put buf nth_block_off (iw F) v) o2 k = get buf o2 k"
      "window (put buf nth_block_off (iw F) v) o2 k = window buf o2 k"
    if "o2 + k \<le> nth_block_off \<or> nth_block_off + iw F \<le> o2" "o2 + k \<le> length buf" for o2 k
    using get_put_other [OF len that(2,1)] window_put_other [OF len that(2,1)] by simp_all
  show ?thesis
    using nf fr b h fs ndp_len_off_4 unfolding ntb_frames_def
    by (simp add: keep length_put [OF len])
qed

lemma pad_shape:
  assumes "sk_len s \<le> tx_curr_size c" "tx_curr_size c \<le> sk_cap s" "tx_curr_size c < 2 ^ 31"
  obtains z where "tx_pad zlp mp c s = Inr (s\<lparr>sk_data := sk_data s @ z\<rparr>)"
    "sk_len s + length z \<le> tx_curr_size c"
proof -
  have w: "wsub32 (tx_curr_size c) (sk_len s) = tx_curr_size c - sk_len s"
    using assms by (simp add: wsub32_le)
  consider "\<not> zlp \<and> sk_len s > min_tx_pkt c"
    | "\<not> (\<not> zlp \<and> sk_len s > min_tx_pkt c)" "sk_len s < tx_curr_size c \<and> sk_len s mod mp = 0"
    | "\<not> (\<not> zlp \<and> sk_len s > min_tx_pkt c)" "\<not> (sk_len s < tx_curr_size c \<and> sk_len s mod mp = 0)"
    by blast
  then show ?thesis
  proof cases
    case 1
    show ?thesis
      by (rule that [of "replicate (tx_curr_size c - sk_len s) 0"])
        (use 1 assms in \<open>simp_all add: tx_pad_def w skb_put_data_def Let_def\<close>)
  next
    case 2
    show ?thesis
      by (rule that [of "[0]"]) (use 2 assms in \<open>auto simp: tx_pad_def skb_put_data_def\<close>)
  next
    case 3
    show ?thesis by (rule that [of "[]"]) (use 3 assms in \<open>auto simp: tx_pad_def\<close>)
  qed
qed

text \<open>The block that goes out carries the frames and says its own length (cut to the field).\<close>

definition sent_block :: "ntb_format \<Rightarrow> ncm_ctx \<Rightarrow> sk_buff \<Rightarrow> bytes list \<Rightarrow> bool" where
  "sent_block F c b ds \<longleftrightarrow> ds \<noteq> [] \<and> sk_len b \<le> tx_max c \<and>
     (\<exists>off. ntb_frames F (max_ndp_size c) off (sk_data b) ds) \<and>
     get (sk_data b) nth_block_off (iw F) = sk_len b"

lemma finish_block:
  assumes cfg: "tx_cfg L F c" and b: "blk F c s ds" and ds: "ds \<noteq> []"
  obtains c' out where "tx_finish F zlp mp c s = Inr (c', out)" "sent_block F c out ds"
    "same_cfg c c'" "tx_curr_skb c' = None" "tx_rem_skb c' = tx_rem_skb c" "tx_rem_sign c' = tx_rem_sign c"
proof -
  obtain off where nf: "ntb_frames F (max_ndp_size c) off (sk_data s) ds"
    using b ds by (auto simp: blk_def)
  have cs: "sk_len s \<le> tx_curr_size c" "tx_curr_size c \<le> sk_cap s" "tx_curr_size c = tx_max c"
    using b by (simp_all add: blk_def)
  have lim: "tx_curr_size c < 2 ^ 31" "tx_max c < 256 ^ iw F" "\<not> flag_ndp_to_end c"
    using cfg cs(3) by (simp_all add: tx_cfg_def)
  obtain z where z: "tx_pad zlp mp c s = Inr (s\<lparr>sk_data := sk_data s @ z\<rparr>)"
      "sk_len s + length z \<le> tx_curr_size c"
    by (rule pad_shape [OF cs(1,2) lim(1)])
  let ?s = "s\<lparr>sk_data := sk_data s @ z\<rparr>"
  let ?out = "?s\<lparr>sk_data := put (sk_data ?s) nth_block_off (iw F) (sk_len ?s)\<rparr>"
  have nf2: "ntb_frames F (max_ndp_size c) off (sk_data ?s) ds"
    using ntb_frames_append [OF nf, of z] by simp
  have len: "nth_block_off + iw F \<le> length (sk_data s @ z)"
    using nf2 format_sizes(2,8,9) [of F] by (simp add: ntb_frames_def nth_block_off_def)
  have "sent_block F c ?out ds"
    using put_block_frames [OF nf2, of "sk_len ?s"] z(2) cs(3) ds len lim(2)
    by (auto simp: sent_block_def sk_len_def length_put get_put_same)
  moreover have "tx_finish F zlp mp c s =
      Inr (c\<lparr>tx_curr_skb := None,
             tx_overhead := tx_overhead c + word_of_nat (sk_len ?s) - word_of_nat (tx_curr_frame_payload c),
             tx_ntbs := tx_ntbs c + 1\<rparr>, ?out)"
    by (simp add: tx_finish_def tx_place_delayed_def lim(3) z(1))
  ultimately show ?thesis using that by (simp add: same_cfg_def)
qed

section \<open>The state between calls\<close>

text \<open>\<open>tx_state L F c q\<close>: the context holds exactly the frames \<open>q\<close>, those of the block being filled
  and the remaining one.\<close>

definition tx_state :: "ncm_limits \<Rightarrow> ntb_format \<Rightarrow> ncm_ctx \<Rightarrow> bytes list \<Rightarrow> bool" where
  "tx_state L F c q \<longleftrightarrow> tx_cfg L F c \<and> signed F c \<and> (\<forall>f \<in> set q. fits F c f) \<and>
     (case tx_curr_skb c of
        None \<Rightarrow> q = opt_list (tx_rem_skb c)
      | Some s \<Rightarrow> tx_rem_skb c = None \<and> blk F c s q \<and> tx_curr_frame_num c = length q \<and>
          length q < tx_max_datagrams c)"

text \<open>What one call may do with the frames \<open>q\<close> held and handed in.\<close>

definition tx_outcome ::
  "ncm_limits \<Rightarrow> ntb_format \<Rightarrow> ncm_ctx \<Rightarrow> bytes list \<Rightarrow> bool \<Rightarrow> ncm_fault + ncm_ctx \<times> sk_buff option \<Rightarrow> bool"
where
  "tx_outcome L F c q flush r \<longleftrightarrow> (case r of
     Inl _ \<Rightarrow> False
   | Inr (c', None) \<Rightarrow> same_cfg c c' \<and> tx_state L F c' q \<and> (flush \<longrightarrow> q = [])
   | Inr (c', Some b) \<Rightarrow> same_cfg c c' \<and>
       (\<exists>ds q'. q = ds @ q' \<and> sent_block F c' b ds \<and> tx_state L F c' q' \<and> (flush \<longrightarrow> q' = [])))"

lemma same_cfg_more [simp]:
  "same_cfg c (c\<lparr>tx_curr_frame_num := n\<rparr>)" "same_cfg c (c\<lparr>tx_curr_skb := s\<rparr>)"
  "same_cfg c (c\<lparr>tx_timer_pending := t\<rparr>)" "same_cfg c (c\<lparr>tx_reason_max_datagram := k\<rparr>)"
  "same_cfg c (cdc_ncm_tx_timeout_start c)"
  by (simp_all add: same_cfg_def cdc_ncm_tx_timeout_start_def)

lemma timeout_start_simps [simp]:
  "tx_curr_skb (cdc_ncm_tx_timeout_start c) = tx_curr_skb c"
  "tx_rem_skb (cdc_ncm_tx_timeout_start c) = tx_rem_skb c"
  "tx_rem_sign (cdc_ncm_tx_timeout_start c) = tx_rem_sign c"
  "tx_curr_frame_num (cdc_ncm_tx_timeout_start c) = tx_curr_frame_num c"
  "tx_curr_size (cdc_ncm_tx_timeout_start c) = tx_curr_size c"
  by (simp_all add: cdc_ncm_tx_timeout_start_def)

lemma tx_send_outcome:
  assumes cfg: "tx_cfg L F c0" and r: "loop_result F c0 ds q flush (Inr (c, s, left, n, ready))"
    and fit: "\<forall>f \<in> set (ds @ q). fits F c0 f"
    and fl: "flush \<Longrightarrow> length (ds @ q) \<le> 1 \<or> q = []"
  shows "tx_outcome L F c0 (ds @ q) (flush \<and> ds @ q \<noteq> []) (tx_send L F zlp mp n c s left ready)"
  using r
proof (rule loop_resultE)
  fix c' s' n' ready' ds' e
  assume h: "Inr (c, s, left, n, ready) = Inr (c', s', None, n', ready')" "blk F c' s' ds'"
    "n' = length ds'" "ds @ q = ds' @ opt_list (tx_rem_skb c')"
    "same_cfg c0 c'" "signed F c'" "flush \<Longrightarrow> ready'"
    "length ds' \<le> tx_max_datagrams c0"
    "tx_rem_skb c' \<noteq> None \<Longrightarrow> ready' \<or> n' = tx_max_datagrams c0"
    "ready' \<Longrightarrow> flush \<or> ds' \<noteq> []" "ds' = ds @ e" "ds @ q \<noteq> [] \<Longrightarrow> ds' \<noteq> []"
  have eqs: "c' = c" "s' = s" "left = None" "n' = n" "ready' = ready" using h(1) by simp_all
  have b: "blk F c s ds'" and n: "n = length ds'" and sc: "same_cfg c0 c" and sg: "signed F c"
    and full: "tx_rem_skb c \<noteq> None \<Longrightarrow> ready \<or> n = tx_max_datagrams c0"
    and dq: "ds @ q = ds' @ opt_list (tx_rem_skb c)"
    using h eqs by simp_all
  have cfgc: "tx_cfg L F c" using cfg same_cfg_cong(1) [OF sc] by simp
  have maxc: "tx_max_datagrams c = tx_max_datagrams c0" using sc by (simp add: same_cfg_def)
  have fitc: "\<forall>f \<in> set (ds @ q). fits F c f" using fit same_cfg_cong(2) [OF sc] by simp
  let ?c = "c\<lparr>tx_curr_frame_num := n\<rparr>"
  have hold: "tx_state L F (d\<lparr>tx_curr_skb := Some s\<rparr>) ds'"
    if "same_cfg c d" "tx_curr_size d = tx_curr_size c" "tx_curr_frame_num d = n" "tx_rem_skb d = None"
      "n < tx_max_datagrams c" "ds @ q = ds'" for d
  proof -
    let ?d = "d\<lparr>tx_curr_skb := Some s\<rparr>"
    have sd: "same_cfg c ?d" using that(1) by (simp add: same_cfg_def)
    have "tx_max_datagrams ?d = tx_max_datagrams c" using sd by (simp add: same_cfg_def)
    then show ?thesis
      using that same_cfg_cong [OF sd] cfgc fitc b n
      by (simp add: tx_state_def signed_def)
  qed
  show ?thesis
  proof (cases "n = 0")
    case True
    then have em: "ds' = []" "ds @ q = []" using n h(12) by auto
    then have rem: "tx_rem_skb c = None" using dq by (cases "tx_rem_skb c") simp_all
    have "tx_send L F zlp mp n c s left ready = Inr (?c\<lparr>tx_curr_skb := Some s\<rparr>, None)"
      using True eqs by (simp add: tx_send_def Let_def)
    moreover have "tx_state L F (?c\<lparr>tx_curr_skb := Some s\<rparr>) ds'"
      by (rule hold) (use True rem em cfgc in \<open>simp_all add: tx_cfg_def\<close>)
    moreover have "same_cfg c0 (?c\<lparr>tx_curr_skb := Some s\<rparr>)"
      using sc by (simp add: same_cfg_def)
    ultimately show ?thesis using em by (simp add: tx_outcome_def)
  next
    case False
    show ?thesis
    proof (cases "n < tx_max_datagrams c \<and> \<not> ready \<and> timer_interval c > 0")
      case True
      then have rem: "tx_rem_skb c = None" using full maxc by fastforce
      let ?e = "?c\<lparr>tx_timer_pending :=
          (if n < RESTART_TIMER_DATAGRAM_CNT L then TIMER_PENDING_CNT L else tx_timer_pending c)\<rparr>"
      let ?d = "cdc_ncm_tx_timeout_start (?c\<lparr>tx_curr_skb := Some s, tx_timer_pending :=
          (if n < RESTART_TIMER_DATAGRAM_CNT L then TIMER_PENDING_CNT L else tx_timer_pending c)\<rparr>)"
      have nfl: "\<not> flush" using h(7) eqs True by auto
      have d': "?d = (cdc_ncm_tx_timeout_start ?e)\<lparr>tx_curr_skb := Some s\<rparr>"
        by (rule ncm_ctx.equality) (simp_all add: cdc_ncm_tx_timeout_start_def)
      have sce: "same_cfg c (cdc_ncm_tx_timeout_start ?e)"
        by (simp add: same_cfg_def cdc_ncm_tx_timeout_start_def)
      have scd: "same_cfg c ?d" by (simp add: same_cfg_def cdc_ncm_tx_timeout_start_def)
      have "tx_send L F zlp mp n c s left ready = Inr (?d, None)"
        using True False eqs by (simp add: tx_send_def Let_def)
      moreover have "tx_state L F ?d ds'"
        unfolding d' by (rule hold [OF sce]) (use True rem dq in simp_all)
      ultimately show ?thesis
        using same_cfg_trans [OF sc scd] nfl rem dq by (simp add: tx_outcome_def)
    next
      case send: False
      let ?d = "if n = tx_max_datagrams ?c
        then ?c\<lparr>tx_reason_max_datagram := tx_reason_max_datagram ?c + 1\<rparr> else ?c"
      have scd: "same_cfg c ?d" by (simp add: same_cfg_def)
      have d: "tx_curr_size ?d = tx_curr_size c" "tx_rem_skb ?d = tx_rem_skb c"
          "tx_rem_sign ?d = tx_rem_sign c" by simp_all
      have cfgd: "tx_cfg L F ?d" using cfgc same_cfg_cong(1) [OF scd] by simp
      have bd: "blk F ?d s ds'" using b same_cfg_cong(3) [OF scd d(1)] by simp
      have ne: "ds' \<noteq> []" using False n by auto
      obtain c2 out where fin: "tx_finish F zlp mp ?d s = Inr (c2, out)" "sent_block F ?d out ds'"
          "same_cfg ?d c2" "tx_curr_skb c2 = None" "tx_rem_skb c2 = tx_rem_skb ?d"
          "tx_rem_sign c2 = tx_rem_sign ?d"
        by (rule finish_block [OF cfgd bd ne])
      have sc2: "same_cfg c c2" using scd fin(3) by (rule same_cfg_trans)
      have out: "sent_block F c2 out ds'"
        using fin(2,3) by (simp add: sent_block_def same_cfg_def)
      have "\<forall>f \<in> set (opt_list (tx_rem_skb c)). fits F c2 f"
        using fitc dq same_cfg_cong(2) [OF sc2] by simp
      then have st: "tx_state L F c2 (opt_list (tx_rem_skb c))"
        using fin(4,5,6) d sg cfgc same_cfg_cong(1) [OF sc2]
        by (simp add: tx_state_def signed_def)
      have fl2: "flush \<Longrightarrow> opt_list (tx_rem_skb c) = []"
        using fl dq h(11) ne by (cases "tx_rem_skb c") (auto simp: Cons_eq_append_conv)
      have "tx_send L F zlp mp n c s left ready = Inr (c2, Some out)"
        using send False eqs fin(1) by (simp add: tx_send_def Let_def)
      then show ?thesis
        using same_cfg_trans [OF sc sc2] out st dq fl2 by (auto simp: tx_outcome_def)
    qed
  qed
qed

section \<open>No frame is lost\<close>

lemma start_block:
  assumes cfg: "tx_cfg L F c" and al: "alloc1 (tx_max c) = Some cap" "tx_max c \<le> cap"
  obtains c1 c2 s where "tx_alloc L alloc1 alloc2 c frame = (c1, Some \<lparr>sk_data = [], sk_cap = cap\<rparr>)"
    "tx_start_block F c1 \<lparr>sk_data = [], sk_cap = cap\<rparr> = Inr (c2, s)" "blk F c2 s []"
    "same_cfg c c2" "tx_rem_skb c2 = tx_rem_skb c" "tx_rem_sign c2 = tx_rem_sign c"
    "tx_curr_frame_num c2 = 0"
proof -
  let ?c1 = "c\<lparr>tx_curr_size := tx_max c\<rparr>"
  let ?c2 = "?c1\<lparr>tx_seq := (tx_seq c + 1) mod 65536, tx_curr_frame_num := 0, tx_curr_frame_payload := 0\<rparr>"
  let ?s = "\<lparr>sk_data = nth_image F (tx_seq c), sk_cap = cap\<rparr>"
  have low: "tx_low_mem_val c = 0" and room: "nth_size F \<le> tx_max c"
    using cfg by (simp_all add: tx_cfg_def)
  have 1: "tx_alloc L alloc1 alloc2 c frame = (?c1, Some \<lparr>sk_data = [], sk_cap = cap\<rparr>)"
    using low al by (simp add: tx_alloc_def Let_def)
  have 2: "tx_start_block F ?c1 \<lparr>sk_data = [], sk_cap = cap\<rparr> = Inr (?c2, ?s)"
    using room al by (simp add: tx_start_block_def skb_put_data_def sk_len_def)
  have 3: "blk F ?c2 ?s []" using room al by (auto simp: blk_def sk_len_def)
  have 4: "same_cfg c ?c2" by (simp add: same_cfg_def)
  show ?thesis by (rule that [OF 1 2 3 4]) simp_all
qed

text \<open>The call from the loop on, for a block with \<open>ds\<close>, a frame in hand and a remaining one.\<close>

lemma fill_from_loop:
  assumes cfg: "tx_cfg L F c" and b: "blk F c s ds" and k: "length ds + k = tx_max_datagrams c"
    and sg: "signed F c" and hand: "frame = None \<or> ds = [] \<and> sg = ndp_nocrc_sign F"
    and fit: "\<forall>f \<in> set (ds @ opt_list frame @ opt_list (tx_rem_skb c)). fits F c f"
  shows "loop_result F c ds (opt_list frame @ opt_list (tx_rem_skb c)) ready
    (tx_loop L F 0 k (length ds) c s frame sg ready)"
proof (cases frame)
  case None
  have "\<forall>f \<in> set (opt_list (tx_rem_skb c)). fits F c f" using fit by simp
  from loop_none [OF cfg b k \<open>signed F c\<close> this] show ?thesis by (simp add: None)
next
  case (Some g)
  then have ds: "ds = []" and sgn: "sg = ndp_nocrc_sign F" using hand by simp_all
  have "0 < tx_max_datagrams c" using cfg by (simp add: tx_cfg_def)
  then obtain j where j: "k = Suc j" using k ds by (cases k) simp_all
  have fg: "fits F c g" and fr: "\<forall>f \<in> set (opt_list (tx_rem_skb c)). fits F c f"
    using fit Some by simp_all
  have "loop_result F c ds (g # opt_list (tx_rem_skb c)) ready
      (tx_loop L F 0 (Suc j) (length ds) c s (Some g) (ndp_nocrc_sign F) ready)"
  proof (rule loop_frame [OF cfg fg b])
    fix c' s'
    assume c': "same_cfg c c'" "tx_rem_skb c' = tx_rem_skb c" "tx_rem_sign c' = tx_rem_sign c"
      "blk F c' s' (ds @ [g])"
    have "tx_max_datagrams c' = tx_max_datagrams c" using c'(1) by (simp add: same_cfg_def)
    then have "length (ds @ [g]) + j = tx_max_datagrams c'" using k j by simp
    moreover have "signed F c'" using \<open>signed F c\<close> c'(2,3) by (simp add: signed_def)
    moreover have "tx_cfg L F c'" using cfg same_cfg_cong(1) [OF c'(1)] by simp
    moreover have "\<forall>f \<in> set (opt_list (tx_rem_skb c')). fits F c' f"
      using fr c'(2) same_cfg_cong(2) [OF c'(1)] by simp
    ultimately show "loop_result F c' (ds @ [g]) (opt_list (tx_rem_skb c)) ready
        (tx_loop L F 0 j (length ds + 1) c' s' None (ndp_nocrc_sign F) ready)"
      using loop_none [of L F c' s' "ds @ [g]" j ready "ndp_nocrc_sign F"] c'(2,4) by simp
  qed (use k j ds in simp_all)
  then show ?thesis by (simp add: Some j sgn)
qed

lemma fill_outcome:
  assumes cfg: "tx_cfg L F c" and b: "blk F c s ds" and k: "length ds + k = tx_max_datagrams c"
    and sg: "signed F c" and hand: "frame = None \<or> ds = [] \<and> sg = ndp_nocrc_sign F"
    and fit: "\<forall>f \<in> set (ds @ opt_list frame @ opt_list (tx_rem_skb c)). fits F c f"
    and fl: "ready \<Longrightarrow> frame = None \<and> (ds = [] \<or> tx_rem_skb c = None)"
  shows "tx_outcome L F c (ds @ opt_list frame @ opt_list (tx_rem_skb c))
      (ready \<and> ds @ opt_list frame @ opt_list (tx_rem_skb c) \<noteq> [])
    (case tx_loop L F 0 k (length ds) c s frame sg ready of
       Inl f \<Rightarrow> Inl f
     | Inr (c3, s3, left, n, ready') \<Rightarrow> tx_send L F zlp mp n c3 s3 left ready')"
proof -
  note lr = fill_from_loop [OF cfg b k sg hand fit, of ready]
  obtain c' s' n' r' where r: "tx_loop L F 0 k (length ds) c s frame sg ready = Inr (c', s', None, n', r')"
    using lr by (rule loop_resultE) (use that in blast)
  have "length (ds @ opt_list frame @ opt_list (tx_rem_skb c)) \<le> 1 \<or>
      opt_list frame @ opt_list (tx_rem_skb c) = []" if ready
    using fl [OF that] by (cases "tx_rem_skb c") auto
  then show ?thesis
    using tx_send_outcome [OF cfg lr [unfolded r] fit, of zlp mp] by (simp add: r)
qed

lemma tx_outcome_cong:
  assumes "tx_outcome L F c' q flush r" "same_cfg c c'"
  shows "tx_outcome L F c q flush r"
proof (cases r)
  case (Inl f)
  then show ?thesis using assms(1) by (simp add: tx_outcome_def)
next
  case (Inr x)
  obtain d o' where x: "x = (d, o')" by (cases x)
  show ?thesis
  proof (cases o')
    case None
    then show ?thesis
      using assms(1) same_cfg_trans [OF assms(2), of d] by (simp add: Inr x tx_outcome_def)
  next
    case (Some b)
    have "same_cfg c' d" using assms(1) by (simp add: Inr x Some tx_outcome_def)
    then have "same_cfg c d" by (rule same_cfg_trans [OF assms(2)])
    then show ?thesis using assms(1) by (simp add: Inr x Some tx_outcome_def)
  qed
qed

lemma tx_fixup_outcome:
  assumes st: "tx_state L F c q" and fit: "\<forall>f \<in> set (opt_list skb). fits F c f"
    and al: "alloc1 (tx_max c) = Some cap" "tx_max c \<le> cap"
  shows "tx_outcome L F c (q @ opt_list skb) (skb = None \<and> q \<noteq> [])
    (cdc_ncm_tx_fixup L alloc1 alloc2 zlp mp c skb)"
proof -
  have cfg: "tx_cfg L F c" and sg: "signed F c" and fq: "\<forall>f \<in> set q. fits F c f"
    using st by (simp_all add: tx_state_def)
  have F: "ncm_format c = F" and nf: "\<not> flag_ndp_to_end c" using cfg by (simp_all add: tx_cfg_def)
  let ?c = "if skb = None then c else c\<lparr>tx_rem_skb := skb, tx_rem_sign := ndp_nocrc_sign F\<rparr>"
  let ?frame = "if skb = None then None else tx_rem_skb c"
  let ?sg = "if skb = None then ndp_nocrc_sign F else tx_rem_sign c"
  have sc: "same_cfg c ?c" by (simp add: same_cfg_def)
  have cfg1: "tx_cfg L F ?c" using cfg same_cfg_cong(1) [OF sc] by simp
  have sg1: "signed F ?c" using sg by (simp add: signed_def)
  have d0: "delayed_ndp_size c = 0" using nf by (simp add: delayed_ndp_size_def)
  show ?thesis
  proof (cases "tx_curr_skb c")
    case (Some s)
    have s: "tx_rem_skb c = None" "blk F c s q" "tx_curr_frame_num c = length q"
        "length q < tx_max_datagrams c"
      using st Some by (simp_all add: tx_state_def)
    have b: "blk F ?c s q" using s(2) by (simp add: blk_def)
    have k: "length q + (tx_max_datagrams ?c - length q) = tx_max_datagrams ?c" using s(4) by simp
    have fit1: "\<forall>f \<in> set (q @ opt_list None @ opt_list (tx_rem_skb ?c)). fits F ?c f"
      using fq fit s(1) same_cfg_cong(2) [OF sc] by (cases skb) auto
    have "tx_outcome L F ?c (q @ opt_list skb) (skb = None \<and> q \<noteq> [])
        (case tx_loop L F 0 (tx_max_datagrams ?c - length q) (length q) ?c s None ?sg (skb = None) of
           Inl f \<Rightarrow> Inl f
         | Inr (c3, s3, left, n, ready') \<Rightarrow> tx_send L F zlp mp n c3 s3 left ready')"
      using fill_outcome [OF cfg1 b k sg1 _ fit1, of ?sg "skb = None" zlp mp] s(1)
      by (cases skb) simp_all
    moreover have "cdc_ncm_tx_fixup L alloc1 alloc2 zlp mp c skb =
        (case tx_loop L F 0 (tx_max_datagrams ?c - length q) (length q) ?c s None ?sg (skb = None) of
           Inl f \<Rightarrow> Inl f
         | Inr (c3, s3, left, n, ready') \<Rightarrow> tx_send L F zlp mp n c3 s3 left ready')"
      using Some s F d0
      by (cases skb) (simp_all add: cdc_ncm_tx_fixup_def cdc_ncm_fill_tx_frame_def Let_def)
    ultimately show ?thesis using tx_outcome_cong [OF _ sc] by simp
  next
    case None
    have q: "q = opt_list (tx_rem_skb c)" using st None by (simp add: tx_state_def)
    have m: "tx_max ?c = tx_max c" by simp
    obtain c1 c2 s where al1: "tx_alloc L alloc1 alloc2 ?c ?frame = (c1, Some \<lparr>sk_data = [], sk_cap = cap\<rparr>)"
      and c2: "tx_start_block F c1 \<lparr>sk_data = [], sk_cap = cap\<rparr> = Inr (c2, s)" "blk F c2 s []"
        "same_cfg ?c c2" "tx_rem_skb c2 = tx_rem_skb ?c" "tx_rem_sign c2 = tx_rem_sign ?c"
        "tx_curr_frame_num c2 = 0"
      by (rule start_block [OF cfg1, of alloc1 cap alloc2 ?frame]) (use al m in simp_all)
    have sc2: "same_cfg c c2" using sc c2(3) by (rule same_cfg_trans)
    have cfg2: "tx_cfg L F c2" using cfg same_cfg_cong(1) [OF sc2] by simp
    have sg2: "signed F c2" using sg1 c2(4,5) by (simp add: signed_def)
    have k: "length [] + tx_max_datagrams c2 = tx_max_datagrams c2" by simp
    have qs: "opt_list ?frame @ opt_list (tx_rem_skb c2) = q @ opt_list skb"
      using c2(4) q by (cases skb) simp_all
    have fit2: "\<forall>f \<in> set ([] @ opt_list ?frame @ opt_list (tx_rem_skb c2)). fits F c2 f"
      unfolding qs using fq fit same_cfg_cong(2) [OF sc2] by auto
    have hand: "?frame = None \<or> [] = [] \<and> ?sg = ndp_nocrc_sign F"
      using sg by (auto simp: signed_def)
    have "tx_outcome L F c2 (q @ opt_list skb) (skb = None \<and> q \<noteq> [])
        (case tx_loop L F 0 (tx_max_datagrams c2) 0 c2 s ?frame ?sg (skb = None) of
           Inl f \<Rightarrow> Inl f
         | Inr (c3, s3, left, n, ready') \<Rightarrow> tx_send L F zlp mp n c3 s3 left ready')"
      using fill_outcome [OF cfg2 c2(2) k sg2 hand fit2, of "skb = None" zlp mp] qs
      by (cases skb) simp_all
    moreover have "cdc_ncm_tx_fixup L alloc1 alloc2 zlp mp c skb =
        (case tx_loop L F 0 (tx_max_datagrams c2) 0 c2 s ?frame ?sg (skb = None) of
           Inl f \<Rightarrow> Inl f
         | Inr (c3, s3, left, n, ready') \<Rightarrow> tx_send L F zlp mp n c3 s3 left ready')"
      using None F d0 al1 c2(1,6)
      by (cases skb) (simp_all add: cdc_ncm_tx_fixup_def cdc_ncm_fill_tx_frame_def Let_def)
    ultimately show ?thesis using tx_outcome_cong [OF _ sc2] by simp
  qed
qed

end
