(* ===== verification/Ncm_Rx.thy ===== *)
theory Ncm_Rx
  imports Ncm_Ntb
begin

text \<open>
  CDC NCM (\<open>modules/ncm/cdc_ncm.c\<close>), reception: verifying the header and the datagram pointer
  tables of a received transfer block, delivering its frames, and the status notifications. The
  results of verification are the code's \<open>int\<close>s; reading past the received bytes is the fault
  \<open>Bad_access\<close>. \<open>al x\<close> says whether the buffer for entry \<open>x\<close> of a table can be allocated.
\<close>

section \<open>Verification\<close>

fun ndp_length_min :: "ntb_format \<Rightarrow> nat" where "ndp_length_min Ntb16 = 16" | "ndp_length_min Ntb32 = 32"

text \<open>The header: its signature and block length; the sequence number is only recorded. The offset
  of the first table is returned as an \<open>int\<close>.\<close>

definition cdc_ncm_rx_verify_nth :: "ntb_format \<Rightarrow> ncm_ctx \<Rightarrow> bytes \<Rightarrow> int \<times> ncm_ctx" where
  "cdc_ncm_rx_verify_nth F c buf =
     (if length buf < nth_size F + ndp_size F then (- EINVAL, c)
      else if window buf 0 4 \<noteq> nth_sign F then (- EINVAL, c)
      else if get buf nth_block_off (iw F) > rx_max c then (- EINVAL, c)
      else (int_of_u32 (get buf (nth_index_off F) (iw F)), c\<lparr>rx_seq := get buf nth_seq_off 2\<rparr>))"

definition cdc_ncm_rx_verify_nth16 where "cdc_ncm_rx_verify_nth16 = cdc_ncm_rx_verify_nth Ntb16"
definition cdc_ncm_rx_verify_nth32 where "cdc_ncm_rx_verify_nth32 = cdc_ncm_rx_verify_nth Ntb32"

text \<open>A table: the number of frames its length says it lists, all entries but the closing one. The
  offset is an \<open>int\<close> and is added to a \<open>size_t\<close>, so the sum wraps at 2^64: an offset just below
  zero passes the first check. The last check compares the size of the table with that of the
  block, without the table's offset.\<close>

definition cdc_ncm_rx_verify_ndp :: "ntb_format \<Rightarrow> bytes \<Rightarrow> int \<Rightarrow> ncm_fault + int" where
  "cdc_ncm_rx_verify_ndp F buf ndpoffset =
     (if (ndpoffset + int (ndp_size F)) mod 2 ^ 64 > int (length buf) then Inr (- EINVAL)
      else if ndpoffset + int ndp_len_off < 0 then Inl Bad_access
      else let wlen = get buf (nat (ndpoffset + int ndp_len_off)) 2 in
        if wlen < ndp_length_min F then Inr (- EINVAL)
        else let ret = (wlen - ndp_size F) div dpe_size F - 1 in
          if ndp_size F + ret * dpe_size F > length buf then Inr (- EINVAL) else Inr (int ret))"

definition cdc_ncm_rx_verify_ndp16 where "cdc_ncm_rx_verify_ndp16 = cdc_ncm_rx_verify_ndp Ntb16"
definition cdc_ncm_rx_verify_ndp32 where "cdc_ncm_rx_verify_ndp32 = cdc_ncm_rx_verify_ndp Ntb32"

section \<open>Delivery\<close>

text \<open>The entries of a table from \<open>x\<close> on, \<open>k\<close> of them: \<open>Inr (ok, frames)\<close>, where \<open>ok\<close> is false when
  a buffer could not be allocated (then reception ends).\<close>

fun rx_entries ::
  "ntb_format \<Rightarrow> (nat \<Rightarrow> bool) \<Rightarrow> nat \<Rightarrow> bytes \<Rightarrow> nat \<Rightarrow> nat \<Rightarrow> nat \<Rightarrow> ncm_fault + bool \<times> bytes list"
where
  "rx_entries F al rxmax buf base 0 x = Inr (True, [])"
| "rx_entries F al rxmax buf base (Suc k) x =
     (let p = base + x * dpe_size F in
      if p + dpe_size F > length buf then Inl Bad_access
      else let offset = get buf p (iw F); len = get buf (p + iw F) (iw F) in
        if offset = 0 \<or> len = 0 then Inr (True, [])
        else if offset > length buf \<or> len > length buf - offset \<or> len > rxmax \<or> len < ETH_HLEN
        then Inr (True, [])
        else if \<not> al x then Inr (False, [])
        else (case rx_entries F al rxmax buf base k (x + 1) of
                Inl f \<Rightarrow> Inl f
              | Inr (ok, fs) \<Rightarrow> Inr (ok, window buf offset len # fs)))"

text \<open>One table after the other; \<open>loopcount\<close> more may follow this one. The result is the code's
  return value and the frames delivered. The signature of a table is read at its offset, so a
  negative offset that verification let through is a read before the received bytes.\<close>

fun rx_tables ::
  "ntb_format \<Rightarrow> (nat \<Rightarrow> bool) \<Rightarrow> nat \<Rightarrow> bytes \<Rightarrow> nat \<Rightarrow> int \<Rightarrow> ncm_fault + int \<times> bytes list"
where
  "rx_tables F al rxmax buf loopcount ndpoffset =
     (case cdc_ncm_rx_verify_ndp F buf ndpoffset of
        Inl f \<Rightarrow> Inl f
      | Inr nframes \<Rightarrow>
        if nframes < 0 then Inr (0, [])
        else if ndpoffset < 0 then Inl Bad_access
        else let off = nat ndpoffset; entries = (if window buf off 4 \<noteq> ndp_nocrc_sign F then Inr (True, [])
                            else rx_entries F al rxmax buf (off + ndp_size F) (nat nframes) 0)
        in case entries of
             Inl f \<Rightarrow> Inl f
           | Inr (False, fs) \<Rightarrow> Inr (0, fs)
           | Inr (True, fs) \<Rightarrow>
               (let nxt = int_of_u32 (get buf (off + ndp_next_off F) (iw F)) in
                if nxt = 0 then Inr (1, fs)
                else case loopcount of
                  0 \<Rightarrow> Inr (1, fs)
                | Suc j \<Rightarrow> (case rx_tables F al rxmax buf j nxt of
                     Inl f \<Rightarrow> Inl f
                   | Inr (ret, gs) \<Rightarrow> Inr (ret, fs @ gs))))"

declare rx_tables.simps [simp del]

definition cdc_ncm_rx_fixup ::
  "(nat \<Rightarrow> bool) \<Rightarrow> ncm_ctx \<Rightarrow> bytes \<Rightarrow> ncm_fault + int \<times> ncm_ctx \<times> bytes list" where
  "cdc_ncm_rx_fixup al c buf =
     (let F = ncm_format c in
      case cdc_ncm_rx_verify_nth F c buf of (ndpoffset, c1) \<Rightarrow>
        if ndpoffset < 0 then Inr (0, c1, [])
        else case rx_tables F al (rx_max c1) buf 50 ndpoffset of
          Inl f \<Rightarrow> Inl f
        | Inr (ret, fs) \<Rightarrow>
            Inr (ret,
              (if ret = 1
               then c1\<lparr>rx_overhead := rx_overhead c1 + word_of_nat (length buf) -
                         word_of_nat (sum_list (map length fs)),
                       rx_ntbs := rx_ntbs c1 + 1\<rparr>
               else c1), fs))"

section \<open>Status notifications\<close>

record ncm_link =
  event_sts_split :: bool
  rx_speed :: nat
  tx_speed :: nat
  carrier_ok :: bool
  link_changes :: "bool list"

datatype ncm_notification = NOTIFY_NETWORK_CONNECTION | NOTIFY_SPEED_CHANGE | NOTIFY_other

definition cdc_ncm_speed_change :: "ncm_link \<Rightarrow> nat \<times> nat \<Rightarrow> ncm_link" where
  "cdc_ncm_speed_change d data = d\<lparr>rx_speed := fst data, tx_speed := snd data\<rparr>"

text \<open>\<open>actual\<close> is the length received, \<open>split\<close> the speeds read from the start of the buffer (the
  second part of a split notification), \<open>whole\<close> those behind the 8-byte event.\<close>

definition cdc_ncm_status ::
  "ncm_link \<Rightarrow> nat \<Rightarrow> ncm_notification \<Rightarrow> nat \<Rightarrow> nat \<times> nat \<Rightarrow> nat \<times> nat \<Rightarrow> ncm_link" where
  "cdc_ncm_status d actual event wValue split whole =
     (if actual < 8 then d
      else if event_sts_split d then cdc_ncm_speed_change (d\<lparr>event_sts_split := False\<rparr>) split
      else case event of
        NOTIFY_NETWORK_CONNECTION \<Rightarrow>
          if carrier_ok d \<noteq> (wValue \<noteq> 0)
          then d\<lparr>carrier_ok := wValue \<noteq> 0, link_changes := link_changes d @ [wValue \<noteq> 0]\<rparr> else d
      | NOTIFY_SPEED_CHANGE \<Rightarrow>
          if actual < 16 then d\<lparr>event_sts_split := True\<rparr> else cdc_ncm_speed_change d whole
      | NOTIFY_other \<Rightarrow> d)"

section \<open>What is delivered\<close>

lemma rx_entries_frames:
  assumes nf: "ntb_frames F m off buf ds" and al: "\<And>i. al i"
    and len: "\<forall>f \<in> set ds. ETH_HLEN \<le> length f \<and> length f \<le> rxmax"
  shows "x + k = length ds \<Longrightarrow>
    rx_entries F al rxmax buf (off + ndp_size F) k x = Inr (True, drop x ds)"
proof (induction k arbitrary: x)
  case 0
  then show ?case by simp
next
  case (Suc k)
  then have x: "x < length ds" by simp
  let ?p = "off + ndp_size F + x * dpe_size F"
  let ?o = "get buf ?p (iw F)"
  have fr: "frame_at F m off buf x (ds ! x)" "nth_size F \<le> off" "off + m \<le> length buf"
      "ndp_size F + dpe_size F * (length ds + 1) \<le> m"
    using nf x by (simp_all add: ntb_frames_def)
  have l: "ETH_HLEN \<le> length (ds ! x)" "length (ds ! x) \<le> rxmax"
    using len x nth_mem by blast+
  have d: "dpe_size F * (x + 1) \<le> dpe_size F * (length ds + 1)" using x by (intro mult_left_mono) simp_all
  have "?p + dpe_size F = off + ndp_size F + dpe_size F * (x + 1)" by (simp add: algebra_simps)
  then have p: "?p + dpe_size F \<le> length buf" using d fr(3,4) by linarith
  have o: "off + m \<le> ?o" "?o + length (ds ! x) \<le> length buf" "window buf ?o (length (ds ! x)) = ds ! x"
      "get buf (?p + iw F) (iw F) = length (ds ! x)"
    using fr(1) by (simp_all add: frame_at_def Let_def)
  have o0: "?o \<noteq> 0" using o(1) fr(2) by (cases F) simp_all
  have IH: "rx_entries F al rxmax buf (off + ndp_size F) k (x + 1) = Inr (True, drop (x + 1) ds)"
    using Suc by simp
  have "ds ! x # drop (x + 1) ds = drop x ds" using x by (simp add: Cons_nth_drop_Suc)
  moreover have "rx_entries F al rxmax buf (off + ndp_size F) (Suc k) x =
      Inr (True, ds ! x # drop (x + 1) ds)"
  proof -
    have "\<not> length buf < ?o" "\<not> length buf - ?o < length (ds ! x)" "length (ds ! x) \<noteq> 0"
      using o(2) l(1) unfolding ETH_HLEN_def by linarith+
    moreover have "\<not> length (ds ! x) < ETH_HLEN" "\<not> rxmax < length (ds ! x)" using l by simp_all
    moreover have "\<not> length buf < ?p + dpe_size F" using p by simp
    ultimately show ?thesis
      unfolding rx_entries.simps Let_def o(4) using o0 al IH o(3) by (simp only: if_False de_Morgan_disj
          not_False_eq_True simp_thms sum.case prod.case)
  qed
  ultimately show ?case by simp
qed

text \<open>An offset the header gives is below 2^31; at such an offset inside the block the size check does
  not wrap, and just below zero it always passes.\<close>

lemma verify_nth_bound: "cdc_ncm_rx_verify_nth F c buf = (nx, c1) \<Longrightarrow> nx < 2 ^ 31"
  by (auto simp: cdc_ncm_rx_verify_nth_def int_of_u32_def Let_def split: if_splits)

lemma verify_ndp_inside:
  assumes "off + ndp_size F \<le> length buf" "off < 2 ^ 31"
  shows "cdc_ncm_rx_verify_ndp F buf (int off) =
    (let wlen = get buf (off + ndp_len_off) 2; ret = (wlen - ndp_size F) div dpe_size F - 1 in
     Inr (if wlen < ndp_length_min F \<or> ndp_size F + ret * dpe_size F > length buf then - EINVAL else int ret))"
proof -
  have "(int off + int (ndp_size F)) mod 2 ^ 64 = int (off + ndp_size F)" using assms(2) by (cases F) simp_all
  moreover have "nat (int off + int ndp_len_off) = off + ndp_len_off" by simp
  ultimately show ?thesis using assms(1) by (simp add: cdc_ncm_rx_verify_ndp_def Let_def)
qed

lemma verify_ndp_before:
  assumes "- int (ndp_size F) \<le> nx" "nx < - int ndp_len_off" "ndp_size F \<le> length buf"
  shows "cdc_ncm_rx_verify_ndp F buf nx = Inl Bad_access"
proof -
  have "(nx + int (ndp_size F)) mod 2 ^ 64 = nx + int (ndp_size F)"
    using assms(1,2) by (cases F) simp_all
  then show ?thesis using assms by (simp add: cdc_ncm_rx_verify_ndp_def)
qed

lemma rx_block:
  assumes nf: "ntb_frames F m off buf ds" and ds: "ds \<noteq> []" and F: "ncm_format c = F"
    and al: "\<And>i. al i" and len: "\<forall>f \<in> set ds. ETH_HLEN \<le> length f \<and> length f \<le> rx_max c"
    and block: "get buf nth_block_off (iw F) \<le> rx_max c" and small: "length buf < 2 ^ 31" and m: "m < 65536"
  shows "\<exists>c'. cdc_ncm_rx_fixup al c buf = Inr (1, c', ds) \<and>
    rx_seq c' = get buf nth_seq_off 2 \<and> rx_ntbs c' = rx_ntbs c + 1"
proof -
  note fs = format_sizes [of F]
  have h: "nth_size F \<le> off" "off + m \<le> length buf" "ndp_size F + dpe_size F * (length ds + 1) \<le> m"
      "window buf 0 4 = nth_sign F" "get buf (nth_index_off F) (iw F) = off"
      "window buf off 4 = ndp_nocrc_sign F" "get buf (off + ndp_next_off F) (iw F) = 0"
      "get buf (off + ndp_len_off) 2 = ndp_size F + dpe_size F * (length ds + 1)"
    using nf unfolding ntb_frames_def by blast+
  let ?c = "c\<lparr>rx_seq := get buf nth_seq_off 2\<rparr>"
  have off: "off < 2147483648" using h(2) small by simp
  have nm: "ndp_size F \<le> m" "off + ndp_size F \<le> length buf" using h(2,3) by simp_all
  have nth: "cdc_ncm_rx_verify_nth F c buf = (int off, ?c)"
    using h nm block off by (simp add: cdc_ncm_rx_verify_nth_def int_of_u32_small)
  obtain k where n: "length ds = Suc k" using ds by (cases ds) simp_all
  have cnt: "(ndp_size F + dpe_size F * (length ds + 1) - ndp_size F) div dpe_size F - 1 = length ds"
    by (cases F) simp_all
  have min: "\<not> ndp_size F + dpe_size F * (length ds + 1) < ndp_length_min F"
    unfolding n by (cases F) simp_all
  have "dpe_size F * length ds \<le> dpe_size F * (length ds + 1)" by simp
  then have "ndp_size F + length ds * dpe_size F \<le> length buf"
    using h(2,3) by (simp add: mult.commute)
  then have ndp: "cdc_ncm_rx_verify_ndp F buf (int off) = Inr (int (length ds))"
    using verify_ndp_inside [OF nm(2)] off min cnt by (simp add: h(8) Let_def)
  have ent: "rx_entries F al (rx_max c) buf (off + ndp_size F) (length ds) 0 = Inr (True, ds)"
    using rx_entries_frames [OF nf al len, of 0 "length ds"] by simp
  have "rx_tables F al (rx_max c) buf 50 (int off) = Inr (1, ds)"
    by (subst rx_tables.simps) (simp add: ndp h(6,7) ent int_of_u32_small)
  then show ?thesis by (simp add: cdc_ncm_rx_fixup_def F nth)
qed

section \<open>From the sender to the receiver\<close>

text \<open>A run of the sender: a list of calls, each with a frame or (\<open>None\<close>) the flush of the timer,
  each with its own allocation outcomes; it gives the blocks sent.\<close>

fun tx_run ::
  "ncm_limits \<Rightarrow> (nat \<Rightarrow> nat option) \<Rightarrow> bool \<Rightarrow> nat \<Rightarrow> ncm_ctx \<Rightarrow> bytes option list \<Rightarrow>
     ncm_fault + ncm_ctx \<times> bytes list"
where
  "tx_run L alloc zlp mp c [] = Inr (c, [])"
| "tx_run L alloc zlp mp c (x # xs) =
     (case cdc_ncm_tx_fixup L alloc alloc zlp mp c x of
        Inl f \<Rightarrow> Inl f
      | Inr (c1, out) \<Rightarrow>
          (case tx_run L alloc zlp mp c1 xs of
             Inl f \<Rightarrow> Inl f
           | Inr (c2, bs) \<Rightarrow> Inr (c2, (case out of None \<Rightarrow> bs | Some b \<Rightarrow> sk_data b # bs))))"

text \<open>A run of the receiver over blocks: all frames delivered, \<open>None\<close> if a block is rejected.\<close>

fun rx_run :: "(nat \<Rightarrow> bool) \<Rightarrow> ncm_ctx \<Rightarrow> bytes list \<Rightarrow> (ncm_ctx \<times> bytes list) option" where
  "rx_run al c [] = Some (c, [])"
| "rx_run al c (b # bs) = (case cdc_ncm_rx_fixup al c b of
     Inl f \<Rightarrow> None
   | Inr (ret, c1, fs) \<Rightarrow> if ret \<noteq> 1 then None else
       (case rx_run al c1 bs of None \<Rightarrow> None | Some (c2, gs) \<Rightarrow> Some (c2, fs @ gs)))"

definition offered :: "bytes option list \<Rightarrow> bytes list" where
  "offered xs = concat (map opt_list xs)"

text \<open>A block as the receiver needs it.\<close>

definition block_ok :: "ntb_format \<Rightarrow> nat \<Rightarrow> nat \<Rightarrow> bytes \<Rightarrow> bytes list \<Rightarrow> bool" where
  "block_ok F mx m b ds \<longleftrightarrow> ds \<noteq> [] \<and> length b \<le> mx \<and> (\<exists>off. ntb_frames F m off b ds) \<and>
     get b nth_block_off (iw F) = length b \<and> (\<forall>f \<in> set ds. ETH_HLEN \<le> length f \<and> length f \<le> mx)"

lemma tx_run_blocks:
  assumes "tx_state L F c q" "\<forall>f \<in> set (offered xs). fits F c f"
    and "alloc (tx_max c) = Some cap" "tx_max c \<le> cap"
  shows "\<exists>c' bs dss q'. tx_run L alloc zlp mp c xs = Inr (c', bs) \<and>
    list_all2 (block_ok F (tx_max c) (max_ndp_size c)) bs dss \<and> q @ offered xs = concat dss @ q' \<and>
    tx_state L F c' q' \<and> same_cfg c c' \<and> (xs \<noteq> [] \<and> last xs = None \<longrightarrow> q' = [])"
  using assms
proof (induction xs arbitrary: c q)
  case Nil
  then show ?case by (auto simp: offered_def)
next
  case (Cons x xs)
  have off: "offered (x # xs) = opt_list x @ offered xs" by (simp add: offered_def)
  have fx: "\<forall>f \<in> set (opt_list x). fits F c f" using Cons.prems(2) off by auto
  have fq: "\<forall>f \<in> set q. fits F c f" using Cons.prems(1) by (simp add: tx_state_def)
  have out: "tx_outcome L F c (q @ opt_list x) (x = None \<and> q \<noteq> [])
      (cdc_ncm_tx_fixup L alloc alloc zlp mp c x)"
    by (rule tx_fixup_outcome [where ?alloc1.0 = alloc and ?alloc2.0 = alloc, OF Cons.prems(1) fx
          Cons.prems(3,4)])
  then obtain c1 o' where r: "cdc_ncm_tx_fixup L alloc alloc zlp mp c x = Inr (c1, o')"
    and sc: "same_cfg c c1"
    by (auto simp: tx_outcome_def split: sum.splits option.splits)
  have m1: "tx_max c1 = tx_max c" "max_ndp_size c1 = max_ndp_size c" using sc by (simp_all add: same_cfg_def)
  have rest: "\<forall>f \<in> set (offered xs). fits F c1 f"
    using Cons.prems(2) off same_cfg_cong(2) [OF sc] by simp
  obtain ds1 q1 where step: "q @ opt_list x = ds1 @ q1" "tx_state L F c1 q1"
      "case o' of None \<Rightarrow> ds1 = [] | Some b \<Rightarrow> block_ok F (tx_max c) (max_ndp_size c) (sk_data b) ds1"
      "x = None \<longrightarrow> q1 = []"
  proof (cases o')
    case None
    have "tx_state L F c1 (q @ opt_list x)" "x = None \<longrightarrow> q @ opt_list x = []"
      using out by (auto simp: r None tx_outcome_def)
    then show ?thesis using that [of "[]" "q @ opt_list x"] None by simp
  next
    case (Some b)
    obtain ds1 q1 where o: "q @ opt_list x = ds1 @ q1" "sent_block F c1 b ds1" "tx_state L F c1 q1"
        "x = None \<and> q \<noteq> [] \<longrightarrow> q1 = []"
      using out by (auto simp: r Some tx_outcome_def)
    have "\<forall>f \<in> set ds1. fits F c f" using o(1) fq fx by (metis Un_iff set_append)
    then have "\<forall>f \<in> set ds1. ETH_HLEN \<le> length f \<and> length f \<le> tx_max c"
      by (auto simp: fits_def)
    then have "block_ok F (tx_max c) (max_ndp_size c) (sk_data b) ds1"
      using o(2) m1 by (auto simp: sent_block_def block_ok_def sk_len_def)
    moreover have "x = None \<longrightarrow> q1 = []" using o(1,4) by (cases q) auto
    ultimately show ?thesis using that [of ds1 q1] o Some by simp
  qed
  obtain c2 bs dss q2 where IH: "tx_run L alloc zlp mp c1 xs = Inr (c2, bs)"
      "list_all2 (block_ok F (tx_max c) (max_ndp_size c)) bs dss" "q1 @ offered xs = concat dss @ q2"
      "tx_state L F c2 q2" "same_cfg c1 c2" "xs \<noteq> [] \<and> last xs = None \<longrightarrow> q2 = []"
    using Cons.IH [OF step(2) rest] Cons.prems(3,4) m1 by auto
  have sc2: "same_cfg c c2" using sc IH(5) by (rule same_cfg_trans)
  have seq: "q @ offered (x # xs) = ds1 @ concat dss @ q2"
    using step(1) IH(3) off by (metis append.assoc)
  have fin: "last (x # xs) = None \<longrightarrow> q2 = []"
    using IH(3,6) step(4) by (cases xs) (simp_all add: offered_def tx_run.simps)
  show ?case
  proof (cases o')
    case None
    have "tx_run L alloc zlp mp c (x # xs) = Inr (c2, bs)" by (simp add: r None IH(1))
    moreover have "q @ offered (x # xs) = concat dss @ q2" using seq step(3) None by simp
    ultimately show ?thesis
      using IH(2,4) sc2 fin by (intro exI [of _ c2] exI [of _ bs] exI [of _ dss] exI [of _ q2]) simp
  next
    case (Some b)
    have "tx_run L alloc zlp mp c (x # xs) = Inr (c2, sk_data b # bs)" by (simp add: r Some IH(1))
    moreover have "q @ offered (x # xs) = concat (ds1 # dss) @ q2" using seq by simp
    moreover have "list_all2 (block_ok F (tx_max c) (max_ndp_size c)) (sk_data b # bs) (ds1 # dss)"
      using IH(2) step(3) Some by simp
    ultimately show ?thesis
      using IH(4) sc2 fin
      by (intro exI [of _ c2] exI [of _ "sk_data b # bs"] exI [of _ "ds1 # dss"] exI [of _ q2]) simp
  qed
qed

lemma rx_run_blocks:
  assumes "ncm_format c = F" "\<And>i. al i" "mx \<le> rx_max c" "mx < 2 ^ 31" "m < 65536"
    and "list_all2 (block_ok F mx m) bs dss"
  shows "\<exists>c'. rx_run al c bs = Some (c', concat dss) \<and> rx_ntbs c' = rx_ntbs c + word_of_nat (length bs)"
  using assms(6,1,3)
proof (induction arbitrary: c rule: list_all2_induct)
  case Nil
  then show ?case by simp
next
  case (Cons b bs ds dss)
  obtain off where nf: "ntb_frames F m off b ds" using Cons.hyps(1) by (auto simp: block_ok_def)
  have h: "ds \<noteq> []" "\<forall>f \<in> set ds. ETH_HLEN \<le> length f \<and> length f \<le> rx_max c"
      "get b nth_block_off (iw F) \<le> rx_max c" "length b < 2 ^ 31"
    using Cons.hyps(1) Cons.prems assms(4) by (auto simp: block_ok_def)
  obtain c1 where r: "cdc_ncm_rx_fixup al c b = Inr (1, c1, ds)" "rx_ntbs c1 = rx_ntbs c + 1"
    using rx_block [where al = al, OF nf h(1) Cons.prems(1) assms(2) h(2,3,4) assms(5)] by blast
  have "ncm_format c1 = ncm_format c \<and> rx_max c1 = rx_max c"
    using r(1) by (auto simp: cdc_ncm_rx_fixup_def cdc_ncm_rx_verify_nth_def Let_def
        split: if_split_asm sum.splits)
  then show ?case using Cons.IH [of c1] Cons.prems r by auto
qed

text \<open>Property C1: the framing is lossless and keeps the order. A sender whose frames fit a fresh
  block, with memory to allocate from, never runs past a buffer, and the blocks it sends, received
  by a peer of the same format that accepts blocks of that size, deliver a prefix of the frames
  handed in, in order and byte for byte; the rest is still held, and after a flush there is none.\<close>

theorem ncm_frames_delivered:
  assumes "tx_state L F c []" "\<forall>f \<in> set (offered xs). fits F c f"
    and "alloc (tx_max c) = Some cap" "tx_max c \<le> cap"
    and "ncm_format p = F" "tx_max c \<le> rx_max p" "\<And>i. al i"
  shows "\<exists>c' bs p' q. tx_run L alloc zlp mp c xs = Inr (c', bs) \<and> tx_state L F c' q \<and>
    (\<exists>delivered. rx_run al p bs = Some (p', delivered) \<and> delivered @ q = offered xs) \<and>
    (xs \<noteq> [] \<and> last xs = None \<longrightarrow> q = []) \<and> net_tx_dropped c' = net_tx_dropped c"
proof -
  obtain c' bs dss q where t: "tx_run L alloc zlp mp c xs = Inr (c', bs)"
      "list_all2 (block_ok F (tx_max c) (max_ndp_size c)) bs dss" "offered xs = concat dss @ q"
      "tx_state L F c' q" "same_cfg c c'" "xs \<noteq> [] \<and> last xs = None \<longrightarrow> q = []"
    using tx_run_blocks [of L F c "[]" xs alloc cap zlp mp, OF assms(1-4)] by auto
  have cfg: "tx_cfg L F c" using assms(1) by (simp add: tx_state_def)
  have "tx_max c < 2 ^ 31" "max_ndp_size c < 65536"
    using cfg tx_cfg_ndp_small [OF cfg] by (simp_all add: tx_cfg_def)
  then obtain p' where "rx_run al p bs = Some (p', concat dss)"
    using rx_run_blocks [where al = al, OF assms(5,7,6) _ _ t(2)] by blast
  moreover have "net_tx_dropped c' = net_tx_dropped c" using t(5) by (simp add: same_cfg_def)
  ultimately show ?thesis using t(1,3,4,6) by metis
qed

section \<open>Bounds of the receive path\<close>



lemma rx_entries_windows:
  "rx_entries F al rxmax buf base k x = Inr (ok, fs) \<Longrightarrow> f \<in> set fs \<Longrightarrow>
     \<exists>off. off + length f \<le> length buf \<and> f = window buf off (length f) \<and> ETH_HLEN \<le> length f \<and>
       length f \<le> rxmax"
proof (induction k arbitrary: x ok fs)
  case 0
  then show ?case by simp
next
  case (Suc k)
  let ?p = "base + x * dpe_size F"
  let ?o = "get buf ?p (iw F)" and ?l = "get buf (?p + iw F) (iw F)"
  show ?case
  proof (cases "fs = []")
    case False
    then obtain gs ok' where g: "rx_entries F al rxmax buf base k (x + 1) = Inr (ok', gs)"
        "fs = window buf ?o ?l # gs" "?o \<le> length buf" "?l \<le> length buf - ?o" "?l \<le> rxmax" "ETH_HLEN \<le> ?l"
      using Suc.prems(1) by (auto simp: Let_def split: if_split_asm sum.splits)
    have "length (window buf ?o ?l) = ?l" using g(3,4) by (simp add: length_window)
    note w = this
    show ?thesis
    proof (cases "f \<in> set gs")
      case True
      then show ?thesis by (rule Suc.IH [OF g(1)])
    next
      case False
      then have "f = window buf ?o ?l" using Suc.prems(2) g(2) by simp
      then show ?thesis using w g(3-6) by (intro exI [of _ ?o]) simp
    qed
  qed (use Suc.prems in simp)
qed

lemma rx_tables_windows:
  "rx_tables F al rxmax buf j nx = Inr (ret, fs) \<Longrightarrow> f \<in> set fs \<Longrightarrow>
     \<exists>off. off + length f \<le> length buf \<and> f = window buf off (length f) \<and> ETH_HLEN \<le> length f \<and>
       length f \<le> rxmax"
proof (induction j arbitrary: nx ret fs)
  case 0
  have "\<exists>k ok. rx_entries F al rxmax buf (nat nx + ndp_size F) k 0 = Inr (ok, fs)"
    using 0
    by (subst (asm) rx_tables.simps)
      (auto simp: Let_def split: if_split_asm sum.splits bool.splits; blast)
  then show ?case using rx_entries_windows 0(2) by blast
next
  case (Suc j)
  have "(\<exists>k ok. rx_entries F al rxmax buf (nat nx + ndp_size F) k 0 = Inr (ok, fs)) \<or>
      (\<exists>k ok es r gs. (rx_entries F al rxmax buf (nat nx + ndp_size F) k 0 = Inr (ok, es) \<or> es = []) \<and>
        rx_tables F al rxmax buf j (int_of_u32 (get buf (nat nx + ndp_next_off F) (iw F))) = Inr (r, gs) \<and>
        fs = es @ gs)"
    using Suc.prems
    by (subst (asm) rx_tables.simps)
      (auto simp: Let_def split: if_split_asm sum.splits bool.splits; blast)
  then show ?case
  proof (elim disjE exE conjE)
    fix k ok assume "rx_entries F al rxmax buf (nat nx + ndp_size F) k 0 = Inr (ok, fs)"
    then show ?thesis using Suc.prems(2) by (rule rx_entries_windows)
  next
    fix k ok es r gs
    assume h: "rx_entries F al rxmax buf (nat nx + ndp_size F) k 0 = Inr (ok, es)"
      "rx_tables F al rxmax buf j (int_of_u32 (get buf (nat nx + ndp_next_off F) (iw F))) = Inr (r, gs)"
      "fs = es @ gs"
    show ?thesis using rx_entries_windows [OF h(1)] Suc.IH [OF h(2)] h(3) Suc.prems(2) by auto
  next
    fix k ok r gs and es :: "bytes list"
    assume h: "es = []"
      "rx_tables F al rxmax buf j (int_of_u32 (get buf (nat nx + ndp_next_off F) (iw F))) = Inr (r, gs)"
      "fs = es @ gs"
    show ?thesis using Suc.IH [OF h(2)] h(1,3) Suc.prems(2) by auto
  qed
qed

text \<open>Property C13: what the receive path delivers consists of bytes of the block. Whatever the device
  sent, if reception ends without reading outside the received bytes, every frame delivered is a
  window of the block that is no shorter than an Ethernet header and no longer than the negotiated
  size. Two ways for a device to make the code read outside the block are \<open>ncm_rx_table_overread\<close>
  and \<open>ncm_rx_table_before_block\<close> below.\<close>

theorem ncm_rx_frames_inside:
  assumes "cdc_ncm_rx_fixup al c buf = Inr (ret, c', fs)" "f \<in> set fs"
  shows "\<exists>off. off + length f \<le> length buf \<and> f = window buf off (length f) \<and>
    ETH_HLEN \<le> length f \<and> length f \<le> rx_max c"
proof -
  have m: "rx_max (snd (cdc_ncm_rx_verify_nth F c buf)) = rx_max c" for F
    by (simp add: cdc_ncm_rx_verify_nth_def)
  obtain nx where "rx_tables (ncm_format c) al (rx_max c) buf 50 nx = Inr (ret, fs)"
    using assms m [of "ncm_format c"]
    by (auto simp: cdc_ncm_rx_fixup_def Let_def split: prod.splits if_split_asm sum.splits)
  then show ?thesis using assms(2) by (rule rx_tables_windows)
qed

text \<open>Fact: the check of a table's size leaves out the table's offset: a table at the very
  end of a block (its fixed part just fits, its length field claims at least one frame that would
  fit a block of that size) passes verification, and the first entry is read past the block.\<close>

theorem ncm_rx_table_overread:
  assumes "cdc_ncm_rx_verify_nth F c buf = (int off, c1)" "ncm_format c = F"
    and "off + ndp_size F \<le> length buf" "length buf < off + ndp_size F + dpe_size F"
    and "window buf off 4 = ndp_nocrc_sign F"
    and "ndp_length_min F \<le> get buf (off + ndp_len_off) 2"
    and "get buf (off + ndp_len_off) 2 \<le> length buf"
  shows "cdc_ncm_rx_fixup al c buf = Inl Bad_access"
proof -
  let ?w = "get buf (off + ndp_len_off) 2"
  obtain k where k: "(?w - ndp_size F) div dpe_size F - 1 = Suc k"
  proof -
    have "2 \<le> (?w - ndp_size F) div dpe_size F" using assms(6) by (cases F) simp_all
    then have "(?w - ndp_size F) div dpe_size F - 1 = Suc ((?w - ndp_size F) div dpe_size F - 2)" by simp
    then show ?thesis by (rule that)
  qed
  have "ndp_size F \<le> ?w" using assms(6) by (cases F) simp_all
  moreover have "Suc k * dpe_size F \<le> (?w - ndp_size F) div dpe_size F * dpe_size F"
    using k by (intro mult_right_mono) simp_all
  moreover have "(?w - ndp_size F) div dpe_size F * dpe_size F \<le> ?w - ndp_size F"
    by (rule div_times_less_eq_dividend)
  ultimately have "ndp_size F + Suc k * dpe_size F \<le> length buf" using assms(7) by linarith
  then have v: "cdc_ncm_rx_verify_ndp F buf (int off) = Inr (int (Suc k))"
    using verify_ndp_inside [OF assms(3)] verify_nth_bound [OF assms(1)] assms(6) k by (simp add: Let_def)
  have e: "rx_entries F al n buf (off + ndp_size F) (Suc k) 0 = Inl Bad_access" for n
    using assms(4) by (simp add: Let_def)
  have "rx_tables F al (rx_max c1) buf 50 (int off) = Inl Bad_access"
    by (subst rx_tables.simps) (simp only: v assms(5) e Let_def nat_int sum.case if_False
        not_True_eq_False of_nat_less_0_iff simp_thms)
  then show ?thesis using assms(1,2) by (simp add: cdc_ncm_rx_fixup_def)
qed

text \<open>Fact: nothing keeps the index of the next table from being negative. The offset is added to a
  \<open>size_t\<close>, so a value in the last 16 below 2^32 wraps past the check of the table's end: whatever
  the first table is like, if it is skipped for its signature (or its frames are delivered) the
  second one is read up to 16 bytes before the received data.\<close>

theorem ncm_rx_table_before_block:
  assumes "cdc_ncm_rx_verify_nth Ntb32 c buf = (int off, c1)" "ncm_format c = Ntb32"
    and "cdc_ncm_rx_verify_ndp Ntb32 buf (int off) = Inr n" "0 \<le> n"
    and "window buf off 4 \<noteq> ndp_nocrc_sign Ntb32 \<or>
      (\<exists>fs. rx_entries Ntb32 al (rx_max c1) buf (off + ndp_size Ntb32) (nat n) 0 = Inr (True, fs))"
    and "get buf (off + ndp_next_off Ntb32) 4 = 2 ^ 32 - k" "4 < k" "k \<le> 16"
  shows "cdc_ncm_rx_fixup al c buf = Inl Bad_access"
proof -
  have len: "ndp_size Ntb32 \<le> length buf"
    using assms(1) by (auto simp: cdc_ncm_rx_verify_nth_def split: if_splits)
  have "int_of_u32 (get buf (off + ndp_next_off Ntb32) 4) = - int k"
  proof -
    have "(4294967296 - int k) mod 4294967296 = 4294967296 - int k"
      using assms(7,8) by (intro mod_pos_pos_trivial) simp_all
    moreover have "int (get buf (off + ndp_next_off Ntb32) 4) = 4294967296 - int k"
      using assms(6,8) by (simp add: of_nat_diff)
    ultimately show ?thesis using assms(8) by (simp only: int_of_u32_def Let_def) simp
  qed
  then have next_: "int_of_u32 (get buf (off + ndp_next_off Ntb32) (iw Ntb32)) = - int k" by simp
  have v: "cdc_ncm_rx_verify_ndp Ntb32 buf (- int k) = Inl Bad_access"
    using assms(7,8) len by (intro verify_ndp_before) (simp_all add: ndp_len_off_def)
  have second: "rx_tables Ntb32 al m buf j (- int k) = Inl Bad_access" for m j
    by (subst rx_tables.simps) (simp add: v)
  have "rx_tables Ntb32 al (rx_max c1) buf (Suc 49) (int off) = Inl Bad_access"
    using assms(4,5) next_ assms(7)
    by (subst rx_tables.simps) (auto simp: assms(3) second Let_def)
  then show ?thesis using assms(1,2) by (simp add: cdc_ncm_rx_fixup_def)
qed

section \<open>A concrete sender and receiver\<close>

lemma demo_ctx_state: "tx_state kernel_limits Ntb16 demo_ctx []"
proof -
  have "\<exists>k. (4::nat) = 2 ^ k" by (rule exI [of _ 2]) simp
  then show ?thesis
    by (simp add: tx_state_def tx_cfg_def signed_def demo_ctx_def kernel_limits_def)
qed

definition demo_frame :: bytes where
  "demo_frame = replicate 60 7"

theorem ncm_frames_delivered_witness:
  "\<exists>c' bs p'. tx_run kernel_limits Some False 64 demo_ctx [Some demo_frame, Some demo_frame, None] =
      Inr (c', bs) \<and> rx_run (\<lambda>i. True) demo_ctx bs = Some (p', [demo_frame, demo_frame])"
proof -
  have f: "\<forall>f \<in> set (offered [Some demo_frame, Some demo_frame, None]). fits Ntb16 demo_ctx f"
    by (simp add: offered_def fits_def demo_frame_def demo_ctx_def ETH_HLEN_def)
  have off: "offered [Some demo_frame, Some demo_frame, None] = [demo_frame, demo_frame]"
    by (simp add: offered_def)
  have "\<exists>c' bs p' q. tx_run kernel_limits Some False 64 demo_ctx [Some demo_frame, Some demo_frame, None] =
        Inr (c', bs) \<and> tx_state kernel_limits Ntb16 c' q \<and>
      (\<exists>delivered. rx_run (\<lambda>i. True) demo_ctx bs = Some (p', delivered) \<and>
        delivered @ q = offered [Some demo_frame, Some demo_frame, None]) \<and>
      ([Some demo_frame, Some demo_frame, None] \<noteq> [] \<and>
        last [Some demo_frame, Some demo_frame, None] = None \<longrightarrow> q = []) \<and>
      net_tx_dropped c' = net_tx_dropped demo_ctx"
    by (rule ncm_frames_delivered [OF demo_ctx_state f, where cap = 2048]) simp_all
  then show ?thesis
    unfolding off by (elim exE conjE) (intro exI conjI, assumption, simp)
qed

definition demo_block :: bytes where
  "demo_block = [0x4E, 0x43, 0x4D, 0x48, 12, 0, 0, 0, 42, 0, 12, 0,
     0x4E, 0x43, 0x4D, 0x30, 16, 0, 0, 0, 28, 0, 14, 0, 0, 0, 0, 0] @ replicate 14 9"

theorem ncm_rx_frames_inside_witness:
  "\<exists>c' fs f. cdc_ncm_rx_fixup (\<lambda>i. True) demo_ctx demo_block = Inr (1, c', fs) \<and> f \<in> set fs \<and>
     ETH_HLEN \<le> length f \<and> length f \<le> 2048"
proof -
  have len: "length demo_block = 42" by (simp add: demo_block_def)
  have "window demo_block 0 4 = nth_sign Ntb16" "window demo_block 12 4 = ndp_nocrc_sign Ntb16"
    "get demo_block 10 2 = 12" "get demo_block 16 2 = 16" "get demo_block 18 2 = 0"
    "get demo_block 20 2 = 28" "get demo_block 22 2 = 14" "window demo_block 28 14 = replicate 14 9"
    "get demo_block 8 2 = 42"
    by (simp_all add: demo_block_def window_def get_def)
  then have nf: "ntb_frames Ntb16 16 12 demo_block [replicate 14 9]" and blk: "get demo_block 8 2 = 42"
    by (simp_all add: ntb_frames_def frame_at_def ndp_len_off_def len Let_def)
  obtain c' where r: "cdc_ncm_rx_fixup (\<lambda>i. True) demo_ctx demo_block = Inr (1, c', [replicate 14 9])"
    using rx_block [OF nf, of demo_ctx "\<lambda>i. True"] blk
    by (auto simp: ETH_HLEN_def nth_block_off_def len)
  show ?thesis using ncm_rx_frames_inside [OF r, of "replicate 14 9"] r by auto
qed

definition overread_block :: bytes where
  "overread_block = [0x4E, 0x43, 0x4D, 0x48, 12, 0, 0, 0, 20, 0, 12, 0,
     0x4E, 0x43, 0x4D, 0x30, 16, 0, 0, 0]"

theorem ncm_rx_table_overread_witness:
  "cdc_ncm_rx_fixup (\<lambda>i. True) demo_ctx overread_block = Inl Bad_access"
proof (rule ncm_rx_table_overread)
  have "fst (cdc_ncm_rx_verify_nth Ntb16 demo_ctx overread_block) = 12"
    by (simp add: cdc_ncm_rx_verify_nth_def overread_block_def window_def get_def nth_block_off_def
        int_of_u32_def)
  then show "cdc_ncm_rx_verify_nth Ntb16 demo_ctx overread_block =
      (int 12, snd (cdc_ncm_rx_verify_nth Ntb16 demo_ctx overread_block))"
    by (simp add: prod_eq_iff)
  show "window overread_block 12 4 = ndp_nocrc_sign Ntb16"
    "ndp_length_min Ntb16 \<le> get overread_block (12 + ndp_len_off) 2"
    "get overread_block (12 + ndp_len_off) 2 \<le> length overread_block"
    by (simp_all add: overread_block_def window_def get_def ndp_len_off_def)
qed (simp_all add: overread_block_def)

text \<open>An NTB32 block whose only table has a wrong signature and names -6 as the next one.\<close>

definition before_block :: bytes where
  "before_block = [0x6E, 0x63, 0x6D, 0x68, 16, 0, 0, 0, 48, 0, 0, 0, 16, 0, 0, 0] @
     [0x6E, 0x63, 0x6D, 0x31, 32, 0, 0, 0, 250, 255, 255, 255, 0, 0, 0, 0] @ replicate 16 0"

theorem ncm_rx_table_before_block_witness:
  "cdc_ncm_rx_fixup (\<lambda>i. True) (demo_ctx\<lparr>ncm_format := Ntb32\<rparr>) before_block = Inl Bad_access"
proof (rule ncm_rx_table_before_block [where off = 16 and k = 6 and n = 1])
  let ?c = "demo_ctx\<lparr>ncm_format := Ntb32\<rparr>"
  have len: "length before_block = 48" by (simp add: before_block_def)
  have "fst (cdc_ncm_rx_verify_nth Ntb32 ?c before_block) = 16"
    by (simp add: cdc_ncm_rx_verify_nth_def before_block_def window_def get_def nth_block_off_def
        int_of_u32_def)
  then show "cdc_ncm_rx_verify_nth Ntb32 ?c before_block =
      (int 16, snd (cdc_ncm_rx_verify_nth Ntb32 ?c before_block))"
    by (simp add: prod_eq_iff)
  have "get before_block 20 2 = 32" by (simp add: before_block_def get_def window_def)
  then show "cdc_ncm_rx_verify_ndp Ntb32 before_block (int 16) = Inr 1"
    using verify_ndp_inside [of 16 Ntb32 before_block] by (simp add: len ndp_len_off_def Let_def)
  show "window before_block 16 4 \<noteq> ndp_nocrc_sign Ntb32 \<or>
      (\<exists>fs. rx_entries Ntb32 (\<lambda>i. True) (rx_max (snd (cdc_ncm_rx_verify_nth Ntb32 ?c before_block)))
        before_block (16 + ndp_size Ntb32) (nat 1) 0 = Inr (True, fs))"
    by (simp add: before_block_def window_def)
  show "get before_block (16 + ndp_next_off Ntb32) 4 = 2 ^ 32 - 6"
    by (simp add: before_block_def get_def window_def)
qed simp_all

end
