(* ===== verification/Ncm_Bind.thy ===== *)
theory Ncm_Bind
  imports Ncm_Param
begin

text \<open>
  CDC NCM (\<open>modules/ncm/cdc_ncm.c\<close>), binding: choosing the alternate setting, collecting the
  endpoints, acquiring the interfaces and the context, and giving them back. What the USB core and
  the descriptors answer is an environment; the state records what the driver holds.
\<close>

section \<open>Endpoints\<close>

datatype ep_type = EP_INT | EP_BULK | EP_OTHER

record usb_ep =
  ep_addr :: nat
  ep_maxp :: nat
  ep_kind :: ep_type
  ep_dir_in :: bool

record ncm_pipes =
  pipe_in :: "nat option"
  pipe_out :: "nat option"
  pipe_status :: "nat option"

text \<open>The first usable interrupt-in endpoint becomes the status endpoint at once; the first bulk
  endpoints of each direction are remembered until the end.\<close>

fun scan_eps :: "usb_ep list \<Rightarrow> nat option \<Rightarrow> nat option \<Rightarrow> nat option \<Rightarrow> nat option \<times> nat option \<times> nat option"
where
  "scan_eps [] st i out = (st, i, out)"
| "scan_eps (e # es) st i out =
     (if ep_maxp e = 0 then scan_eps es st i out
      else case ep_kind e of
        EP_INT \<Rightarrow> scan_eps es (if ep_dir_in e \<and> st = None then Some (ep_addr e) else st) i out
      | EP_BULK \<Rightarrow>
          if ep_dir_in e then scan_eps es st (if i = None then Some (ep_addr e) else i) out
          else scan_eps es st i (if out = None then Some (ep_addr e) else out)
      | EP_OTHER \<Rightarrow> scan_eps es st i out)"

text \<open>The pipe numbers are the endpoint numbers, the low four bits of the address.\<close>

definition cdc_ncm_find_endpoints :: "usb_ep list \<Rightarrow> ncm_pipes \<Rightarrow> ncm_pipes" where
  "cdc_ncm_find_endpoints eps p =
     (case scan_eps eps (pipe_status p) None None of (st, i, out) \<Rightarrow>
        p\<lparr>pipe_status := st,
          pipe_in := (case i of Some a \<Rightarrow> if pipe_in p = None then Some (a mod 16) else pipe_in p
                      | None \<Rightarrow> pipe_in p),
          pipe_out := (case out of Some a \<Rightarrow> if pipe_out p = None then Some (a mod 16) else pipe_out p
                       | None \<Rightarrow> pipe_out p)\<rparr>)"

section \<open>The alternate setting\<close>

definition COMM_ALTSETTING_NCM :: nat where "COMM_ALTSETTING_NCM = 0"
definition COMM_ALTSETTING_MBIM :: nat where "COMM_ALTSETTING_MBIM = 1"

text \<open>\<open>alt_mbim\<close>: whether the MBIM setting exists and is an MBIM one.\<close>

definition cdc_ncm_select_altsetting :: "bool \<Rightarrow> nat \<Rightarrow> nat \<Rightarrow> bool option \<Rightarrow> nat" where
  "cdc_ncm_select_altsetting prefer_mbim num_altsetting cur alt_mbim =
     (if num_altsetting < 2 then cur
      else if prefer_mbim \<and> alt_mbim = Some True then COMM_ALTSETTING_MBIM
      else COMM_ALTSETTING_NCM)"

section \<open>Binding\<close>

record bind_env =
  be_alloc_ctx :: bool
  be_union_data :: "nat option"
  be_has_union :: bool
  be_iad_data :: "nat option"
  be_control :: nat
  be_is_mbim :: bool
  be_has_mbim_desc :: bool
  be_has_ether_desc :: bool
  be_has_func_desc :: bool
  be_claim :: int
  be_set_alt0 :: int
  be_init :: int
  be_set_data_alt :: int
  be_data_eps :: "usb_ep list"
  be_control_eps :: "usb_ep list"
  be_mac :: int
  be_alloc_ndp :: bool

text \<open>What the driver holds: the context with its delayed table and the two socket buffers of its
  transmit path (\<open>tx_rem_skb\<close>, \<open>tx_curr_skb\<close>), its pointer in the device, the interfaces bound to
  the driver - the one that is probed, bound by the USB core, and the one it claims - and their
  driver data. \<open>bs_freed_skbs\<close> logs the buffers given to \<open>dev_kfree_skb_any\<close>.\<close>

record bind_state =
  bs_ctx :: bool
  bs_dev_data :: bool
  bs_control :: "nat option"
  bs_data :: "nat option"
  bs_claimed :: "nat list"
  bs_intfdata :: "nat list"
  bs_delayed :: bool
  bs_tx_rem_skb :: "nat option"
  bs_tx_curr_skb :: "nat option"
  bs_freed_skbs :: "nat list"
  bs_stop :: bool
  bs_pipes :: ncm_pipes

definition cdc_ncm_free :: "bind_state \<Rightarrow> bind_state" where
  "cdc_ncm_free b =
     (if \<not> bs_ctx b then b
      else
        let b1 = (case bs_tx_rem_skb b of None \<Rightarrow> b
                  | Some s \<Rightarrow> b\<lparr>bs_freed_skbs := bs_freed_skbs b @ [s], bs_tx_rem_skb := None\<rparr>);
            b2 = (case bs_tx_curr_skb b1 of None \<Rightarrow> b1
                  | Some s \<Rightarrow> b1\<lparr>bs_freed_skbs := bs_freed_skbs b1 @ [s], bs_tx_curr_skb := None\<rparr>)
        in b2\<lparr>bs_delayed := False, bs_ctx := False\<rparr>)"

definition bind_error :: "bind_state \<Rightarrow> int \<times> bind_state" where
  "bind_error b = (- ENODEV, (cdc_ncm_free b)\<lparr>bs_dev_data := False\<rparr>)"

definition bind_error2 :: "nat \<Rightarrow> nat \<Rightarrow> bind_state \<Rightarrow> int \<times> bind_state" where
  "bind_error2 control data b =
     (let b1 = b\<lparr>bs_intfdata := removeAll data (removeAll control (bs_intfdata b))\<rparr>
      in bind_error (if data \<noteq> control then b1\<lparr>bs_claimed := removeAll data (bs_claimed b1)\<rparr> else b1))"

text \<open>From the claimed data interface on.\<close>

definition bind_configure :: "bind_env \<Rightarrow> bool \<Rightarrow> nat \<Rightarrow> nat \<Rightarrow> bind_state \<Rightarrow> int \<times> bind_state" where
  "bind_configure e ndp_to_end control data b1 =
     (if be_set_alt0 e \<noteq> 0 then bind_error2 control data b1
      else if be_init e \<noteq> 0 then bind_error2 control data b1
      else if be_set_data_alt e \<noteq> 0 then bind_error2 control data b1
      else
        let p = cdc_ncm_find_endpoints (be_control_eps e)
                  (cdc_ncm_find_endpoints (be_data_eps e) (bs_pipes b1));
            b2 = b1\<lparr>bs_pipes := p\<rparr>
        in if pipe_in p = None \<or> pipe_out p = None \<or> pipe_status p = None
           then bind_error2 control data b2
        else
          let b3 = b2\<lparr>bs_intfdata := control # bs_intfdata b2\<rparr>
          in if be_has_ether_desc e \<and> be_mac e \<noteq> 0 then bind_error2 control data b3
          else if ndp_to_end
          then (if be_alloc_ndp e then (0, b3\<lparr>bs_delayed := True\<rparr>)
                else bind_error2 control data b3)
          else (0, b3))"

text \<open>The data interface: the union descriptor's slave, or the second of a two-interface association
  when there is no union descriptor.\<close>

definition bind_data_intf :: "bind_env \<Rightarrow> nat option" where
  "bind_data_intf e = (if be_has_union e then be_union_data e else be_iad_data e)"

definition cdc_ncm_bind_common ::"bind_env \<Rightarrow> bool \<Rightarrow> bind_state \<Rightarrow> int \<times> bind_state" where
  "cdc_ncm_bind_common e ndp_to_end b0 =
     (if \<not> be_alloc_ctx e then (- ENOMEM, b0)
      else let control = be_control e;
               b = b0\<lparr>bs_ctx := True, bs_dev_data := True, bs_stop := False, bs_control := Some control,
                      bs_data := bind_data_intf e, bs_delayed := False, bs_tx_rem_skb := None,
                      bs_tx_curr_skb := None\<rparr>
      in case bind_data_intf e of
           None \<Rightarrow> bind_error b
         | Some data \<Rightarrow>
           if be_is_mbim e \<and> \<not> be_has_mbim_desc e then bind_error b
           else if \<not> be_is_mbim e \<and> (\<not> be_has_ether_desc e \<or> \<not> be_has_func_desc e) then bind_error b
           else if data \<noteq> control \<and> be_claim e \<noteq> 0 then bind_error b
           else bind_configure e ndp_to_end control data
             (if data \<noteq> control
              then b\<lparr>bs_claimed := data # bs_claimed b, bs_intfdata := data # bs_intfdata b\<rparr>
              else b))"

definition cdc_ncm_bind :: "bool \<Rightarrow> nat \<Rightarrow> nat \<Rightarrow> bool option \<Rightarrow> bind_env \<Rightarrow> bind_state \<Rightarrow> int \<times> bind_state" where
  "cdc_ncm_bind prefer_mbim num cur alt_mbim e b =
     (if cdc_ncm_select_altsetting prefer_mbim num cur alt_mbim \<noteq> COMM_ALTSETTING_NCM
      then (- ENODEV, b) else cdc_ncm_bind_common e False b)"

definition cdc_ncm_unbind :: "nat \<Rightarrow> bind_state \<Rightarrow> bind_state" where
  "cdc_ncm_unbind intf b0 =
     (if \<not> bs_dev_data b0 then b0
      else let b = b0\<lparr>bs_stop := True\<rparr>;
               b1 = (if bs_control b = bs_data b then b\<lparr>bs_data := None\<rparr> else b);
               b2 = (case (bs_control b1, bs_data b1) of
                   (c, Some data) \<Rightarrow>
                     if c = Some intf
                     then b1\<lparr>bs_intfdata := removeAll data (bs_intfdata b1),
                             bs_claimed := removeAll data (bs_claimed b1), bs_data := None\<rparr>
                     else if data = intf then
                       (case c of Some ctl \<Rightarrow>
                          b1\<lparr>bs_intfdata := removeAll ctl (bs_intfdata b1),
                             bs_claimed := removeAll ctl (bs_claimed b1), bs_control := None\<rparr>
                        | None \<Rightarrow> b1)
                     else b1
                 | (c, None) \<Rightarrow> b1)
           in cdc_ncm_free (b2\<lparr>bs_intfdata := removeAll intf (bs_intfdata b2)\<rparr>))"

section \<open>Endpoint selection\<close>

definition usable :: "ep_type \<Rightarrow> bool \<Rightarrow> usb_ep \<Rightarrow> bool" where
  "usable k dir e \<longleftrightarrow> ep_maxp e \<noteq> 0 \<and> ep_kind e = k \<and> ep_dir_in e = dir"

definition or_first :: "nat option \<Rightarrow> usb_ep list \<Rightarrow> nat option" where
  "or_first x es = (if x \<noteq> None then x else case es of [] \<Rightarrow> None | e # _ \<Rightarrow> Some (ep_addr e))"

lemma scan_eps_first:
  "scan_eps es st i out = (or_first st (filter (usable EP_INT True) es),
     or_first i (filter (usable EP_BULK True) es), or_first out (filter (usable EP_BULK False) es))"
  by (induction es arbitrary: st i out) (auto simp: or_first_def usable_def split: ep_type.split)

text \<open>Fact: the pipes are those of the first endpoints of their kind and direction that can
  carry data, the data interface's before the control interface's; binding goes on exactly when
  all three exist on one of the two.\<close>

theorem ncm_endpoints_first:
  assumes "pipe_in p = None" "pipe_out p = None" "pipe_status p = None"
  shows "let p' = cdc_ncm_find_endpoints ces (cdc_ncm_find_endpoints des p);
      first = (\<lambda>k dir. or_first (or_first None (filter (usable k dir) des)) (filter (usable k dir) ces)) in
    pipe_status p' = first EP_INT True \<and>
    pipe_in p' = map_option (\<lambda>a. a mod 16) (first EP_BULK True) \<and>
    pipe_out p' = map_option (\<lambda>a. a mod 16) (first EP_BULK False)"
  using assms by (auto simp: cdc_ncm_find_endpoints_def scan_eps_first or_first_def Let_def split: list.split)

definition holds_nothing :: "nat \<Rightarrow> nat list \<Rightarrow> bind_state \<Rightarrow> bool" where
  "holds_nothing control freed b \<longleftrightarrow> \<not> bs_ctx b \<and> \<not> bs_dev_data b \<and> bs_claimed b = [control] \<and>
     bs_intfdata b = [] \<and> \<not> bs_delayed b \<and> bs_freed_skbs b = freed"

text \<open>What a bound device holds, but for the pipes.\<close>

definition holds_intfs :: "nat \<Rightarrow> nat \<Rightarrow> bind_state \<Rightarrow> bool" where
  "holds_intfs control data b \<longleftrightarrow> bs_ctx b \<and> bs_dev_data b \<and> bs_control b = Some control \<and>
     bs_data b = Some data \<and> set (bs_intfdata b) \<subseteq> {control, data} \<and>
     bs_claimed b = (if data = control then [control] else [data, control])"

definition no_skbs :: "bind_state \<Rightarrow> bool" where
  "no_skbs b \<longleftrightarrow> bs_tx_rem_skb b = None \<and> bs_tx_curr_skb b = None"

lemma ncm_free_simps:
  "bs_ctx b \<Longrightarrow> cdc_ncm_free b = b\<lparr>bs_delayed := False, bs_ctx := False,
     bs_freed_skbs := bs_freed_skbs b @ opt_list (bs_tx_rem_skb b) @ opt_list (bs_tx_curr_skb b),
     bs_tx_rem_skb := None, bs_tx_curr_skb := None\<rparr>"
  by (cases b; cases "bs_tx_rem_skb b"; cases "bs_tx_curr_skb b") (simp_all add: cdc_ncm_free_def Let_def)

lemma removeAll_pair: "set xs \<subseteq> {a, b} \<Longrightarrow> removeAll b (removeAll a xs) = []"
  by (induction xs) auto

lemma bind_error2_nothing:
  assumes "holds_intfs control data b" "no_skbs b"
  shows "fst (bind_error2 control data b) < 0 \<and>
    holds_nothing control (bs_freed_skbs b) (snd (bind_error2 control data b))"
  using assms removeAll_pair [of "bs_intfdata b" control data]
  by (simp add: holds_intfs_def no_skbs_def bind_error2_def bind_error_def ncm_free_simps holds_nothing_def Let_def)

lemma unbind_gives_back:
  assumes "holds_intfs control data b" "i = control \<or> i = data"
  shows "let u = cdc_ncm_unbind i b in
    \<not> bs_ctx u \<and> bs_claimed u = [i] \<and> bs_intfdata u = [] \<and> \<not> bs_delayed u \<and>
    bs_freed_skbs u = bs_freed_skbs b @ opt_list (bs_tx_rem_skb b) @ opt_list (bs_tx_curr_skb b)"
proof -
  have s: "set (bs_intfdata b) \<subseteq> {control, data}" using assms by (simp add: holds_intfs_def)
  then have e: "removeAll control (removeAll data (bs_intfdata b)) = []"
      "removeAll data (removeAll control (bs_intfdata b)) = []"
    using removeAll_pair [of "bs_intfdata b" data control] removeAll_pair [of "bs_intfdata b" control data]
    by auto
  have same: "data = control \<Longrightarrow> removeAll control (bs_intfdata b) = []"
    using removeAll_pair [of "bs_intfdata b" control control] s by simp
  show ?thesis
  proof (cases "data = control")
    case True
    then show ?thesis using assms same
      by (auto simp: holds_intfs_def cdc_ncm_unbind_def ncm_free_simps Let_def)
  next
    case False
    show ?thesis
    proof (cases "i = control")
      case True
      then show ?thesis using assms(1) False e
        by (simp add: holds_intfs_def cdc_ncm_unbind_def ncm_free_simps Let_def)
    next
      case i: False
      then show ?thesis using assms False e
        by (simp add: holds_intfs_def cdc_ncm_unbind_def ncm_free_simps Let_def)
    qed
  qed
qed

lemma bind_configure_outcome:
  assumes h: "holds_intfs control data b" "no_skbs b" and d: "\<not> bs_delayed b"
    and i: "set (bs_intfdata b) \<union> {control} = {control, data}"
    and r: "bind_configure e ndp_to_end control data b = (ret, b')"
  shows "(ret < 0 \<and> holds_nothing control (bs_freed_skbs b) b') \<or>
    (ret = 0 \<and> holds_intfs control data b' \<and> set (bs_intfdata b') = {control, data} \<and>
     bs_delayed b' = ndp_to_end \<and> bs_freed_skbs b' = bs_freed_skbs b \<and>
     pipe_in (bs_pipes b') \<noteq> None \<and> pipe_out (bs_pipes b') \<noteq> None \<and> pipe_status (bs_pipes b') \<noteq> None)"
proof -
  define p where "p = cdc_ncm_find_endpoints (be_control_eps e)
    (cdc_ncm_find_endpoints (be_data_eps e) (bs_pipes b))"
  define b2 where "b2 = b\<lparr>bs_pipes := p\<rparr>"
  define b3 where "b3 = b2\<lparr>bs_intfdata := control # bs_intfdata b2\<rparr>"
  let ?held = "\<lambda>x. holds_intfs control data x \<and> no_skbs x \<and> bs_freed_skbs x = bs_freed_skbs b"
  have h1: "?held b" using h by simp
  have h2: "?held b2" "?held b3"
    using h by (simp_all add: b2_def b3_def holds_intfs_def no_skbs_def)
  have b3: "set (bs_intfdata b3) = {control, data}" "bs_delayed b3 = False" "bs_pipes b3 = p"
    using i d by (auto simp: b2_def b3_def)
  have h4: "?held (b3\<lparr>bs_delayed := True\<rparr>)"
    using h2(2) by (simp add: holds_intfs_def no_skbs_def)
  have err: "fst (bind_error2 control data x) < 0 \<and>
      holds_nothing control (bs_freed_skbs b) (snd (bind_error2 control data x))"
    if "?held x" for x using bind_error2_nothing [of control data x] that by simp
  have "(\<exists>x. ?held x \<and> (ret, b') = bind_error2 control data x) \<or>
      (ret, b') = (0, if ndp_to_end then b3\<lparr>bs_delayed := True\<rparr> else b3) \<and>
      pipe_in p \<noteq> None \<and> pipe_out p \<noteq> None \<and> pipe_status p \<noteq> None"
    using h1 h2
    unfolding r [symmetric] bind_configure_def Let_def p_def [symmetric] b2_def [symmetric] b3_def [symmetric]
    by (simp split: if_split) blast
  then show ?thesis
  proof
    assume "\<exists>x. ?held x \<and> (ret, b') = bind_error2 control data x"
    then obtain x where x: "?held x" "bind_error2 control data x = (ret, b')" by auto
    show ?thesis using err [OF x(1)] x(2) by simp
  next
    assume "(ret, b') = (0, if ndp_to_end then b3\<lparr>bs_delayed := True\<rparr> else b3) \<and>
      pipe_in p \<noteq> None \<and> pipe_out p \<noteq> None \<and> pipe_status p \<noteq> None"
    then show ?thesis using h2(2) h4 b3 by (cases ndp_to_end) simp_all
  qed
qed

text \<open>With a data interface, binding fails and holds nothing or reaches the configuration and succeeds.\<close>

lemma bind_with_data:
  assumes fresh: "\<not> bs_ctx b" "\<not> bs_dev_data b" "bs_claimed b = [be_control e]" "bs_intfdata b = []" "\<not> bs_delayed b"
    and r: "cdc_ncm_bind_common e ndp_to_end b = (ret, b')"
    and Some: "bind_data_intf e = Some data"
  shows "ret < 0 \<and> holds_nothing (be_control e) (bs_freed_skbs b) b' \<or>
    ret = 0 \<and> holds_intfs (be_control e) data b' \<and> set (bs_intfdata b') = {be_control e, data} \<and>
      bs_delayed b' = ndp_to_end \<and> bs_freed_skbs b' = bs_freed_skbs b \<and>
      pipe_in (bs_pipes b') \<noteq> None \<and> pipe_out (bs_pipes b') \<noteq> None \<and>
      pipe_status (bs_pipes b') \<noteq> None"
proof -
  let ?ctl = "be_control e"
  let ?nothing = "holds_nothing ?ctl (bs_freed_skbs b)"
  define b0 where "b0 = b\<lparr>bs_ctx := True, bs_dev_data := True, bs_stop := False, bs_control := Some ?ctl,
    bs_data := Some data, bs_delayed := False, bs_tx_rem_skb := None, bs_tx_curr_skb := None\<rparr>"
  define b1 where "b1 = (if data \<noteq> ?ctl
    then b0\<lparr>bs_claimed := data # bs_claimed b0, bs_intfdata := data # bs_intfdata b0\<rparr> else b0)"
  have h: "holds_intfs ?ctl data b1" "no_skbs b1" "\<not> bs_delayed b1"
      "set (bs_intfdata b1) \<union> {?ctl} = {?ctl, data}"
    using fresh by (auto simp: b1_def b0_def holds_intfs_def no_skbs_def)
  have freed: "bs_freed_skbs b1 = bs_freed_skbs b" by (simp add: b1_def b0_def)
  have e: "fst (bind_error b0) < 0 \<and> ?nothing (snd (bind_error b0))"
    using fresh by (simp add: b0_def bind_error_def ncm_free_simps holds_nothing_def)
  have "(ret, b') = (- ENOMEM, b) \<or> (ret, b') = bind_error b0 \<or>
      (ret, b') = bind_configure e ndp_to_end ?ctl data b1"
    unfolding r [symmetric] cdc_ncm_bind_common_def Let_def Some option.case b0_def [symmetric]
      b1_def [symmetric] by simp
  then consider "ret < 0 \<and> ?nothing b'"
    | "bind_configure e ndp_to_end ?ctl data b1 = (ret, b')"
  proof (elim disjE)
    assume "(ret, b') = (- ENOMEM, b)"
    then have "ret < 0 \<and> ?nothing b'" using fresh by (simp add: holds_nothing_def)
    then show ?thesis using that by blast
  next
    assume "(ret, b') = bind_error b0"
    then have "ret < 0 \<and> ?nothing b'" using e by (metis fst_conv snd_conv)
    then show ?thesis using that by blast
  next
    assume "(ret, b') = bind_configure e ndp_to_end ?ctl data b1"
    then show ?thesis using that(2) by simp
  qed
  then show ?thesis
  proof cases
    case 2
    then show ?thesis using bind_configure_outcome [OF h 2] freed by auto
  qed simp
qed

text \<open>Property C36: binding a device of which the driver holds nothing but the control interface
  that is probed either succeeds, holding the context, the driver data of both interfaces, the
  claimed data interface and all three pipes, or returns an error and holds nothing more than
  before. Unbinding a bound device, through whichever of its two interfaces and whatever socket
  buffers its transmit path has come to hold meanwhile, frees the context, the delayed table and
  those buffers, and gives the driver data and the other interface back; what is left is the
  interface the USB core is unbinding itself.\<close>

theorem ncm_bind_all_or_nothing:
  assumes fresh: "\<not> bs_ctx b" "\<not> bs_dev_data b" "bs_claimed b = [be_control e]" "bs_intfdata b = []" "\<not> bs_delayed b"
    and r: "cdc_ncm_bind_common e ndp_to_end b = (ret, b')"
  shows "if ret = 0
    then bs_ctx b' \<and> bs_dev_data b' \<and>
      pipe_in (bs_pipes b') \<noteq> None \<and> pipe_out (bs_pipes b') \<noteq> None \<and> pipe_status (bs_pipes b') \<noteq> None \<and>
      bs_delayed b' = ndp_to_end \<and>
      (\<exists>data. bs_data b' = Some data \<and> set (bs_intfdata b') = {be_control e, data} \<and>
        bs_claimed b' = (if data = be_control e then [be_control e] else [data, be_control e]) \<and>
        (\<forall>i rem curr. i = be_control e \<or> i = data \<longrightarrow>
          (let u = cdc_ncm_unbind i (b'\<lparr>bs_tx_rem_skb := rem, bs_tx_curr_skb := curr\<rparr>) in
             \<not> bs_ctx u \<and> bs_claimed u = [i] \<and> bs_intfdata u = [] \<and> \<not> bs_delayed u \<and>
             bs_freed_skbs u = bs_freed_skbs b' @ opt_list rem @ opt_list curr)))
    else ret < 0 \<and> \<not> bs_ctx b' \<and> \<not> bs_dev_data b' \<and> bs_claimed b' = [be_control e] \<and>
      bs_intfdata b' = [] \<and> \<not> bs_delayed b'"
proof (cases "bind_data_intf e")
  case None
  then show ?thesis
    using fresh r
    by (auto simp: cdc_ncm_bind_common_def bind_error_def ncm_free_simps Let_def split: if_split_asm)
next
  case (Some data)
  from bind_with_data [OF fresh r Some] show ?thesis
  proof
    assume "ret < 0 \<and> holds_nothing (be_control e) (bs_freed_skbs b) b'"
    then show ?thesis by (simp add: holds_nothing_def)
  next
    assume ok: "ret = 0 \<and> holds_intfs (be_control e) data b' \<and> set (bs_intfdata b') = {be_control e, data} \<and>
      bs_delayed b' = ndp_to_end \<and> bs_freed_skbs b' = bs_freed_skbs b \<and> pipe_in (bs_pipes b') \<noteq> None \<and>
      pipe_out (bs_pipes b') \<noteq> None \<and> pipe_status (bs_pipes b') \<noteq> None"
    then have h: "holds_intfs (be_control e) data (b'\<lparr>bs_tx_rem_skb := rem, bs_tx_curr_skb := curr\<rparr>)"
      for rem curr by (simp add: holds_intfs_def)
    have "bs_data b' = Some data" "bs_ctx b'" "bs_dev_data b'"
        "bs_claimed b' = (if data = be_control e then [be_control e] else [data, be_control e])"
      using ok by (simp_all add: holds_intfs_def)
    then show ?thesis using ok unbind_gives_back [OF h] by (auto simp: Let_def)
  qed
qed

section \<open>Concrete devices\<close>

definition demo_bind_env :: bind_env where
  "demo_bind_env = \<lparr>be_alloc_ctx = True, be_union_data = Some 1, be_has_union = True,
     be_iad_data = None, be_control = 0, be_is_mbim = False, be_has_mbim_desc = False,
     be_has_ether_desc = True, be_has_func_desc = True, be_claim = 0, be_set_alt0 = 0, be_init = 0,
     be_set_data_alt = 0,
     be_data_eps = [\<lparr>ep_addr = 0x81, ep_maxp = 512, ep_kind = EP_BULK, ep_dir_in = True\<rparr>,
       \<lparr>ep_addr = 0x02, ep_maxp = 512, ep_kind = EP_BULK, ep_dir_in = False\<rparr>],
     be_control_eps = [\<lparr>ep_addr = 0x83, ep_maxp = 16, ep_kind = EP_INT, ep_dir_in = True\<rparr>],
     be_mac = 0, be_alloc_ndp = True\<rparr>"

definition unbound :: bind_state where
  "unbound = \<lparr>bs_ctx = False, bs_dev_data = False, bs_control = None, bs_data = None, bs_claimed = [0],
     bs_intfdata = [], bs_delayed = False, bs_tx_rem_skb = None, bs_tx_curr_skb = None, bs_freed_skbs = [], bs_stop = False,
     bs_pipes = \<lparr>pipe_in = None, pipe_out = None, pipe_status = None\<rparr>\<rparr>"

theorem ncm_endpoints_first_witness:
  "pipe_in (cdc_ncm_find_endpoints (be_control_eps demo_bind_env)
     (cdc_ncm_find_endpoints (be_data_eps demo_bind_env) (bs_pipes unbound))) = Some 1"
  using ncm_endpoints_first [of "bs_pipes unbound" "be_control_eps demo_bind_env" "be_data_eps demo_bind_env"]
  by (simp add: unbound_def demo_bind_env_def Let_def usable_def or_first_def)

theorem ncm_bind_all_or_nothing_witness:
  "\<exists>b'. cdc_ncm_bind_common demo_bind_env False unbound = (0, b') \<and> bs_claimed b' = [1, 0] \<and>
     bs_claimed (cdc_ncm_unbind 1 (b'\<lparr>bs_tx_rem_skb := Some 7, bs_tx_curr_skb := Some 8\<rparr>)) = [1] \<and>
     bs_freed_skbs (cdc_ncm_unbind 1 (b'\<lparr>bs_tx_rem_skb := Some 7, bs_tx_curr_skb := Some 8\<rparr>)) = [7, 8]"
proof -
  obtain ret b' where r: "cdc_ncm_bind_common demo_bind_env False unbound = (ret, b')" by fastforce
  have ret: "ret = 0"
    using r by (simp add: cdc_ncm_bind_common_def bind_data_intf_def bind_configure_def demo_bind_env_def
        unbound_def cdc_ncm_find_endpoints_def Let_def)
  have data: "bs_data b' = Some 1" and freed: "bs_freed_skbs b' = []"
    using r by (auto simp: cdc_ncm_bind_common_def bind_data_intf_def bind_configure_def demo_bind_env_def
        unbound_def cdc_ncm_find_endpoints_def Let_def)
  have fresh: "\<not> bs_ctx unbound" "\<not> bs_dev_data unbound" "bs_claimed unbound = [be_control demo_bind_env]"
      "bs_intfdata unbound = []" "\<not> bs_delayed unbound"
    by (simp_all add: unbound_def demo_bind_env_def)
  have ctl: "be_control demo_bind_env = 0" by (simp add: demo_bind_env_def)
  show ?thesis
    using ncm_bind_all_or_nothing [OF fresh r] r unfolding ret ctl
    by (simp add: data freed Let_def)
qed

end
