(* ===== verification/Wdm_Device.thy ===== *)
theory Wdm_Device
  imports Driver_Prelude
begin

text \<open>
  The character device side of modules/cdc-wdm/cdc-wdm.c: the device record and its flags, the
  three URBs and their completion handlers, the two work items, and the file operations write,
  read, flush, fsync, poll and ioctl.

  The spinlock \<open>iuspin\<close> is a field: taking it while it is held is the fault \<open>Spin_deadlock\<close> (a
  function that takes and releases it tests it and leaves it alone; the one path that returns
  without releasing it sets it). A blocking function is cut where it sleeps or drops a lock, and
  its parts are named by a program counter, so that callbacks can run in between. What the USB
  core answers to \<open>usb_submit_urb\<close> or \<open>usb_autopm_get_interface\<close>, whether memory can be
  allocated or user memory accessed, and \<open>usb_translate_errors\<close> are arguments.
\<close>

section \<open>The device\<close>

datatype wdm_flag =
    WDM_IN_USE | WDM_DISCONNECTING | WDM_RESULT | WDM_READ | WDM_INT_STALL | WDM_POLL_RUNNING
  | WDM_RESPONDING | WDM_SUSPENDING | WDM_RESETTING | WDM_OVERFLOW | WDM_WWAN_IN_USE

datatype wdm_fault = Spin_deadlock | Buffer_overrun

text \<open>
  An URB as far as the driver uses it: in flight between a submission that returns 0 and its
  completion; poisoned (a count) so that submissions are refused; and its completion handler.
\<close>

datatype wdm_handler = H_out | H_in | H_int | H_wwan_tx

record urb =
  u_busy :: bool
  u_reject :: nat
  u_complete :: wdm_handler

record usb_ctrlrequest =
  bRequestType :: nat
  bRequest :: nat
  wValue :: nat
  wIndex :: nat
  wLength :: nat

definition SEND_ENCAPSULATED_COMMAND :: nat where "SEND_ENCAPSULATED_COMMAND = 0"
definition GET_ENCAPSULATED_RESPONSE :: nat where "GET_ENCAPSULATED_RESPONSE = 1"
definition DIR_OUT_CLASS_INTERFACE :: nat where "DIR_OUT_CLASS_INTERFACE = 33"
definition DIR_IN_CLASS_INTERFACE :: nat where "DIR_IN_CLASS_INTERFACE = 161"

text \<open>
  The device record. \<open>dlength\<close>, \<open>dread\<close> are the source's \<open>length\<close>, \<open>read\<close>; \<open>work_rx\<close> and
  \<open>work_srv\<close> say whether \<open>rxwork\<close> and \<open>service_outs_intr\<close> are queued; \<open>cmds\<close> lists the commands
  handed to the USB core and \<open>wwan_in\<close> the packets handed to the WWAN core, oldest first;
  \<open>pm_usage\<close> counts the references taken with \<open>usb_autopm_get_interface\<close>; \<open>cleaned\<close> says that
  \<open>cleanup\<close> has freed the device.
\<close>

record wdm_device =
  inbuf :: bytes
  outbuf :: "bytes option"
  ubuf :: bytes
  command :: urb
  response :: urb
  validity :: urb
  orq :: usb_ctrlrequest
  irq :: usb_ctrlrequest
  iuspin :: bool
  flags :: "wdm_flag set"
  wMaxCommand :: nat
  wMaxPacketSize :: nat
  inum :: nat
  reslength :: nat
  dlength :: nat
  dread :: nat
  count :: int
  werr :: int
  rerr :: int
  resp_count :: nat
  work_rx :: bool
  work_srv :: bool
  wwanp :: bool
  wwan_txon :: bool
  wwan_in :: "bytes list"
  cmds :: "(usb_ctrlrequest \<times> bytes) list"
  needs_remote_wakeup :: bool
  pm_usage :: int
  cleaned :: bool

definition test_bit :: "wdm_flag \<Rightarrow> wdm_device \<Rightarrow> bool" where
  "test_bit f d = (f \<in> flags d)"

definition set_bit :: "wdm_flag \<Rightarrow> wdm_device \<Rightarrow> wdm_device" where
  "set_bit f d = d\<lparr>flags := insert f (flags d)\<rparr>"

definition clear_bit :: "wdm_flag \<Rightarrow> wdm_device \<Rightarrow> wdm_device" where
  "clear_bit f d = d\<lparr>flags := flags d - {f}\<rparr>"

text \<open>\<open>usb_submit_urb\<close> answered \<open>rv\<close>: on 0 the URB is in flight.\<close>

definition submitted :: "int \<Rightarrow> urb \<Rightarrow> urb" where
  "submitted rv u = (if rv = 0 then u\<lparr>u_busy := True\<rparr> else u)"

section \<open>Completion handlers\<close>

definition wdm_out_callback :: "int \<Rightarrow> wdm_device \<Rightarrow> wdm_fault + wdm_device" where
  "wdm_out_callback status d =
    (if iuspin d then Inl Spin_deadlock
     else Inr (clear_bit WDM_IN_USE (d\<lparr>werr := status, outbuf := None\<rparr>)))"

definition wdm_wwan_rx :: "bool \<Rightarrow> nat \<Rightarrow> wdm_device \<Rightarrow> wdm_device" where
  "wdm_wwan_rx alloc_ok len d =
    (if \<not> alloc_ok then d else d\<lparr>wwan_in := wwan_in d @ [take len (inbuf d)], work_srv := True\<rparr>)"

text \<open>The part of \<open>wdm_in_callback\<close> at \<open>skip_error\<close>, and the part that stores the response.\<close>

definition in_skip_error :: "wdm_device \<Rightarrow> wdm_device" where
  "in_skip_error d = (if rerr d \<noteq> 0 then d\<lparr>work_srv := True\<rparr> else set_bit WDM_READ d)"

definition in_store :: "nat \<Rightarrow> wdm_device \<Rightarrow> wdm_fault + wdm_device" where
  "in_store len d =
    (if len + dlength d > wMaxCommand d then Inr (set_bit WDM_OVERFLOW d)
     else if test_bit WDM_OVERFLOW d then Inr d
     else if length (inbuf d) < len \<or> length (ubuf d) < dlength d + len then Inl Buffer_overrun
     else Inr (d\<lparr>ubuf := blit (ubuf d) (dlength d) (take len (inbuf d)),
                 dlength := dlength d + len, reslength := len\<rparr>))"

definition unlinked :: "int \<Rightarrow> bool" where
  "unlinked status = (status = - ENOENT \<or> status = - ECONNRESET \<or> status = - ESHUTDOWN)"

definition wdm_in_callback :: "bool \<Rightarrow> int \<Rightarrow> nat \<Rightarrow> wdm_device \<Rightarrow> wdm_fault + wdm_device" where
  "wdm_in_callback alloc_ok status len d =
    (if iuspin d then Inl Spin_deadlock
     else if unlinked status then Inr (in_skip_error (clear_bit WDM_RESPONDING d))
     else if test_bit WDM_WWAN_IN_USE d then
       Inr (wdm_wwan_rx alloc_ok len (clear_bit WDM_RESPONDING d))
     else
       let d1 = clear_bit WDM_RESPONDING d;
           d2 = (if rerr d1 = 0 \<and> status \<noteq> - EPIPE then d1\<lparr>rerr := status\<rparr> else d1)
       in map_sum (\<lambda>e. e) in_skip_error (in_store len d2))"

text \<open>
  \<open>wdm_int_callback\<close> on the bytes the interrupt endpoint delivered (a
  \<open>struct usb_cdc_notification\<close> is 8 bytes, its type the second). \<open>rs\<close> and \<open>vs\<close> are the answers to
  the submissions of the response URB and of the interrupt URB itself.
\<close>

definition NOTIFY_RESPONSE_AVAILABLE :: nat where "NOTIFY_RESPONSE_AVAILABLE = 1"
definition NOTIFY_NETWORK :: nat where "NOTIFY_NETWORK = 0"
definition NOTIFY_SPEED :: nat where "NOTIFY_SPEED = 42"

definition int_exit :: "int \<Rightarrow> wdm_device \<Rightarrow> wdm_device" where
  "int_exit vs d = d\<lparr>validity := submitted vs (validity d)\<rparr>"

definition int_response_available :: "int \<Rightarrow> int \<Rightarrow> wdm_device \<Rightarrow> wdm_fault + wdm_device" where
  "int_response_available rs vs d =
    (if iuspin d then Inl Spin_deadlock
     else
       let go = (resp_count d = 0 \<and> \<not> test_bit WDM_RESPONDING d \<and>
                 \<not> test_bit WDM_DISCONNECTING d \<and> \<not> test_bit WDM_SUSPENDING d);
           d1 = set_bit WDM_RESPONDING (d\<lparr>resp_count := resp_count d + 1\<rparr>)
       in if \<not> go then Inr (int_exit vs d1)
          else
            let d2 = d1\<lparr>response := submitted rs (response d1)\<rparr>
            in if rs < 0 then
                 (let d3 = clear_bit WDM_RESPONDING d2
                  in if rs = - EPERM then Inr d3
                     else if rs = - ENOMEM then Inr (int_exit vs (d3\<lparr>work_rx := True\<rparr>))
                     else Inr (int_exit vs d3))
               else Inr (int_exit vs d2))"

definition wdm_int_callback :: "int \<Rightarrow> int \<Rightarrow> int \<Rightarrow> bytes \<Rightarrow> wdm_device \<Rightarrow> wdm_fault + wdm_device" where
  "wdm_int_callback rs vs status sbuf d =
    (if unlinked status then Inr d
     else if status = - EPIPE then Inr (int_exit vs ((set_bit WDM_INT_STALL d)\<lparr>work_rx := True\<rparr>))
     else if length sbuf < 8 then Inr (int_exit vs d)
     else
       let ty = unat (sbuf ! 1)
       in if ty = NOTIFY_RESPONSE_AVAILABLE then int_response_available rs vs d
          else if ty = NOTIFY_NETWORK \<or> ty = NOTIFY_SPEED then Inr (int_exit vs d)
          else Inr (int_exit vs (clear_bit WDM_POLL_RUNNING d)))"

section \<open>Fetching the next response\<close>

text \<open>Called with the spinlock held; drops it around the submission, answered \<open>rs\<close>.\<close>

definition service_outstanding_interrupt :: "int \<Rightarrow> wdm_device \<Rightarrow> int \<times> wdm_device" where
  "service_outstanding_interrupt rs d =
    (if resp_count d = 0 then (0, d)
     else
       let d1 = d\<lparr>resp_count := resp_count d - 1\<rparr>
       in if resp_count d1 = 0 then (0, d1)
          else if test_bit WDM_DISCONNECTING d1 then (- ENODEV, d1)
          else if test_bit WDM_RESETTING d1 then (- EIO, d1)
          else
            let d2 = (set_bit WDM_RESPONDING d1)\<lparr>response := submitted rs (response d1)\<rparr>
            in if rs \<noteq> 0 then (rs, (clear_bit WDM_RESPONDING d2)\<lparr>resp_count := 0\<rparr>) else (rs, d2))"

definition service_interrupt_work :: "int \<Rightarrow> wdm_device \<Rightarrow> wdm_fault + wdm_device" where
  "service_interrupt_work rs d =
    (if iuspin d then Inl Spin_deadlock
     else let d1 = snd (service_outstanding_interrupt rs d)
          in Inr (if resp_count d1 = 0 then set_bit WDM_READ d1 else d1))"

definition wdm_rxwork :: "int \<Rightarrow> wdm_device \<Rightarrow> wdm_fault + wdm_device" where
  "wdm_rxwork rs d =
    (if iuspin d then Inl Spin_deadlock
     else if test_bit WDM_DISCONNECTING d then Inr d
     else if test_bit WDM_RESPONDING d then Inr d
     else
       let d1 = (set_bit WDM_RESPONDING d)\<lparr>response := submitted rs (response d)\<rparr>
       in if rs < 0 \<and> rs \<noteq> - EPERM then Inr ((clear_bit WDM_RESPONDING d1)\<lparr>work_rx := True\<rparr>)
          else Inr d1)"

section \<open>Writing\<close>

text \<open>
  \<open>wdm_write\<close> up to its mutex: clip the count, report the error of the previous command, copy the
  data in, wait for the mutex. The outcome is a return value or the buffer the writer goes on with.
  \<open>tr\<close> is \<open>usb_translate_errors\<close>; \<open>dup\<close> is 0 or the error of \<open>memdup_user\<close>; \<open>intr\<close> says that a
  signal ended the wait for the mutex.
\<close>

definition wdm_write_start ::
  "(int \<Rightarrow> int) \<Rightarrow> int \<Rightarrow> bool \<Rightarrow> bytes \<Rightarrow> wdm_device \<Rightarrow> wdm_fault + ((int + bytes) \<times> wdm_device)" where
  "wdm_write_start tr dup intr user d =
    (if iuspin d then Inl Spin_deadlock
     else
       let we = werr d; d1 = d\<lparr>werr := 0\<rparr>
       in if we < 0 then Inr (Inl (tr we), d1)
          else if dup < 0 then Inr (Inl dup, d1)
          else if intr then Inr (Inl (- ERESTARTSYS), d1)
          else Inr (Inr (take (min (length user) (wMaxCommand d)) user), d1))"

text \<open>
  The writer's places once it has its buffer: before the mutex, waiting for the previous command
  to finish, past the wait with its result, and returned (the mutex and the buffer given up,
  or the buffer handed to the command URB).
\<close>

datatype wr_pc = W_Locked bytes | W_Wait bytes | W_Go int bytes | W_Ret int

definition wdm_write_locked ::
  "(int \<Rightarrow> int) \<Rightarrow> int \<Rightarrow> bool \<Rightarrow> bytes \<Rightarrow> wdm_device \<Rightarrow> wr_pc \<times> wdm_device" where
  "wdm_write_locked tr rpm nonblock buf d =
    (if test_bit WDM_DISCONNECTING d then (W_Ret (- ENODEV), d)
     else if rpm < 0 then (W_Ret (tr rpm), d)
     else
       let d1 = d\<lparr>pm_usage := pm_usage d + 1\<rparr>
       in if nonblock then (W_Go (if test_bit WDM_IN_USE d then - EAGAIN else 0) buf, d1)
          else (W_Wait buf, d1))"

text \<open>\<open>wait_event_interruptible\<close>: on, once no command is in use; or a signal.\<close>

definition wdm_write_wait :: "bool \<Rightarrow> bytes \<Rightarrow> wdm_device \<Rightarrow> wr_pc" where
  "wdm_write_wait signal buf d =
    (if \<not> test_bit WDM_IN_USE d then W_Go 0 buf
     else if signal then W_Go (- ERESTARTSYS) buf else W_Wait buf)"

definition write_setup :: "nat \<Rightarrow> bytes \<Rightarrow> usb_ctrlrequest" where
  "write_setup ifnum buf = \<lparr>bRequestType = DIR_OUT_CLASS_INTERFACE, bRequest = SEND_ENCAPSULATED_COMMAND,
    wValue = 0, wIndex = ifnum, wLength = length buf mod 65536\<rparr>"

definition wdm_write_go ::
  "(int \<Rightarrow> int) \<Rightarrow> int \<Rightarrow> int \<Rightarrow> bytes \<Rightarrow> wdm_device \<Rightarrow> wr_pc \<times> wdm_device" where
  "wdm_write_go tr cs r buf d =
    (let r' = (if test_bit WDM_DISCONNECTING d then - ENODEV
               else if test_bit WDM_RESETTING d then - EIO else r);
         put = d\<lparr>pm_usage := pm_usage d - 1\<rparr>
     in if r' < 0 then (W_Ret r', put)
        else
          let req = write_setup (inum d) buf;
              cmd = (command d)\<lparr>u_complete := H_out\<rparr>;
              d1 = set_bit WDM_IN_USE (put\<lparr>orq := req, command := submitted cs cmd, outbuf := Some buf\<rparr>)
          in if cs < 0 then (W_Ret (tr cs), clear_bit WDM_IN_USE (d1\<lparr>outbuf := None\<rparr>))
             else (W_Ret (int (length buf)), d1\<lparr>cmds := cmds d @ [(req, buf)]\<rparr>))"

section \<open>Reading\<close>

text \<open>
  The reader's places while it holds \<open>rlock\<close>: the label \<open>retry\<close>, asleep in the wait, past the
  wait with its result, about to copy the length it saw, about to remove what it copied, and
  returned with the return value and the bytes that reached the caller.
\<close>

datatype rd_pc = R_Retry | R_Wait | R_Woken int | R_Copy nat | R_Finish bytes | R_Ret int bytes

definition wdm_read_start :: "bool \<Rightarrow> wdm_device \<Rightarrow> rd_pc \<times> wdm_device" where
  "wdm_read_start intr d = (if intr then (R_Ret (- ERESTARTSYS) [], d)
     else if dlength d = 0 then (R_Retry, d\<lparr>dread := 0\<rparr>) else (R_Copy (dlength d), d))"

definition wdm_read_retry :: "bool \<Rightarrow> wdm_device \<Rightarrow> rd_pc \<times> wdm_device" where
  "wdm_read_retry nonblock d =
    (if test_bit WDM_DISCONNECTING d then (R_Ret (- ENODEV) [], d)
     else if test_bit WDM_OVERFLOW d then (R_Ret (- ENOBUFS) [], clear_bit WDM_OVERFLOW d)
     else if nonblock then
       (if \<not> test_bit WDM_READ d then (R_Ret (- EAGAIN) [], d) else (R_Woken 0, d))
     else (R_Wait, d))"

definition wdm_read_wait :: "bool \<Rightarrow> wdm_device \<Rightarrow> rd_pc" where
  "wdm_read_wait signal d =
    (if test_bit WDM_READ d then R_Woken 0 else if signal then R_Woken (- ERESTARTSYS) else R_Wait)"

text \<open>
  After the wait. The branch for a response of length zero goes back to \<open>retry\<close>, or to the error
  exit, without releasing the spinlock it took.
\<close>

definition wdm_read_woken ::
  "(int \<Rightarrow> int) \<Rightarrow> int \<Rightarrow> int \<Rightarrow> wdm_device \<Rightarrow> wdm_fault + (rd_pc \<times> wdm_device)" where
  "wdm_read_woken tr rs rv d =
    (if test_bit WDM_DISCONNECTING d then Inr (R_Ret (- ENODEV) [], d)
     else if test_bit WDM_RESETTING d then Inr (R_Ret (- EIO) [], d)
     else if rv < 0 then Inr (R_Ret (- ERESTARTSYS) [], d)
     else if iuspin d then Inl Spin_deadlock
     else if rerr d \<noteq> 0 then Inr (R_Ret (tr (rerr d)) [], d\<lparr>rerr := 0\<rparr>)
     else if \<not> test_bit WDM_READ d then Inr (R_Retry, d)
     else if reslength d = 0 then
       (let (rv', d') = service_outstanding_interrupt rs ((clear_bit WDM_READ d)\<lparr>iuspin := True\<rparr>)
        in if rv' < 0 then Inr (R_Ret rv' [], d') else Inr (R_Retry, d'))
     else Inr (R_Copy (dlength d), d))"

text \<open>\<open>copy_to_user\<close> of at most \<open>cnt\<close> bytes, which succeeds or faults.\<close>

definition wdm_read_copy :: "nat \<Rightarrow> bool \<Rightarrow> nat \<Rightarrow> wdm_device \<Rightarrow> wdm_fault + rd_pc" where
  "wdm_read_copy cnt user_ok cntr d =
    (let n = min cntr cnt
     in if length (ubuf d) < n then Inl Buffer_overrun
        else if \<not> user_ok then Inr (R_Ret (- EFAULT) []) else Inr (R_Finish (take n (ubuf d))))"

definition wdm_read_finish :: "int \<Rightarrow> bytes \<Rightarrow> wdm_device \<Rightarrow> wdm_fault + (rd_pc \<times> wdm_device)" where
  "wdm_read_finish rs got d =
    (let n = length got; d1 = d\<lparr>ubuf := blit (ubuf d) 0 (window (ubuf d) n (dlength d - n)), dlength := dlength d - n\<rparr>
     in if iuspin d then Inl Spin_deadlock
        else if length (ubuf d) < dlength d then Inl Buffer_overrun
        else Inr (R_Ret (int n) got,
          if dlength d1 = 0 then snd (service_outstanding_interrupt rs (clear_bit WDM_READ d1)) else d1))"

text \<open>
  One move of a reader that holds \<open>rlock\<close>, and the moves in sequence with nothing in between: the
  reader returns, or it is left waiting. \<open>signal\<close> says whether a signal ends the wait.
\<close>

definition wdm_read_next :: "(int \<Rightarrow> int) \<Rightarrow> int \<Rightarrow> bool \<Rightarrow> bool \<Rightarrow> nat \<Rightarrow> bool \<Rightarrow> rd_pc \<Rightarrow> wdm_device \<Rightarrow>
    wdm_fault + (rd_pc \<times> wdm_device)" where
  "wdm_read_next tr rs signal nonblock cnt user_ok pc d = (case pc of
     R_Retry \<Rightarrow> Inr (wdm_read_retry nonblock d)
   | R_Wait \<Rightarrow> Inr (wdm_read_wait signal d, d)
   | R_Woken rv \<Rightarrow> wdm_read_woken tr rs rv d
   | R_Copy cntr \<Rightarrow> map_sum (\<lambda>e. e) (\<lambda>p. (p, d)) (wdm_read_copy cnt user_ok cntr d)
   | R_Finish got \<Rightarrow> wdm_read_finish rs got d
   | R_Ret rv got \<Rightarrow> Inr (pc, d))"

fun wdm_read_run :: "nat \<Rightarrow> (int \<Rightarrow> int) \<Rightarrow> int \<Rightarrow> bool \<Rightarrow> nat \<Rightarrow> bool \<Rightarrow> rd_pc \<times> wdm_device \<Rightarrow>
    wdm_fault + (rd_pc \<times> wdm_device)" where
  "wdm_read_run 0 tr rs nonblock cnt user_ok s = Inr s"
| "wdm_read_run (Suc fuel) tr rs nonblock cnt user_ok (pc, d) =
     (case wdm_read_next tr rs False nonblock cnt user_ok pc d of
        Inl e \<Rightarrow> Inl e
      | Inr s \<Rightarrow> wdm_read_run fuel tr rs nonblock cnt user_ok s)"

definition wdm_read :: "(int \<Rightarrow> int) \<Rightarrow> bool \<Rightarrow> int \<Rightarrow> bool \<Rightarrow> nat \<Rightarrow> bool \<Rightarrow> wdm_device \<Rightarrow> wdm_fault + (rd_pc \<times> wdm_device)" where
  "wdm_read tr intr rs nonblock cnt user_ok d = wdm_read_run 7 tr rs nonblock cnt user_ok (wdm_read_start intr d)"

section \<open>Flush, fsync, poll, ioctl\<close>

text \<open>\<open>rv\<close> is the result of the interruptible wait: 0 on a timeout, negative on a signal.\<close>

definition wdm_wait_for_response :: "(int \<Rightarrow> int) \<Rightarrow> int \<Rightarrow> wdm_device \<Rightarrow> wdm_fault + (int \<times> wdm_device)" where
  "wdm_wait_for_response tr rv d =
    (if test_bit WDM_DISCONNECTING d then Inr (- ENODEV, d)
     else if rv = 0 then Inr (- EIO, d)
     else if rv < 0 then Inr (- EINTR, d)
     else if iuspin d then Inl Spin_deadlock
     else Inr (tr (werr d), d\<lparr>werr := 0\<rparr>))"

definition EPOLLIN :: nat where "EPOLLIN = 1"
definition EPOLLOUT :: nat where "EPOLLOUT = 4"
definition EPOLLERR :: nat where "EPOLLERR = 8"
definition EPOLLHUP :: nat where "EPOLLHUP = 16"
definition EPOLLRDNORM :: nat where "EPOLLRDNORM = 64"
definition EPOLLWRNORM :: nat where "EPOLLWRNORM = 256"

definition wdm_poll :: "wdm_device \<Rightarrow> wdm_fault + nat" where
  "wdm_poll d =
    (if iuspin d then Inl Spin_deadlock
     else if test_bit WDM_DISCONNECTING d then Inr (EPOLLHUP OR EPOLLERR)
     else Inr ((if test_bit WDM_READ d then EPOLLIN OR EPOLLRDNORM else 0) OR
       (if rerr d \<noteq> 0 \<or> werr d \<noteq> 0 then EPOLLERR else 0) OR
       (if \<not> test_bit WDM_IN_USE d then EPOLLOUT OR EPOLLWRNORM else 0)))"

text \<open>The answer is the 16-bit \<open>wMaxCommand\<close>, in the host's byte order.\<close>

definition wdm_ioctl :: "bool \<Rightarrow> bool \<Rightarrow> wdm_device \<Rightarrow> int \<times> bytes" where
  "wdm_ioctl is_max_command user_ok d =
    (if is_max_command then (if user_ok then (0, le16 (wMaxCommand d)) else (- EFAULT, []))
     else (- ENOTTY, []))"

end
