(* ===== verification/Wdm_Life.thy ===== *)
theory Wdm_Life
  imports Wdm_Device
begin

text \<open>
  The life of a device of modules/cdc-wdm/cdc-wdm.c: creation and probing, open and release, the
  WWAN port that shares its URBs, suspend and resume, the two halves of a reset, and
  disconnection. A function that takes the mutexes is cut before it gets them. Poisoning an URB in
  flight runs its completion handler with \<open>-ENOENT\<close>, as the USB core documents.
\<close>

definition and_then :: "wdm_fault + 'a \<Rightarrow> ('a \<Rightarrow> wdm_fault + 'b) \<Rightarrow> wdm_fault + 'b" where
  "and_then m f = (case m of Inl e \<Rightarrow> Inl e | Inr x \<Rightarrow> f x)"

lemma and_then_simps [simp]:
  "and_then (Inl e) f = Inl e"
  "and_then (Inr x) f = f x"
  by (simp_all add: and_then_def)

lemma and_then_Inr: "and_then m f = Inr y \<longleftrightarrow> (\<exists>x. m = Inr x \<and> f x = Inr y)"
  by (cases m) simp_all

section \<open>Poisoning the URBs\<close>

definition wdm_wwan_port_tx_complete :: "wdm_device \<Rightarrow> wdm_device" where
  "wdm_wwan_port_tx_complete d = d\<lparr>pm_usage := pm_usage d - 1, wwan_txon := True\<rparr>"

definition giveback :: "wdm_handler \<Rightarrow> int \<Rightarrow> wdm_device \<Rightarrow> wdm_fault + wdm_device" where
  "giveback h status d = (case h of
     H_out \<Rightarrow> wdm_out_callback status d
   | H_in \<Rightarrow> wdm_in_callback False status 0 d
   | H_int \<Rightarrow> wdm_int_callback (- EPERM) (- EPERM) status [] d
   | H_wwan_tx \<Rightarrow> Inr (wdm_wwan_port_tx_complete d))"

definition poisoned :: "urb \<Rightarrow> urb" where
  "poisoned u = u\<lparr>u_reject := u_reject u + 1, u_busy := False\<rparr>"

definition unpoisoned :: "urb \<Rightarrow> urb" where
  "unpoisoned u = u\<lparr>u_reject := u_reject u - 1\<rparr>"

definition poison_with :: "urb \<Rightarrow> wdm_device \<Rightarrow> wdm_fault + wdm_device" where
  "poison_with u d = (if u_busy u then giveback (u_complete u) (- ENOENT) d else Inr d)"

definition poison_urbs :: "wdm_device \<Rightarrow> wdm_fault + wdm_device" where
  "poison_urbs d =
    and_then (poison_with (command d) (d\<lparr>command := poisoned (command d)\<rparr>)) (\<lambda>d.
    and_then (poison_with (validity d) (d\<lparr>validity := poisoned (validity d)\<rparr>)) (\<lambda>d.
    poison_with (response d) (d\<lparr>response := poisoned (response d)\<rparr>)))"

definition unpoison_urbs :: "wdm_device \<Rightarrow> wdm_device" where
  "unpoison_urbs d = d\<lparr>response := unpoisoned (response d), validity := unpoisoned (validity d),
     command := unpoisoned (command d)\<rparr>"

section \<open>Creation\<close>

text \<open>What creation allocates, and what the rest of the kernel answers to it.\<close>

datatype wdm_res = Desc | Orq | Irq | Validity | Response | Command | Ubuf | Sbuf | Inbuf

record create_env =
  ce_alloc :: "wdm_res \<Rightarrow> bool"
  ce_int_in :: bool
  ce_maxp :: nat
  ce_interface :: nat
  ce_register :: int
  ce_wwan_known :: bool
  ce_wwan_port :: bool
  ce_ubuf :: bytes
  ce_inbuf :: bytes

fun alloc_seq :: "(wdm_res \<Rightarrow> bool) \<Rightarrow> wdm_res list \<Rightarrow> wdm_res set \<Rightarrow> bool \<times> wdm_res set" where
  "alloc_seq ok [] h = (True, h)"
| "alloc_seq ok (r # rs) h = (if ok r then alloc_seq ok rs (insert r h) else (False, h))"

definition free_urbs :: "wdm_res set \<Rightarrow> wdm_res set" where
  "free_urbs h = h - {Validity, Response, Command}"

definition cleanup :: "wdm_res set \<Rightarrow> wdm_res set" where
  "cleanup h = free_urbs (h - {Sbuf, Inbuf, Orq, Irq, Ubuf}) - {Desc}"

definition wdm_wwan_init :: "create_env \<Rightarrow> wdm_device \<Rightarrow> wdm_device" where
  "wdm_wwan_init e d = (if \<not> ce_wwan_known e then d
     else if \<not> ce_wwan_port e then d else d\<lparr>wwanp := True\<rparr>)"

definition new_wdm :: "create_env \<Rightarrow> nat \<Rightarrow> wdm_device" where
  "new_wdm e bufsize =
    (let ifnum = ce_interface e mod 65536; u = \<lparr>u_busy = False, u_reject = 0, u_complete = H_out\<rparr>;
         zero = \<lparr>bRequestType = 0, bRequest = 0, wValue = 0, wIndex = 0, wLength = 0\<rparr>
     in \<lparr>inbuf = take bufsize (ce_inbuf e @ replicate bufsize 0), outbuf = None,
         ubuf = take bufsize (ce_ubuf e @ replicate bufsize 0),
         command = u, response = u\<lparr>u_complete := H_in\<rparr>, validity = u\<lparr>u_complete := H_int\<rparr>,
         orq = zero,
         irq = \<lparr>bRequestType = DIR_IN_CLASS_INTERFACE, bRequest = GET_ENCAPSULATED_RESPONSE,
                wValue = 0, wIndex = ifnum, wLength = bufsize\<rparr>,
         iuspin = False, flags = {}, wMaxCommand = bufsize, wMaxPacketSize = ce_maxp e, inum = ifnum,
         reslength = 0, dlength = 0, dread = 0, count = 0, werr = 0, rerr = 0, resp_count = 0,
         work_rx = False, work_srv = False, wwanp = False, wwan_txon = False, wwan_in = [], cmds = [],
         needs_remote_wakeup = False, pm_usage = 0, cleaned = False\<rparr>)"

text \<open>The return value, what is still allocated, and the device if it stays on the list.\<close>

definition wdm_create :: "create_env \<Rightarrow> nat \<Rightarrow> int \<times> wdm_res set \<times> wdm_device option" where
  "wdm_create e bufsize =
    (if \<not> ce_alloc e Desc then (- ENOMEM, {}, None)
     else if \<not> ce_int_in e then (- EINVAL, cleanup {Desc}, None)
     else
       let (ok, h) = alloc_seq (ce_alloc e) [Orq, Irq, Validity, Response, Command, Ubuf, Sbuf, Inbuf] {Desc}
       in if \<not> ok then (- ENOMEM, cleanup h, None)
          else if ce_register e < 0 then (ce_register e, cleanup h, None)
          else (ce_register e, h, Some (wdm_wwan_init e (new_wdm e bufsize))))"

text \<open>
  \<open>wdm_probe\<close>: \<open>extra\<close> says whether the interface has extra descriptors, \<open>dmm\<close> is the
  \<open>wMaxCommand\<close> of its DMM descriptor, \<open>neps\<close> its number of endpoints.
\<close>

definition WDM_DEFAULT_BUFSIZE :: nat where "WDM_DEFAULT_BUFSIZE = 256"

definition wdm_probe ::
  "bool \<Rightarrow> nat option \<Rightarrow> nat \<Rightarrow> create_env \<Rightarrow> int \<times> wdm_res set \<times> wdm_device option" where
  "wdm_probe extra dmm neps e =
    (if \<not> extra then (- EINVAL, {}, None)
     else
       let maxcom = (case dmm of None \<Rightarrow> WDM_DEFAULT_BUFSIZE | Some m \<Rightarrow> m mod 65536)
       in if neps \<noteq> 1 then (- EINVAL, {}, None)
          else wdm_create (e\<lparr>ce_wwan_known := False\<rparr>) maxcom)"

text \<open>The exported registration takes an \<open>int\<close>, which \<open>wdm_create\<close> receives as a \<open>u16\<close>.\<close>

definition usb_cdc_wdm_register ::
  "create_env \<Rightarrow> int \<Rightarrow> (int + wdm_res set \<times> wdm_device option)" where
  "usb_cdc_wdm_register e bufsize =
    (let (rv, h, d) = wdm_create e (nat (bufsize mod 65536)) in if rv < 0 then Inl rv else Inr (h, d))"

text \<open>Looking a device up in the list, by its interface or by its minor.\<close>

definition wdm_find_device :: "nat \<Rightarrow> (nat \<times> int \<times> 'd) list \<Rightarrow> 'd option" where
  "wdm_find_device intf devs = map_option (\<lambda>(i, m, d). d) (find (\<lambda>(i, m, d). i = intf) devs)"

definition wdm_find_device_by_minor :: "int \<Rightarrow> (nat \<times> int \<times> 'd) list \<Rightarrow> 'd option" where
  "wdm_find_device_by_minor minor devs = map_option (\<lambda>(i, m, d). d) (find (\<lambda>(i, m, d). m = minor) devs)"

section \<open>Power, open and release\<close>

definition wdm_manage_power :: "int \<Rightarrow> bool \<Rightarrow> wdm_device \<Rightarrow> int \<times> wdm_device" where
  "wdm_manage_power rpm on d =
    (let d1 = (if rpm < 0 then d else d\<lparr>pm_usage := pm_usage d + 1\<rparr>);
         d2 = d1\<lparr>needs_remote_wakeup := on\<rparr>
     in (0, if rpm = 0 then d2\<lparr>pm_usage := pm_usage d2 - 1\<rparr> else d2))"

text \<open>
  The device calls the power callback it was created with: \<open>wdm_manage_power\<close> for a probed device,
  the registering driver's for \<open>usb_cdc_wdm_register\<close>. It is given the interface only, so of what
  the device record holds it can change the usage count, by a number, and the wakeup flag: the
  parameter \<open>mp\<close> says by how much and to what. The callers ignore its return value.
\<close>

type_synonym power_call = "bool \<Rightarrow> int \<times> bool"

definition manage_power :: "power_call \<Rightarrow> bool \<Rightarrow> wdm_device \<Rightarrow> wdm_device" where
  "manage_power mp on d = d\<lparr>pm_usage := pm_usage d + fst (mp on), needs_remote_wakeup := snd (mp on)\<rparr>"

text \<open>A callback that keeps no reference, as the driver's own does.\<close>

definition balanced :: "power_call \<Rightarrow> bool" where
  "balanced mp \<longleftrightarrow> (\<forall>on. fst (mp on) = 0)"

definition wdm_power :: "int \<Rightarrow> power_call" where
  "wdm_power rpm on = (if 0 < rpm then 1 else 0, on)"

lemma wdm_manage_power_call: "snd (wdm_manage_power rpm on d) = manage_power (wdm_power rpm) on d"
  by (simp add: wdm_manage_power_def manage_power_def wdm_power_def Let_def)

lemma wdm_power_balanced: "rpm \<le> 0 \<Longrightarrow> balanced (wdm_power rpm)"
  by (simp add: balanced_def wdm_power_def)

text \<open>
  \<open>wdm_open\<close> of the device found for the minor. \<open>rpm\<close> answers \<open>usb_autopm_get_interface\<close>, \<open>vs\<close> the
  submission of the interrupt URB.
\<close>

definition wdm_open ::
  "(int \<Rightarrow> int) \<Rightarrow> int \<Rightarrow> int \<Rightarrow> power_call \<Rightarrow> wdm_device \<Rightarrow> int \<times> wdm_device" where
  "wdm_open tr rpm vs mp d =
    (if test_bit WDM_DISCONNECTING d then (- ENODEV, d)
     else if test_bit WDM_WWAN_IN_USE d then (- EBUSY, d)
     else if rpm < 0 then (rpm, d)
     else
       let d1 = d\<lparr>pm_usage := pm_usage d + 1\<rparr>;
           (rv, d2) =
             (if count d1 = 0 then
                let da = d1\<lparr>count := count d1 + 1, werr := 0, rerr := 0, validity := submitted vs (validity d1)\<rparr>
                in if vs < 0 then (tr vs, da\<lparr>count := count da - 1\<rparr>) else (vs, da)
              else (0, d1\<lparr>count := count d1 + 1\<rparr>));
           d3 = (if count d2 = 1 then manage_power mp True d2 else d2)
       in (rv, d3\<lparr>pm_usage := pm_usage d3 - 1\<rparr>))"

definition wdm_open_minor ::
  "(int \<Rightarrow> int) \<Rightarrow> int \<Rightarrow> int \<Rightarrow> power_call \<Rightarrow> wdm_device option \<Rightarrow> int \<times> wdm_device option" where
  "wdm_open_minor tr rpm vs mp found = (case found of
     None \<Rightarrow> (- ENODEV, None)
   | Some d \<Rightarrow> map_prod (\<lambda>rv. rv) Some (wdm_open tr rpm vs mp d))"

definition wdm_release :: "power_call \<Rightarrow> wdm_device \<Rightarrow> wdm_fault + wdm_device" where
  "wdm_release mp d =
    (let d1 = d\<lparr>count := count d - 1\<rparr>
     in if count d1 \<noteq> 0 then Inr d1
        else if test_bit WDM_DISCONNECTING d1 then Inr (d1\<lparr>cleaned := True\<rparr>)
        else and_then (poison_urbs d1) (\<lambda>d2.
          if iuspin d2 then Inl Spin_deadlock
          else Inr (unpoison_urbs (manage_power mp False
            (clear_bit WDM_RESPONDING (d2\<lparr>resp_count := 0\<rparr>))))))"

section \<open>The WWAN port\<close>

definition wdm_wwan_port_start :: "int \<Rightarrow> power_call \<Rightarrow> wdm_device \<Rightarrow> int \<times> wdm_device" where
  "wdm_wwan_port_start vs mp d =
    (if count d \<noteq> 0 then (- EBUSY, d)
     else
       let d1 = manage_power mp True (set_bit WDM_WWAN_IN_USE d)
       in (vs, d1\<lparr>wwan_txon := True, validity := submitted vs (validity d1)\<rparr>))"

definition wdm_wwan_port_stop :: "power_call \<Rightarrow> wdm_device \<Rightarrow> wdm_fault + wdm_device" where
  "wdm_wwan_port_stop mp d =
    and_then (poison_urbs d) (\<lambda>d1.
      Inr (unpoison_urbs (clear_bit WDM_WWAN_IN_USE (clear_bit WDM_READ (manage_power mp False d1)))))"

definition wdm_wwan_port_tx :: "int \<Rightarrow> int \<Rightarrow> bytes \<Rightarrow> wdm_device \<Rightarrow> int \<times> wdm_device" where
  "wdm_wwan_port_tx rpm cs buf d =
    (if rpm \<noteq> 0 then (rpm, d)
     else
       let req = write_setup (inum d) buf;
           d1 = d\<lparr>pm_usage := pm_usage d + 1, orq := req,
             command := submitted cs ((command d)\<lparr>u_complete := H_wwan_tx\<rparr>)\<rparr>
       in if cs \<noteq> 0 then (cs, d1\<lparr>pm_usage := pm_usage d1 - 1\<rparr>)
          else (cs, d1\<lparr>wwan_txon := False, cmds := cmds d @ [(req, buf)]\<rparr>))"

text \<open>Removing the port makes the WWAN core stop it first if it was started.\<close>

definition wdm_wwan_deinit :: "bool \<Rightarrow> power_call \<Rightarrow> wdm_device \<Rightarrow> wdm_fault + wdm_device" where
  "wdm_wwan_deinit started mp d =
    (if \<not> wwanp d then Inr d
     else and_then (if started then wdm_wwan_port_stop mp d else Inr d) (\<lambda>d1. Inr (d1\<lparr>wwanp := False\<rparr>)))"

section \<open>Disconnection\<close>

definition cancel_works :: "wdm_device \<Rightarrow> wdm_device" where
  "cancel_works d = d\<lparr>work_rx := False, work_srv := False\<rparr>"

text \<open>\<open>wdm_disconnect\<close> up to its two mutexes, and the rest.\<close>

definition wdm_disconnect_begin :: "bool \<Rightarrow> power_call \<Rightarrow> wdm_device \<Rightarrow> wdm_fault + wdm_device" where
  "wdm_disconnect_begin started mp d =
    and_then (wdm_wwan_deinit started mp d) (\<lambda>d1.
      if iuspin d1 then Inl Spin_deadlock
      else Inr (set_bit WDM_READ (set_bit WDM_DISCONNECTING d1)))"

definition wdm_disconnect_end :: "wdm_device \<Rightarrow> wdm_fault + wdm_device" where
  "wdm_disconnect_end d =
    and_then (poison_urbs d) (\<lambda>d1.
      let d2 = cancel_works d1 in Inr (if count d2 = 0 then d2\<lparr>cleaned := True\<rparr> else d2))"

section \<open>Suspend, resume, reset\<close>

text \<open>\<open>wdm_suspend\<close> under the spinlock, and after it has released it.\<close>

definition suspend_mark :: "bool \<Rightarrow> wdm_device \<Rightarrow> wdm_fault + (int \<times> wdm_device)" where
  "suspend_mark auto d =
    (if iuspin d then Inl Spin_deadlock
     else if auto \<and> (test_bit WDM_IN_USE d \<or> test_bit WDM_RESPONDING d) then Inr (- EBUSY, d)
     else Inr (0, set_bit WDM_SUSPENDING d))"

definition suspend_stop :: "wdm_device \<Rightarrow> wdm_fault + wdm_device" where
  "suspend_stop d = and_then (poison_urbs d) (\<lambda>d1. Inr (unpoison_urbs (cancel_works d1)))"

definition wdm_suspend :: "bool \<Rightarrow> wdm_device \<Rightarrow> wdm_fault + (int \<times> wdm_device)" where
  "wdm_suspend auto d =
    and_then (suspend_mark auto d) (\<lambda>(rv, d1).
      if rv < 0 then Inr (rv, d1) else and_then (suspend_stop d1) (\<lambda>d2. Inr (0, d2)))"

definition recover_from_urb_loss :: "int \<Rightarrow> wdm_device \<Rightarrow> int \<times> wdm_device" where
  "recover_from_urb_loss vs d =
    (if count d \<noteq> 0 then (vs, d\<lparr>validity := submitted vs (validity d)\<rparr>) else (0, d))"

definition wdm_resume :: "int \<Rightarrow> wdm_device \<Rightarrow> int \<times> wdm_device" where
  "wdm_resume vs d = recover_from_urb_loss vs (clear_bit WDM_SUSPENDING d)"

text \<open>\<open>wdm_pre_reset\<close> up to its two mutexes, which it keeps, and the rest.\<close>

definition wdm_pre_reset_begin :: "wdm_device \<Rightarrow> wdm_fault + wdm_device" where
  "wdm_pre_reset_begin d =
    (if iuspin d then Inl Spin_deadlock
     else Inr ((clear_bit WDM_IN_USE (set_bit WDM_READ (set_bit WDM_RESETTING d)))\<lparr>rerr := - EINTR\<rparr>))"

definition wdm_pre_reset_end :: "wdm_device \<Rightarrow> wdm_fault + wdm_device" where
  "wdm_pre_reset_end d = and_then (poison_urbs d) (\<lambda>d1. Inr (cancel_works d1))"

definition wdm_post_reset :: "int \<Rightarrow> wdm_device \<Rightarrow> int \<times> wdm_device" where
  "wdm_post_reset vs d =
    recover_from_urb_loss vs (clear_bit WDM_RESETTING (clear_bit WDM_OVERFLOW (unpoison_urbs d)))"

end
