(* ===== verification/Wdm_Sys.thy ===== *)
theory Wdm_Sys
  imports Wdm_Life
begin

text \<open>
  A device of modules/cdc-wdm/cdc-wdm.c with everything that can happen to it, interleaved: the
  completion of each URB, the work items, any number of readers and writers (one of each past its
  mutex), open and release, the WWAN port, suspend, resume, reset and disconnection. The step
  relation is labelled with the data that goes in and out; the response data is shown to be a
  first-in first-out queue, and the flags, URBs and buffers are shown to stay consistent.
\<close>

section \<open>The step relation\<close>

text \<open>
  The documented answers of \<open>usb_submit_urb\<close>: 0 or an error, and an error if the URB is in flight
  or poisoned.
\<close>

definition answer_ok :: "urb \<Rightarrow> int \<Rightarrow> bool" where
  "answer_ok u rv = (rv \<le> 0 \<and> (u_busy u \<or> u_reject u > 0 \<longrightarrow> rv < 0))"

text \<open>
  Where the USB core is with the interface. It calls the driver's suspend, reset and disconnect one
  at a time, with the device locked. \<open>Suspending\<close> (with or without the two mutexes) and the waits
  for the mutexes are the points inside those functions where others can run.
\<close>

datatype wdm_phase = Running | Suspending bool | Reset_wait | Reset_held | Disc_wait | Gone

definition mutexes_held :: "wdm_phase \<Rightarrow> bool" where
  "mutexes_held p = (p = Suspending False \<or> p = Reset_held)"

text \<open>
  \<open>rd\<close> is the reader that holds \<open>rlock\<close> (whether it is nonblocking, its count, its place), \<open>wr\<close> the
  writer that holds \<open>wlock\<close>; \<open>port_started\<close> says that the WWAN core has started the port.
\<close>

record wdm_sys =
  sdev :: wdm_device
  rd :: "(bool \<times> nat \<times> rd_pc) option"
  wr :: "(bool \<times> wr_pc) option"
  phase :: wdm_phase
  port_started :: bool

datatype wdm_label = Put bytes | Got bytes | Quiet | Shut

text \<open>The response bytes that a completion stores, by the source's conditions.\<close>

definition stored :: "int \<Rightarrow> bytes \<Rightarrow> wdm_device \<Rightarrow> bytes" where
  "stored status data d =
    (if unlinked status \<or> test_bit WDM_WWAN_IN_USE d \<or> test_bit WDM_OVERFLOW d \<or>
        length data + dlength d > wMaxCommand d then [] else data)"

definition read_label :: "rd_pc \<Rightarrow> wdm_label" where
  "read_label pc = (case pc of R_Finish got \<Rightarrow> Got got | _ \<Rightarrow> Quiet)"

definition wdm_write_next ::
  "(int \<Rightarrow> int) \<Rightarrow> int \<Rightarrow> int \<Rightarrow> bool \<Rightarrow> bool \<Rightarrow> wr_pc \<Rightarrow> wdm_device \<Rightarrow> wr_pc \<times> wdm_device" where
  "wdm_write_next tr rpm cs signal nonblock pc d = (case pc of
     W_Locked buf \<Rightarrow> wdm_write_locked tr rpm nonblock buf d
   | W_Wait buf \<Rightarrow> (wdm_write_wait signal buf d, d)
   | W_Go r buf \<Rightarrow> wdm_write_go tr cs r buf d
   | W_Ret rv \<Rightarrow> (pc, d))"

definition cmd_done :: "wdm_device \<Rightarrow> wdm_device" where
  "cmd_done d = d\<lparr>command := (command d)\<lparr>u_busy := False\<rparr>\<rparr>"

definition resp_done :: "bytes \<Rightarrow> wdm_device \<Rightarrow> wdm_device" where
  "resp_done data d = d\<lparr>response := (response d)\<lparr>u_busy := False\<rparr>, inbuf := blit (inbuf d) 0 data\<rparr>"

definition int_done :: "wdm_device \<Rightarrow> wdm_device" where
  "int_done d = d\<lparr>validity := (validity d)\<lparr>u_busy := False\<rparr>\<rparr>"

inductive wdm_step :: "(int \<Rightarrow> int) \<Rightarrow> wdm_sys \<Rightarrow> wdm_label \<Rightarrow> wdm_sys \<Rightarrow> bool" for tr where
  command_done: "u_busy (command (sdev s)) \<Longrightarrow>
    giveback (u_complete (command (sdev s))) st (cmd_done (sdev s)) = Inr d \<Longrightarrow>
    wdm_step tr s Quiet (s\<lparr>sdev := d\<rparr>)"
| response_done: "u_busy (response (sdev s)) \<Longrightarrow> length data \<le> wMaxCommand (sdev s) \<Longrightarrow>
    wdm_in_callback alloc_ok st (length data) (resp_done data (sdev s)) = Inr d \<Longrightarrow>
    wdm_step tr s (Put (stored st data (sdev s))) (s\<lparr>sdev := d\<rparr>)"
| interrupt_done: "u_busy (validity (sdev s)) \<Longrightarrow> answer_ok (response (sdev s)) rs \<Longrightarrow>
    answer_ok (validity (int_done (sdev s))) vs \<Longrightarrow>
    wdm_int_callback rs vs st sbuf (int_done (sdev s)) = Inr d \<Longrightarrow>
    wdm_step tr s Quiet (s\<lparr>sdev := d\<rparr>)"
| run_rxwork: "work_rx (sdev s) \<Longrightarrow> answer_ok (response (sdev s)) rs \<Longrightarrow>
    wdm_rxwork rs ((sdev s)\<lparr>work_rx := False\<rparr>) = Inr d \<Longrightarrow> wdm_step tr s Quiet (s\<lparr>sdev := d\<rparr>)"
| run_service: "work_srv (sdev s) \<Longrightarrow> answer_ok (response (sdev s)) rs \<Longrightarrow>
    service_interrupt_work rs ((sdev s)\<lparr>work_srv := False\<rparr>) = Inr d \<Longrightarrow>
    wdm_step tr s Quiet (s\<lparr>sdev := d\<rparr>)"
| read_lock: "rd s = None \<Longrightarrow> \<not> mutexes_held (phase s) \<Longrightarrow> count (sdev s) > 0 \<Longrightarrow>
    wdm_read_start False (sdev s) = (pc, d) \<Longrightarrow>
    wdm_step tr s Quiet (s\<lparr>sdev := d, rd := Some (nonblock, cnt, pc)\<rparr>)"
| read_move: "rd s = Some (nonblock, cnt, pc) \<Longrightarrow> answer_ok (response (sdev s)) rs \<Longrightarrow>
    wdm_read_next tr rs signal nonblock cnt user_ok pc (sdev s) = Inr (pc', d) \<Longrightarrow>
    wdm_step tr s (read_label pc) (s\<lparr>sdev := d, rd := Some (nonblock, cnt, pc')\<rparr>)"
| read_return: "rd s = Some (nonblock, cnt, R_Ret rv got) \<Longrightarrow> wdm_step tr s Quiet (s\<lparr>rd := None\<rparr>)"
| write_start: "count (sdev s) > 0 \<Longrightarrow> wdm_write_start tr dup intr user (sdev s) = Inr (r, d) \<Longrightarrow>
    wdm_step tr s Quiet (s\<lparr>sdev := d\<rparr>)"
| write_lock: "wr s = None \<Longrightarrow> \<not> mutexes_held (phase s) \<Longrightarrow> count (sdev s) > 0 \<Longrightarrow>
    length buf \<le> wMaxCommand (sdev s) \<Longrightarrow>
    wdm_step tr s Quiet (s\<lparr>wr := Some (nonblock, W_Locked buf)\<rparr>)"
| write_move: "wr s = Some (nonblock, pc) \<Longrightarrow> answer_ok (command (sdev s)) cs \<Longrightarrow>
    wdm_write_next tr rpm cs signal nonblock pc (sdev s) = (pc', d) \<Longrightarrow>
    wdm_step tr s Quiet (s\<lparr>sdev := d, wr := Some (nonblock, pc')\<rparr>)"
| write_return: "wr s = Some (nonblock, W_Ret rv) \<Longrightarrow> wdm_step tr s Quiet (s\<lparr>wr := None\<rparr>)"
| flush_fsync: "count (sdev s) > 0 \<Longrightarrow> wdm_wait_for_response tr rv (sdev s) = Inr (r, d) \<Longrightarrow>
    wdm_step tr s Quiet (s\<lparr>sdev := d\<rparr>)"
| open_file: "phase s \<noteq> Disc_wait \<Longrightarrow> phase s \<noteq> Gone \<Longrightarrow> wr s = None \<Longrightarrow> \<not> mutexes_held (phase s) \<Longrightarrow>
    answer_ok (validity (sdev s)) vs \<Longrightarrow>
    balanced mp \<Longrightarrow> wdm_open tr rpm vs mp (sdev s) = (rv, d) \<Longrightarrow> wdm_step tr s Quiet (s\<lparr>sdev := d\<rparr>)"
| release_file: "phase s \<noteq> Disc_wait \<Longrightarrow> count (sdev s) > 0 \<Longrightarrow> wr s = None \<Longrightarrow>
    \<not> mutexes_held (phase s) \<Longrightarrow> (count (sdev s) = 1 \<longrightarrow> rd s = None) \<Longrightarrow> balanced mp \<Longrightarrow>
    wdm_release mp (sdev s) = Inr d \<Longrightarrow>
    wdm_step tr s (if count (sdev s) = 1 then Shut else Quiet) (s\<lparr>sdev := d\<rparr>)"
| port_start: "phase s \<noteq> Disc_wait \<Longrightarrow> wwanp (sdev s) \<Longrightarrow> \<not> port_started s \<Longrightarrow>
    answer_ok (validity (sdev s)) vs \<Longrightarrow> balanced mp \<Longrightarrow> wdm_wwan_port_start vs mp (sdev s) = (rv, d) \<Longrightarrow>
    wdm_step tr s Shut (s\<lparr>sdev := d, port_started := (rv = 0)\<rparr>)"
| port_stop: "port_started s \<Longrightarrow> balanced mp \<Longrightarrow> wdm_wwan_port_stop mp (sdev s) = Inr d \<Longrightarrow>
    wdm_step tr s Shut (s\<lparr>sdev := d, port_started := False\<rparr>)"
| port_tx: "port_started s \<Longrightarrow> wwan_txon (sdev s) \<Longrightarrow> answer_ok (command (sdev s)) cs \<Longrightarrow> rpm \<le> 0 \<Longrightarrow>
    wdm_wwan_port_tx rpm cs buf (sdev s) = (rv, d) \<Longrightarrow> wdm_step tr s Shut (s\<lparr>sdev := d\<rparr>)"
| suspend_begin: "phase s = Running \<Longrightarrow> \<not> test_bit WDM_SUSPENDING (sdev s) \<Longrightarrow>
    (\<not> auto \<longrightarrow> rd s = None \<and> wr s = None) \<Longrightarrow> suspend_mark auto (sdev s) = Inr (rv, d) \<Longrightarrow>
    wdm_step tr s Quiet (s\<lparr>sdev := d, phase := (if rv < 0 then Running else Suspending auto)\<rparr>)"
| suspend_end: "phase s = Suspending auto \<Longrightarrow> suspend_stop (sdev s) = Inr d \<Longrightarrow>
    wdm_step tr s Quiet (s\<lparr>sdev := d, phase := Running\<rparr>)"
| resume: "phase s = Running \<Longrightarrow> test_bit WDM_SUSPENDING (sdev s) \<Longrightarrow> answer_ok (validity (sdev s)) vs \<Longrightarrow>
    wdm_resume vs (sdev s) = (rv, d) \<Longrightarrow> wdm_step tr s Quiet (s\<lparr>sdev := d\<rparr>)"
| reset_begin: "phase s = Running \<Longrightarrow> wdm_pre_reset_begin (sdev s) = Inr d \<Longrightarrow>
    wdm_step tr s Shut (s\<lparr>sdev := d, phase := Reset_wait\<rparr>)"
| reset_lock: "phase s = Reset_wait \<Longrightarrow> rd s = None \<Longrightarrow> wr s = None \<Longrightarrow>
    wdm_pre_reset_end (sdev s) = Inr d \<Longrightarrow> wdm_step tr s Shut (s\<lparr>sdev := d, phase := Reset_held\<rparr>)"
| reset_end: "phase s = Reset_held \<Longrightarrow> answer_ok (unpoisoned (validity (sdev s))) vs \<Longrightarrow>
    wdm_post_reset vs (sdev s) = (rv, d) \<Longrightarrow> wdm_step tr s Shut (s\<lparr>sdev := d, phase := Running\<rparr>)"
| disconnect_begin: "phase s = Running \<Longrightarrow> balanced mp \<Longrightarrow>
    wdm_disconnect_begin (port_started s) mp (sdev s) = Inr d \<Longrightarrow>
    wdm_step tr s Shut (s\<lparr>sdev := d, phase := Disc_wait, port_started := False\<rparr>)"
| disconnect_end: "phase s = Disc_wait \<Longrightarrow> rd s = None \<Longrightarrow> wr s = None \<Longrightarrow>
    wdm_disconnect_end (sdev s) = Inr d \<Longrightarrow> wdm_step tr s Shut (s\<lparr>sdev := d, phase := Gone\<rparr>)"

section \<open>What the operations leave alone\<close>

text \<open>The part of a device that holds responses. Only a completion and a finished read change it.\<close>

definition store_of :: "wdm_device \<Rightarrow> bytes \<times> bytes \<times> nat \<times> nat" where
  "store_of d = (ubuf d, inbuf d, dlength d, wMaxCommand d)"

named_theorems wdm_frame \<open>operations that leave the stored responses alone\<close>

lemma store_of_updates [simp]:
  "store_of (set_bit f d) = store_of d" "store_of (clear_bit f d) = store_of d"
  "store_of (int_exit vs d) = store_of d" "store_of (unpoison_urbs d) = store_of d"
  "store_of (cancel_works d) = store_of d" "store_of (in_skip_error d) = store_of d"
  "store_of (cmd_done d) = store_of d" "store_of (int_done d) = store_of d"
  "store_of (manage_power mp on d) = store_of d"
  "store_of (snd (service_outstanding_interrupt rs d)) = store_of d"
  "store_of (wdm_wwan_port_tx_complete d) = store_of d"
  by (auto simp: store_of_def set_bit_def clear_bit_def int_exit_def unpoison_urbs_def cancel_works_def
      in_skip_error_def cmd_done_def int_done_def manage_power_def service_outstanding_interrupt_def
      wdm_wwan_port_tx_complete_def Let_def)

lemma store_of_more [simp]:
  "store_of (d\<lparr>outbuf := a\<rparr>) = store_of d" "store_of (d\<lparr>command := b\<rparr>) = store_of d"
  "store_of (d\<lparr>response := c\<rparr>) = store_of d" "store_of (d\<lparr>validity := e\<rparr>) = store_of d"
  "store_of (d\<lparr>werr := f\<rparr>) = store_of d" "store_of (d\<lparr>rerr := g\<rparr>) = store_of d"
  "store_of (d\<lparr>count := h\<rparr>) = store_of d" "store_of (d\<lparr>resp_count := i\<rparr>) = store_of d"
  "store_of (d\<lparr>work_rx := j\<rparr>) = store_of d" "store_of (d\<lparr>work_srv := k\<rparr>) = store_of d"
  "store_of (d\<lparr>pm_usage := l\<rparr>) = store_of d" "store_of (d\<lparr>wwanp := m\<rparr>) = store_of d"
  "store_of (d\<lparr>wwan_txon := n\<rparr>) = store_of d" "store_of (d\<lparr>cmds := p\<rparr>) = store_of d"
  "store_of (d\<lparr>orq := q\<rparr>) = store_of d" "store_of (d\<lparr>iuspin := r\<rparr>) = store_of d"
  "store_of (d\<lparr>cleaned := s\<rparr>) = store_of d" "store_of (d\<lparr>wwan_in := t\<rparr>) = store_of d"
  "store_of (d\<lparr>dread := u\<rparr>) = store_of d"
  by (simp_all add: store_of_def)

lemma out_callback_frame [wdm_frame]: "wdm_out_callback st d = Inr d' \<Longrightarrow> store_of d' = store_of d"
  by (auto simp: wdm_out_callback_def split: if_splits)

lemma int_callback_frame [wdm_frame]:
  "wdm_int_callback rs vs st sbuf d = Inr d' \<Longrightarrow> store_of d' = store_of d"
  by (auto simp: wdm_int_callback_def int_response_available_def Let_def split: if_splits)

lemma map_sum_eq_Inr: "map_sum f g x = Inr y \<longleftrightarrow> (\<exists>z. x = Inr z \<and> y = g z)"
  by (cases x) auto

lemma in_store_nothing: "in_store 0 d = Inr d' \<Longrightarrow> store_of d' = store_of d"
  by (auto simp: in_store_def store_of_def set_bit_def blit_def split: if_splits)

lemma in_callback_empty_frame [wdm_frame]: "wdm_in_callback ok st 0 d = Inr d' \<Longrightarrow> store_of d' = store_of d"
  by (auto simp: wdm_in_callback_def wdm_wwan_rx_def Let_def map_sum_eq_Inr dest!: in_store_nothing split: if_splits)

lemma giveback_frame [wdm_frame]: "giveback h st d = Inr d' \<Longrightarrow> store_of d' = store_of d"
  by (cases h) (auto simp: giveback_def dest: out_callback_frame int_callback_frame in_callback_empty_frame)

lemma poison_with_frame [wdm_frame]: "poison_with u d = Inr d' \<Longrightarrow> store_of d' = store_of d"
  by (auto simp: poison_with_def dest: giveback_frame split: if_splits)

lemma poison_urbs_frame [wdm_frame]: "poison_urbs d = Inr d' \<Longrightarrow> store_of d' = store_of d"
  by (auto simp: poison_urbs_def and_then_Inr dest!: poison_with_frame)

lemma port_stop_frame [wdm_frame]: "wdm_wwan_port_stop mp d = Inr d' \<Longrightarrow> store_of d' = store_of d"
  by (auto simp: wdm_wwan_port_stop_def and_then_Inr dest!: poison_urbs_frame)

lemma work_frames [wdm_frame]:
  "wdm_rxwork rs d = Inr d' \<Longrightarrow> store_of d' = store_of d"
  "service_interrupt_work rs d = Inr d' \<Longrightarrow> store_of d' = store_of d"
  by (auto simp: wdm_rxwork_def service_interrupt_work_def Let_def split: if_splits)

lemma release_frame [wdm_frame]: "wdm_release mp d = Inr d' \<Longrightarrow> store_of d' = store_of d"
  by (auto simp: wdm_release_def and_then_Inr Let_def dest: poison_urbs_frame split: if_splits)

lemma suspend_frames [wdm_frame]:
  "suspend_stop d = Inr d' \<Longrightarrow> store_of d' = store_of d"
  "suspend_mark auto d = Inr (rv, d') \<Longrightarrow> store_of d' = store_of d"
  by (auto simp: suspend_stop_def suspend_mark_def and_then_Inr dest: poison_urbs_frame split: if_splits)

lemma reset_frames [wdm_frame]:
  "wdm_pre_reset_begin d = Inr d' \<Longrightarrow> store_of d' = store_of d"
  "wdm_pre_reset_end d = Inr d' \<Longrightarrow> store_of d' = store_of d"
  by (auto simp: wdm_pre_reset_begin_def wdm_pre_reset_end_def and_then_Inr dest: poison_urbs_frame split: if_splits)

lemma recover_frame: "recover_from_urb_loss vs d = (rv, d') \<Longrightarrow> store_of d' = store_of d"
  by (auto simp: recover_from_urb_loss_def split: if_splits)

lemma resume_frames [wdm_frame]:
  "wdm_resume vs d = (rv, d') \<Longrightarrow> store_of d' = store_of d"
  "wdm_post_reset vs d = (rv, d') \<Longrightarrow> store_of d' = store_of d"
  by (auto simp: wdm_resume_def wdm_post_reset_def dest: recover_frame)

lemma deinit_frame: "wdm_wwan_deinit st mp d = Inr d' \<Longrightarrow> store_of d' = store_of d"
  by (auto simp: wdm_wwan_deinit_def and_then_Inr dest: port_stop_frame split: if_splits)

lemma disconnect_begin_frame [wdm_frame]:
  "wdm_disconnect_begin st mp d = Inr d' \<Longrightarrow> store_of d' = store_of d"
  by (cases "wdm_wwan_deinit st mp d")
    (auto simp: wdm_disconnect_begin_def dest: deinit_frame split: if_splits)

lemma disconnect_end_frame [wdm_frame]: "wdm_disconnect_end d = Inr d' \<Longrightarrow> store_of d' = store_of d"
  by (cases "poison_urbs d") (auto simp: wdm_disconnect_end_def Let_def dest: poison_urbs_frame split: if_splits)

lemma write_start_frame [wdm_frame]: "wdm_write_start tr dup intr user d = Inr (r, d') \<Longrightarrow> store_of d' = store_of d"
  by (auto simp: wdm_write_start_def Let_def split: if_splits)

lemma wait_frame [wdm_frame]: "wdm_wait_for_response tr w d = Inr (x, d') \<Longrightarrow> store_of d' = store_of d"
  by (auto simp: wdm_wait_for_response_def split: if_splits)

lemma write_next_frame [wdm_frame]:
  "wdm_write_next tr rpm cs signal nonblock pc d = (pc', d') \<Longrightarrow> store_of d' = store_of d"
  by (cases pc) (auto simp: wdm_write_next_def wdm_write_locked_def wdm_write_go_def Let_def split: if_splits)

lemma open_frame [wdm_frame]: "wdm_open tr rpm vs mp d = (rv, d') \<Longrightarrow> store_of d' = store_of d"
  by (auto simp: wdm_open_def Let_def split: if_splits)

lemma port_frames [wdm_frame]:
  "wdm_wwan_port_start vs mp d = (rv, d') \<Longrightarrow> store_of d' = store_of d"
  "wdm_wwan_port_tx rpm cs buf d = (rv, d') \<Longrightarrow> store_of d' = store_of d"
  by (auto simp: wdm_wwan_port_start_def wdm_wwan_port_tx_def Let_def split: if_splits)

section \<open>Responses are a queue\<close>

definition store_ok :: "wdm_device \<Rightarrow> bool" where
  "store_ok d = (length (ubuf d) = wMaxCommand d \<and> length (inbuf d) = wMaxCommand d \<and> dlength d \<le> wMaxCommand d)"

text \<open>A reader about to copy or to remove is within the stored bytes, and has copied their first.\<close>

definition reader_ok :: "wdm_device \<Rightarrow> rd_pc \<Rightarrow> bool" where
  "reader_ok d pc = (case pc of
     R_Copy c \<Rightarrow> c \<le> dlength d
   | R_Finish got \<Rightarrow> length got \<le> dlength d \<and> got = take (length got) (ubuf d)
   | _ \<Rightarrow> True)"

definition fifo_ok :: "wdm_sys \<Rightarrow> bool" where
  "fifo_ok s = (store_ok (sdev s) \<and>
    (case rd s of None \<Rightarrow> True | Some (nonblock, cnt, pc) \<Rightarrow> reader_ok (sdev s) pc))"

definition pending :: "wdm_sys \<Rightarrow> bytes" where
  "pending s = take (dlength (sdev s)) (ubuf (sdev s))"

text \<open>The abstract system: a queue of bytes.\<close>

fun queue_step :: "bytes \<Rightarrow> wdm_label \<Rightarrow> bytes \<Rightarrow> bool" where
  "queue_step q (Put data) q' = (q' = q @ data)"
| "queue_step q (Got data) q' = (q = data @ q')"
| "queue_step q Quiet q' = (q' = q)"
| "queue_step q Shut q' = (q' = q)"

lemma store_of_ok: "store_of d' = store_of d \<Longrightarrow> store_ok d' = store_ok d \<and> reader_ok d' = reader_ok d \<and>
    take (dlength d') (ubuf d') = take (dlength d) (ubuf d)"
  by (auto simp: store_of_def store_ok_def reader_ok_def fun_eq_iff split: rd_pc.splits)

lemma quiet_step:
  assumes "fifo_ok s" "store_of (sdev s') = store_of (sdev s)" "rd s' = rd s" "l = Quiet \<or> l = Shut"
  shows "fifo_ok s' \<and> queue_step (pending s) l (pending s')"
  using assms store_of_ok [OF assms(2)] by (auto simp: fifo_ok_def pending_def split: option.splits)

text \<open>A completion appends what it stores; what was stored before stays in place.\<close>

lemma in_skip_error_store: "ubuf (in_skip_error d) = ubuf d \<and> inbuf (in_skip_error d) = inbuf d \<and>
    dlength (in_skip_error d) = dlength d \<and> wMaxCommand (in_skip_error d) = wMaxCommand d"
  using store_of_updates(6) [of d] by (simp add: store_of_def)

lemma blit_take_append:
  "n \<le> length xs \<Longrightarrow> n + length ys \<le> length xs \<Longrightarrow> take (n + length ys) (blit xs n ys) = take n xs @ ys"
  by (simp add: blit_def)

lemma blit_take_same: "n \<le> length xs \<Longrightarrow> m \<le> n \<Longrightarrow> take m (blit xs n ys) = take m xs"
  by (simp add: blit_def min_def)

definition appended :: "bytes \<Rightarrow> wdm_device \<Rightarrow> wdm_device \<Rightarrow> bool" where
  "appended x d d' = (store_ok d' \<and> dlength d' = dlength d + length x \<and>
    take (dlength d') (ubuf d') = take (dlength d) (ubuf d) @ x \<and>
    (\<forall>m \<le> dlength d. take m (ubuf d') = take m (ubuf d)))"

lemma appended_cong:
  "appended x d d' \<Longrightarrow> ubuf e = ubuf d \<Longrightarrow> dlength e = dlength d \<Longrightarrow> store_of e' = store_of d' \<Longrightarrow> appended x e e'"
  using store_of_ok [of e' d'] by (auto simp: appended_def store_of_def)

lemma appended_nothing: "store_ok d \<Longrightarrow> store_of d' = store_of d \<Longrightarrow> appended [] d d'"
  using store_of_ok [of d' d] by (auto simp: appended_def store_of_def)

lemma in_store_appends:
  assumes "store_ok d" "length data \<le> wMaxCommand d" "take (length data) (inbuf d) = data"
    and "in_store (length data) d = Inr d'"
  shows "appended (if test_bit WDM_OVERFLOW d \<or> length data + dlength d > wMaxCommand d then [] else data) d d'"
proof (cases "test_bit WDM_OVERFLOW d \<or> length data + dlength d > wMaxCommand d")
  case True
  then show ?thesis using assms by (auto simp: in_store_def intro!: appended_nothing split: if_splits)
next
  case False
  then have d': "d' = d\<lparr>ubuf := blit (ubuf d) (dlength d) data, dlength := dlength d + length data, reslength := length data\<rparr>"
    using assms by (auto simp: in_store_def split: if_splits)
  show ?thesis using False assms(1) unfolding d'
    by (simp add: appended_def store_ok_def length_blit blit_take_append blit_take_same)
qed

lemma response_stores:
  assumes ok: "store_ok d" and len: "length data \<le> wMaxCommand d"
    and r: "wdm_in_callback alloc_ok st (length data) (resp_done data d) = Inr d'"
  shows "appended (stored st data d) d d'"
proof -
  define e where "e = resp_done data d"
  have e: "store_ok e" "ubuf e = ubuf d" "dlength e = dlength d" "wMaxCommand e = wMaxCommand d"
      "flags e = flags d" "take (length data) (inbuf e) = data"
    using ok len by (simp_all add: e_def resp_done_def store_ok_def length_blit) (simp add: blit_def)
  show ?thesis
  proof (cases "unlinked st \<or> test_bit WDM_WWAN_IN_USE d")
    case True
    then have "store_of d' = store_of e" "stored st data d = []"
      using r [folded e_def] e(5)
      by (auto simp: wdm_in_callback_def wdm_wwan_rx_def stored_def test_bit_def split: if_splits)
    then show ?thesis using e appended_cong [OF appended_nothing [OF e(1)]] by metis
  next
    case False
    define f where "f = (let d1 = clear_bit WDM_RESPONDING e in
      if rerr d1 = 0 \<and> st \<noteq> - EPIPE then d1\<lparr>rerr := st\<rparr> else d1)"
    have f: "store_of f = store_of e" "test_bit WDM_OVERFLOW f = test_bit WDM_OVERFLOW d"
      using e(5) by (auto simp: f_def Let_def test_bit_def clear_bit_def store_of_def)
    obtain d1 where d1: "in_store (length data) f = Inr d1" and d': "d' = in_skip_error d1"
      using r [folded e_def] False e(5)
      by (auto simp: wdm_in_callback_def f_def test_bit_def Let_def map_sum_eq_Inr split: if_splits)
    have "appended (stored st data d) f d1"
      using in_store_appends [OF _ _ _ d1] f e False len store_of_ok [OF f(1)]
      by (simp add: store_of_def stored_def)
    then show ?thesis
      by (rule appended_cong) (use f e d' in \<open>auto simp: store_of_def in_skip_error_store\<close>)
  qed
qed

text \<open>The moves of a reader: copying takes the first bytes, finishing removes them.\<close>

lemma reader_ok_simps [simp]:
  "reader_ok d R_Retry" "reader_ok d R_Wait" "reader_ok d (R_Woken rv)" "reader_ok d (R_Ret rv got)"
  "reader_ok d (R_Copy c) \<longleftrightarrow> c \<le> dlength d"
  "reader_ok d (R_Finish got) \<longleftrightarrow> length got \<le> dlength d \<and> got = take (length got) (ubuf d)"
  by (simp_all add: reader_ok_def)

lemma read_retry_store: "wdm_read_retry nonblock d = (pc, d') \<Longrightarrow> store_of d' = store_of d \<and> reader_ok d' pc"
  by (auto simp: wdm_read_retry_def split: if_splits)

lemma service_frame: "service_outstanding_interrupt rs d = (rv, d') \<Longrightarrow> store_of d' = store_of d"
  using store_of_updates(10) [of rs d] by simp

lemma read_woken_store:
  "wdm_read_woken tr rs rv d = Inr (pc, d') \<Longrightarrow> store_of d' = store_of d \<and> reader_ok d' pc"
  by (auto simp: wdm_read_woken_def dest: service_frame split: if_splits prod.splits)

lemma read_copy_ok:
  assumes "store_ok d" "wdm_read_copy cnt user_ok c d = Inr pc" "c \<le> dlength d"
  shows "reader_ok d pc"
  using assms by (auto simp: wdm_read_copy_def store_ok_def Let_def min_def split: if_splits)

lemma take_shift:
  assumes "n \<le> m" "m \<le> length xs"
  shows "take (m - n) (blit xs 0 (window xs n (m - n))) = drop n (take m xs)"
  using assms by (simp add: blit_def window_def drop_take)

lemma read_finish_queue:
  assumes ok: "store_ok d" "reader_ok d (R_Finish got)" and r: "wdm_read_finish rs got d = Inr (pc, d')"
  shows "store_ok d' \<and> reader_ok d' pc \<and> take (dlength d) (ubuf d) = got @ take (dlength d') (ubuf d')"
proof -
  let ?e = "d\<lparr>ubuf := blit (ubuf d) 0 (window (ubuf d) (length got) (dlength d - length got)),
      dlength := dlength d - length got\<rparr>"
  have "store_of d' = store_of ?e" "pc = R_Ret (int (length got)) got"
    using r by (auto simp: wdm_read_finish_def Let_def split: if_splits)
  moreover have "store_ok ?e"
    using ok by (auto simp: store_ok_def length_blit length_window)
  moreover have "take (dlength d) (ubuf d) = got @ take (dlength ?e) (ubuf ?e)"
  proof -
    have "take (dlength d - length got) (blit (ubuf d) 0 (window (ubuf d) (length got) (dlength d - length got))) =
        drop (length got) (take (dlength d) (ubuf d))"
      using ok by (intro take_shift) (auto simp: store_ok_def)
    moreover have "take (length got) (take (dlength d) (ubuf d)) = got" using ok by (simp add: min_def)
    ultimately show ?thesis
      using append_take_drop_id [of "length got" "take (dlength d) (ubuf d)"] by simp
  qed
  ultimately show ?thesis using store_of_ok [of d' ?e] by simp
qed

lemma read_next_queue:
  assumes ok: "store_ok d" "reader_ok d pc" and r: "wdm_read_next tr rs signal nonblock cnt user_ok pc d = Inr (pc', d')"
  shows "store_ok d' \<and> reader_ok d' pc' \<and>
    queue_step (take (dlength d) (ubuf d)) (read_label pc) (take (dlength d') (ubuf d'))"
proof (cases pc)
  case R_Retry
  then show ?thesis using r ok read_retry_store [of nonblock d pc' d'] store_of_ok [of d' d]
    by (auto simp: wdm_read_next_def read_label_def)
next
  case R_Wait
  then show ?thesis using r ok by (auto simp: wdm_read_next_def read_label_def wdm_read_wait_def split: if_splits)
next
  case (R_Woken rv)
  then show ?thesis using r ok read_woken_store [of tr rs rv d pc' d'] store_of_ok [of d' d]
    by (auto simp: wdm_read_next_def read_label_def)
next
  case (R_Copy c)
  then show ?thesis using r ok read_copy_ok by (auto simp: wdm_read_next_def read_label_def map_sum_eq_Inr)
next
  case (R_Finish got)
  then show ?thesis using r ok read_finish_queue [of d got rs pc' d'] by (simp add: wdm_read_next_def read_label_def)
next
  case (R_Ret rv got)
  then show ?thesis using r ok by (auto simp: wdm_read_next_def read_label_def)
qed

lemma appended_reader: "appended x d d' \<Longrightarrow> reader_ok d pc \<Longrightarrow> reader_ok d' pc"
  by (cases pc) (auto simp: appended_def)



lemma wdm_step_queue:
  assumes "wdm_step tr s l s'" "fifo_ok s"
  shows "fifo_ok s' \<and> queue_step (pending s) l (pending s')"
  using assms
proof (cases rule: wdm_step.cases)
  case (command_done st d)
  then show ?thesis using assms(2) by (intro quiet_step) (auto dest: giveback_frame)
next
  case (response_done data alloc_ok st d)
  have "appended (stored st data (sdev s)) (sdev s) d"
    using response_done assms(2) by (intro response_stores) (auto simp: fifo_ok_def)
  then show ?thesis using response_done assms(2) appended_reader
    by (auto simp: fifo_ok_def pending_def appended_def split: option.splits)
next
  case (read_lock pc d nonblock cnt)
  then show ?thesis using assms(2) store_of_ok [of d "sdev s"]
    by (auto simp: fifo_ok_def pending_def wdm_read_start_def store_of_def split: if_splits)
next
  case (read_move nonblock cnt pc rs signal user_ok pc' d)
  then show ?thesis using assms(2) read_next_queue [of "sdev s" pc] by (simp add: fifo_ok_def pending_def)
next
  case (read_return nonblock cnt rv got)
  then show ?thesis using assms(2) by (simp add: fifo_ok_def pending_def)
qed (use assms(2) in \<open>intro quiet_step; (auto dest: wdm_frame; fail)\<close>)+

section \<open>What poisoning does\<close>

lemma test_bit_updates [simp]:
  "test_bit f (set_bit g d) = (f = g \<or> test_bit f d)"
  "test_bit f (clear_bit g d) = (f \<noteq> g \<and> test_bit f d)"
  by (auto simp: test_bit_def set_bit_def clear_bit_def)

text \<open>The fields that a flag update leaves alone.\<close>

lemma bit_fields [simp]:
  "inbuf (set_bit f d) = inbuf d" "outbuf (set_bit f d) = outbuf d" "ubuf (set_bit f d) = ubuf d"
  "command (set_bit f d) = command d" "response (set_bit f d) = response d" "validity (set_bit f d) = validity d"
  "iuspin (set_bit f d) = iuspin d" "wMaxCommand (set_bit f d) = wMaxCommand d" "inum (set_bit f d) = inum d"
  "reslength (set_bit f d) = reslength d" "dlength (set_bit f d) = dlength d" "count (set_bit f d) = count d"
  "werr (set_bit f d) = werr d" "rerr (set_bit f d) = rerr d" "resp_count (set_bit f d) = resp_count d"
  "work_rx (set_bit f d) = work_rx d" "work_srv (set_bit f d) = work_srv d" "wwanp (set_bit f d) = wwanp d"
  "wwan_txon (set_bit f d) = wwan_txon d" "cmds (set_bit f d) = cmds d" "pm_usage (set_bit f d) = pm_usage d"
  "cleaned (set_bit f d) = cleaned d"
  "inbuf (clear_bit f d) = inbuf d" "outbuf (clear_bit f d) = outbuf d" "ubuf (clear_bit f d) = ubuf d"
  "command (clear_bit f d) = command d" "response (clear_bit f d) = response d" "validity (clear_bit f d) = validity d"
  "iuspin (clear_bit f d) = iuspin d" "wMaxCommand (clear_bit f d) = wMaxCommand d" "inum (clear_bit f d) = inum d"
  "reslength (clear_bit f d) = reslength d" "dlength (clear_bit f d) = dlength d" "count (clear_bit f d) = count d"
  "werr (clear_bit f d) = werr d" "rerr (clear_bit f d) = rerr d" "resp_count (clear_bit f d) = resp_count d"
  "work_rx (clear_bit f d) = work_rx d" "work_srv (clear_bit f d) = work_srv d" "wwanp (clear_bit f d) = wwanp d"
  "wwan_txon (clear_bit f d) = wwan_txon d" "cmds (clear_bit f d) = cmds d" "pm_usage (clear_bit f d) = pm_usage d"
  "cleaned (clear_bit f d) = cleaned d"
  by (simp_all add: set_bit_def clear_bit_def)

lemma test_bit_cong [simp]:
  "test_bit f (d\<lparr>outbuf := a\<rparr>) = test_bit f d" "test_bit f (d\<lparr>command := b\<rparr>) = test_bit f d"
  "test_bit f (d\<lparr>response := c\<rparr>) = test_bit f d" "test_bit f (d\<lparr>validity := e\<rparr>) = test_bit f d"
  "test_bit f (d\<lparr>werr := g\<rparr>) = test_bit f d" "test_bit f (d\<lparr>rerr := h\<rparr>) = test_bit f d"
  "test_bit f (d\<lparr>count := i\<rparr>) = test_bit f d" "test_bit f (d\<lparr>resp_count := j\<rparr>) = test_bit f d"
  "test_bit f (d\<lparr>work_rx := k\<rparr>) = test_bit f d" "test_bit f (d\<lparr>work_srv := l\<rparr>) = test_bit f d"
  "test_bit f (d\<lparr>pm_usage := m\<rparr>) = test_bit f d" "test_bit f (d\<lparr>wwanp := n\<rparr>) = test_bit f d"
  "test_bit f (d\<lparr>wwan_txon := p\<rparr>) = test_bit f d" "test_bit f (d\<lparr>cmds := q\<rparr>) = test_bit f d"
  "test_bit f (d\<lparr>orq := r\<rparr>) = test_bit f d" "test_bit f (d\<lparr>iuspin := s\<rparr>) = test_bit f d"
  "test_bit f (d\<lparr>cleaned := t\<rparr>) = test_bit f d" "test_bit f (d\<lparr>wwan_in := u\<rparr>) = test_bit f d"
  "test_bit f (d\<lparr>dread := v\<rparr>) = test_bit f d" "test_bit f (d\<lparr>ubuf := w\<rparr>) = test_bit f d"
  "test_bit f (d\<lparr>inbuf := x\<rparr>) = test_bit f d" "test_bit f (d\<lparr>dlength := y\<rparr>) = test_bit f d"
  "test_bit f (d\<lparr>reslength := z\<rparr>) = test_bit f d" "test_bit f (d\<lparr>needs_remote_wakeup := aa\<rparr>) = test_bit f d"
  by (simp_all add: test_bit_def)

text \<open>The handlers the driver gives its URBs.\<close>

definition handlers_ok :: "wdm_device \<Rightarrow> bool" where
  "handlers_ok d = (u_complete (command d) \<in> {H_out, H_wwan_tx} \<and> u_complete (response d) = H_in \<and>
    u_complete (validity d) = H_int)"

definition out_busy :: "wdm_device \<Rightarrow> bool" where
  "out_busy d = (u_busy (command d) \<and> u_complete (command d) = H_out)"

definition tx_busy :: "wdm_device \<Rightarrow> bool" where
  "tx_busy d = (u_busy (command d) \<and> u_complete (command d) = H_wwan_tx)"

text \<open>What poisoning the three URBs amounts to.\<close>

definition poison_shape :: "wdm_device \<Rightarrow> wdm_device \<Rightarrow> bool" where
  "poison_shape d d' = (command d' = poisoned (command d) \<and> response d' = poisoned (response d) \<and>
    validity d' = poisoned (validity d) \<and> outbuf d' = (if out_busy d then None else outbuf d) \<and>
    count d' = count d \<and> wwanp d' = wwanp d \<and> cleaned d' = cleaned d \<and> work_rx d' = work_rx d \<and>
    iuspin d' = iuspin d \<and> resp_count d' = resp_count d \<and> rerr d' = rerr d \<and> reslength d' = reslength d \<and>
    pm_usage d' = (if tx_busy d then pm_usage d - 1 else pm_usage d) \<and>
    wwan_txon d' = (if tx_busy d then True else wwan_txon d) \<and>
    test_bit WDM_IN_USE d' = (test_bit WDM_IN_USE d \<and> \<not> out_busy d) \<and>
    (\<forall>f. f \<notin> {WDM_IN_USE, WDM_READ, WDM_RESPONDING} \<longrightarrow> test_bit f d' = test_bit f d) \<and>
    (u_busy (response d) \<and> rerr d = 0 \<or> test_bit WDM_READ d \<longleftrightarrow> test_bit WDM_READ d') \<and>
    (test_bit WDM_RESPONDING d' \<longleftrightarrow> test_bit WDM_RESPONDING d \<and> \<not> u_busy (response d)) \<and>
    (work_srv d' \<longleftrightarrow> work_srv d \<or> u_busy (response d) \<and> rerr d \<noteq> 0))"

lemma poison_command_shape:
  assumes "handlers_ok d" "poison_with (command d) (d\<lparr>command := poisoned (command d)\<rparr>) = Inr d'"
  shows "d' = (if out_busy d then clear_bit WDM_IN_USE (d\<lparr>command := poisoned (command d), werr := - ENOENT, outbuf := None\<rparr>)
    else if tx_busy d then wdm_wwan_port_tx_complete (d\<lparr>command := poisoned (command d)\<rparr>)
    else d\<lparr>command := poisoned (command d)\<rparr>)"
  using assms by (auto simp: poison_with_def handlers_ok_def giveback_def wdm_out_callback_def out_busy_def tx_busy_def
      split: if_splits)

lemma poison_validity_shape:
  assumes "handlers_ok d" "poison_with (validity d) (d\<lparr>validity := poisoned (validity d)\<rparr>) = Inr d'"
  shows "d' = d\<lparr>validity := poisoned (validity d)\<rparr>"
  using assms by (auto simp: poison_with_def handlers_ok_def giveback_def wdm_int_callback_def unlinked_def split: if_splits)

lemma poison_response_shape:
  assumes "handlers_ok d" "poison_with (response d) (d\<lparr>response := poisoned (response d)\<rparr>) = Inr d'"
  shows "d' = (if u_busy (response d) then in_skip_error (clear_bit WDM_RESPONDING (d\<lparr>response := poisoned (response d)\<rparr>))
    else d\<lparr>response := poisoned (response d)\<rparr>)"
  using assms by (auto simp: poison_with_def handlers_ok_def giveback_def wdm_in_callback_def unlinked_def split: if_splits)

lemma poison_urbs_shape:
  assumes h: "handlers_ok d" and p: "poison_urbs d = Inr d'"
  shows "poison_shape d d'"
proof -
  obtain d1 d2 where
    1: "poison_with (command d) (d\<lparr>command := poisoned (command d)\<rparr>) = Inr d1" and
    2: "poison_with (validity d1) (d1\<lparr>validity := poisoned (validity d1)\<rparr>) = Inr d2" and
    3: "poison_with (response d2) (d2\<lparr>response := poisoned (response d2)\<rparr>) = Inr d'"
    using p by (auto simp: poison_urbs_def and_then_Inr)
  note e1 = poison_command_shape [OF h 1]
  have h1: "handlers_ok d1" using h unfolding e1
    by (auto simp: handlers_ok_def poisoned_def wdm_wwan_port_tx_complete_def)
  note e2 = poison_validity_shape [OF h1 2]
  have h2: "handlers_ok d2" using h1 unfolding e2 by (auto simp: handlers_ok_def poisoned_def)
  note e3 = poison_response_shape [OF h2 3]
  show ?thesis unfolding e3 e2 e1
    by (auto simp: poison_shape_def in_skip_error_def wdm_wwan_port_tx_complete_def out_busy_def tx_busy_def)
qed

end
