(* ===== verification/Wdm_Inv.thy ===== *)
theory Wdm_Inv
  imports Wdm_Sys
begin

text \<open>
  What holds in every reachable state of a cdc-wdm device (modules/cdc-wdm/cdc-wdm.c): the flags
  tell the phase the USB core is in, the character device and the WWAN port exclude each other, a
  command buffer is owned by the command URB in flight, power references are balanced, and a
  device that has been cleaned up can no longer be reached. Then the properties of the component
  that rest on these invariants.
\<close>

section \<open>The invariant\<close>

definition stopped :: "wdm_device \<Rightarrow> bool" where
  "stopped d = (\<not> u_busy (command d) \<and> \<not> u_busy (response d) \<and> \<not> u_busy (validity d) \<and>
    u_reject (command d) > 0 \<and> u_reject (response d) > 0 \<and> u_reject (validity d) > 0 \<and>
    \<not> work_rx d \<and> \<not> work_srv d)"

definition dev_ok :: "wdm_phase \<Rightarrow> bool \<Rightarrow> wdm_device \<Rightarrow> bool" where
  "dev_ok p started d = (
    handlers_ok d \<and> count d \<ge> 0 \<and>
    (test_bit WDM_RESETTING d \<longleftrightarrow> p = Reset_wait \<or> p = Reset_held) \<and>
    (test_bit WDM_DISCONNECTING d \<longleftrightarrow> p = Disc_wait \<or> p = Gone) \<and>
    (test_bit WDM_WWAN_IN_USE d \<longrightarrow> count d = 0) \<and>
    (started \<longrightarrow> test_bit WDM_WWAN_IN_USE d \<and> wwanp d) \<and>
    (p = Disc_wait \<or> p = Gone \<longrightarrow> \<not> wwanp d) \<and>
    (cleaned d \<longleftrightarrow> p = Gone \<and> count d = 0) \<and>
    (p = Reset_held \<or> p = Gone \<longrightarrow> stopped d))"

text \<open>
  Nobody is inside read or write when no file is open or the mutexes are held, and no command is in
  flight when no file is open.
\<close>

definition slots_ok :: "wdm_sys \<Rightarrow> bool" where
  "slots_ok s = ((count (sdev s) = 0 \<or> mutexes_held (phase s) \<longrightarrow> rd s = None \<and> wr s = None) \<and>
    (out_busy (sdev s) \<longrightarrow> count (sdev s) > 0))"

definition pm_held :: "(bool \<times> wr_pc) option \<Rightarrow> int" where
  "pm_held w = (case w of Some (nonblock, W_Wait buf) \<Rightarrow> 1 | Some (nonblock, W_Go r buf) \<Rightarrow> 1 | _ \<Rightarrow> 0)"

text \<open>A writer past its wait without an error found no command in use.\<close>

definition go_ok :: "bool \<Rightarrow> (bool \<times> wr_pc) option \<Rightarrow> bool" where
  "go_ok used w = (case w of Some (nonblock, W_Go r buf) \<Rightarrow> r \<ge> 0 \<longrightarrow> \<not> used | _ \<Rightarrow> True)"

lemma writer_simps [simp]:
  "go_ok u None" "go_ok u (Some (nb, W_Locked buf))" "go_ok u (Some (nb, W_Wait buf))" "go_ok u (Some (nb, W_Ret rv))"
  "go_ok u (Some (nb, W_Go r buf)) \<longleftrightarrow> (r \<ge> 0 \<longrightarrow> \<not> u)" "go_ok False w"
  "pm_held None = 0" "pm_held (Some (nb, W_Locked buf)) = 0" "pm_held (Some (nb, W_Wait buf)) = 1"
  "pm_held (Some (nb, W_Ret rv)) = 0" "pm_held (Some (nb, W_Go r buf)) = 1"
  by (auto simp: go_ok_def pm_held_def split: option.split wr_pc.split)

definition cmd_ok :: "wdm_phase \<Rightarrow> bool \<Rightarrow> (bool \<times> wr_pc) option \<Rightarrow> wdm_device \<Rightarrow> bool" where
  "cmd_ok p started w d = (
    (outbuf d \<noteq> None \<longleftrightarrow> out_busy d) \<and>
    (tx_busy d \<longrightarrow> started \<and> \<not> wwan_txon d) \<and> (test_bit WDM_IN_USE d \<longrightarrow> out_busy d) \<and>
    (out_busy d \<longrightarrow> test_bit WDM_IN_USE d \<or> p = Reset_wait) \<and>
    go_ok (test_bit WDM_IN_USE d) w \<and>
    pm_usage d = pm_held w + (if tx_busy d then 1 else 0))"

definition ctl_ok :: "wdm_sys \<Rightarrow> bool" where
  "ctl_ok s = (dev_ok (phase s) (port_started s) (sdev s) \<and> slots_ok s \<and>
    cmd_ok (phase s) (port_started s) (wr s) (sdev s))"

text \<open>Most operations leave everything the invariant speaks of alone.\<close>

definition same_view :: "wdm_device \<Rightarrow> wdm_device \<Rightarrow> bool" where
  "same_view d d' = (count d' = count d \<and> wwanp d' = wwanp d \<and> cleaned d' = cleaned d \<and> outbuf d' = outbuf d \<and>
    command d' = command d \<and> wwan_txon d' = wwan_txon d \<and> pm_usage d' = pm_usage d \<and>
    (\<forall>f \<in> {WDM_RESETTING, WDM_DISCONNECTING, WDM_WWAN_IN_USE, WDM_IN_USE}. test_bit f d' = test_bit f d) \<and>
    u_complete (response d') = u_complete (response d) \<and> u_complete (validity d') = u_complete (validity d) \<and>
    (stopped d \<longrightarrow> stopped d'))"

lemma same_view_busy:
  assumes "same_view d d'"
  shows "out_busy d' = out_busy d" "tx_busy d' = tx_busy d" "handlers_ok d' = handlers_ok d"
  using assms by (simp_all add: same_view_def out_busy_def tx_busy_def handlers_ok_def)

lemma same_view_dev: "same_view d d' \<Longrightarrow> dev_ok p st d \<Longrightarrow> dev_ok p st d'"
  using same_view_busy [of d d'] by (simp add: dev_ok_def same_view_def)

lemma same_view_cmd: "same_view d d' \<Longrightarrow> cmd_ok p st w d \<Longrightarrow> cmd_ok p st w d'"
  using same_view_busy [of d d'] by (simp add: cmd_ok_def same_view_def)

lemma same_view_ok:
  assumes "same_view (sdev s) d" "ctl_ok s"
  shows "ctl_ok (s\<lparr>sdev := d\<rparr>)"
  using assms same_view_dev [OF assms(1)] same_view_cmd [OF assms(1)] same_view_busy [OF assms(1)]
  by (auto simp: ctl_ok_def slots_ok_def same_view_def)

lemma ctl_ok_reader:
  assumes "ctl_ok s" "x = None \<or> rd s \<noteq> None \<or> count (sdev s) > 0 \<and> \<not> mutexes_held (phase s)"
  shows "ctl_ok (s\<lparr>rd := x\<rparr>)"
  using assms by (auto simp: ctl_ok_def slots_ok_def)

lemma submitted_fields [simp]: "u_complete (submitted rv u) = u_complete u" "u_reject (submitted rv u) = u_reject u"
  by (simp_all add: submitted_def)

lemma in_store_view: "in_store n d = Inr d' \<Longrightarrow> same_view d d'"
  by (auto simp: in_store_def same_view_def stopped_def split: if_splits)

lemma in_skip_error_view:
  "count (in_skip_error d) = count d" "wwanp (in_skip_error d) = wwanp d" "cleaned (in_skip_error d) = cleaned d"
  "outbuf (in_skip_error d) = outbuf d" "command (in_skip_error d) = command d"
  "wwan_txon (in_skip_error d) = wwan_txon d" "pm_usage (in_skip_error d) = pm_usage d"
  "response (in_skip_error d) = response d" "validity (in_skip_error d) = validity d"
  "f \<noteq> WDM_READ \<Longrightarrow> test_bit f (in_skip_error d) = test_bit f d"
  by (auto simp: in_skip_error_def)

lemma in_callback_view:
  assumes "u_busy (response d)" "wdm_in_callback ok st n (resp_done data d) = Inr d'"
  shows "same_view d d'"
  using assms
  by (auto simp: wdm_in_callback_def wdm_wwan_rx_def resp_done_def Let_def map_sum_eq_Inr same_view_def
      in_skip_error_view stopped_def dest!: in_store_view split: if_splits)

lemma int_callback_view:
  assumes "u_busy (validity d)" "wdm_int_callback rs vs st sbuf (int_done d) = Inr d'"
  shows "same_view d d'"
  using assms
  by (auto simp: wdm_int_callback_def int_response_available_def int_exit_def int_done_def Let_def same_view_def
      stopped_def split: if_splits)

lemma service_view:
  assumes "answer_ok (response d) rs" "service_outstanding_interrupt rs d = (rv, d')"
  shows "same_view d d'"
  using assms
  by (auto simp: service_outstanding_interrupt_def Let_def same_view_def stopped_def answer_ok_def submitted_def
      split: if_splits)

lemma work_views:
  "work_rx d \<Longrightarrow> wdm_rxwork rs (d\<lparr>work_rx := False\<rparr>) = Inr d' \<Longrightarrow> same_view d d'"
  by (auto simp: wdm_rxwork_def Let_def same_view_def stopped_def split: if_splits)

lemma same_view_refl [simp]: "same_view d d"
  by (simp add: same_view_def)

lemma same_view_trans: "same_view a b \<Longrightarrow> same_view b c \<Longrightarrow> same_view a c"
  by (simp add: same_view_def)

lemma service_work_view:
  assumes "work_srv d" "service_interrupt_work rs (d\<lparr>work_srv := False\<rparr>) = Inr d'"
  shows "same_view d d'"
  using assms
  by (auto simp: service_interrupt_work_def service_outstanding_interrupt_def Let_def same_view_def stopped_def
      split: if_splits)

lemma read_finish_view:
  assumes "answer_ok (response d) rs" "wdm_read_finish rs got d = Inr (pc, d')"
  shows "same_view d d'"
proof -
  define e where "e = d\<lparr>ubuf := blit (ubuf d) 0 (window (ubuf d) (length got) (dlength d - length got)),
    dlength := dlength d - length got\<rparr>"
  have e: "same_view d e" "same_view e (clear_bit WDM_READ e)" "response (clear_bit WDM_READ e) = response d"
    by (simp_all add: e_def same_view_def stopped_def)
  have "d' = e \<or> d' = snd (service_outstanding_interrupt rs (clear_bit WDM_READ e))"
    using assms(2) by (auto simp: wdm_read_finish_def e_def Let_def split: if_splits)
  moreover have "same_view (clear_bit WDM_READ e) (snd (service_outstanding_interrupt rs (clear_bit WDM_READ e)))"
    using assms(1) e(3) by (intro service_view [OF _ prod.collapse [symmetric]]) simp
  ultimately show ?thesis using e same_view_trans by blast
qed

lemma read_woken_view:
  assumes "answer_ok (response d) rs" "wdm_read_woken tr rs rv d = Inr (pc, d')"
  shows "same_view d d'"
proof -
  define e where "e = (clear_bit WDM_READ d)\<lparr>iuspin := True\<rparr>"
  have e: "same_view d e" "response e = response d" by (simp_all add: e_def same_view_def stopped_def)
  have "d' = d \<or> d' = d\<lparr>rerr := 0\<rparr> \<or> d' = snd (service_outstanding_interrupt rs e)"
    using assms(2) by (auto simp: wdm_read_woken_def e_def split: if_splits prod.splits)
  moreover have "same_view e (snd (service_outstanding_interrupt rs e))"
    using assms(1) e(2) by (intro service_view [OF _ prod.collapse [symmetric]]) simp
  moreover have "same_view d (d\<lparr>rerr := 0\<rparr>)" by (simp add: same_view_def stopped_def)
  ultimately show ?thesis using e(1) same_view_trans by auto
qed

lemma read_retry_view: "wdm_read_retry nonblock d = (pc, d') \<Longrightarrow> same_view d d'"
  by (auto simp: wdm_read_retry_def same_view_def stopped_def split: if_splits)

lemma read_next_view:
  assumes "answer_ok (response d) rs" "wdm_read_next tr rs signal nonblock cnt user_ok pc d = Inr (pc', d')"
  shows "same_view d d'"
  using assms read_woken_view [of d rs] read_finish_view [of d rs] read_retry_view [of nonblock d]
  by (cases pc) (auto simp: wdm_read_next_def map_sum_eq_Inr)

lemma start_wait_views:
  "wdm_read_start intr d = (pc, d') \<Longrightarrow> same_view d d'"
  "wdm_write_start tr dup intr user d = Inr (r, d') \<Longrightarrow> same_view d d'"
  "wdm_wait_for_response tr rv d = Inr (x, d') \<Longrightarrow> same_view d d'"
  by (auto simp: wdm_read_start_def wdm_write_start_def wdm_wait_for_response_def same_view_def stopped_def Let_def
      split: if_splits)

section \<open>The steps that change it\<close>

lemma command_done_ok:
  assumes "ctl_ok s" "u_busy (command (sdev s))" "giveback (u_complete (command (sdev s))) st (cmd_done (sdev s)) = Inr d"
  shows "ctl_ok (s\<lparr>sdev := d\<rparr>)"
proof -
  let ?d = "sdev s"
  have h: "handlers_ok ?d" using assms(1) by (simp add: ctl_ok_def dev_ok_def)
  show ?thesis
  proof (cases "u_complete (command ?d) = H_out")
    case True
    then have "d = clear_bit WDM_IN_USE ((cmd_done ?d)\<lparr>werr := st, outbuf := None\<rparr>)"
      using assms(3) by (auto simp: giveback_def wdm_out_callback_def split: if_splits)
    then show ?thesis using assms(1,2) True
      by (simp add: ctl_ok_def slots_ok_def dev_ok_def cmd_ok_def handlers_ok_def cmd_done_def stopped_def out_busy_def tx_busy_def)
  next
    case False
    then have t: "u_complete (command ?d) = H_wwan_tx" using h by (simp add: handlers_ok_def)
    then have "d = wdm_wwan_port_tx_complete (cmd_done ?d)"
      using assms(3) by (simp add: giveback_def)
    then show ?thesis using assms(1,2) t
      by (simp add: ctl_ok_def slots_ok_def dev_ok_def cmd_ok_def handlers_ok_def cmd_done_def stopped_def out_busy_def
          tx_busy_def wdm_wwan_port_tx_complete_def) auto
  qed
qed

text \<open>The writer's last move: the command is refused, or goes into flight with its buffer.\<close>

lemma write_go_cases:
  assumes "wdm_write_go tr cs r buf d = (pc, d')"
  obtains (refused) rv where "pc = W_Ret rv" "d' = d\<lparr>pm_usage := pm_usage d - 1\<rparr>"
  | (failed) e where "\<not> test_bit WDM_DISCONNECTING d" "\<not> test_bit WDM_RESETTING d" "r \<ge> 0" "cs < 0" "pc = W_Ret (tr cs)"
      "e = d\<lparr>pm_usage := pm_usage d - 1, orq := write_setup (inum d) buf, command := (command d)\<lparr>u_complete := H_out\<rparr>\<rparr>"
      "d' = clear_bit WDM_IN_USE (e\<lparr>outbuf := None\<rparr>)"
  | (sent) e where "\<not> test_bit WDM_DISCONNECTING d" "\<not> test_bit WDM_RESETTING d" "r \<ge> 0" "cs \<ge> 0"
      "pc = W_Ret (int (length buf))"
      "e = d\<lparr>pm_usage := pm_usage d - 1, orq := write_setup (inum d) buf,
         command := submitted cs ((command d)\<lparr>u_complete := H_out\<rparr>)\<rparr>"
      "d' = (set_bit WDM_IN_USE (e\<lparr>outbuf := Some buf\<rparr>))\<lparr>cmds := cmds d @ [(write_setup (inum d) buf, buf)]\<rparr>"
proof -
  consider "test_bit WDM_DISCONNECTING d \<or> test_bit WDM_RESETTING d \<or> r < 0"
    | "\<not> test_bit WDM_DISCONNECTING d \<and> \<not> test_bit WDM_RESETTING d \<and> \<not> r < 0 \<and> cs < 0"
    | "\<not> test_bit WDM_DISCONNECTING d \<and> \<not> test_bit WDM_RESETTING d \<and> \<not> r < 0 \<and> \<not> cs < 0" by blast
  then show thesis
  proof cases
    case 1
    then show thesis using assms refused by (auto simp: wdm_write_go_def Let_def split: if_splits)
  next
    case 2
    then show thesis using assms by (intro failed) (auto simp: wdm_write_go_def Let_def submitted_def set_bit_def clear_bit_def)
  next
    case 3
    then show thesis using assms by (intro sent) (auto simp: wdm_write_go_def Let_def)
  qed
qed

lemma dev_ok_pm [simp]: "dev_ok p st (d\<lparr>pm_usage := x\<rparr>) = dev_ok p st d"
  by (simp add: dev_ok_def handlers_ok_def stopped_def)

lemma busy_pm [simp]: "out_busy (d\<lparr>pm_usage := x\<rparr>) = out_busy d" "tx_busy (d\<lparr>pm_usage := x\<rparr>) = tx_busy d"
  by (simp_all add: out_busy_def tx_busy_def)

lemma open_not_wwan: "dev_ok p st d \<Longrightarrow> cmd_ok p st w d \<Longrightarrow> count d > 0 \<Longrightarrow> \<not> st \<and> \<not> tx_busy d"
  by (auto simp: dev_ok_def cmd_ok_def)

lemma write_idle:
  assumes "dev_ok p st d" "cmd_ok p st (Some (nb, W_Go r buf)) d" "count d > 0" "r \<ge> 0" "\<not> test_bit WDM_RESETTING d"
  shows "\<not> u_busy (command d)" "outbuf d = None" "\<not> test_bit WDM_IN_USE d" "pm_usage d = 1"
  using assms by (auto simp: dev_ok_def cmd_ok_def handlers_ok_def out_busy_def tx_busy_def split: if_splits)

lemma write_go_ok:
  assumes ok: "dev_ok p st d" "cmd_ok p st (Some (nb, W_Go r buf)) d" "count d > 0" and a: "answer_ok (command d) cs"
    and r: "wdm_write_go tr cs r buf d = (pc, d')"
  shows "dev_ok p st d' \<and> cmd_ok p st (Some (nb, pc)) d' \<and> count d' = count d"
  using r
proof (cases rule: write_go_cases)
  case (refused rv)
  then show ?thesis using ok open_not_wwan [OF ok] by (simp add: cmd_ok_def)
next
  case (failed e)
  note i = write_idle [OF ok failed(3,2)] open_not_wwan [OF ok]
  show ?thesis using i ok(1,3) unfolding failed
    by (simp add: dev_ok_def cmd_ok_def handlers_ok_def out_busy_def tx_busy_def stopped_def)
next
  case (sent e)
  note i = write_idle [OF ok sent(3,2)] open_not_wwan [OF ok]
  have cs: "cs = 0" "u_reject (command d) = 0" using a sent(4) by (auto simp: answer_ok_def)
  then have "\<not> stopped d" by (simp add: stopped_def)
  then show ?thesis using i ok(1,3) unfolding sent cs(1)
    by (simp add: dev_ok_def cmd_ok_def handlers_ok_def out_busy_def tx_busy_def submitted_def)
qed

lemma write_locked_ok:
  assumes ok: "dev_ok p st d" "cmd_ok p st (Some (nb, W_Locked buf)) d" "count d > 0"
    and r: "wdm_write_locked tr rpm nb buf d = (pc, d')"
  shows "dev_ok p st d' \<and> cmd_ok p st (Some (nb, pc)) d' \<and> count d' = count d"
proof -
  have "(\<exists>rv. pc = W_Ret rv \<and> d' = d) \<or> (\<exists>q. pc = W_Wait q \<and> d' = d\<lparr>pm_usage := pm_usage d + 1\<rparr>) \<or>
      (\<exists>q r. pc = W_Go r q \<and> d' = d\<lparr>pm_usage := pm_usage d + 1\<rparr> \<and> (r \<ge> 0 \<longrightarrow> \<not> test_bit WDM_IN_USE d))"
    using r by (auto simp: wdm_write_locked_def Let_def split: if_splits)
  then show ?thesis using ok open_not_wwan [OF ok] by (elim disjE exE conjE) (simp_all add: cmd_ok_def)
qed

lemma write_move_ok:
  assumes ok: "ctl_ok s" and w: "wr s = Some (nb, pc)" and a: "answer_ok (command (sdev s)) cs"
    and r: "wdm_write_next tr rpm cs signal nb pc (sdev s) = (pc', d)"
  shows "ctl_ok (s\<lparr>sdev := d, wr := Some (nb, pc')\<rparr>)"
proof -
  have c: "count (sdev s) > 0" "\<not> mutexes_held (phase s)" and
    i: "dev_ok (phase s) (port_started s) (sdev s)" "cmd_ok (phase s) (port_started s) (Some (nb, pc)) (sdev s)"
    using ok w by (auto simp: ctl_ok_def slots_ok_def dev_ok_def)
  have "dev_ok (phase s) (port_started s) d \<and> cmd_ok (phase s) (port_started s) (Some (nb, pc')) d \<and> count d = count (sdev s)"
  proof (cases pc)
    case (W_Locked buf)
    then show ?thesis using write_locked_ok [OF i(1) _ c(1)] i(2) r by (auto simp: wdm_write_next_def)
  next
    case (W_Wait buf)
    then show ?thesis using i r by (auto simp: wdm_write_next_def wdm_write_wait_def cmd_ok_def split: if_splits)
  next
    case (W_Go rv buf)
    then show ?thesis using write_go_ok [OF i(1) _ c(1) a] i(2) r by (auto simp: wdm_write_next_def)
  next
    case (W_Ret rv)
    then show ?thesis using i r by (simp add: wdm_write_next_def)
  qed
  then show ?thesis using c by (simp add: ctl_ok_def slots_ok_def)
qed

lemma unpoisoned_poisoned [simp]: "u_reject (unpoisoned (poisoned u)) = u_reject u" "u_busy (poisoned u) = False"
  "u_busy (unpoisoned u) = u_busy u" "u_complete (poisoned u) = u_complete u" "u_complete (unpoisoned u) = u_complete u"
  "u_reject (poisoned u) = u_reject u + 1"
  by (simp_all add: unpoisoned_def poisoned_def)

lemma unpoison_fields [simp]:
  "command (unpoison_urbs d) = unpoisoned (command d)" "response (unpoison_urbs d) = unpoisoned (response d)"
  "validity (unpoison_urbs d) = unpoisoned (validity d)" "outbuf (unpoison_urbs d) = outbuf d"
  "count (unpoison_urbs d) = count d" "wwanp (unpoison_urbs d) = wwanp d" "cleaned (unpoison_urbs d) = cleaned d"
  "work_rx (unpoison_urbs d) = work_rx d" "work_srv (unpoison_urbs d) = work_srv d" "pm_usage (unpoison_urbs d) = pm_usage d"
  "wwan_txon (unpoison_urbs d) = wwan_txon d" "test_bit f (unpoison_urbs d) = test_bit f d"
  by (simp_all add: unpoison_urbs_def)

lemma power_fields [simp]:
  assumes "balanced mp"
  shows "manage_power mp on d = d\<lparr>needs_remote_wakeup := snd (mp on)\<rparr>"
  using assms by (simp add: manage_power_def balanced_def)

text \<open>After poisoning nothing is in flight, no command buffer is left, and no reference for one.\<close>

definition quiesced :: "(bool \<times> wr_pc) option \<Rightarrow> wdm_device \<Rightarrow> bool" where
  "quiesced w d = (\<not> u_busy (command d) \<and> \<not> u_busy (response d) \<and> \<not> u_busy (validity d) \<and>
    u_reject (command d) > 0 \<and> u_reject (response d) > 0 \<and> u_reject (validity d) > 0 \<and>
    outbuf d = None \<and> \<not> test_bit WDM_IN_USE d \<and> pm_usage d = pm_held w)"

lemma poison_ok:
  assumes "dev_ok p st d" "cmd_ok p st w d" "poison_urbs d = Inr d'"
  shows "dev_ok p st d'" "quiesced w d'" "count d' = count d" "work_rx d' = work_rx d"
    "\<not> u_busy (response d) \<Longrightarrow> work_srv d' = work_srv d" "poison_shape d d'"
proof -
  have h: "handlers_ok d" using assms(1) by (simp add: dev_ok_def)
  show s: "poison_shape d d'" by (rule poison_urbs_shape [OF h assms(3)])
  then show "count d' = count d" "work_rx d' = work_rx d" "\<not> u_busy (response d) \<Longrightarrow> work_srv d' = work_srv d"
    by (simp_all add: poison_shape_def)
  have "u_busy (command d') = False" "u_busy (response d') = False" "u_busy (validity d') = False"
    "u_reject (command d') > 0" "u_reject (response d') > 0" "u_reject (validity d') > 0"
    "outbuf d' = (if out_busy d then None else outbuf d)"
    "test_bit WDM_IN_USE d' = (test_bit WDM_IN_USE d \<and> \<not> out_busy d)"
    "pm_usage d' = (if tx_busy d then pm_usage d - 1 else pm_usage d)"
    using s by (simp_all add: poison_shape_def)
  then show "quiesced w d'" using assms(2) by (auto simp: quiesced_def cmd_ok_def)
  have st: "stopped d \<Longrightarrow> stopped d'" using s by (simp add: stopped_def poison_shape_def)
  have f: "test_bit f d' = test_bit f d" if "f \<notin> {WDM_IN_USE, WDM_READ, WDM_RESPONDING}" for f
    using s that unfolding poison_shape_def by blast
  have e: "count d' = count d" "wwanp d' = wwanp d" "cleaned d' = cleaned d" "handlers_ok d'"
    using s h by (simp_all add: poison_shape_def handlers_ok_def)
  show "dev_ok p st d'" using assms(1) st by (simp add: dev_ok_def e f)
qed

lemma quiesced_cmd: "quiesced w d \<Longrightarrow> cmd_ok p st w d"
  by (simp add: quiesced_def cmd_ok_def out_busy_def tx_busy_def)

lemma ctl_okI:
  assumes "dev_ok q t e" "cmd_ok q t (wr s) e" "count e = 0 \<or> mutexes_held q \<longrightarrow> rd s = None \<and> wr s = None"
    "out_busy e \<longrightarrow> count e > 0"
  shows "ctl_ok (s\<lparr>sdev := e, phase := q, port_started := t\<rparr>)"
  using assms by (simp add: ctl_ok_def slots_ok_def)

lemma quiesced_ctl:
  assumes "dev_ok q t e" "quiesced (wr s) e" "count e = 0 \<or> mutexes_held q \<longrightarrow> rd s = None \<and> wr s = None"
  shows "ctl_ok (s\<lparr>sdev := e, phase := q, port_started := t\<rparr>)"
  using assms by (intro ctl_okI) (auto intro: quiesced_cmd simp: quiesced_def out_busy_def)

lemma same_phase [simp]: "s\<lparr>sdev := e, phase := phase s, port_started := port_started s\<rparr> = s\<lparr>sdev := e\<rparr>"
  by simp

text \<open>What \<open>quiesced\<close> becomes when the poison is taken back.\<close>

definition at_rest :: "(bool \<times> wr_pc) option \<Rightarrow> wdm_device \<Rightarrow> bool" where
  "at_rest w d = (\<not> u_busy (command d) \<and> outbuf d = None \<and> \<not> test_bit WDM_IN_USE d \<and> pm_usage d = pm_held w)"

lemma at_rest_ctl:
  assumes "dev_ok q t e" "at_rest (wr s) e" "count e = 0 \<or> mutexes_held q \<longrightarrow> rd s = None \<and> wr s = None"
  shows "ctl_ok (s\<lparr>sdev := e, phase := q, port_started := t\<rparr>)"
  using assms by (intro ctl_okI) (auto simp: at_rest_def out_busy_def tx_busy_def cmd_ok_def)

lemma quiesced_rest: "quiesced w d \<Longrightarrow> at_rest w (unpoison_urbs d)" "quiesced w d \<Longrightarrow> at_rest w d"
  by (simp_all add: quiesced_def at_rest_def)

lemma at_rest_fields [simp]:
  "at_rest w (d\<lparr>needs_remote_wakeup := a\<rparr>) = at_rest w d" "at_rest w (d\<lparr>resp_count := b\<rparr>) = at_rest w d"
  "at_rest w (d\<lparr>wwanp := c\<rparr>) = at_rest w d" "at_rest w (d\<lparr>cleaned := e\<rparr>) = at_rest w d"
  "at_rest w (cancel_works d) = at_rest w d" "f \<noteq> WDM_IN_USE \<Longrightarrow> at_rest w (clear_bit f d) = at_rest w d"
  "f \<noteq> WDM_IN_USE \<Longrightarrow> at_rest w (set_bit f d) = at_rest w d"
  by (simp_all add: at_rest_def cancel_works_def)

lemma unpoison_more:
  "unpoison_urbs (d\<lparr>needs_remote_wakeup := a\<rparr>) = (unpoison_urbs d)\<lparr>needs_remote_wakeup := a\<rparr>"
  "unpoison_urbs (d\<lparr>resp_count := b\<rparr>) = (unpoison_urbs d)\<lparr>resp_count := b\<rparr>"
  "unpoison_urbs (clear_bit f d) = clear_bit f (unpoison_urbs d)"
  "unpoison_urbs (cancel_works d) = cancel_works (unpoison_urbs d)"
  by (simp_all add: unpoison_urbs_def clear_bit_def cancel_works_def)

lemma dev_ok_count:
  assumes "dev_ok p st d" "c \<ge> 0" "p \<noteq> Gone" "test_bit WDM_WWAN_IN_USE d \<longrightarrow> c = 0"
  shows "dev_ok p st (d\<lparr>count := c\<rparr>)"
proof -
  have "stopped (d\<lparr>count := c\<rparr>) = stopped d" by (simp add: stopped_def)
  then show ?thesis using assms by (simp add: dev_ok_def handlers_ok_def)
qed

lemma cmd_ok_count [simp]: "cmd_ok p st w (d\<lparr>count := c\<rparr>) = cmd_ok p st w d"
  by (simp add: cmd_ok_def out_busy_def tx_busy_def)

lemma dev_ok_unpoison:
  assumes "dev_ok p st d" "p \<noteq> Reset_held" "p \<noteq> Gone"
  shows "dev_ok p st (unpoison_urbs d)"
  using assms by (simp add: dev_ok_def handlers_ok_def)

lemma dev_ok_fields [simp]:
  "dev_ok p st (d\<lparr>needs_remote_wakeup := a\<rparr>) = dev_ok p st d" "dev_ok p st (d\<lparr>resp_count := b\<rparr>) = dev_ok p st d"
  "dev_ok p st (clear_bit WDM_RESPONDING d) = dev_ok p st d" "dev_ok p st (clear_bit WDM_READ d) = dev_ok p st d"
  by (simp_all add: dev_ok_def handlers_ok_def stopped_def)

lemma release_ok:
  assumes ok: "ctl_ok s" and p: "phase s \<noteq> Disc_wait" "count (sdev s) > 0" "wr s = None" "\<not> mutexes_held (phase s)"
      "count (sdev s) = 1 \<longrightarrow> rd s = None" "balanced mp" and r: "wdm_release mp (sdev s) = Inr e"
  shows "ctl_ok (s\<lparr>sdev := e\<rparr>)"
proof -
  let ?d = "sdev s" and ?d1 = "(sdev s)\<lparr>count := count (sdev s) - 1\<rparr>"
  have i: "dev_ok (phase s) (port_started s) ?d" "cmd_ok (phase s) (port_started s) (wr s) ?d" "slots_ok s"
    using ok by (simp_all add: ctl_ok_def)
  have w: "\<not> test_bit WDM_WWAN_IN_USE ?d" "\<not> port_started s" using i(1) p(2) by (auto simp: dev_ok_def)
  have "ctl_ok (s\<lparr>sdev := e, phase := phase s, port_started := port_started s\<rparr>)"
  proof (cases "count ?d = 1")
    case False
    then have e: "e = ?d1" using r by (simp add: wdm_release_def)
    have "dev_ok (phase s) (port_started s) ?d1"
      using i(1) p(2) False w by (simp add: dev_ok_def handlers_ok_def stopped_def)
    then show ?thesis using i p False unfolding e
      by (intro ctl_okI) (auto simp: slots_ok_def out_busy_def)
  next
    case one: True
    show ?thesis
    proof (cases "test_bit WDM_DISCONNECTING ?d")
      case True
      then have e: "e = ?d1\<lparr>cleaned := True\<rparr>" and g: "phase s = Gone"
        using r one i(1) p(1) by (auto simp: wdm_release_def dev_ok_def)
      then have b: "\<not> u_busy (command ?d)" using i(1) by (simp add: dev_ok_def stopped_def)
      show ?thesis using i p g b one w unfolding e
        by (intro ctl_okI) (auto simp: dev_ok_def handlers_ok_def stopped_def cmd_ok_def out_busy_def tx_busy_def)
    next
      case False
      then have g: "phase s \<noteq> Gone" "phase s \<noteq> Reset_held" using i(1) p(4) by (auto simp: dev_ok_def mutexes_held_def)
      obtain d2 where d2: "poison_urbs ?d1 = Inr d2" and
        e: "e = clear_bit WDM_RESPONDING ((unpoison_urbs d2)\<lparr>resp_count := 0, needs_remote_wakeup := snd (mp False)\<rparr>)"
        using r one False p(6) by (auto simp: wdm_release_def and_then_Inr unpoison_urbs_def clear_bit_def split: if_splits)
      have d1: "dev_ok (phase s) (port_started s) ?d1" "cmd_ok (phase s) (port_started s) (wr s) ?d1"
        using dev_ok_count [OF i(1) _ g(1)] one i(2) by simp_all
      note q = poison_ok [OF d1 d2]
      show ?thesis using dev_ok_unpoison [OF q(1) g(2,1)] quiesced_rest(1) [OF q(2)] p one unfolding e
        by (intro at_rest_ctl) simp_all
    qed
  qed
  then show ?thesis by simp
qed

text \<open>The interrupt URB may go into flight unless the device is stopped.\<close>

lemma dev_ok_validity:
  assumes "dev_ok p st d" "answer_ok (validity d) vs"
  shows "dev_ok p st (d\<lparr>validity := submitted vs (validity d)\<rparr>)"
proof -
  have "stopped d \<Longrightarrow> stopped (d\<lparr>validity := submitted vs (validity d)\<rparr>)"
    using assms(2) by (auto simp: stopped_def answer_ok_def submitted_def)
  then show ?thesis using assms(1) by (simp add: dev_ok_def handlers_ok_def)
qed

lemma cmd_ok_fields [simp]:
  "cmd_ok p st w (d\<lparr>validity := a\<rparr>) = cmd_ok p st w d" "cmd_ok p st w (d\<lparr>werr := b\<rparr>) = cmd_ok p st w d"
  "cmd_ok p st w (d\<lparr>rerr := c\<rparr>) = cmd_ok p st w d" "cmd_ok p st w (d\<lparr>needs_remote_wakeup := e\<rparr>) = cmd_ok p st w d"
  by (simp_all add: cmd_ok_def out_busy_def tx_busy_def)

lemma dev_ok_errs [simp]: "dev_ok p st (d\<lparr>werr := b\<rparr>) = dev_ok p st d" "dev_ok p st (d\<lparr>rerr := c\<rparr>) = dev_ok p st d"
  by (simp_all add: dev_ok_def handlers_ok_def stopped_def)

text \<open>What a successful pass through \<open>wdm_open\<close> amounts to.\<close>

lemma open_cases:
  assumes "wdm_open tr rpm vs mp d = (rv, d')" "balanced mp" "count d \<ge> 0"
  obtains (same) "d' = d"
  | (failed) "\<not> test_bit WDM_WWAN_IN_USE d" "count d = 0" "vs < 0"
      "d' = d\<lparr>werr := 0, rerr := 0, validity := submitted vs (validity d)\<rparr>"
  | (first) "\<not> test_bit WDM_WWAN_IN_USE d" "count d = 0" "vs \<ge> 0"
      "d' = d\<lparr>count := 1, werr := 0, rerr := 0, validity := submitted vs (validity d), needs_remote_wakeup := snd (mp True)\<rparr>"
  | (again) "\<not> test_bit WDM_WWAN_IN_USE d" "count d > 0" "d' = d\<lparr>count := count d + 1\<rparr>"
proof -
  consider "test_bit WDM_DISCONNECTING d \<or> test_bit WDM_WWAN_IN_USE d \<or> rpm < 0"
    | "\<not> test_bit WDM_DISCONNECTING d" "\<not> test_bit WDM_WWAN_IN_USE d" "\<not> rpm < 0" "count d = 0" "vs < 0"
    | "\<not> test_bit WDM_DISCONNECTING d" "\<not> test_bit WDM_WWAN_IN_USE d" "\<not> rpm < 0" "count d = 0" "\<not> vs < 0"
    | "\<not> test_bit WDM_DISCONNECTING d" "\<not> test_bit WDM_WWAN_IN_USE d" "\<not> rpm < 0" "count d > 0"
    using assms(3) by linarith
  then show thesis
  proof cases
    case 1
    then show thesis using assms(1) by (intro same) (auto simp: wdm_open_def split: if_splits)
  next
    case 2
    then show thesis using assms(1) by (intro failed) (auto simp: wdm_open_def Let_def)
  next
    case 3
    then show thesis using assms(1,2) by (intro first) (auto simp: wdm_open_def Let_def)
  next
    case 4
    then show thesis using assms(1) by (intro again) (auto simp: wdm_open_def Let_def)
  qed
qed

lemma open_ok:
  assumes ok: "ctl_ok s" and p: "phase s \<noteq> Disc_wait" "phase s \<noteq> Gone" "wr s = None" "\<not> mutexes_held (phase s)"
      "answer_ok (validity (sdev s)) vs" "balanced mp" and r: "wdm_open tr rpm vs mp (sdev s) = (rv, d)"
  shows "ctl_ok (s\<lparr>sdev := d\<rparr>)"
proof -
  let ?d = "sdev s" and ?v = "(sdev s)\<lparr>validity := submitted vs (validity (sdev s))\<rparr>"
  have i: "dev_ok (phase s) (port_started s) ?d" "cmd_ok (phase s) (port_started s) (wr s) ?d" "slots_ok s"
    using ok by (simp_all add: ctl_ok_def)
  have c: "count ?d \<ge> 0" using i(1) by (simp add: dev_ok_def)
  note v = dev_ok_validity [OF i(1) p(5)]
  have "ctl_ok (s\<lparr>sdev := d, phase := phase s, port_started := port_started s\<rparr>)"
    using r p(6) c
  proof (cases rule: open_cases)
    case same
    then show ?thesis using ok by simp
  next
    case failed
    have e: "d = ?v\<lparr>werr := 0, rerr := 0\<rparr>" using failed by simp
    have "dev_ok (phase s) (port_started s) d" unfolding e using v by (simp only: dev_ok_errs)
    then show ?thesis using i failed by (intro ctl_okI) (auto simp: slots_ok_def out_busy_def)
  next
    case first
    have e: "d = ?v\<lparr>count := 1, werr := 0, rerr := 0, needs_remote_wakeup := snd (mp True)\<rparr>" using first by simp
    have "dev_ok (phase s) (port_started s) d" unfolding e dev_ok_errs dev_ok_fields
      using first p by (intro dev_ok_count [OF v]) simp_all
    then show ?thesis using i first p
      by (intro ctl_okI) (auto simp: slots_ok_def out_busy_def)
  next
    case again
    then show ?thesis using i dev_ok_count [OF i(1), of "count ?d + 1"] p
      by (intro ctl_okI) (auto simp: slots_ok_def out_busy_def)
  qed
  then show ?thesis by simp
qed

section \<open>Suspend, resume, reset, disconnection\<close>

lemma dev_ok_phase:
  assumes "dev_ok p st d" "{p, q} \<subseteq> {Running, Suspending True, Suspending False}"
  shows "dev_ok q st d"
  using assms by (auto simp: dev_ok_def)

lemma cmd_ok_phase: "cmd_ok p st w d \<Longrightarrow> p \<noteq> Reset_wait \<Longrightarrow> cmd_ok q st w d"
  by (simp add: cmd_ok_def)

lemma suspend_begin_ok:
  assumes ok: "ctl_ok s" and p: "phase s = Running" "\<not> auto \<longrightarrow> rd s = None \<and> wr s = None"
      and r: "suspend_mark auto (sdev s) = Inr (rv, d)"
  shows "ctl_ok (s\<lparr>sdev := d, phase := (if rv < 0 then Running else Suspending auto)\<rparr>)"
proof -
  have d: "d = sdev s \<or> d = set_bit WDM_SUSPENDING (sdev s)"
    using r by (auto simp: suspend_mark_def split: if_splits)
  then have v: "same_view (sdev s) d" by (auto simp: same_view_def stopped_def)
  have "ctl_ok (s\<lparr>sdev := d\<rparr>)" using same_view_ok [OF v ok] .
  then have i: "dev_ok Running (port_started s) d" "cmd_ok Running (port_started s) (wr s) d" "slots_ok (s\<lparr>sdev := d\<rparr>)"
    using p(1) by (simp_all add: ctl_ok_def)
  let ?q = "if rv < 0 then Running else Suspending auto"
  have "dev_ok ?q (port_started s) d" by (rule dev_ok_phase [OF i(1)]) auto
  moreover have "cmd_ok ?q (port_started s) (wr s) d" by (rule cmd_ok_phase [OF i(2)]) simp
  moreover have "count d = 0 \<or> mutexes_held ?q \<longrightarrow> rd s = None \<and> wr s = None"
    using i(3) p(2) by (auto simp: slots_ok_def mutexes_held_def)
  ultimately have "ctl_ok (s\<lparr>sdev := d, phase := ?q, port_started := port_started s\<rparr>)"
    using i(3) by (intro ctl_okI) (auto simp: slots_ok_def)
  then show ?thesis by simp
qed

lemma dev_ok_cancel:
  assumes "dev_ok p st d"
  shows "dev_ok p st (cancel_works d)"
proof -
  have "stopped d \<Longrightarrow> stopped (cancel_works d)" by (simp add: stopped_def cancel_works_def)
  moreover have "test_bit f (cancel_works d) = test_bit f d" for f by (simp add: cancel_works_def)
  ultimately show ?thesis using assms by (simp add: dev_ok_def handlers_ok_def) (simp add: cancel_works_def)
qed

lemma cancel_count [simp]: "count (cancel_works d) = count d"
  by (simp add: cancel_works_def)

lemma suspend_end_ok:
  assumes ok: "ctl_ok s" and p: "phase s = Suspending auto" and r: "suspend_stop (sdev s) = Inr d"
  shows "ctl_ok (s\<lparr>sdev := d, phase := Running\<rparr>)"
proof -
  have i: "dev_ok (phase s) (port_started s) (sdev s)" "cmd_ok (phase s) (port_started s) (wr s) (sdev s)" "slots_ok s"
    using ok by (simp_all add: ctl_ok_def)
  obtain d1 where d1: "poison_urbs (sdev s) = Inr d1" and e: "d = unpoison_urbs (cancel_works d1)"
    using r by (auto simp: suspend_stop_def and_then_Inr)
  note q = poison_ok [OF i(1,2) d1]
  have "dev_ok Running (port_started s) d1"
    using p by (intro dev_ok_phase [OF q(1)]) (cases auto; simp)
  then have "dev_ok Running (port_started s) d" unfolding e
    by (intro dev_ok_unpoison dev_ok_cancel) auto
  moreover have "at_rest (wr s) d" using quiesced_rest(1) [OF q(2)] by (simp add: e unpoison_more)
  ultimately have "ctl_ok (s\<lparr>sdev := d, phase := Running, port_started := port_started s\<rparr>)"
    using i(3) q(3) by (intro at_rest_ctl) (auto simp: e slots_ok_def mutexes_held_def)
  then show ?thesis by simp
qed

lemma recover_ok:
  assumes "dev_ok p st d" "cmd_ok p st w d" "answer_ok (validity d) vs" "recover_from_urb_loss vs d = (rv, d')"
  shows "dev_ok p st d'" "cmd_ok p st w d'" "count d' = count d" "out_busy d' = out_busy d"
  using assms dev_ok_validity [OF assms(1,3)]
  by (auto simp: recover_from_urb_loss_def out_busy_def split: if_splits)

lemma resume_ok:
  assumes ok: "ctl_ok s" and a: "answer_ok (validity (sdev s)) vs" and r: "wdm_resume vs (sdev s) = (rv, d)"
  shows "ctl_ok (s\<lparr>sdev := d\<rparr>)"
proof -
  let ?e = "clear_bit WDM_SUSPENDING (sdev s)"
  have "same_view (sdev s) ?e" by (simp add: same_view_def stopped_def)
  from same_view_ok [OF this ok] have i: "dev_ok (phase s) (port_started s) ?e"
      "cmd_ok (phase s) (port_started s) (wr s) ?e" "slots_ok (s\<lparr>sdev := ?e\<rparr>)"
    by (simp_all add: ctl_ok_def)
  note q = recover_ok [OF i(1,2) _ r [unfolded wdm_resume_def]]
  have "ctl_ok (s\<lparr>sdev := d, phase := phase s, port_started := port_started s\<rparr>)"
    using q a i(3) by (intro ctl_okI) (auto simp: slots_ok_def)
  then show ?thesis by simp
qed

lemma reset_begin_ok:
  assumes ok: "ctl_ok s" and p: "phase s = Running" and r: "wdm_pre_reset_begin (sdev s) = Inr d"
  shows "ctl_ok (s\<lparr>sdev := d, phase := Reset_wait\<rparr>)"
proof -
  let ?d = "sdev s"
  have i: "dev_ok Running (port_started s) ?d" "cmd_ok Running (port_started s) (wr s) ?d" "slots_ok s"
    using ok p by (simp_all add: ctl_ok_def)
  have d: "d = (clear_bit WDM_IN_USE (set_bit WDM_READ (set_bit WDM_RESETTING ?d)))\<lparr>rerr := - EINTR\<rparr>"
    using r by (simp add: wdm_pre_reset_begin_def split: if_splits)
  have b: "out_busy d = out_busy ?d" "tx_busy d = tx_busy ?d" unfolding d by (simp_all add: out_busy_def tx_busy_def)
  have "dev_ok Reset_wait (port_started s) d"
    using i(1) unfolding d by (simp add: dev_ok_def handlers_ok_def)
  moreover have "cmd_ok Reset_wait (port_started s) (wr s) d"
    using i(2) unfolding cmd_ok_def b by (simp add: d)
  ultimately have "ctl_ok (s\<lparr>sdev := d, phase := Reset_wait, port_started := port_started s\<rparr>)"
    using i(3) b by (intro ctl_okI) (auto simp: slots_ok_def mutexes_held_def d)
  then show ?thesis by simp
qed

lemma quiesced_stopped: "quiesced w d \<Longrightarrow> stopped (cancel_works d)"
  by (simp add: quiesced_def stopped_def cancel_works_def)

lemma reset_lock_ok:
  assumes ok: "ctl_ok s" and p: "phase s = Reset_wait" "rd s = None" "wr s = None"
    and r: "wdm_pre_reset_end (sdev s) = Inr d"
  shows "ctl_ok (s\<lparr>sdev := d, phase := Reset_held\<rparr>)"
proof -
  have i: "dev_ok Reset_wait (port_started s) (sdev s)" "cmd_ok Reset_wait (port_started s) (wr s) (sdev s)"
    using ok p by (simp_all add: ctl_ok_def)
  obtain d1 where d1: "poison_urbs (sdev s) = Inr d1" and e: "d = cancel_works d1"
    using r by (auto simp: wdm_pre_reset_end_def and_then_Inr)
  note q = poison_ok [OF i d1]
  have "dev_ok Reset_wait (port_started s) d" using dev_ok_cancel [OF q(1)] by (simp add: e)
  then have "dev_ok Reset_held (port_started s) d"
    using quiesced_stopped [OF q(2)] by (simp add: dev_ok_def e)
  then have "ctl_ok (s\<lparr>sdev := d, phase := Reset_held, port_started := port_started s\<rparr>)"
    using quiesced_rest(2) [OF q(2)] p by (intro at_rest_ctl) (simp_all add: e)
  then show ?thesis by simp
qed

lemma reset_end_ok:
  assumes ok: "ctl_ok s" and p: "phase s = Reset_held" and a: "answer_ok (unpoisoned (validity (sdev s))) vs"
    and r: "wdm_post_reset vs (sdev s) = (rv, d)"
  shows "ctl_ok (s\<lparr>sdev := d, phase := Running\<rparr>)"
proof -
  let ?d = "sdev s" and ?e = "clear_bit WDM_RESETTING (clear_bit WDM_OVERFLOW (unpoison_urbs (sdev s)))"
  have i: "dev_ok Reset_held (port_started s) ?d" "cmd_ok Reset_held (port_started s) (wr s) ?d" "slots_ok s"
    using ok p by (simp_all add: ctl_ok_def)
  have b: "out_busy ?e = out_busy ?d" "tx_busy ?e = tx_busy ?d" by (simp_all add: out_busy_def tx_busy_def)
  have "dev_ok Running (port_started s) ?e" using i(1) by (simp add: dev_ok_def handlers_ok_def)
  moreover have "cmd_ok Running (port_started s) (wr s) ?e" using i(2) unfolding cmd_ok_def b by simp
  moreover have "answer_ok (validity ?e) vs" using a by simp
  ultimately have q: "dev_ok Running (port_started s) d" "cmd_ok Running (port_started s) (wr s) d" "count d = count ?e"
      "out_busy d = out_busy ?e"
    using recover_ok [OF _ _ _ r [unfolded wdm_post_reset_def]] by blast+
  have "ctl_ok (s\<lparr>sdev := d, phase := Running, port_started := port_started s\<rparr>)"
    using q i(3) b by (intro ctl_okI) (auto simp: slots_ok_def mutexes_held_def)
  then show ?thesis by simp
qed

section \<open>The WWAN port and disconnection\<close>

lemma wwan_alone: "dev_ok p True d \<Longrightarrow> count d = 0"
  by (simp add: dev_ok_def)

lemma port_start_ok:
  assumes ok: "ctl_ok s" and p: "phase s \<noteq> Disc_wait" "wwanp (sdev s)" "\<not> port_started s"
      "answer_ok (validity (sdev s)) vs" "balanced mp" and r: "wdm_wwan_port_start vs mp (sdev s) = (rv, d)"
  shows "ctl_ok (s\<lparr>sdev := d, port_started := (rv = 0)\<rparr>)"
proof -
  let ?d = "sdev s"
  have i: "dev_ok (phase s) False ?d" "cmd_ok (phase s) False (wr s) ?d" "slots_ok s"
    using ok p(3) by (simp_all add: ctl_ok_def)
  have "ctl_ok (s\<lparr>sdev := d, phase := phase s, port_started := (rv = 0)\<rparr>)"
  proof (cases "count ?d = 0")
    case False
    then have "d = ?d" "rv \<noteq> 0" using r by (auto simp: wdm_wwan_port_start_def)
    then show ?thesis using i by (intro ctl_okI) (auto simp: slots_ok_def)
  next
    case True
    let ?v = "?d\<lparr>validity := submitted vs (validity ?d)\<rparr>"
    have e: "rv = vs" "d = (set_bit WDM_WWAN_IN_USE ?v)\<lparr>needs_remote_wakeup := snd (mp True), wwan_txon := True\<rparr>"
      using r True p(5) by (auto simp: wdm_wwan_port_start_def Let_def set_bit_def)
    have "dev_ok (phase s) False ?v" by (rule dev_ok_validity [OF i(1) p(4)])
    then have "dev_ok (phase s) (rv = 0) d"
      using True p(2) unfolding e by (simp add: dev_ok_def handlers_ok_def stopped_def)
    moreover have "\<not> out_busy d" "\<not> tx_busy d" "\<not> out_busy ?d"
      using i(2,3) True unfolding e by (auto simp: out_busy_def tx_busy_def cmd_ok_def slots_ok_def)
    moreover have "\<not> u_busy (command ?d)"
      using i(1,2,3) True by (auto simp: dev_ok_def handlers_ok_def out_busy_def tx_busy_def cmd_ok_def slots_ok_def)
    then have "cmd_ok (phase s) (rv = 0) (wr s) d"
      using i(2) unfolding e by (simp add: cmd_ok_def out_busy_def tx_busy_def)
    ultimately show ?thesis using i(3) True by (intro ctl_okI) (auto simp: slots_ok_def e)
  qed
  then show ?thesis by simp
qed

lemma port_stop_shape:
  assumes "wdm_wwan_port_stop mp d = Inr e" "balanced mp"
  obtains d1 where "poison_urbs d = Inr d1"
    "e = clear_bit WDM_WWAN_IN_USE (clear_bit WDM_READ ((unpoison_urbs d1)\<lparr>needs_remote_wakeup := snd (mp False)\<rparr>))"
  using assms by (auto simp: wdm_wwan_port_stop_def and_then_Inr unpoison_more)

lemma port_stop_dev:
  assumes i: "dev_ok p st d" "cmd_ok p st w d" and r: "wdm_wwan_port_stop mp d = Inr e" "balanced mp"
  shows "dev_ok p False e" "at_rest w e" "count e = count d"
proof -
  obtain d1 where d1: "poison_urbs d = Inr d1" and
    e: "e = clear_bit WDM_WWAN_IN_USE (clear_bit WDM_READ ((unpoison_urbs d1)\<lparr>needs_remote_wakeup := snd (mp False)\<rparr>))"
    using r by (rule port_stop_shape)
  note q = poison_ok [OF i d1]
  have rej: "u_reject (command d1) = u_reject (command d) + 1" "u_reject (response d1) = u_reject (response d) + 1"
    "u_reject (validity d1) = u_reject (validity d) + 1"
    using q(6) by (simp_all add: poison_shape_def)
  have "stopped e" if "stopped d"
    using that q(2,4,5) rej unfolding e by (simp add: stopped_def quiesced_def unpoisoned_def)
  then show "dev_ok p False e" using q(1) i(1) unfolding e by (simp add: dev_ok_def handlers_ok_def)
  show "at_rest w e" using quiesced_rest(1) [OF q(2)] by (simp add: e)
  show "count e = count d" by (simp add: e q(3))
qed

lemma port_stop_ok:
  assumes ok: "ctl_ok s" and p: "balanced mp" and r: "wdm_wwan_port_stop mp (sdev s) = Inr d"
  shows "ctl_ok (s\<lparr>sdev := d, port_started := False\<rparr>)"
proof -
  have i: "dev_ok (phase s) (port_started s) (sdev s)" "cmd_ok (phase s) (port_started s) (wr s) (sdev s)" "slots_ok s"
    using ok by (simp_all add: ctl_ok_def)
  note q = port_stop_dev [OF i(1,2) r p]
  have "ctl_ok (s\<lparr>sdev := d, phase := phase s, port_started := False\<rparr>)"
    using q i(3) by (intro at_rest_ctl) (auto simp: slots_ok_def)
  then show ?thesis by simp
qed

lemma port_tx_ok:
  assumes ok: "ctl_ok s" and p: "port_started s" "wwan_txon (sdev s)" "answer_ok (command (sdev s)) cs" "rpm \<le> 0"
    and r: "wdm_wwan_port_tx rpm cs buf (sdev s) = (rv, d)"
  shows "ctl_ok (s\<lparr>sdev := d\<rparr>)"
proof -
  let ?d = "sdev s"
  have i: "dev_ok (phase s) True ?d" "cmd_ok (phase s) True (wr s) ?d" "slots_ok s"
    using ok p(1) by (simp_all add: ctl_ok_def)
  have c: "count ?d = 0" by (rule wwan_alone [OF i(1)])
  then have b: "\<not> u_busy (command ?d)" "outbuf ?d = None" "\<not> test_bit WDM_IN_USE ?d" "wr s = None"
    using i p(2) by (auto simp: dev_ok_def handlers_ok_def out_busy_def tx_busy_def cmd_ok_def slots_ok_def)
  then have pm: "pm_usage ?d = 0" using i(2) by (simp add: cmd_ok_def tx_busy_def)
  let ?e = "?d\<lparr>orq := write_setup (inum ?d) buf, command := (command ?d)\<lparr>u_complete := H_wwan_tx\<rparr>\<rparr>"
  have "stopped ?d \<Longrightarrow> stopped ?e" by (simp add: stopped_def)
  then have e: "dev_ok (phase s) True ?e" using i(1) by (auto simp: dev_ok_def handlers_ok_def)
  have "dev_ok (phase s) True d \<and> cmd_ok (phase s) True None d \<and> count d = 0 \<and> \<not> out_busy d"
  proof (cases "rpm = 0 \<and> cs = 0")
    case False
    then have "d = ?d \<or> d = ?e"
      using r p(3) by (auto simp: wdm_wwan_port_tx_def Let_def submitted_def split: if_splits)
    then show ?thesis using i(1,2) e b c pm by (elim disjE) (simp_all add: cmd_ok_def out_busy_def tx_busy_def)
  next
    case True
    then have n: "\<not> stopped ?d" using p(3) by (auto simp: answer_ok_def stopped_def)
    then have g: "phase s \<noteq> Reset_held" "phase s \<noteq> Gone" "phase s \<noteq> Disc_wait" using i(1) by (auto simp: dev_ok_def)
    have "d = ?e\<lparr>command := (command ?d)\<lparr>u_complete := H_wwan_tx, u_busy := True\<rparr>, pm_usage := 1, wwan_txon := False,
        cmds := cmds ?d @ [(write_setup (inum ?d) buf, buf)]\<rparr>"
      using r True pm by (auto simp: wdm_wwan_port_tx_def Let_def submitted_def)
    then show ?thesis using i(1) g b c
      by (simp add: dev_ok_def handlers_ok_def cmd_ok_def out_busy_def tx_busy_def)
  qed
  then have "ctl_ok (s\<lparr>sdev := d, phase := phase s, port_started := port_started s\<rparr>)"
    using b(4) i(3) c p(1) by (intro ctl_okI) (auto simp: slots_ok_def)
  then show ?thesis by simp
qed

lemma deinit_ok:
  assumes i: "dev_ok p st d" "cmd_ok p st w d" "out_busy d \<longrightarrow> count d > 0"
    and r: "wdm_wwan_deinit st mp d = Inr e" "balanced mp"
  shows "dev_ok p False e" "cmd_ok p False w e" "count e = count d" "out_busy e \<longrightarrow> count e > 0" "\<not> wwanp e"
proof -
  have "dev_ok p False e \<and> cmd_ok p False w e \<and> count e = count d \<and> (out_busy e \<longrightarrow> count e > 0) \<and> \<not> wwanp e"
  proof (cases st)
    case False
    then have "e = d \<and> \<not> wwanp d \<or> e = d\<lparr>wwanp := False\<rparr>" using r by (auto simp: wdm_wwan_deinit_def split: if_splits)
    moreover have "dev_ok p False (d\<lparr>wwanp := False\<rparr>)"
      using i(1) False by (simp add: dev_ok_def handlers_ok_def stopped_def)
    moreover have "cmd_ok p False w (d\<lparr>wwanp := False\<rparr>)"
      using i(2) False by (simp add: cmd_ok_def out_busy_def tx_busy_def)
    ultimately show ?thesis using i False by (auto simp: out_busy_def)
  next
    case True
    then have "wwanp d" using i(1) by (simp add: dev_ok_def)
    then obtain f where f: "wdm_wwan_port_stop mp d = Inr f" and e: "e = f\<lparr>wwanp := False\<rparr>"
      using r(1) True by (auto simp: wdm_wwan_deinit_def and_then_Inr)
    note q = port_stop_dev [OF i(1,2) f r(2)]
    have "dev_ok p False e" using q(1) unfolding e by (simp add: dev_ok_def handlers_ok_def stopped_def)
    then show ?thesis using q(2,3) unfolding e
      by (simp add: cmd_ok_def at_rest_def out_busy_def tx_busy_def)
  qed
  then show "dev_ok p False e" "cmd_ok p False w e" "count e = count d" "out_busy e \<longrightarrow> count e > 0" "\<not> wwanp e"
    by blast+
qed

lemma flag_simps: "handlers_ok (set_bit f e) = handlers_ok e" "stopped (set_bit f e) = stopped e"
  by (simp_all add: handlers_ok_def stopped_def)

lemma disconnect_mark_dev:
  "dev_ok Running False e \<Longrightarrow> \<not> wwanp e \<Longrightarrow> dev_ok Disc_wait False (set_bit WDM_READ (set_bit WDM_DISCONNECTING e))"
  unfolding dev_ok_def flag_simps by simp

lemma flag_busy: "out_busy (set_bit f e) = out_busy e" "tx_busy (set_bit f e) = tx_busy e"
  by (simp_all add: out_busy_def tx_busy_def)

lemma disconnect_mark_cmd:
  "cmd_ok Running False w e \<Longrightarrow> cmd_ok Disc_wait False w (set_bit WDM_READ (set_bit WDM_DISCONNECTING e))"
  unfolding cmd_ok_def flag_busy by simp

lemma disconnect_begin_shape: "wdm_disconnect_begin st mp d0 = Inr d \<Longrightarrow> \<exists>e. wdm_wwan_deinit st mp d0 = Inr e \<and> d = set_bit WDM_READ (set_bit WDM_DISCONNECTING e)"
  by (cases "wdm_wwan_deinit st mp d0") (auto simp: wdm_disconnect_begin_def split: if_splits)

lemma disconnect_begin_ok:
  assumes ok: "ctl_ok s" and p: "phase s = Running" "balanced mp"
    and r: "wdm_disconnect_begin (port_started s) mp (sdev s) = Inr d"
  shows "ctl_ok (s\<lparr>sdev := d, phase := Disc_wait, port_started := False\<rparr>)"
proof -
  let ?d = "sdev s"
  have i: "dev_ok Running (port_started s) ?d" "cmd_ok Running (port_started s) (wr s) ?d" "slots_ok s"
    using ok unfolding ctl_ok_def p(1) by simp_all
  obtain e where e: "wdm_wwan_deinit (port_started s) mp ?d = Inr e" and
    d: "d = set_bit WDM_READ (set_bit WDM_DISCONNECTING e)"
    using disconnect_begin_shape [OF r] by blast
  have "out_busy ?d \<longrightarrow> count ?d > 0" using i(3) unfolding slots_ok_def by blast
  note q = deinit_ok [OF i(1,2) this e p(2)]
  note m = disconnect_mark_dev [OF q(1,5)] disconnect_mark_cmd [OF q(2)]
  have c: "count d = count ?d" unfolding d by (simp only: bit_fields q(3))
  have "out_busy d \<longrightarrow> count d > 0" using q(3,4) c unfolding d flag_busy by simp
  moreover have "count d = 0 \<or> mutexes_held Disc_wait \<longrightarrow> rd s = None \<and> wr s = None"
    using i(3) unfolding c by (simp add: slots_ok_def mutexes_held_def)
  ultimately show ?thesis using m(1,2) unfolding d by (intro ctl_okI)
qed

lemma disconnect_end_ok:
  assumes ok: "ctl_ok s" and p: "phase s = Disc_wait" "rd s = None" "wr s = None"
    and r: "wdm_disconnect_end (sdev s) = Inr d"
  shows "ctl_ok (s\<lparr>sdev := d, phase := Gone\<rparr>)"
proof -
  have i: "dev_ok Disc_wait (port_started s) (sdev s)" "cmd_ok Disc_wait (port_started s) (wr s) (sdev s)"
    using ok p by (simp_all add: ctl_ok_def)
  obtain d1 where d1: "poison_urbs (sdev s) = Inr d1" and
    e: "d = (if count d1 = 0 then (cancel_works d1)\<lparr>cleaned := True\<rparr> else cancel_works d1)"
    using r by (auto simp: wdm_disconnect_end_def and_then_Inr Let_def)
  note q = poison_ok [OF i d1]
  let ?f = "cancel_works d1"
  have f: "dev_ok Disc_wait (port_started s) ?f" by (rule dev_ok_cancel [OF q(1)])
  have st: "stopped ?f" by (rule quiesced_stopped [OF q(2)])
  have "\<not> port_started s" using i(1) by (auto simp: dev_ok_def)
  moreover have "stopped (?f\<lparr>cleaned := True\<rparr>)" using st by (simp add: stopped_def)
  ultimately have "dev_ok Gone (port_started s) d"
    using f st unfolding e by (simp add: dev_ok_def handlers_ok_def)
  moreover have "at_rest (wr s) d" using quiesced_rest(2) [OF q(2)] by (simp add: e)
  ultimately have "ctl_ok (s\<lparr>sdev := d, phase := Gone, port_started := port_started s\<rparr>)"
    using p by (intro at_rest_ctl) simp_all
  then show ?thesis by simp
qed

section \<open>Every step keeps the invariant\<close>

lemma ctl_ok_simps [simp]: "\<lparr>sdev = sdev s, rd = rd s, wr = wr s, phase = phase s, port_started = port_started s\<rparr> = s"
  by simp

theorem wdm_step_ctl:
  assumes "wdm_step tr s l s'" "ctl_ok s"
  shows "ctl_ok s'"
  using assms(1)
proof cases
  case (command_done st d)
  then show ?thesis using command_done_ok [OF assms(2)] by simp
next
  case (response_done data alloc_ok st d)
  then show ?thesis using same_view_ok [OF _ assms(2)] in_callback_view by simp
next
  case (interrupt_done rs vs st sbuf d)
  then show ?thesis using same_view_ok [OF _ assms(2)] int_callback_view by simp
next
  case (run_rxwork rs d)
  then show ?thesis using same_view_ok [OF _ assms(2)] work_views by simp
next
  case (run_service rs d)
  then show ?thesis using same_view_ok [OF _ assms(2)] service_work_view by simp
next
  case (read_lock pc d nonblock cnt)
  have v: "same_view (sdev s) d" using read_lock start_wait_views(1) by simp
  have "ctl_ok ((s\<lparr>sdev := d\<rparr>)\<lparr>rd := Some (nonblock, cnt, pc)\<rparr>)"
    using read_lock v by (intro ctl_ok_reader [OF same_view_ok [OF v assms(2)]]) (simp add: same_view_def)
  then show ?thesis using read_lock by simp
next
  case (read_move nonblock cnt pc rs signal user_ok pc' d)
  have v: "same_view (sdev s) d" using read_move read_next_view by simp
  have "ctl_ok ((s\<lparr>sdev := d\<rparr>)\<lparr>rd := Some (nonblock, cnt, pc')\<rparr>)"
    using read_move by (intro ctl_ok_reader [OF same_view_ok [OF v assms(2)]]) simp
  then show ?thesis using read_move by simp
next
  case (read_return nonblock cnt rv got)
  then show ?thesis using ctl_ok_reader [OF assms(2)] by simp
next
  case (write_start dup intr user r d)
  then show ?thesis using same_view_ok [OF _ assms(2)] start_wait_views(2) by simp
next
  case (write_lock buf nonblock)
  then show ?thesis using assms(2) by (simp add: ctl_ok_def slots_ok_def cmd_ok_def)
next
  case (write_move nonblock pc cs rpm signal pc' d)
  then show ?thesis using write_move_ok [OF assms(2)] by simp
next
  case (write_return nonblock rv)
  then show ?thesis using assms(2) by (simp add: ctl_ok_def slots_ok_def cmd_ok_def)
next
  case (flush_fsync rv r d)
  then show ?thesis using same_view_ok [OF _ assms(2)] start_wait_views(3) by simp
next
  case (open_file vs mp rpm rv d)
  then show ?thesis using open_ok [OF assms(2)] by simp
next
  case (release_file mp d)
  then show ?thesis using release_ok [OF assms(2)] by simp
next
  case (port_start vs mp rv d)
  then show ?thesis using port_start_ok [OF assms(2)] by simp
next
  case (port_stop mp d)
  then show ?thesis using port_stop_ok [OF assms(2)] by simp
next
  case (port_tx cs rpm buf rv d)
  then show ?thesis using port_tx_ok [OF assms(2)] by simp
next
  case (suspend_begin auto rv d)
  then show ?thesis using suspend_begin_ok [OF assms(2)] by simp
next
  case (suspend_end auto d)
  then show ?thesis using suspend_end_ok [OF assms(2)] by simp
next
  case (resume vs rv d)
  then show ?thesis using resume_ok [OF assms(2)] by simp
next
  case (reset_begin d)
  then show ?thesis using reset_begin_ok [OF assms(2)] by simp
next
  case (reset_lock d)
  then show ?thesis using reset_lock_ok [OF assms(2)] by simp
next
  case (reset_end vs rv d)
  then show ?thesis using reset_end_ok [OF assms(2)] by simp
next
  case (disconnect_begin mp d)
  then show ?thesis using disconnect_begin_ok [OF assms(2)] by simp
next
  case (disconnect_end d)
  then show ?thesis using disconnect_end_ok [OF assms(2)] by simp
qed

end
