(* ===== verification/Wdm_Claims.thy ===== *)
theory Wdm_Claims
  imports Wdm_Inv
begin

text \<open>
  The properties of the cdc-wdm driver (modules/cdc-wdm/cdc-wdm.c): what holds on every run of the
  interleaved device of \<open>Wdm_Sys\<close>, by the interpretation of the \<open>lts\<close> and \<open>simulation\<close> interfaces on
  its step relation, and what single operations do on each of their branches.
\<close>

section \<open>Runs of a new device\<close>

definition new_sys :: "create_env \<Rightarrow> nat \<Rightarrow> wdm_sys" where
  "new_sys e bufsize = \<lparr>sdev = wdm_wwan_init e (new_wdm e bufsize), rd = None, wr = None, phase = Running,
     port_started = False\<rparr>"

text \<open>The bytes that go in and come out along a run.\<close>

definition puts :: "wdm_label list \<Rightarrow> bytes" where
  "puts ls = concat (map (\<lambda>l. case l of Put x \<Rightarrow> x | _ \<Rightarrow> []) ls)"

definition gots :: "wdm_label list \<Rightarrow> bytes" where
  "gots ls = concat (map (\<lambda>l. case l of Got x \<Rightarrow> x | _ \<Rightarrow> []) ls)"

lemma puts_gots_simps [simp]:
  "puts [] = []" "gots [] = []"
  "puts (Put x # ls) = x @ puts ls" "puts (Got x # ls) = puts ls" "puts (Quiet # ls) = puts ls" "puts (Shut # ls) = puts ls"
  "gots (Put x # ls) = gots ls" "gots (Got x # ls) = x @ gots ls" "gots (Quiet # ls) = gots ls" "gots (Shut # ls) = gots ls"
  by (simp_all add: puts_def gots_def)

definition wdm_good :: "wdm_sys \<Rightarrow> bool" where
  "wdm_good s = (fifo_ok s \<and> ctl_ok s)"

lemma new_sys_good: "wdm_good (new_sys e n)"
  by (simp add: wdm_good_def fifo_ok_def store_ok_def ctl_ok_def dev_ok_def slots_ok_def cmd_ok_def handlers_ok_def
      out_busy_def tx_busy_def stopped_def mutexes_held_def new_sys_def wdm_wwan_init_def new_wdm_def test_bit_def
      Let_def) (auto simp: min_def)

lemma new_sys_pending: "pending (new_sys e n) = []"
  by (simp add: pending_def new_sys_def wdm_wwan_init_def new_wdm_def Let_def)

interpretation wdm_queue: simulation "wdm_step tr" wdm_good pending queue_step for tr
proof
  fix s l s'
  assume "wdm_good s" "wdm_step tr s l s'"
  then show "wdm_good s'" "queue_step (pending s) l (pending s')"
    using wdm_step_queue wdm_step_ctl by (auto simp: wdm_good_def)
qed

lemma queue_run: "lts_run queue_step q ls q' \<Longrightarrow> q @ puts ls = gots ls @ q'"
proof (induction rule: lts_run.induct)
  case (lts_more q l q' ls q'')
  then show ?case by (cases l) auto
qed simp

text \<open>Property C2: whatever interleaving of completions, reads, writes, open and close, suspend, reset,
  disconnection and the WWAN port happens to a device, the bytes returned to its readers are the
  bytes of the responses it stored, in order, none twice and none missing but those still in its
  buffer.\<close>

theorem wdm_reads_fifo:
  assumes "lts_run (wdm_step tr) (new_sys e n) ls s"
  shows "puts ls = gots ls @ pending s"
  using queue_run [OF wdm_queue.run_simulates [OF assms new_sys_good]] by (simp add: new_sys_pending)

lemma wdm_run_good: "lts_run (wdm_step tr) (new_sys e n) ls s \<Longrightarrow> wdm_good s"
  using wdm_queue.run_good new_sys_good by blast

text \<open>Property C29: no copy leaves its buffer: in a reachable state storing a response that fits the
  control request does not overrun one, whether or not a reader is at work, and neither does any
  move of the reader, if there is one.\<close>

theorem wdm_never_overruns:
  assumes "lts_run (wdm_step tr) (new_sys e n) ls s" "length data \<le> wMaxCommand (sdev s)"
  shows "wdm_in_callback ok st (length data) (resp_done data (sdev s)) \<noteq> Inl Buffer_overrun \<and>
    (\<forall>nonblock cnt pc. rd s = Some (nonblock, cnt, pc) \<longrightarrow>
      wdm_read_next tr rs signal nonblock cnt user_ok pc (sdev s) \<noteq> Inl Buffer_overrun)"
proof -
  have g: "store_ok (sdev s)"
    using wdm_run_good [OF assms(1)] by (simp add: wdm_good_def fifo_ok_def)
  then have "wdm_in_callback ok st (length data) (resp_done data (sdev s)) \<noteq> Inl Buffer_overrun"
    using assms(2) by (auto simp: wdm_in_callback_def in_store_def resp_done_def store_ok_def length_blit Let_def
        clear_bit_def split: sum.splits)
  moreover have "wdm_read_next tr rs signal nonblock cnt user_ok pc (sdev s) \<noteq> Inl Buffer_overrun"
    if "rd s = Some (nonblock, cnt, pc)" for nonblock cnt pc
  proof -
    have "reader_ok (sdev s) pc"
      using wdm_run_good [OF assms(1)] that by (simp add: wdm_good_def fifo_ok_def)
    then show ?thesis
      using g by (cases pc) (auto simp: wdm_read_next_def wdm_read_woken_def wdm_read_copy_def wdm_read_finish_def
          store_ok_def Let_def split: prod.splits)
  qed
  ultimately show ?thesis by blast
qed

text \<open>Property C5: in every reachable state the command buffer is allocated exactly while a command is in
  flight, of which there is at most one and only while a file is open; a writer that is about to
  submit finds the URB idle and no buffer to lose; power references are those of a writer past
  \<open>usb_autopm_get_interface\<close> and of a WWAN packet in flight; and the WWAN port runs only while no
  file is open.\<close>

theorem wdm_command_owned:
  assumes "lts_run (wdm_step tr) (new_sys e n) ls s"
  shows "(outbuf (sdev s) \<noteq> None \<longleftrightarrow> out_busy (sdev s)) \<and>
    (out_busy (sdev s) \<longrightarrow> count (sdev s) > 0) \<and> (port_started s \<longrightarrow> count (sdev s) = 0) \<and>
    (wr s = Some (nonblock, W_Go 0 buf) \<and> \<not> test_bit WDM_RESETTING (sdev s) \<longrightarrow>
      \<not> u_busy (command (sdev s)) \<and> outbuf (sdev s) = None) \<and>
    pm_usage (sdev s) = pm_held (wr s) + (if tx_busy (sdev s) then 1 else 0)"
proof -
  have g: "dev_ok (phase s) (port_started s) (sdev s)" "cmd_ok (phase s) (port_started s) (wr s) (sdev s)" "slots_ok s"
    using wdm_run_good [OF assms] by (simp_all add: wdm_good_def ctl_ok_def)
  have "\<not> u_busy (command (sdev s)) \<and> outbuf (sdev s) = None"
    if w: "wr s = Some (nonblock, W_Go 0 buf)" "\<not> test_bit WDM_RESETTING (sdev s)"
  proof -
    have "count (sdev s) > 0" using g(1,3) w(1) by (auto simp: slots_ok_def dev_ok_def)
    then show ?thesis using write_idle [OF g(1) g(2) [unfolded w(1)]] w(2) by simp
  qed
  then show ?thesis using g by (auto simp: dev_ok_def cmd_ok_def slots_ok_def)
qed

text \<open>Property C10: once a device has been cleaned up nothing can reach it any more: no URB is in flight,
  no work is queued, no file is open, and no step of the system is possible.\<close>

theorem wdm_nothing_after_cleanup:
  assumes "lts_run (wdm_step tr) (new_sys e n) ls s" "cleaned (sdev s)"
  shows "stopped (sdev s) \<and> count (sdev s) = 0 \<and> rd s = None \<and> wr s = None \<and> \<not> wdm_step tr s l s'"
proof -
  have g: "dev_ok (phase s) (port_started s) (sdev s)" "slots_ok s"
    using wdm_run_good [OF assms(1)] by (simp_all add: wdm_good_def ctl_ok_def)
  then have c: "phase s = Gone" "count (sdev s) = 0" "stopped (sdev s)" "\<not> port_started s" "\<not> wwanp (sdev s)"
    using assms(2) by (auto simp: dev_ok_def)
  moreover have "rd s = None" "wr s = None" using g(2) c by (auto simp: slots_ok_def)
  moreover from calculation have "\<not> wdm_step tr s l s'"
    by (auto elim!: wdm_step.cases simp: stopped_def)
  ultimately show ?thesis by simp
qed

text \<open>Fact: if the interrupt URB cannot be submitted when the WWAN port starts, the start fails but
  the port keeps the device: no file can be opened until the port is stopped.\<close>

theorem wdm_failed_port_start_locks_out:
  assumes "count d = 0" "vs < 0" "wdm_wwan_port_start vs mp d = (rv, d1)"
    and "\<not> test_bit WDM_DISCONNECTING d"
  shows "rv = vs \<and> wdm_open tr rpm vs' mp' d1 = (- EBUSY, d1)"
proof -
  have p: "test_bit f (manage_power mp on x) = test_bit f x" for f on x
    by (simp add: manage_power_def test_bit_def)
  show ?thesis using assms p by (auto simp: wdm_wwan_port_start_def wdm_open_def Let_def)
qed

section \<open>Reading and writing\<close>

text \<open>Property C34: a read of unread data returns the first bytes of it, as many as asked for, removes
  exactly these, and clears \<open>WDM_READ\<close> when none is left; if user memory faults it returns
  \<open>-EFAULT\<close> and nothing is lost.\<close>

theorem wdm_read_returns:
  assumes "store_ok d" "dlength d > 0" "\<not> iuspin d"
  shows "let n = min (dlength d) cnt in
    if user_ok
    then \<exists>d'. wdm_read tr False rs nonblock cnt user_ok d = Inr (R_Ret (int n) (take n (ubuf d)), d') \<and>
      dlength d' = dlength d - n \<and> take (dlength d') (ubuf d') = drop n (take (dlength d) (ubuf d)) \<and>
      (n = dlength d \<longrightarrow> \<not> test_bit WDM_READ d') \<and> (n < dlength d \<longrightarrow> test_bit WDM_READ d' = test_bit WDM_READ d)
    else wdm_read tr False rs nonblock cnt user_ok d = Inr (R_Ret (- EFAULT) [], d)"
proof -
  define n where "n = min (dlength d) cnt"
  have l: "n \<le> length (ubuf d)" "n \<le> dlength d" using assms(1) by (auto simp: store_ok_def n_def)
  have ret: "wdm_read_run k tr rs nonblock cnt user_ok (R_Ret rv got, x) = Inr (R_Ret rv got, x)" for k rv got x
    by (induction k) (simp_all add: wdm_read_next_def)
  have c: "wdm_read_copy cnt user_ok (dlength d) d = (if user_ok then Inr (R_Finish (take n (ubuf d))) else Inr (R_Ret (- EFAULT) []))"
    using l unfolding wdm_read_copy_def Let_def n_def [symmetric] by simp
  show ?thesis
  proof (cases user_ok)
    case False
    then have "wdm_read tr False rs nonblock cnt user_ok d = Inr (R_Ret (- EFAULT) [], d)"
      using assms(2) c ret by (simp add: wdm_read_def wdm_read_start_def numeral_eq_Suc wdm_read_next_def)
    then show ?thesis using False by simp
  next
    case True
    have len: "length (take n (ubuf d)) = n" using l by simp
    define e where "e = d\<lparr>ubuf := blit (ubuf d) 0 (window (ubuf d) n (dlength d - n)), dlength := dlength d - n\<rparr>"
    define d' where "d' = (if dlength e = 0 then snd (service_outstanding_interrupt rs (clear_bit WDM_READ e)) else e)"
    have f: "wdm_read_finish rs (take n (ubuf d)) d = Inr (R_Ret (int n) (take n (ubuf d)), d')"
      using assms(1,3) unfolding wdm_read_finish_def len by (simp add: store_ok_def Let_def e_def d'_def)
    then have "wdm_read tr False rs nonblock cnt user_ok d = Inr (R_Ret (int n) (take n (ubuf d)), d')"
      using assms(2) c ret True by (simp add: wdm_read_def wdm_read_start_def numeral_eq_Suc wdm_read_next_def)
    moreover have "store_of d' = store_of e" by (simp add: d'_def)
    then have "dlength d' = dlength d - n" "take (dlength d') (ubuf d') = drop n (take (dlength d) (ubuf d))"
      using take_shift [of n "dlength d" "ubuf d"] l assms(1) by (simp_all add: store_of_def e_def store_ok_def)
    moreover have "n = dlength d \<Longrightarrow> \<not> test_bit WDM_READ d'"
      by (auto simp: d'_def e_def service_outstanding_interrupt_def Let_def)
    moreover have "n < dlength d \<Longrightarrow> test_bit WDM_READ d' = test_bit WDM_READ d"
      by (simp add: d'_def e_def)
    ultimately show ?thesis using True by (auto simp: n_def Let_def)
  qed
qed

text \<open>The moves of a writer in sequence, with nothing in between.\<close>

definition wdm_write ::
  "(int \<Rightarrow> int) \<Rightarrow> int \<Rightarrow> bool \<Rightarrow> int \<Rightarrow> int \<Rightarrow> bool \<Rightarrow> bool \<Rightarrow> bytes \<Rightarrow> wdm_device \<Rightarrow> wdm_fault + (wr_pc \<times> wdm_device)" where
  "wdm_write tr dup intr rpm cs signal nonblock user d =
    and_then (wdm_write_start tr dup intr user d) (\<lambda>(r, d1). case r of
      Inl rv \<Rightarrow> Inr (W_Ret rv, d1)
    | Inr buf \<Rightarrow>
        let (p2, d2) = wdm_write_next tr rpm cs signal nonblock (W_Locked buf) d1;
            (p3, d3) = wdm_write_next tr rpm cs signal nonblock p2 d2
        in Inr (wdm_write_next tr rpm cs signal nonblock p3 d3))"

text \<open>What a writer that need not wait returns, in the order of the checks.\<close>

definition write_result :: "(int \<Rightarrow> int) \<Rightarrow> int \<Rightarrow> bool \<Rightarrow> int \<Rightarrow> int \<Rightarrow> bytes \<Rightarrow> wdm_device \<Rightarrow> int" where
  "write_result tr dup intr rpm cs user d =
    (if werr d < 0 then tr (werr d)
     else if dup < 0 then dup
     else if intr then - ERESTARTSYS
     else if test_bit WDM_DISCONNECTING d then - ENODEV
     else if rpm < 0 then tr rpm
     else if test_bit WDM_RESETTING d then - EIO
     else if test_bit WDM_IN_USE d then - EAGAIN
     else if cs < 0 then tr cs
     else int (min (length user) (wMaxCommand d)))"

definition write_sends :: "int \<Rightarrow> bool \<Rightarrow> int \<Rightarrow> int \<Rightarrow> wdm_device \<Rightarrow> bool" where
  "write_sends dup intr rpm cs d = (werr d \<ge> 0 \<and> dup \<ge> 0 \<and> \<not> intr \<and> rpm \<ge> 0 \<and> cs \<ge> 0 \<and> \<not> test_bit WDM_DISCONNECTING d \<and>
    \<not> test_bit WDM_RESETTING d \<and> \<not> test_bit WDM_IN_USE d)"

lemma write_go_result:
  assumes "wdm_write_go tr cs r buf d = (pc, d')"
  shows "pc = W_Ret (if test_bit WDM_DISCONNECTING d then - ENODEV else if test_bit WDM_RESETTING d then - EIO
      else if r < 0 then r else if cs < 0 then tr cs else int (length buf)) \<and>
    pm_usage d' = pm_usage d - 1 \<and> werr d' = werr d \<and>
    (if \<not> test_bit WDM_DISCONNECTING d \<and> \<not> test_bit WDM_RESETTING d \<and> r \<ge> 0 \<and> cs \<ge> 0
     then cmds d' = cmds d @ [(write_setup (inum d) buf, buf)] \<and> outbuf d' = Some buf \<and> test_bit WDM_IN_USE d'
     else cmds d' = cmds d)"
  using assms by (auto simp: wdm_write_go_def Let_def split: if_splits)

lemma write_start_result:
  "\<not> iuspin d \<Longrightarrow> wdm_write_start tr dup intr user d =
    Inr (if werr d < 0 then Inl (tr (werr d)) else if dup < 0 then Inl dup else if intr then Inl (- ERESTARTSYS)
      else Inr (take (min (length user) (wMaxCommand d)) user), d\<lparr>werr := 0\<rparr>)"
  by (simp add: wdm_write_start_def Let_def)

text \<open>Property C35: a write that need not wait returns the error of the previous command, or the first
  failing check's error, or the number of bytes it sends: the data clipped to \<open>wMaxCommand\<close>. It hands
  exactly one command with exactly these bytes and their length to the USB core if it sends, and
  none otherwise; and it gives its power reference back.\<close>

theorem wdm_write_outcome:
  assumes "\<not> iuspin d" "nonblock \<or> \<not> test_bit WDM_IN_USE d" "wMaxCommand d < 65536"
  shows "\<exists>d'. wdm_write tr dup intr rpm cs signal nonblock user d = Inr (W_Ret (write_result tr dup intr rpm cs user d), d') \<and>
    pm_usage d' = pm_usage d \<and> werr d' = 0 \<and>
    (if write_sends dup intr rpm cs d
     then \<exists>req. cmds d' = cmds d @ [(req, take (wMaxCommand d) user)] \<and> wLength req = min (length user) (wMaxCommand d) \<and>
       wIndex req = inum d \<and> bRequest req = SEND_ENCAPSULATED_COMMAND \<and> outbuf d' = Some (take (wMaxCommand d) user)
     else cmds d' = cmds d)"
proof -
  let ?buf = "take (min (length user) (wMaxCommand d)) user"
  let ?e = "d\<lparr>werr := 0\<rparr>" and ?f = "d\<lparr>werr := 0, pm_usage := pm_usage d + 1\<rparr>"
  have b: "?buf = take (wMaxCommand d) user" by (cases "length user \<le> wMaxCommand d") simp_all
  show ?thesis
  proof (cases "werr d < 0 \<or> dup < 0 \<or> intr \<or> test_bit WDM_DISCONNECTING d \<or> rpm < 0")
    case True
    then show ?thesis
      using assms(1) by (auto simp: wdm_write_def write_start_result write_result_def write_sends_def wdm_write_next_def
          wdm_write_locked_def)
  next
    case False
    define r where "r = (if test_bit WDM_IN_USE d then - EAGAIN else 0)"
    obtain pc d' where g: "wdm_write_go tr cs r ?buf ?f = (pc, d')" by fastforce
    have w: "wdm_write tr dup intr rpm cs signal nonblock user d = Inr (pc, d')"
      using assms(1,2) False g write_go_result [OF g]
      by (auto simp: wdm_write_def write_start_result wdm_write_next_def wdm_write_locked_def wdm_write_wait_def r_def Let_def)
    show ?thesis using write_go_result [OF g] False assms(3) unfolding w b
      by (auto simp: write_result_def write_sends_def r_def write_setup_def min_def split: if_splits)
  qed
qed

section \<open>An empty response\<close>

lemma service_keeps:
  "iuspin (snd (service_outstanding_interrupt rs d)) = iuspin d"
  "test_bit WDM_READ (snd (service_outstanding_interrupt rs d)) = test_bit WDM_READ d"
  "test_bit WDM_DISCONNECTING (snd (service_outstanding_interrupt rs d)) = test_bit WDM_DISCONNECTING d"
  "test_bit WDM_OVERFLOW (snd (service_outstanding_interrupt rs d)) = test_bit WDM_OVERFLOW d"
  "test_bit WDM_RESETTING (snd (service_outstanding_interrupt rs d)) = test_bit WDM_RESETTING d"
  "count (snd (service_outstanding_interrupt rs d)) = count d"
  by (simp_all add: service_outstanding_interrupt_def Let_def)

lemma read_run_empty:
  assumes "\<not> test_bit WDM_READ d" "\<not> test_bit WDM_DISCONNECTING d" "\<not> test_bit WDM_OVERFLOW d"
  shows "wdm_read_run (Suc (Suc k)) tr rs nonblock cnt user_ok (R_Retry, d) =
    Inr (if nonblock then R_Ret (- EAGAIN) [] else R_Wait, d)"
proof -
  have r: "wdm_read_run k tr rs nonblock cnt user_ok (R_Ret rv got, x) = Inr (R_Ret rv got, x)" for k rv got x
    by (induction k) (simp_all add: wdm_read_next_def)
  have w: "wdm_read_run k tr rs nonblock cnt user_ok (R_Wait, d) = Inr (R_Wait, d)" for k
    using assms by (induction k) (simp_all add: wdm_read_next_def wdm_read_wait_def)
  show ?thesis using assms r w [of "Suc k"] by (auto simp: wdm_read_next_def wdm_read_retry_def)
qed

text \<open>With the spinlock held, whatever takes it is stuck; what poisons the URBs first either gets
  stuck in a completion handler or still finds the lock held.\<close>

lemma spin_poison_with:
  "iuspin d \<Longrightarrow> poison_with u d = Inl Spin_deadlock \<or> (\<exists>d'. poison_with u d = Inr d' \<and> iuspin d' \<and>
     count d' = count d)"
  by (cases "u_complete u") (auto simp: poison_with_def giveback_def wdm_out_callback_def wdm_in_callback_def
      wdm_int_callback_def unlinked_def wdm_wwan_port_tx_complete_def)

lemma spin_poison_urbs:
  assumes "iuspin d"
  shows "poison_urbs d = Inl Spin_deadlock \<or> (\<exists>d'. poison_urbs d = Inr d' \<and> iuspin d')"
proof -
  let ?d1 = "d\<lparr>command := poisoned (command d)\<rparr>"
  show ?thesis
  proof (cases "poison_with (command d) ?d1")
    case (Inl f)
    then show ?thesis using spin_poison_with [of ?d1 "command d"] assms by (auto simp: poison_urbs_def)
  next
    case (Inr d1)
    then have s1: "iuspin d1" using spin_poison_with [of ?d1 "command d"] assms by auto
    let ?d2 = "d1\<lparr>validity := poisoned (validity d1)\<rparr>"
    show ?thesis
    proof (cases "poison_with (validity d1) ?d2")
      case (Inl f)
      then show ?thesis using spin_poison_with [of ?d2 "validity d1"] s1 Inr by (auto simp: poison_urbs_def)
    next
      case i2: (Inr d2)
      then have s2: "iuspin d2" using spin_poison_with [of ?d2 "validity d1"] s1 by auto
      let ?d3 = "d2\<lparr>response := poisoned (response d2)\<rparr>"
      show ?thesis using spin_poison_with [of ?d3 "response d2"] s2 Inr i2 by (auto simp: poison_urbs_def)
    qed
  qed
qed

lemma spin_deadlocks:
  assumes "iuspin d"
  shows "wdm_in_callback alloc st len d = Inl Spin_deadlock" "wdm_out_callback st d = Inl Spin_deadlock"
    "int_response_available rs vs d = Inl Spin_deadlock" "service_interrupt_work rs d = Inl Spin_deadlock"
    "wdm_rxwork rs d = Inl Spin_deadlock" "wdm_write_start tr dup intr user d = Inl Spin_deadlock"
    "wdm_poll d = Inl Spin_deadlock" "suspend_mark auto d = Inl Spin_deadlock"
    "wdm_pre_reset_begin d = Inl Spin_deadlock" "wdm_disconnect_begin started mp d = Inl Spin_deadlock"
proof -
  show "wdm_disconnect_begin started mp d = Inl Spin_deadlock"
    using assms spin_poison_urbs [OF assms]
    by (auto simp: wdm_disconnect_begin_def wdm_wwan_deinit_def wdm_wwan_port_stop_def manage_power_def
        clear_bit_def unpoison_urbs_def and_then_def)
qed (use assms in \<open>simp_all add: wdm_in_callback_def wdm_out_callback_def int_response_available_def
    service_interrupt_work_def wdm_rxwork_def wdm_write_start_def wdm_poll_def suspend_mark_def wdm_pre_reset_begin_def\<close>)

lemma spin_deadlocks_live:
  assumes "iuspin d" "\<not> test_bit WDM_DISCONNECTING d"
  shows "\<not> test_bit WDM_RESETTING d \<Longrightarrow> wdm_read_woken tr rs 0 d = Inl Spin_deadlock"
    "0 < rv \<Longrightarrow> wdm_wait_for_response tr rv d = Inl Spin_deadlock"
    "count d = 1 \<Longrightarrow> wdm_release mp d = Inl Spin_deadlock"
proof -
  have "iuspin (d\<lparr>count := 0\<rparr>)" using assms(1) by simp
  note p = spin_poison_urbs [OF this]
  show "count d = 1 \<Longrightarrow> wdm_release mp d = Inl Spin_deadlock"
    using assms p by (auto simp: wdm_release_def test_bit_def)
qed (use assms in \<open>simp_all add: wdm_read_woken_def wdm_wait_for_response_def\<close>)

text \<open>Property C23: after a response of length zero, or a stall, the next read returns to its wait (or
  returns an error) with the device's spinlock still held. From then on everything that takes the
  lock deadlocks: the completions of the response and of a command, the handler of a response
  notification, both work items, write, poll, a reader past its wait, flush and fsync once their wait
  ends well, suspend, the start of a reset, disconnection, and the release of the last open file.\<close>

theorem wdm_empty_response_deadlocks:
  assumes "\<not> iuspin d" "dlength d = 0" "rerr d = 0" "flags d \<inter> {WDM_WWAN_IN_USE, WDM_DISCONNECTING, WDM_RESETTING, WDM_OVERFLOW} = {}"
    and "st = 0 \<or> st = - EPIPE"
  shows "\<exists>d1 pc d2. wdm_in_callback alloc st 0 d = Inr d1 \<and>
    wdm_read tr False rs nonblock cnt user_ok d1 = Inr (pc, d2) \<and> (pc = R_Wait \<or> (\<exists>rv. rv < 0 \<and> pc = R_Ret rv [])) \<and>
    iuspin d2 \<and> wdm_in_callback alloc' st' len' d2 = Inl Spin_deadlock \<and> wdm_out_callback st' d2 = Inl Spin_deadlock \<and>
    wdm_write_start tr dup intr user d2 = Inl Spin_deadlock \<and> wdm_poll d2 = Inl Spin_deadlock \<and>
    int_response_available rs' vs d2 = Inl Spin_deadlock \<and> service_interrupt_work rs' d2 = Inl Spin_deadlock \<and>
    wdm_rxwork rs' d2 = Inl Spin_deadlock \<and> wdm_read_woken tr rs' 0 d2 = Inl Spin_deadlock \<and>
    (0 < rv' \<longrightarrow> wdm_wait_for_response tr rv' d2 = Inl Spin_deadlock) \<and>
    suspend_mark auto d2 = Inl Spin_deadlock \<and> wdm_pre_reset_begin d2 = Inl Spin_deadlock \<and>
    wdm_disconnect_begin started mp d2 = Inl Spin_deadlock \<and>
    (count d = 1 \<longrightarrow> wdm_release mp d2 = Inl Spin_deadlock)"
proof -
  define d1 where "d1 = set_bit WDM_READ ((clear_bit WDM_RESPONDING (d\<lparr>dread := dread d\<rparr>))\<lparr>reslength := 0, ubuf := blit (ubuf d) 0 []\<rparr>)"
  have b: "\<not> test_bit WDM_WWAN_IN_USE d" "\<not> test_bit WDM_DISCONNECTING d" "\<not> test_bit WDM_RESETTING d" "\<not> test_bit WDM_OVERFLOW d"
    using assms(4) by (auto simp: test_bit_def)
  have i: "wdm_in_callback alloc st 0 d = Inr d1"
    using assms b by (auto simp: wdm_in_callback_def unlinked_def in_store_def in_skip_error_def d1_def Let_def
        set_bit_def clear_bit_def test_bit_def)
  have f: "\<not> iuspin d1" "dlength d1 = 0" "rerr d1 = 0" "reslength d1 = 0" "test_bit WDM_READ d1"
      "\<not> test_bit WDM_DISCONNECTING d1" "\<not> test_bit WDM_RESETTING d1" "\<not> test_bit WDM_OVERFLOW d1"
    using assms b by (simp_all add: d1_def)
  define e where "e = d1\<lparr>dread := 0\<rparr>"
  obtain rv d2 where s: "service_outstanding_interrupt rs ((clear_bit WDM_READ e)\<lparr>iuspin := True\<rparr>) = (rv, d2)"
    by fastforce
  have d2: "iuspin d2" "\<not> test_bit WDM_READ d2" "\<not> test_bit WDM_DISCONNECTING d2" "\<not> test_bit WDM_OVERFLOW d2"
      "\<not> test_bit WDM_RESETTING d2" "count d2 = count d"
    using service_keeps [of rs "(clear_bit WDM_READ e)\<lparr>iuspin := True\<rparr>"] s f by (simp_all add: e_def d1_def)
  have w: "wdm_read_woken tr rs 0 e = Inr (if rv < 0 then R_Ret rv [] else R_Retry, d2)"
    using f s by (simp add: wdm_read_woken_def e_def)
  have r: "wdm_read_run k tr rs nonblock cnt user_ok (R_Ret rv got, x) = Inr (R_Ret rv got, x)" for k rv got x
    by (induction k) (simp_all add: wdm_read_next_def)
  define pc where "pc = (if rv < 0 then R_Ret rv [] else if nonblock then R_Ret (- EAGAIN) [] else R_Wait)"
  have t: "wdm_read_run (Suc (Suc (Suc k))) tr rs nonblock cnt user_ok (R_Woken 0, e) = Inr (pc, d2)" for k
    using w r read_run_empty [OF d2(2-4), of k] by (simp add: wdm_read_next_def pc_def)
  have "wdm_read tr False rs nonblock cnt user_ok d1 = wdm_read_run 7 tr rs nonblock cnt user_ok (R_Retry, e)"
    using f by (simp add: wdm_read_def wdm_read_start_def e_def)
  also have "\<dots> = Inr (pc, d2)"
  proof -
    have st: "wdm_read_run (Suc (Suc k)) tr rs nonblock cnt user_ok (R_Retry, e) =
        (if nonblock then wdm_read_run (Suc k) tr rs nonblock cnt user_ok (R_Woken 0, e)
         else wdm_read_run k tr rs nonblock cnt user_ok (R_Woken 0, e))" for k
      using f by (auto simp: wdm_read_next_def wdm_read_retry_def wdm_read_wait_def e_def)
    have n: "(7::nat) = Suc (Suc 5)" "(5::nat) = Suc (Suc (Suc 2))" "Suc (Suc (Suc (Suc 2))) = Suc (Suc (Suc 3))" by simp_all
    show ?thesis unfolding n(1) st unfolding n(2,3) t by (cases nonblock) (simp_all only: if_True if_False)
  qed
  finally have "wdm_read tr False rs nonblock cnt user_ok d1 = Inr (pc, d2)" .
  moreover have "pc = R_Wait \<or> (\<exists>rv. rv < 0 \<and> pc = R_Ret rv [])" by (simp add: pc_def)
  ultimately show ?thesis
    using i d2(1) by (intro exI [of _ d1] exI [of _ pc] exI [of _ d2] conjI impI)
      (simp_all add: spin_deadlocks [OF d2(1)] spin_deadlocks_live [OF d2(1,3)] d2(5,6))
qed

section \<open>A lost notification\<close>

text \<open>
  \<open>WDM_RESPONDING\<close> set and responses counted, but no response URB in flight, nothing stored and no
  work or reader on the way to fetch one.
\<close>

definition lost_dev :: "wdm_device \<Rightarrow> bool" where
  "lost_dev d = (test_bit WDM_RESPONDING d \<and> resp_count d > 0 \<and> \<not> u_busy (response d) \<and> \<not> test_bit WDM_READ d \<and>
    dlength d = 0 \<and> \<not> work_srv d \<and> handlers_ok d \<and> \<not> test_bit WDM_DISCONNECTING d)"

definition no_data :: "(bool \<times> nat \<times> rd_pc) option \<Rightarrow> bool" where
  "no_data r = (case r of None \<Rightarrow> True | Some (nonblock, cnt, pc) \<Rightarrow>
    (case pc of R_Copy c \<Rightarrow> False | R_Finish got \<Rightarrow> False | _ \<Rightarrow> True))"

lemma no_data_simps [simp]:
  "no_data None" "no_data (Some (nb, cnt, R_Retry))" "no_data (Some (nb, cnt, R_Wait))"
  "no_data (Some (nb, cnt, R_Woken rv))" "no_data (Some (nb, cnt, R_Ret rv got))"
  "\<not> no_data (Some (nb, cnt, R_Copy c))" "\<not> no_data (Some (nb, cnt, R_Finish got))"
  by (simp_all add: no_data_def)

definition lost :: "wdm_sys \<Rightarrow> bool" where
  "lost s = (lost_dev (sdev s) \<and> no_data (rd s) \<and> phase s \<noteq> Disc_wait \<and> phase s \<noteq> Gone)"

text \<open>Most operations leave alone what \<open>lost_dev\<close> speaks of.\<close>

definition same_resp :: "wdm_device \<Rightarrow> wdm_device \<Rightarrow> bool" where
  "same_resp d d' = (test_bit WDM_RESPONDING d' = test_bit WDM_RESPONDING d \<and> resp_count d' = resp_count d \<and>
    u_busy (response d') = u_busy (response d) \<and> test_bit WDM_READ d' = test_bit WDM_READ d \<and>
    dlength d' = dlength d \<and> work_srv d' = work_srv d \<and> handlers_ok d' = handlers_ok d \<and>
    test_bit WDM_DISCONNECTING d' = test_bit WDM_DISCONNECTING d)"

lemma same_resp_lost: "same_resp d d' \<Longrightarrow> lost_dev d' = lost_dev d"
  by (simp add: same_resp_def lost_dev_def)

lemma lost_int:
  assumes "lost_dev d" "wdm_int_callback rs vs st sbuf (int_done d) = Inr d'"
  shows "lost_dev d'"
  using assms by (auto simp: wdm_int_callback_def int_response_available_def int_exit_def int_done_def lost_dev_def
      handlers_ok_def Let_def split: if_splits)

lemma lost_command:
  assumes "lost_dev d" "giveback (u_complete (command d)) st (cmd_done d) = Inr d'"
  shows "lost_dev d'"
  using assms by (auto simp: giveback_def cmd_done_def lost_dev_def handlers_ok_def wdm_out_callback_def
      wdm_wwan_port_tx_complete_def split: if_splits)

lemma lost_rxwork:
  assumes "lost_dev d" "wdm_rxwork rs (d\<lparr>work_rx := False\<rparr>) = Inr d'"
  shows "lost_dev d'"
  using assms by (auto simp: wdm_rxwork_def lost_dev_def handlers_ok_def Let_def split: if_splits)

lemma lost_read:
  assumes "lost_dev d" "no_data (Some (nb, cnt, pc))" "wdm_read_next tr rs signal nb cnt user_ok pc d = Inr (pc', d')"
  shows "lost_dev d' \<and> no_data (Some (nb, cnt, pc')) \<and> read_label pc = Quiet"
proof (cases pc)
  case (R_Woken rv)
  then show ?thesis using assms
    by (auto simp: wdm_read_next_def wdm_read_woken_def lost_dev_def read_label_def handlers_ok_def split: if_splits)
qed (use assms in \<open>auto simp: wdm_read_next_def wdm_read_retry_def wdm_read_wait_def lost_dev_def read_label_def
      handlers_ok_def split: if_splits\<close>)

lemma lost_write:
  assumes "lost_dev d" "wdm_write_next tr rpm cs signal nb pc d = (pc', d')"
  shows "lost_dev d'"
proof (cases pc)
  case (W_Locked buf)
  then show ?thesis using assms
    by (auto simp: wdm_write_next_def wdm_write_locked_def lost_dev_def handlers_ok_def Let_def split: if_splits)
next
  case (W_Go r buf)
  then have "wdm_write_go tr cs r buf d = (pc', d')" using assms(2) by (simp add: wdm_write_next_def)
  then show ?thesis using assms(1)
    by (cases rule: write_go_cases) (simp_all add: lost_dev_def handlers_ok_def)
qed (use assms in \<open>simp_all add: wdm_write_next_def\<close>)

lemma lost_open:
  assumes "lost_dev d" "balanced mp" "count d \<ge> 0" "wdm_open tr rpm vs mp d = (rv, d')"
  shows "lost_dev d'"
  using assms(4,2,3) by (cases rule: open_cases) (use assms(1) in \<open>simp_all add: lost_dev_def handlers_ok_def\<close>)

lemma lost_poison:
  assumes "lost_dev d" "poison_urbs d = Inr d'"
  shows "lost_dev d'"
proof -
  have h: "handlers_ok d" using assms(1) by (simp add: lost_dev_def)
  have s: "poison_shape d d'" by (rule poison_urbs_shape [OF h assms(2)])
  have "dlength d' = dlength d" using poison_urbs_frame [OF assms(2)] by (simp add: store_of_def)
  moreover have "test_bit WDM_DISCONNECTING d' = test_bit WDM_DISCONNECTING d"
    using s unfolding poison_shape_def by blast
  ultimately show ?thesis using s assms(1)
    by (simp add: lost_dev_def poison_shape_def handlers_ok_def)
qed

lemma lost_suspend:
  assumes "lost_dev d" "suspend_stop d = Inr d'"
  shows "lost_dev d'"
proof -
  obtain e where e: "poison_urbs d = Inr e" "d' = unpoison_urbs (cancel_works e)"
    using assms(2) by (auto simp: suspend_stop_def and_then_Inr)
  have "lost_dev e" by (rule lost_poison [OF assms(1) e(1)])
  then show ?thesis unfolding e(2)
    by (simp add: lost_dev_def handlers_ok_def unpoison_urbs_def cancel_works_def unpoisoned_def)
qed

lemma lost_views:
  "lost_dev d \<Longrightarrow> wdm_read_start False d = (pc, d') \<Longrightarrow> lost_dev d' \<and> no_data (Some (nb, cnt, pc))"
  "lost_dev d \<Longrightarrow> wdm_write_start tr dup intr user d = Inr (r, d') \<Longrightarrow> lost_dev d'"
  "lost_dev d \<Longrightarrow> wdm_wait_for_response tr rv d = Inr (x, d') \<Longrightarrow> lost_dev d'"
  "lost_dev d \<Longrightarrow> suspend_mark auto d = Inr (rv', d') \<Longrightarrow> lost_dev d'"
  "lost_dev d \<Longrightarrow> wdm_resume vs d = (rv', d') \<Longrightarrow> lost_dev d'"
  "lost_dev d \<Longrightarrow> count d \<noteq> 1 \<Longrightarrow> wdm_release mp d = Inr d' \<Longrightarrow> lost_dev d'"
  by (auto simp: wdm_read_start_def wdm_write_start_def wdm_wait_for_response_def suspend_mark_def wdm_resume_def
      recover_from_urb_loss_def wdm_release_def lost_dev_def handlers_ok_def Let_def split: if_splits)

lemma lost_step:
  assumes "wdm_step tr s l s'" "lost s" "ctl_ok s" "l \<noteq> Shut"
  shows "lost s' \<and> l = Quiet"
  using assms(1)
proof cases
  case (command_done st d)
  then show ?thesis using assms(2) by (auto simp: lost_def dest: lost_command)
next
  case (response_done data alloc_ok st d)
  then show ?thesis using assms(2) by (simp add: lost_def lost_dev_def)
next
  case (interrupt_done rs vs st sbuf d)
  then show ?thesis using assms(2) by (auto simp: lost_def dest: lost_int)
next
  case (run_rxwork rs d)
  then show ?thesis using assms(2) by (auto simp: lost_def dest: lost_rxwork)
next
  case (run_service rs d)
  then show ?thesis using assms(2) by (simp add: lost_def lost_dev_def)
next
  case (read_lock pc d nonblock cnt)
  then show ?thesis using assms(2) lost_views(1) [of "sdev s" pc d] by (simp add: lost_def)
next
  case (read_move nonblock cnt pc rs signal user_ok pc' d)
  then show ?thesis using assms(2) lost_read [of "sdev s" nonblock cnt pc] by (auto simp: lost_def)
next
  case (open_file vs mp rpm rv d)
  moreover have "count (sdev s) \<ge> 0" using assms(3) by (simp add: ctl_ok_def dev_ok_def)
  ultimately show ?thesis using assms(2) by (auto simp: lost_def dest: lost_open)
next
  case (release_file mp d)
  then show ?thesis using assms(2,4) by (auto simp: lost_def dest: lost_views(6) split: if_splits)
next
  case (write_move nonblock pc cs rpm signal pc' d)
  then show ?thesis using assms(2) by (auto simp: lost_def dest: lost_write)
next
  case (suspend_end auto d)
  then show ?thesis using assms(2) by (auto simp: lost_def dest: lost_suspend)
qed (use assms(2,4) in \<open>auto simp: lost_def dest: lost_views\<close>)

definition hung :: "wdm_sys \<Rightarrow> bool" where
  "hung s = (lost s \<and> ctl_ok s)"

text \<open>The quiet steps of a hung device are a transition system of their own.\<close>

interpretation hung: lts "\<lambda>s l s'. wdm_step tr s l s' \<and> l \<noteq> Shut" hung for tr
proof
  fix s l s'
  assume "hung s" "wdm_step tr s l s' \<and> l \<noteq> Shut"
  then show "hung s'" using lost_step wdm_step_ctl by (auto simp: hung_def)
qed

lemma hung_run:
  assumes "lts_run (wdm_step tr) s ls s'" "hung s" "Shut \<notin> set ls"
  shows "hung s' \<and> set ls \<subseteq> {Quiet}"
  using assms
proof (induction rule: lts_run.induct)
  case (lts_more s l s' ls s'')
  have "hung s'" using lts_more.hyps(1) lts_more.prems hung.trans_good by auto
  moreover have "l = Quiet" using lost_step [OF lts_more.hyps(1)] lts_more.prems by (auto simp: hung_def)
  ultimately show ?case using lts_more by simp
qed simp

text \<open>A device nobody is reading, with no response announced, in flight or stored.\<close>

definition quiet :: "wdm_sys \<Rightarrow> bool" where
  "quiet s = (\<not> test_bit WDM_RESPONDING (sdev s) \<and> \<not> test_bit WDM_READ (sdev s) \<and> resp_count (sdev s) = 0 \<and>
    dlength (sdev s) = 0 \<and> \<not> u_busy (response (sdev s)) \<and> \<not> work_srv (sdev s) \<and> no_data (rd s) \<and>
    phase s \<noteq> Disc_wait \<and> phase s \<noteq> Gone)"

lemma ctl_okD:
  assumes "ctl_ok s"
  shows "handlers_ok (sdev s)" "phase s \<noteq> Disc_wait \<Longrightarrow> phase s \<noteq> Gone \<Longrightarrow> \<not> test_bit WDM_DISCONNECTING (sdev s)"
  using assms by (auto simp: ctl_ok_def dev_ok_def)


text \<open>Fact: if the response URB cannot be submitted for a reason other than lack of memory, the
  response count of the notification stays, and the next notification, meant to try again, marks
  a response as being fetched without fetching it: the device hangs as above.\<close>

theorem wdm_failed_fetch_hangs:
  assumes good: "ctl_ok s" and q: "quiet s" and w: "\<not> work_rx (sdev s)"
    and v: "u_busy (validity (sdev s))" "answer_ok (response (sdev s)) rs" "answer_ok (validity (int_done (sdev s))) vs"
    and fail: "rs < 0" "rs \<noteq> - EPERM" "rs \<noteq> - ENOMEM" "vs = 0"
    and n: "wdm_int_callback rs vs 0 sbuf (int_done (sdev s)) = Inr d1" "length sbuf \<ge> 8" "sbuf ! 1 = 1"
    and v2: "answer_ok (response d1) rs'" "answer_ok (validity (int_done d1)) vs'"
    and n2: "wdm_int_callback rs' vs' 0 sbuf (int_done d1) = Inr d2"
    and run: "lts_run (wdm_step tr) (s\<lparr>sdev := d2\<rparr>) ls s'" "Shut \<notin> set ls"
  shows "set ls \<subseteq> {Quiet} \<and> \<not> u_busy (response (sdev s')) \<and> test_bit WDM_RESPONDING (sdev s')"
proof -
  have "ctl_ok (s\<lparr>sdev := d1\<rparr>)"
    by (rule wdm_step_ctl [OF interrupt_done [OF v n(1)] good])
  moreover have b: "u_busy (validity d1)" "\<not> test_bit WDM_READ d1" "resp_count d1 > 0" "\<not> u_busy (response d1)" "dlength d1 = 0"
      "\<not> work_srv d1"
    using n fail v q by (auto simp: wdm_int_callback_def int_response_available_def int_exit_def int_done_def submitted_def
        NOTIFY_RESPONSE_AVAILABLE_def unlinked_def answer_ok_def quiet_def Let_def split: if_splits)
  ultimately have c: "ctl_ok (s\<lparr>sdev := d2\<rparr>)"
    using wdm_step_ctl [OF interrupt_done [of "s\<lparr>sdev := d1\<rparr>" rs' vs' 0 sbuf d2]] v2 n2 by simp
  have "lost_dev d2"
    using n2 n(2,3) b ctl_okD [OF c] q
    by (auto simp: wdm_int_callback_def int_response_available_def int_exit_def int_done_def NOTIFY_RESPONSE_AVAILABLE_def
        unlinked_def lost_dev_def quiet_def handlers_ok_def Let_def split: if_splits)
  then have "hung (s\<lparr>sdev := d2\<rparr>)" using c q by (simp add: hung_def lost_def quiet_def)
  from hung_run [OF run(1) this run(2)] show ?thesis by (simp add: hung_def lost_def lost_dev_def)
qed

section \<open>Creation\<close>

lemma alloc_seq_result:
  "alloc_seq ok rs h = (b, h') \<Longrightarrow> h \<subseteq> h' \<and> h' \<subseteq> h \<union> set rs \<and> (b \<longleftrightarrow> (\<forall>r \<in> set rs. ok r)) \<and> (b \<longrightarrow> h' = h \<union> set rs)"
  by (induction rs arbitrary: h) (auto split: if_splits)

lemma cleanup_all: "cleanup h = {}"
proof -
  have "r \<notin> cleanup h" for r by (cases r) (auto simp: cleanup_def free_urbs_def)
  then show ?thesis by blast
qed

text \<open>Fact: creating a device either leaves it on the list with everything allocated, in a good
  state, and this exactly if every allocation succeeds, the endpoint is an interrupt IN one and the
  minor can be registered; or it returns an error, leaves nothing allocated and nothing on the
  list.\<close>

theorem wdm_create_all_or_nothing:
  "case wdm_create e n of (rv, h, dev) \<Rightarrow>
    (dev \<noteq> None \<longleftrightarrow> (\<forall>r. ce_alloc e r) \<and> ce_int_in e \<and> ce_register e \<ge> 0) \<and>
    (if dev = None then rv < 0 \<and> h = {}
     else rv = ce_register e \<and> h = UNIV \<and> dev = Some (sdev (new_sys e n)) \<and> wdm_good (new_sys e n))"
proof -
  obtain b h where a: "alloc_seq (ce_alloc e) [Orq, Irq, Validity, Response, Command, Ubuf, Sbuf, Inbuf] {Desc} = (b, h)"
    by fastforce
  note r = alloc_seq_result [OF a]
  have u: "{Desc} \<union> set [Orq, Irq, Validity, Response, Command, Ubuf, Sbuf, Inbuf] = UNIV"
    using wdm_res.exhaust by auto
  then have all: "(\<forall>x. ce_alloc e x) \<longleftrightarrow> ce_alloc e Desc \<and> b" using r by (metis UNIV_I UnE singletonD)
  have h: "b \<Longrightarrow> h = UNIV" using r u by auto
  show ?thesis unfolding all using a h new_sys_good [of e n]
    by (auto simp: wdm_create_def cleanup_all new_sys_def)
qed

section \<open>Concrete runs\<close>

definition demo_env :: create_env where
  "demo_env = \<lparr>ce_alloc = (\<lambda>r. True), ce_int_in = True, ce_maxp = 8, ce_interface = 0, ce_register = 0,
     ce_wwan_known = False, ce_wwan_port = False, ce_ubuf = [], ce_inbuf = []\<rparr>"

definition demo0 :: wdm_device where
  "demo0 = new_wdm demo_env 4"

definition demo1 :: wdm_device where
  "demo1 = demo0\<lparr>count := 1, validity := (validity demo0)\<lparr>u_busy := True\<rparr>, needs_remote_wakeup := True\<rparr>"

definition response_available :: bytes where
  "response_available = [161, 1, 0, 0, 0, 0, 0, 0]"

definition demo2 :: wdm_device where
  "demo2 = demo1\<lparr>resp_count := 1, flags := {WDM_RESPONDING}, response := (response demo1)\<lparr>u_busy := True\<rparr>\<rparr>"

definition demo3 :: wdm_device where
  "demo3 = demo2\<lparr>flags := {WDM_READ}, response := response demo1, inbuf := [7, 9, 0, 0], ubuf := [7, 9, 0, 0],
     dlength := 2, reslength := 2\<rparr>"

lemma demo0_buffers [simp]: "inbuf demo0 = [0, 0, 0, 0]" "ubuf demo0 = [0, 0, 0, 0]"
proof -
  have "replicate 4 (0 :: u8) = [0, 0, 0, 0]" by (simp add: numeral_eq_Suc)
  then show "inbuf demo0 = [0, 0, 0, 0]" "ubuf demo0 = [0, 0, 0, 0]"
    by (simp_all add: demo0_def new_wdm_def demo_env_def Let_def)
qed

lemma demo0_fields [simp]:
  "outbuf demo0 = None" "flags demo0 = {}" "count demo0 = 0"
  "wMaxCommand demo0 = 4" "dlength demo0 = 0" "reslength demo0 = 0" "iuspin demo0 = False" "werr demo0 = 0" "rerr demo0 = 0"
  "resp_count demo0 = 0" "work_rx demo0 = False" "work_srv demo0 = False" "wwanp demo0 = False" "pm_usage demo0 = 0"
  "cleaned demo0 = False" "cmds demo0 = []" "inum demo0 = 0" "needs_remote_wakeup demo0 = False" "wwan_txon demo0 = False"
  "command demo0 = \<lparr>u_busy = False, u_reject = 0, u_complete = H_out\<rparr>"
  "response demo0 = \<lparr>u_busy = False, u_reject = 0, u_complete = H_in\<rparr>"
  "validity demo0 = \<lparr>u_busy = False, u_reject = 0, u_complete = H_int\<rparr>"
  by (simp_all add: demo0_def new_wdm_def demo_env_def Let_def)

lemma demo_start: "new_sys demo_env 4 = \<lparr>sdev = demo0, rd = None, wr = None, phase = Running, port_started = False\<rparr>"
  by (simp add: new_sys_def demo0_def wdm_wwan_init_def demo_env_def)

lemma demo_opened: "wdm_open (\<lambda>x. x) 0 0 (wdm_power 0) demo0 = (0, demo1)"
  by (simp add: wdm_open_def demo1_def test_bit_def submitted_def manage_power_def wdm_power_def Let_def)

lemma demo_notified: "wdm_int_callback 0 0 0 response_available (int_done demo1) = Inr demo2"
  by (simp add: wdm_int_callback_def int_response_available_def demo1_def demo2_def response_available_def int_done_def
      int_exit_def unlinked_def NOTIFY_RESPONSE_AVAILABLE_def test_bit_def set_bit_def submitted_def Let_def)

lemma demo_answered: "wdm_in_callback True 0 2 (resp_done [7, 9] demo2) = Inr demo3"
  by (simp add: wdm_in_callback_def in_store_def in_skip_error_def resp_done_def demo1_def demo2_def demo3_def
      unlinked_def test_bit_def set_bit_def clear_bit_def blit_def Let_def)

definition demo_reading :: "rd_pc \<Rightarrow> wdm_sys" where
  "demo_reading pc = \<lparr>sdev = demo3, rd = Some (False, 1, pc), wr = None, phase = Running, port_started = False\<rparr>"

text \<open>Open, a notification, its response of two bytes, and a reader that asks for one.\<close>

lemma demo_run: "lts_run (wdm_step (\<lambda>x. x)) (new_sys demo_env 4) [Quiet, Quiet, Put [7, 9], Quiet] (demo_reading (R_Copy 2))"
proof -
  let ?s = "\<lambda>d. \<lparr>sdev = d, rd = None, wr = None, phase = Running, port_started = False\<rparr> :: wdm_sys"
  have 1: "wdm_step (\<lambda>x. x) (?s demo0) Quiet (?s demo1)"
    using open_file [of "?s demo0" 0 "wdm_power 0" "\<lambda>x. x" 0 0 demo1] demo_opened by (simp add: wdm_power_balanced mutexes_held_def answer_ok_def)
  have 2: "wdm_step (\<lambda>x. x) (?s demo1) Quiet (?s demo2)"
    using interrupt_done [of "?s demo1" 0 0 0 response_available demo2 "\<lambda>x. x"] demo_notified
    by (simp add: answer_ok_def int_done_def demo1_def)
  have 3: "wdm_step (\<lambda>x. x) (?s demo2) (Put [7, 9]) (?s demo3)"
  proof -
    have "stored 0 [7, 9] demo2 = [7, 9]" "length [7, 9 :: u8] = 2" "u_busy (response demo2)" "wMaxCommand demo2 = 4"
      by (simp_all add: stored_def unlinked_def test_bit_def demo1_def demo2_def)
    then show ?thesis using response_done [of "?s demo2" "[7, 9]" True 0 demo3 "\<lambda>x. x"] demo_answered
      by (simp del: list.size)
  qed
  have 4: "wdm_step (\<lambda>x. x) (?s demo3) Quiet (demo_reading (R_Copy 2))"
    using read_lock [of "?s demo3" "R_Copy 2" demo3 "\<lambda>x. x" False 1]
    by (simp add: mutexes_held_def wdm_read_start_def demo_reading_def demo1_def demo2_def demo3_def)
  show ?thesis unfolding demo_start using 1 2 3 4
    by (intro lts_more [where T = "wdm_step (\<lambda>x. x)"]) (simp_all only: lts_run_Nil)
qed

lemma demo_read: "lts_run (wdm_step (\<lambda>x. x)) (new_sys demo_env 4)
    [Quiet, Quiet, Put [7, 9], Quiet, Quiet, Got [7]] (demo_reading (R_Ret 1 [7])\<lparr>sdev := demo3\<lparr>ubuf := [9, 9, 0, 0], dlength := 1\<rparr>\<rparr>)"
  (is "lts_run _ _ _ ?t")
proof -
  have 1: "wdm_step (\<lambda>x. x) (demo_reading (R_Copy 2)) Quiet (demo_reading (R_Finish [7]))"
    using read_move [of "demo_reading (R_Copy 2)" False 1 "R_Copy 2" 0 "\<lambda>x. x" False True "R_Finish [7]" demo3]
    by (simp add: wdm_read_next_def wdm_read_copy_def read_label_def demo_reading_def answer_ok_def demo1_def demo2_def demo3_def)
  have 2: "wdm_step (\<lambda>x. x) (demo_reading (R_Finish [7])) (Got [7]) ?t"
    using read_move [of "demo_reading (R_Finish [7])" False 1 "R_Finish [7]" 0 "\<lambda>x. x" False True "R_Ret 1 [7]"]
    by (simp add: wdm_read_next_def wdm_read_finish_def read_label_def demo_reading_def answer_ok_def demo1_def demo2_def
        demo3_def blit_def window_def numeral_eq_Suc)
  have app: "lts_run T s ls s' \<Longrightarrow> lts_run T s' ls' s'' \<Longrightarrow> lts_run T s (ls @ ls') s''" for T s ls s' ls' s''
    by (induction rule: lts_run.induct) (auto intro: lts_run.intros)
  have "lts_run (wdm_step (\<lambda>x. x)) (demo_reading (R_Copy 2)) [Quiet, Got [7]] ?t"
    using 1 2 by (intro lts_more [where T = "wdm_step (\<lambda>x. x)"]) (simp_all only: lts_run_Nil)
  from app [OF demo_run this] show ?thesis by simp
qed

theorem wdm_reads_fifo_witness:
  "\<exists>ls s. lts_run (wdm_step (\<lambda>x. x)) (new_sys demo_env 4) ls s \<and> gots ls = [7] \<and> pending s = [9] \<and> puts ls = gots ls @ pending s"
  using demo_read wdm_reads_fifo [OF demo_read]
  by (intro exI conjI) (auto simp: pending_def)

theorem wdm_never_overruns_witness:
  "\<exists>s. lts_run (wdm_step (\<lambda>x. x)) (new_sys demo_env 4) [Quiet, Quiet, Put [7, 9], Quiet] s \<and>
    wdm_in_callback True 0 (length [1, 2, 3 :: u8]) (resp_done [1, 2, 3] (sdev s)) \<noteq> Inl Buffer_overrun \<and>
    wdm_read_next (\<lambda>x. x) 0 False False 1 True (R_Copy 2) (sdev s) \<noteq> Inl Buffer_overrun"
proof -
  have len: "length [1, 2, 3 :: u8] \<le> wMaxCommand (sdev (demo_reading (R_Copy 2)))"
    and rd: "rd (demo_reading (R_Copy 2)) = Some (False, 1, R_Copy 2)"
    by (simp_all add: demo_reading_def demo3_def demo2_def demo1_def)
  from wdm_never_overruns [OF demo_run len] demo_run rd show ?thesis by blast
qed

theorem wdm_command_owned_witness:
  "\<exists>s. lts_run (wdm_step (\<lambda>x. x)) (new_sys demo_env 4) [Quiet, Quiet, Put [7, 9], Quiet] s \<and>
    (outbuf (sdev s) \<noteq> None \<longleftrightarrow> out_busy (sdev s)) \<and> pm_usage (sdev s) = pm_held (wr s) + (if tx_busy (sdev s) then 1 else 0)"
  using demo_run wdm_command_owned [OF demo_run] by blast

lemma demo_unplug: "\<exists>s. lts_run (wdm_step (\<lambda>x. x)) (new_sys demo_env 4) [Shut, Shut] s \<and> cleaned (sdev s)"
proof -
  let ?s = "\<lambda>d p. \<lparr>sdev = d, rd = None, wr = None, phase = p, port_started = False\<rparr> :: wdm_sys"
  let ?d = "set_bit WDM_READ (set_bit WDM_DISCONNECTING demo0)"
  let ?e = "(cancel_works (?d\<lparr>command := poisoned (command demo0), response := poisoned (response demo0),
      validity := poisoned (validity demo0)\<rparr>))\<lparr>cleaned := True\<rparr>"
  have 1: "wdm_step (\<lambda>x. x) (?s demo0 Running) Shut (?s ?d Disc_wait)"
    using disconnect_begin [of "?s demo0 Running" "wdm_power 0" ?d "\<lambda>x. x"] by (simp add: wdm_disconnect_begin_def wdm_wwan_deinit_def wdm_power_balanced)
  have 2: "wdm_step (\<lambda>x. x) (?s ?d Disc_wait) Shut (?s ?e Gone)"
    using disconnect_end [of "?s ?d Disc_wait" ?e "\<lambda>x. x"]
    by (simp add: wdm_disconnect_end_def poison_urbs_def poison_with_def cancel_works_def Let_def)
  have "lts_run (wdm_step (\<lambda>x. x)) (new_sys demo_env 4) [Shut, Shut] (?s ?e Gone)"
    unfolding demo_start using 1 2 by (intro lts_more [where T = "wdm_step (\<lambda>x. x)"]) (simp_all only: lts_run_Nil)
  moreover have "cleaned (sdev (?s ?e Gone))" by simp
  ultimately show ?thesis by blast
qed

theorem wdm_nothing_after_cleanup_witness:
  "\<exists>s. lts_run (wdm_step (\<lambda>x. x)) (new_sys demo_env 4) [Shut, Shut] s \<and> stopped (sdev s) \<and> \<not> wdm_step (\<lambda>x. x) s Quiet s"
  using demo_unplug wdm_nothing_after_cleanup by blast

theorem wdm_failed_port_start_locks_out_witness:
  "wdm_open (\<lambda>x. x) 0 0 (wdm_power 0) (snd (wdm_wwan_port_start (- 12) (wdm_power 0) demo0)) = (- EBUSY, snd (wdm_wwan_port_start (- 12) (wdm_power 0) demo0))"
  using wdm_failed_port_start_locks_out [of demo0 "- 12" "wdm_power 0" "fst (wdm_wwan_port_start (- 12) (wdm_power 0) demo0)"
      "snd (wdm_wwan_port_start (- 12) (wdm_power 0) demo0)" "\<lambda>x. x" 0 0 "wdm_power 0"]
  by (simp add: test_bit_def)

theorem wdm_read_returns_witness:
  "\<exists>d'. wdm_read (\<lambda>x. x) False 0 False 1 True demo3 = Inr (R_Ret 1 [7], d') \<and> dlength d' = 1 \<and> take 1 (ubuf d') = [9]"
  using wdm_read_returns [of demo3 1 True "\<lambda>x. x" 0 False]
  by (auto simp: store_ok_def demo1_def demo2_def demo3_def)

theorem wdm_write_outcome_witness:
  "\<exists>d' req. wdm_write (\<lambda>x. x) 0 False 0 0 False True [1, 2, 3, 4, 5, 6] demo1 = Inr (W_Ret 4, d') \<and>
    cmds d' = [(req, [1, 2, 3, 4])] \<and> wLength req = 4 \<and> pm_usage d' = 0"
  using wdm_write_outcome [of demo1 True "\<lambda>x. x" 0 False 0 0 False "[1, 2, 3, 4, 5, 6]"]
  by (auto simp: write_result_def write_sends_def test_bit_def demo1_def)

theorem wdm_empty_response_deadlocks_witness:
  "\<exists>d1 pc d2. wdm_in_callback True 0 0 demo2 = Inr d1 \<and> wdm_read (\<lambda>x. x) False 0 False 16 True d1 = Inr (pc, d2) \<and> iuspin d2"
proof -
  have "\<not> iuspin demo2" "dlength demo2 = 0" "rerr demo2 = 0"
      "flags demo2 \<inter> {WDM_WWAN_IN_USE, WDM_DISCONNECTING, WDM_RESETTING, WDM_OVERFLOW} = {}"
      "(0::int) = 0 \<or> (0::int) = - EPIPE"
    by (simp_all add: demo1_def demo2_def)
  from wdm_empty_response_deadlocks [OF this, of True "\<lambda>x. x" 0 False 16 True] show ?thesis by blast
qed



lemma demo1_ctl: "ctl_ok \<lparr>sdev = demo1, rd = None, wr = None, phase = Running, port_started = False\<rparr>"
proof -
  have "wdm_step (\<lambda>x. x) (new_sys demo_env 4) Quiet \<lparr>sdev = demo1, rd = None, wr = None, phase = Running, port_started = False\<rparr>"
    using open_file [of "new_sys demo_env 4" 0 "wdm_power 0" "\<lambda>x. x" 0 0 demo1] demo_opened
    by (simp add: wdm_power_balanced mutexes_held_def answer_ok_def demo_start)
  then show ?thesis using wdm_step_ctl new_sys_good [of demo_env 4] by (simp add: wdm_good_def)
qed



definition demo_failed :: wdm_device where
  "demo_failed = demo1\<lparr>resp_count := 1\<rparr>"

definition demo_stuck :: wdm_device where
  "demo_stuck = demo1\<lparr>resp_count := 2, flags := {WDM_RESPONDING}\<rparr>"

theorem wdm_failed_fetch_hangs_witness:
  "wdm_int_callback (- 5) 0 0 response_available (int_done demo1) = Inr demo_failed \<and>
    wdm_int_callback 0 0 0 response_available (int_done demo_failed) = Inr demo_stuck \<and>
    \<not> u_busy (response demo_stuck) \<and> test_bit WDM_RESPONDING demo_stuck"
proof -
  let ?s = "\<lparr>sdev = demo1, rd = None, wr = None, phase = Running, port_started = False\<rparr> :: wdm_sys"
  have q: "quiet ?s" "\<not> work_rx (sdev ?s)" "u_busy (validity (sdev ?s))" "answer_ok (response (sdev ?s)) (- 5)"
      "answer_ok (validity (int_done (sdev ?s))) 0"
    by (simp_all add: quiet_def test_bit_def answer_ok_def int_done_def demo1_def)
  have n: "wdm_int_callback (- 5) 0 0 response_available (int_done (sdev ?s)) = Inr demo_failed"
    and m: "wdm_int_callback 0 0 0 response_available (int_done demo_failed) = Inr demo_stuck"
    by (simp_all add: wdm_int_callback_def int_response_available_def demo1_def demo_failed_def demo_stuck_def response_available_def
      int_done_def int_exit_def unlinked_def NOTIFY_RESPONSE_AVAILABLE_def test_bit_def set_bit_def clear_bit_def submitted_def Let_def)
  have b: "length response_available \<ge> 8" "response_available ! 1 = 1" by (simp_all add: response_available_def)
  have a: "answer_ok (response demo_failed) 0" "answer_ok (validity (int_done demo_failed)) 0"
    by (simp_all add: answer_ok_def demo_failed_def demo1_def int_done_def)
  have r: "lts_run (wdm_step (\<lambda>x. x)) (?s\<lparr>sdev := demo_stuck\<rparr>) [] (?s\<lparr>sdev := demo_stuck\<rparr>)"
    by (rule lts_done)
  have "set ([] :: wdm_label list) \<subseteq> {Quiet} \<and> \<not> u_busy (response (sdev (?s\<lparr>sdev := demo_stuck\<rparr>))) \<and>
      test_bit WDM_RESPONDING (sdev (?s\<lparr>sdev := demo_stuck\<rparr>))"
    by (rule wdm_failed_fetch_hangs [OF demo1_ctl q _ _ _ _ n b a m r]) simp_all
  then show ?thesis using n m by simp
qed

end
