(* ===== verification/Uoe_Net.thy ===== *)
theory Uoe_Net
  imports Driver_Prelude
begin

text \<open>
  USB over Ethernet, the transport (\<open>modules/dummy_usb/usb_over_net.c\<close>, \<open>.h\<close>): the packet header and
  the event, creating and closing the two sockets of a connection, the send functions and
  \<open>uoe_recv_packet\<close>. The socket calls, \<open>in_aton\<close> and the allocator are parameters. A connection
  carries, beside the fields of the struct, the datagrams handed to \<open>kernel_sendmsg\<close> so far.
\<close>

section \<open>Packets\<close>

definition UOE_DATA_PORT :: int where "UOE_DATA_PORT = 5555"
definition UOE_EVENT_PORT :: int where "UOE_EVENT_PORT = 5556"
definition UOE_MAX_PAYLOAD :: int where "UOE_MAX_PAYLOAD = 65536"

definition UOE_POLL_IN :: u8 where "UOE_POLL_IN = 1"
definition UOE_POLL_OUT :: u8 where "UOE_POLL_OUT = 2"
definition UOE_SETUP :: u8 where "UOE_SETUP = 3"
definition UOE_DATA :: u8 where "UOE_DATA = 4"
definition UOE_NAK :: u8 where "UOE_NAK = 5"
definition UOE_STALL :: u8 where "UOE_STALL = 6"

definition UOE_EVENT :: u8 where "UOE_EVENT = 16"
definition UOE_EVENT_CONNECT :: u8 where "UOE_EVENT_CONNECT = 1"
definition UOE_EVENT_DISCONNECT :: u8 where "UOE_EVENT_DISCONNECT = 2"
definition UOE_EVENT_RESET_DONE :: u8 where "UOE_EVENT_RESET_DONE = 3"
definition UOE_EVENT_SUSPEND :: u8 where "UOE_EVENT_SUSPEND = 4"
definition UOE_EVENT_RESUME :: u8 where "UOE_EVENT_RESUME = 5"

lemmas uoe_types = UOE_POLL_IN_def UOE_POLL_OUT_def UOE_SETUP_def UOE_DATA_def UOE_NAK_def
  UOE_STALL_def
lemmas uoe_events = UOE_EVENT_def UOE_EVENT_CONNECT_def UOE_EVENT_DISCONNECT_def
  UOE_EVENT_RESET_DONE_def UOE_EVENT_SUSPEND_def UOE_EVENT_RESUME_def

text \<open>
  The 16 and 32 bit fields of the header travel in network order. The record holds their values;
  \<open>htons\<close>, \<open>htonl\<close> and their inverses are in the two conversions to and from the eight bytes.
\<close>

record uoe_header =
  uh_type :: u8
  uh_ep_addr :: u8
  uh_seq :: u16
  uh_length :: u32

record uoe_event =
  ue_type :: u8
  ue_event :: u8
  ue_reserved :: u16

record uoe_packet =
  up_hdr :: uoe_header
  up_data :: bytes

definition uoe_hdr_bytes :: "uoe_header \<Rightarrow> bytes" where
  "uoe_hdr_bytes h =
     [uh_type h, uh_ep_addr h] @ be16 (unat (uh_seq h)) @ be32 (unat (uh_length h))"

definition uoe_hdr_of :: "bytes \<Rightarrow> uoe_header" where
  "uoe_hdr_of bs = \<lparr>uh_type = bs ! 0, uh_ep_addr = bs ! 1,
     uh_seq = word_of_nat (rd_be (window bs 2 2)), uh_length = word_of_nat (rd_be (window bs 4 4))\<rparr>"

definition uoe_hdr_read :: "bytes \<Rightarrow> (uoe_header \<times> bytes) option" where
  "uoe_hdr_read bs = (if length bs < 8 then None else Some (uoe_hdr_of bs, drop 8 bs))"

definition uoe_event_bytes :: "uoe_event \<Rightarrow> bytes" where
  "uoe_event_bytes e = [ue_type e, ue_event e] @ le16 (unat (ue_reserved e))"

lemma length_uoe_hdr_bytes [simp]: "length (uoe_hdr_bytes h) = 8"
  by (simp add: uoe_hdr_bytes_def)

lemma length_uoe_event_bytes [simp]: "length (uoe_event_bytes e) = 4"
  by (simp add: uoe_event_bytes_def)

lemma word_of_rd_be16: "(word_of_nat (rd_be (be16 (unat (w :: u16)))) :: u16) = w"
proof -
  have "unat w < 2 ^ LENGTH(16)" by (rule unsigned_less)
  then show ?thesis by simp
qed

lemma word_of_rd_be32: "(word_of_nat (rd_be (be32 (unat (w :: u32)))) :: u32) = w"
  using unat_u32_bound [of w] by simp

lemma uoe_hdr_of_bytes [simp]: "uoe_hdr_of (uoe_hdr_bytes h @ rest) = h"
proof -
  have "window (uoe_hdr_bytes h @ rest) 2 2 = be16 (unat (uh_seq h))"
    using window_append_at [of 2 "[uh_type h, uh_ep_addr h]" 2 "be16 (unat (uh_seq h))"
        "be32 (unat (uh_length h)) @ rest"]
    by (simp add: uoe_hdr_bytes_def)
  moreover have "window (uoe_hdr_bytes h @ rest) 4 4 = be32 (unat (uh_length h))"
    using window_append_at [of 4 "[uh_type h, uh_ep_addr h] @ be16 (unat (uh_seq h))" 4
        "be32 (unat (uh_length h))" rest]
    by (simp add: uoe_hdr_bytes_def)
  ultimately show ?thesis
    unfolding uoe_hdr_of_def
    by (simp only: word_of_rd_be16 word_of_rd_be32) (simp add: uoe_hdr_bytes_def)
qed

interpretation uoe_wire: byte_codec uoe_hdr_bytes uoe_hdr_read "\<lambda>_. True"
  by unfold_locales (simp add: uoe_hdr_read_def)

section \<open>Connections\<close>

record sockaddr_in =
  sin_family :: nat
  sin_port :: u16
  sin_addr :: u32

definition no_addr :: sockaddr_in where
  "no_addr = \<lparr>sin_family = 0, sin_port = 0, sin_addr = 0\<rparr>"

definition AF_INET :: nat where "AF_INET = 2"

datatype uoe_chan = Chan_data | Chan_event

record uoe_dgram =
  dg_chan :: uoe_chan
  dg_dest :: sockaddr_in
  dg_bytes :: bytes

record uoe_connection =
  sock_data :: bool
  sock_event :: bool
  remote_data :: sockaddr_in
  remote_event :: sockaddr_in
  local_event :: sockaddr_in
  uc_connected :: bool
  uc_sent :: "uoe_dgram list"

definition zero_conn :: uoe_connection where
  "zero_conn = \<lparr>sock_data = False, sock_event = False, remote_data = no_addr,
     remote_event = no_addr, local_event = no_addr, uc_connected = False, uc_sent = []\<rparr>"

text \<open>
  What the kernel answers while one socket is made. \<open>live\<close> counts the sockets that exist; the
  port is truncated to 16 bits by \<open>htons\<close>. Without \<open>bind_mode\<close> the callers pass a string.
\<close>

record uoe_sock_env =
  se_create :: int
  se_bind :: int

definition uoe_sock_addr :: "(string \<Rightarrow> u32) \<Rightarrow> string option \<Rightarrow> int \<Rightarrow> sockaddr_in" where
  "uoe_sock_addr aton ip port = \<lparr>sin_family = AF_INET, sin_port = word_of_int port,
     sin_addr = (case ip of Some s \<Rightarrow> aton s | None \<Rightarrow> 0)\<rparr>"

definition uoe_create_udp_socket ::
  "(string \<Rightarrow> u32) \<Rightarrow> uoe_sock_env \<Rightarrow> string option \<Rightarrow> int \<Rightarrow> bool \<Rightarrow> nat \<Rightarrow>
     int \<times> sockaddr_in option \<times> nat" where
  "uoe_create_udp_socket aton e ip port bind_mode live =
     (if se_create e < 0 then (se_create e, None, live)
      else if bind_mode \<and> se_bind e < 0 then (se_bind e, None, live + 1 - 1)
      else (0, Some (uoe_sock_addr aton ip port), live + 1))"

definition uoe_create_client ::
  "(string \<Rightarrow> u32) \<Rightarrow> uoe_sock_env \<Rightarrow> uoe_sock_env \<Rightarrow> string \<Rightarrow> int \<Rightarrow> int \<Rightarrow> nat \<Rightarrow>
     int \<times> uoe_connection \<times> nat" where
  "uoe_create_client aton e1 e2 remote_ip data_port event_port live =
     (case uoe_create_udp_socket aton e1 (Some remote_ip) data_port False live of
        (ret, None, live1) \<Rightarrow> (ret, zero_conn, live1)
      | (_, Some a1, live1) \<Rightarrow>
          let c1 = zero_conn\<lparr>sock_data := True, remote_data := a1\<rparr> in
          (case uoe_create_udp_socket aton e2 (Some remote_ip) event_port False live1 of
             (ret, None, live2) \<Rightarrow> (ret, c1, live2 - 1)
           | (_, Some a2, live2) \<Rightarrow>
               (0, c1\<lparr>sock_event := True, remote_event := a2, uc_connected := True\<rparr>, live2)))"

definition uoe_create_server ::
  "(string \<Rightarrow> u32) \<Rightarrow> uoe_sock_env \<Rightarrow> uoe_sock_env \<Rightarrow> string option \<Rightarrow> int \<Rightarrow> int \<Rightarrow> nat \<Rightarrow>
     int \<times> uoe_connection \<times> nat" where
  "uoe_create_server aton e1 e2 listen_addr listen_port event_port live =
     (case uoe_create_udp_socket aton e1 listen_addr listen_port True live of
        (ret, None, live1) \<Rightarrow> (ret, zero_conn, live1)
      | (_, Some _, live1) \<Rightarrow>
          let c1 = zero_conn\<lparr>sock_data := True\<rparr> in
          (case uoe_create_udp_socket aton e2 listen_addr event_port True live1 of
             (ret, None, live2) \<Rightarrow> (ret, c1, live2 - 1)
           | (_, Some a2, live2) \<Rightarrow>
               (0, c1\<lparr>sock_event := True, local_event := a2, uc_connected := True\<rparr>, live2)))"

definition uoe_close :: "uoe_connection \<times> nat \<Rightarrow> uoe_connection \<times> nat" where
  "uoe_close = (\<lambda>(c, live).
     let live1 = (if sock_data c then live - 1 else live);
         live2 = (if sock_event c then live1 - 1 else live1)
     in (c\<lparr>sock_data := False, sock_event := False, uc_connected := False\<rparr>, live2))"

section \<open>Sending\<close>

text \<open>\<open>ks\<close> gives what \<open>kernel_sendmsg\<close> returns for a datagram.\<close>

definition uoe_send_udp ::
  "(uoe_dgram \<Rightarrow> int) \<Rightarrow> bool \<Rightarrow> uoe_chan \<Rightarrow> sockaddr_in \<Rightarrow> bytes \<Rightarrow> uoe_connection \<Rightarrow>
     int \<times> uoe_connection" where
  "uoe_send_udp ks sock ch dest data c =
     (if \<not> sock then (- EINVAL, c)
      else let dg = \<lparr>dg_chan = ch, dg_dest = dest, dg_bytes = data\<rparr>
           in (ks dg, c\<lparr>uc_sent := uc_sent c @ [dg]\<rparr>))"

definition uoe_send_hdr ::
  "(uoe_dgram \<Rightarrow> int) \<Rightarrow> u8 \<Rightarrow> u8 \<Rightarrow> u16 \<Rightarrow> uoe_connection \<Rightarrow> int \<times> uoe_connection" where
  "uoe_send_hdr ks ty ep seq c =
     uoe_send_udp ks (sock_data c) Chan_data (remote_data c)
       (uoe_hdr_bytes \<lparr>uh_type = ty, uh_ep_addr = ep, uh_seq = seq, uh_length = 0\<rparr>) c"

definition uoe_send_poll ::
  "(uoe_dgram \<Rightarrow> int) \<Rightarrow> u8 \<Rightarrow> u8 \<Rightarrow> u16 \<Rightarrow> uoe_connection \<Rightarrow> int \<times> uoe_connection" where
  "uoe_send_poll ks ty ep_addr seq c = uoe_send_hdr ks ty ep_addr seq c"

definition uoe_send_nak ::
  "(uoe_dgram \<Rightarrow> int) \<Rightarrow> u8 \<Rightarrow> u16 \<Rightarrow> uoe_connection \<Rightarrow> int \<times> uoe_connection" where
  "uoe_send_nak ks ep_addr seq c = uoe_send_hdr ks UOE_NAK ep_addr seq c"

definition uoe_send_stall ::
  "(uoe_dgram \<Rightarrow> int) \<Rightarrow> u8 \<Rightarrow> u16 \<Rightarrow> uoe_connection \<Rightarrow> int \<times> uoe_connection" where
  "uoe_send_stall ks ep_addr seq c = uoe_send_hdr ks UOE_STALL ep_addr seq c"

text \<open>\<open>data\<close> is \<open>None\<close> for a null pointer; otherwise \<open>memcpy\<close> takes \<open>len\<close> bytes from it.\<close>

definition uoe_send_data ::
  "(uoe_dgram \<Rightarrow> int) \<Rightarrow> (nat \<Rightarrow> bool) \<Rightarrow> u8 \<Rightarrow> u16 \<Rightarrow> bytes option \<Rightarrow> u32 \<Rightarrow> uoe_connection \<Rightarrow>
     int \<times> uoe_connection" where
  "uoe_send_data ks al ep_addr seq data len c =
     (if \<not> al (8 + unat len) then (- ENOMEM, c)
      else let payload = (case data of
             Some d \<Rightarrow> (if 0 < unat len then take (unat len) d else replicate (unat len) 0)
           | None \<Rightarrow> replicate (unat len) 0)
      in uoe_send_udp ks (sock_data c) Chan_data (remote_data c)
           (uoe_hdr_bytes \<lparr>uh_type = UOE_DATA, uh_ep_addr = ep_addr, uh_seq = seq, uh_length = len\<rparr>
              @ payload) c)"

definition uoe_send_event ::
  "(uoe_dgram \<Rightarrow> int) \<Rightarrow> u8 \<Rightarrow> uoe_connection \<Rightarrow> int \<times> uoe_connection" where
  "uoe_send_event ks event c =
     uoe_send_udp ks (sock_event c) Chan_event (remote_event c)
       (uoe_event_bytes \<lparr>ue_type = UOE_EVENT, ue_event = event, ue_reserved = 0\<rparr>) c"


section \<open>Receiving\<close>

text \<open>
  What would corrupt or crash the kernel: a write or a read outside a heap buffer, the use of a
  freed request, and stopping a thread pointer that is an error code or is no longer a thread.
\<close>

datatype uoe_fault = Heap_overflow | Heap_overread | Use_after_free | Bad_pointer | Bad_thread

text \<open>
  \<open>recv size k\<close> is one \<open>kernel_recvmsg\<close> of at most \<open>size\<close> bytes in the socket state \<open>k\<close>: what it
  returns, the bytes it stored (into the vectors, in their order) and the new socket state. The
  second call passes both vectors, so the first 8 bytes it stores go to the local header again. No
  timeout is set, so \<open>timeout_ms\<close> is not used; the sender's address is stored and not read.
\<close>

definition uoe_recv_packet ::
  "(nat \<Rightarrow> 'k \<Rightarrow> int \<times> bytes \<times> 'k) \<Rightarrow> (nat \<Rightarrow> bool) \<Rightarrow> uoe_connection \<Rightarrow> int \<Rightarrow> 'k \<Rightarrow>
     uoe_fault + int \<times> uoe_packet option \<times> 'k" where
  "uoe_recv_packet recv al c timeout_ms k =
     (if \<not> sock_data c then Inr (- EINVAL, None, k)
      else case recv 8 k of (ret, bs, k1) \<Rightarrow>
        if ret < 0 then Inr (ret, None, k1)
        else if ret < 8 then Inr (- EMSGSIZE, None, k1)
        else
          let hdr = uoe_hdr_of bs; data_len = int_of_u32 (unat (uh_length hdr)) in
          if UOE_MAX_PAYLOAD < data_len then Inr (- EMSGSIZE, None, k1)
          else
            let size = nat ((8 + data_len) mod 2 ^ 64) in
            if \<not> al size then Inr (- ENOMEM, None, k1)
            else if size < 8 then Inl Heap_overflow
            else if 0 < data_len then
              (case recv (nat data_len) k1 of (ret2, bs2, k2) \<Rightarrow>
                 if ret2 < 0 then Inr (ret2, None, k2)
                 else Inr (8 + data_len,
                   Some \<lparr>up_hdr = hdr, up_data = blit (replicate (nat data_len) 0) 0 (drop 8 bs2)\<rparr>,
                   k2))
            else Inr (8 + data_len, Some \<lparr>up_hdr = hdr, up_data = []\<rparr>, k1))"

text \<open>
  The datagram socket: a receive of at most \<open>size\<close> bytes takes one datagram off the queue and
  stores what fits; the rest of the datagram is gone (\<open>udp(7)\<close>). \<open>udp_recv\<close> is such a socket,
  whose receive on an empty queue ends with a signal.
\<close>

definition datagram_socket :: "(nat \<Rightarrow> bytes list \<Rightarrow> int \<times> bytes \<times> bytes list) \<Rightarrow> bool" where
  "datagram_socket recv \<longleftrightarrow>
     (\<forall>n d q. recv n (d # q) = (int (length (take n d)), take n d, q))"

definition udp_recv :: "nat \<Rightarrow> bytes list \<Rightarrow> int \<times> bytes \<times> bytes list" where
  "udp_recv n q = (case q of [] \<Rightarrow> (- EINTR, [], [])
     | d # q' \<Rightarrow> (int (length (take n d)), take n d, q'))"

lemma udp_recv_datagram: "datagram_socket udp_recv"
  by (simp add: datagram_socket_def udp_recv_def)

lemma datagram_recvD:
  "datagram_socket recv \<Longrightarrow> recv n (d # q) = (int (length (take n d)), take n d, q)"
  by (simp add: datagram_socket_def)

lemma recv_header:
  assumes "datagram_socket recv"
  shows "recv 8 ((uoe_hdr_bytes h @ rest) # q) = (8, uoe_hdr_bytes h, q)"
  using datagram_recvD [OF assms, of 8 "uoe_hdr_bytes h @ rest" q] by simp

lemma uoe_hdr_of_exact [simp]: "uoe_hdr_of (uoe_hdr_bytes h) = h"
  using uoe_hdr_of_bytes [of h "[]"] by simp

text \<open>Fact: a header that announces no payload is received as it was sent.\<close>

lemma recv_bare_header:
  assumes "datagram_socket recv" "sock_data c" "al 8" "uh_length h = 0"
  shows "uoe_recv_packet recv al c t (uoe_hdr_bytes h # q) =
    Inr (8, Some \<lparr>up_hdr = h, up_data = []\<rparr>, q)"
  using recv_header [OF assms(1), of h "[]" q] assms
  by (simp add: uoe_recv_packet_def int_of_u32_small UOE_MAX_PAYLOAD_def)

lemma packet_size: "n \<le> 65536 \<Longrightarrow> nat ((8 + int n) mod 2 ^ 64) = 8 + n"
  by simp

lemma recv_with_payload:
  assumes "datagram_socket recv" "sock_data c" "al (8 + unat (uh_length h))"
    and "0 < uh_length h" "unat (uh_length h) \<le> 65536"
  shows "uoe_recv_packet recv al c t ((uoe_hdr_bytes h @ d) # q) =
    (case recv (unat (uh_length h)) q of (ret2, bs2, k2) \<Rightarrow>
       if ret2 < 0 then Inr (ret2, None, k2)
       else Inr (8 + int (unat (uh_length h)), Some \<lparr>up_hdr = h,
         up_data = blit (replicate (unat (uh_length h)) 0) 0 (drop 8 bs2)\<rparr>, k2))"
proof -
  obtain n where n: "unat (uh_length h) = n" by simp
  have "0 < n" using assms(4) n by (simp add: unat_gt_0 flip: n)
  moreover have "int_of_u32 n = int n" using assms(5) n by (simp add: int_of_u32_small)
  moreover have "nat ((8 + int n) mod 2 ^ 64) = 8 + n" using assms(5) n by (intro packet_size) simp
  ultimately show ?thesis
    using recv_header [OF assms(1), of h d q] assms
    by (cases "recv n q") (simp add: uoe_recv_packet_def UOE_MAX_PAYLOAD_def Let_def n)
qed

section \<open>What the receiver makes of what is sent\<close>

text \<open>Property C38: polls, negative acknowledgements and stalls: whichever of the three sending
  functions is called, it hands one datagram for the peer to the kernel and returns the kernel's
  answer, and the peer receives that datagram as the packet it stands for - the poll with its type, a
  \<open>UOE_NAK\<close>, a \<open>UOE_STALL\<close>, each with endpoint and sequence number and no data - whatever else is
  queued behind it.\<close>

theorem uoe_header_roundtrip:
  assumes "sock_data c" "sock_data c'" "al 8" "datagram_socket recv"
    and "(send, kind) \<in> {(uoe_send_poll ks ty ep seq, ty), (uoe_send_nak ks ep seq, UOE_NAK),
      (uoe_send_stall ks ep seq, UOE_STALL)}"
  shows "\<exists>dg. uc_sent (snd (send c)) = uc_sent c @ [dg] \<and>
    dg_chan dg = Chan_data \<and> dg_dest dg = remote_data c \<and> fst (send c) = ks dg \<and>
    uoe_recv_packet recv al c' t (dg_bytes dg # q) =
      Inr (8, Some \<lparr>up_hdr = \<lparr>uh_type = kind, uh_ep_addr = ep, uh_seq = seq, uh_length = 0\<rparr>,
        up_data = []\<rparr>, q)"
  using assms
  by (auto simp: uoe_send_poll_def uoe_send_nak_def uoe_send_stall_def uoe_send_hdr_def
      uoe_send_udp_def Let_def recv_bare_header)

lemma uoe_header_roundtrip_witness:
  "\<exists>dg :: uoe_dgram. uoe_recv_packet udp_recv (\<lambda>_. True) (zero_conn\<lparr>sock_data := True\<rparr>) 10 [dg_bytes dg] =
    Inr (8, Some \<lparr>up_hdr = \<lparr>uh_type = UOE_STALL, uh_ep_addr = 129, uh_seq = 7, uh_length = 0\<rparr>,
        up_data = []\<rparr>, [])"
proof -
  have s: "sock_data (zero_conn\<lparr>sock_data := True\<rparr>)" "(\<lambda>_ :: nat. True) 8" by simp_all
  show ?thesis
    using uoe_header_roundtrip [where ks = "\<lambda>_. 8" and ty = UOE_POLL_IN, OF s(1) s(1) s(2) udp_recv_datagram
        insertI2 [OF insertI2 [OF insertI1]], of 129 7 10 "[]"]
    by auto
qed

text \<open>Fact: a data packet is received without its data: the first receive call takes the header
  and, with it, the datagram; the call for the payload reads the next datagram of the queue. What
  the receiver returns is the header sent, followed by bytes 8 onwards of that next datagram, padded
  with zeros, and both datagrams are gone. Nothing of the payload is in it.\<close>

theorem uoe_data_payload_lost:
  assumes "sock_data c" "sock_data c'" "al (8 + n)" "al' (8 + n)" "datagram_socket recv"
    and "0 < n" "n \<le> 65536" "length d = n"
  shows "\<exists>dg. uc_sent (snd (uoe_send_data ks al ep seq (Some d) (word_of_nat n) c)) =
      uc_sent c @ [dg] \<and> drop 8 (dg_bytes dg) = d \<and>
    uoe_recv_packet recv al' c' t (dg_bytes dg # next # q) =
      Inr (8 + int n, Some \<lparr>up_hdr = \<lparr>uh_type = UOE_DATA, uh_ep_addr = ep, uh_seq = seq,
          uh_length = word_of_nat n\<rparr>,
        up_data = blit (replicate n 0) 0 (drop 8 (take n next))\<rparr>, q)"
proof -
  let ?h = "\<lparr>uh_type = UOE_DATA, uh_ep_addr = ep, uh_seq = seq, uh_length = word_of_nat n\<rparr>"
  let ?dg = "\<lparr>dg_chan = Chan_data, dg_dest = remote_data c, dg_bytes = uoe_hdr_bytes ?h @ d\<rparr>"
  have n: "unat (word_of_nat n :: u32) = n" using assms(7) by (simp add: unat_of_nat)
  then have "0 < (word_of_nat n :: u32)"
    using assms(6) by (metis unat_gt_0 unsigned_0 word_gt_0 less_irrefl)
  then have "uoe_recv_packet recv al' c' t (dg_bytes ?dg # next # q) =
      Inr (8 + int n, Some \<lparr>up_hdr = ?h,
        up_data = blit (replicate n 0) 0 (drop 8 (take n next))\<rparr>, q)"
    using recv_with_payload [of recv c' al' ?h t d "next # q"] assms n
    by (simp add: datagram_recvD)
  moreover have "uc_sent (snd (uoe_send_data ks al ep seq (Some d) (word_of_nat n) c)) =
      uc_sent c @ [?dg]"
    using assms n by (simp add: uoe_send_data_def uoe_send_udp_def Let_def)
  ultimately show ?thesis by (intro exI [of _ ?dg]) simp
qed

text \<open>Fact: a header whose length field lies in the last eight values of the 32 bits announces a
  negative length to the receiver: the buffer it allocates is smaller than the header it then copies
  there.\<close>

theorem uoe_recv_heap_overflow:
  assumes "datagram_socket recv" "sock_data c" "\<And>n. n < 8 \<Longrightarrow> al n"
    and "4294967288 \<le> unat (uh_length h)"
  shows "uoe_recv_packet recv al c t ((uoe_hdr_bytes h @ rest) # q) = Inl Heap_overflow"
proof -
  obtain n where n: "unat (uh_length h) = n" by simp
  then have "n < 4294967296" using unat_u32_bound by blast
  then have "int_of_u32 n = int n - 4294967296" "(8 + int_of_u32 n) mod 2 ^ 64 = int n - 4294967288"
    using assms(4) n by (simp_all add: int_of_u32_def Let_def)
  moreover have "nat (int n - 4294967288) < 8" using \<open>n < 4294967296\<close> by simp
  moreover have "int n - 4294967296 \<le> UOE_MAX_PAYLOAD"
    using \<open>n < 4294967296\<close> by (simp add: UOE_MAX_PAYLOAD_def)
  ultimately show ?thesis
    using recv_header [OF assms(1), of h rest q] assms(2,3) n
    by (simp add: uoe_recv_packet_def Let_def not_less)
qed

lemma uoe_data_payload_lost_witness:
  "\<exists>dg :: uoe_dgram. drop 8 (dg_bytes dg) = [1, 2, 3] \<and>
    uoe_recv_packet udp_recv (\<lambda>_. True) (zero_conn\<lparr>sock_data := True\<rparr>) 10 [dg_bytes dg, [9]] =
    Inr (11, Some \<lparr>up_hdr = \<lparr>uh_type = UOE_DATA, uh_ep_addr = 2, uh_seq = 7, uh_length = 3\<rparr>,
      up_data = [0, 0, 0]\<rparr>, [])"
proof -
  have "length [1, 2, 3 :: u8] = 3" by simp
  from uoe_data_payload_lost [OF _ _ _ _ udp_recv_datagram _ _ this, of
      "zero_conn\<lparr>sock_data := True\<rparr>" "zero_conn\<lparr>sock_data := True\<rparr>" "\<lambda>_. True" "\<lambda>_. True"
      "\<lambda>_. 8" 2 7 10 "[9]" "[]"]
  obtain dg :: uoe_dgram where "drop 8 (dg_bytes dg) = [1, 2, 3]"
    "uoe_recv_packet udp_recv (\<lambda>_. True) (zero_conn\<lparr>sock_data := True\<rparr>) 10 [dg_bytes dg, [9]] =
      Inr (8 + int 3, Some \<lparr>up_hdr = \<lparr>uh_type = UOE_DATA, uh_ep_addr = 2, uh_seq = 7,
        uh_length = word_of_nat 3\<rparr>,
        up_data = blit (replicate 3 0) 0 (drop 8 (take 3 [9]))\<rparr>, [])"
    by auto
  then show ?thesis by (intro exI [of _ dg]) (simp add: blit_def numeral_3_eq_3)
qed

lemma uoe_recv_heap_overflow_witness:
  "uoe_recv_packet udp_recv (\<lambda>n. n < 1000) (zero_conn\<lparr>sock_data := True\<rparr>) 10
    [uoe_hdr_bytes \<lparr>uh_type = UOE_DATA, uh_ep_addr = 1, uh_seq = 0, uh_length = 4294967295\<rparr>] =
   Inl Heap_overflow"
  using uoe_recv_heap_overflow [OF udp_recv_datagram, of "zero_conn\<lparr>sock_data := True\<rparr>"
      "\<lambda>n. n < 1000" "\<lparr>uh_type = UOE_DATA, uh_ep_addr = 1, uh_seq = 0, uh_length = 4294967295\<rparr>"
      10 "[]" "[]"] by simp

section \<open>Making a connection\<close>

text \<open>Fact: a connection is made whole or not at all: with 0 both sockets exist and the
  connection points to them; with an error no socket is left, and closing a made connection
  leaves none either. The server's addresses of its peer stay zero.\<close>

definition uoe_open_sockets :: "uoe_connection \<Rightarrow> nat" where
  "uoe_open_sockets c = (if sock_data c then 1 else 0) + (if sock_event c then 1 else 0)"

lemma uoe_client_whole:
  assumes "uoe_create_client aton e1 e2 ip dp ep live = (ret, c, live')"
  shows "if ret < 0 then live' = live \<and> \<not> uc_connected c
    else ret = 0 \<and> live' = live + uoe_open_sockets c \<and> uc_connected c \<and> sock_data c \<and> sock_event c \<and>
      remote_data c = uoe_sock_addr aton (Some ip) dp \<and>
      remote_event c = uoe_sock_addr aton (Some ip) ep \<and> uc_sent c = []"
  using assms
  by (auto simp: uoe_create_client_def uoe_create_udp_socket_def uoe_open_sockets_def zero_conn_def
      Let_def split: if_split_asm)

lemma uoe_server_whole:
  assumes "uoe_create_server aton e1 e2 ip lp ep live = (ret, c, live')"
  shows "if ret < 0 then live' = live \<and> \<not> uc_connected c
    else ret = 0 \<and> live' = live + uoe_open_sockets c \<and> uc_connected c \<and> sock_data c \<and> sock_event c \<and>
      remote_data c = no_addr \<and> remote_event c = no_addr \<and> uc_sent c = []"
  using assms
  by (auto simp: uoe_create_server_def uoe_create_udp_socket_def uoe_open_sockets_def zero_conn_def
      Let_def split: if_split_asm)

lemma uoe_close_whole:
  "uoe_close (c, live + uoe_open_sockets c) = (c', live') \<Longrightarrow> live' = live \<and>
    uoe_open_sockets c' = 0 \<and> \<not> uc_connected c'"
  by (auto simp: uoe_close_def uoe_open_sockets_def Let_def)

end
