(* ===== verification/Uoe_Hcd.thy ===== *)
theory Uoe_Hcd
  imports Uoe_Net
begin

text \<open>
  USB over Ethernet, the host controller (\<open>modules/dummy_usb/hcd.c\<close>): the root hub's one port as the
  32-bit word the code keeps, the URB queue, the poll and the event thread, and binding. A call of
  \<open>usb_hcd_poll_rh_status\<close> or \<open>usb_hcd_resume_root_hub\<close> is counted; what the USB core answers is an
  argument.
\<close>

section \<open>State\<close>

definition USB_PORT_STAT_CONNECTION :: u32 where "USB_PORT_STAT_CONNECTION = 0x0001"
definition USB_PORT_STAT_ENABLE :: u32 where "USB_PORT_STAT_ENABLE = 0x0002"
definition USB_PORT_STAT_SUSPEND :: u32 where "USB_PORT_STAT_SUSPEND = 0x0004"
definition USB_PORT_STAT_RESET :: u32 where "USB_PORT_STAT_RESET = 0x0010"
definition USB_PORT_STAT_POWER :: u32 where "USB_PORT_STAT_POWER = 0x0100"
definition USB_PORT_STAT_LOW_SPEED :: u32 where "USB_PORT_STAT_LOW_SPEED = 0x0200"
definition USB_PORT_STAT_HIGH_SPEED :: u32 where "USB_PORT_STAT_HIGH_SPEED = 0x0400"
definition USB_PORT_STAT_C_RESET :: u32 where "USB_PORT_STAT_C_RESET = 0x0010"

definition USB_PORT_FEAT_ENABLE :: nat where "USB_PORT_FEAT_ENABLE = 1"
definition USB_PORT_FEAT_SUSPEND :: nat where "USB_PORT_FEAT_SUSPEND = 2"
definition USB_PORT_FEAT_RESET :: nat where "USB_PORT_FEAT_RESET = 4"
definition USB_PORT_FEAT_POWER :: nat where "USB_PORT_FEAT_POWER = 8"
definition USB_PORT_FEAT_C_CONNECTION :: nat where "USB_PORT_FEAT_C_CONNECTION = 16"
definition USB_PORT_FEAT_C_RESET :: nat where "USB_PORT_FEAT_C_RESET = 20"

lemmas port_stats = USB_PORT_STAT_CONNECTION_def USB_PORT_STAT_ENABLE_def
  USB_PORT_STAT_SUSPEND_def USB_PORT_STAT_RESET_def USB_PORT_STAT_POWER_def
  USB_PORT_STAT_LOW_SPEED_def USB_PORT_STAT_HIGH_SPEED_def USB_PORT_STAT_C_RESET_def
lemmas port_feats = USB_PORT_FEAT_ENABLE_def USB_PORT_FEAT_SUSPEND_def USB_PORT_FEAT_RESET_def
  USB_PORT_FEAT_POWER_def USB_PORT_FEAT_C_CONNECTION_def USB_PORT_FEAT_C_RESET_def

datatype hc_state = HC_STATE_HALT | HC_STATE_RUNNING | HC_STATE_SUSPENDED

text \<open>A \<open>task_struct\<close> pointer: null, an error code, a thread, or a thread that has been stopped.\<close>

datatype task = No_task | Err_task | Task | Dead_task

record uoe_hcd =
  hcd_state :: hc_state
  hcd_conn :: uoe_connection
  hcd_poll_thread :: task
  hcd_event_thread :: task
  hcd_queue :: "nat list"
  port_status :: u32
  old_status :: u32
  hcd_connected :: bool
  remote_connected :: bool
  hcd_accessible :: bool
  hcd_rh_polls :: nat
  hcd_rh_resumes :: nat
  hcd_given :: "(nat \<times> int) list"

section \<open>Threads\<close>

text \<open>One turn of \<open>uoe_hcd_poll_loop\<close>: whatever arrives is freed. A receive error only changes how
  long the loop sleeps.\<close>

definition uoe_hcd_poll_iter ::
  "(nat \<Rightarrow> 'k \<Rightarrow> int \<times> bytes \<times> 'k) \<Rightarrow> (nat \<Rightarrow> bool) \<Rightarrow> uoe_hcd \<times> 'k \<Rightarrow> uoe_fault + uoe_hcd \<times> 'k" where
  "uoe_hcd_poll_iter recv al = (\<lambda>(h, k).
     case uoe_recv_packet recv al (hcd_conn h) 10 k of
       Inl f \<Rightarrow> Inl f
     | Inr (ret, pkt, k1) \<Rightarrow> Inr (h, k1))"

definition poll_rh_status :: "uoe_hcd \<Rightarrow> uoe_hcd" where
  "poll_rh_status h = h\<lparr>hcd_rh_polls := hcd_rh_polls h + 1\<rparr>"

definition port_event :: "u8 \<Rightarrow> uoe_hcd \<Rightarrow> uoe_hcd" where
  "port_event ev h =
     (if ev = UOE_EVENT_CONNECT then
        h\<lparr>port_status := port_status h OR USB_PORT_STAT_CONNECTION OR USB_PORT_STAT_ENABLE,
          remote_connected := True\<rparr>
      else if ev = UOE_EVENT_DISCONNECT then
        h\<lparr>port_status := port_status h AND NOT USB_PORT_STAT_CONNECTION AND NOT USB_PORT_STAT_ENABLE,
          remote_connected := False\<rparr>
      else if ev = UOE_EVENT_RESET_DONE then
        h\<lparr>port_status := port_status h AND NOT USB_PORT_STAT_RESET OR USB_PORT_STAT_ENABLE
            OR push_bit 16 USB_PORT_STAT_C_RESET\<rparr>
      else if ev = UOE_EVENT_SUSPEND then h\<lparr>port_status := port_status h OR USB_PORT_STAT_SUSPEND\<rparr>
      else if ev = UOE_EVENT_RESUME then h\<lparr>port_status := port_status h AND NOT USB_PORT_STAT_SUSPEND\<rparr>
      else h)"

text \<open>One turn of \<open>uoe_hcd_event_loop\<close>. \<open>evt\<close> is the local variable the datagrams are received into:
  a short datagram overwrites its first bytes only.\<close>

definition uoe_hcd_event_iter ::
  "(nat \<Rightarrow> 'k \<Rightarrow> int \<times> bytes \<times> 'k) \<Rightarrow> uoe_hcd \<times> bytes \<times> 'k \<Rightarrow> uoe_hcd \<times> bytes \<times> 'k" where
  "uoe_hcd_event_iter recv = (\<lambda>(h, evt, k).
     case recv 4 k of (ret, bs, k1) \<Rightarrow>
       if ret < 0 then (h, evt, k1)
       else let evt1 = blit evt 0 bs in
         if evt1 ! 0 \<noteq> UOE_EVENT then (h, evt1, k1)
         else let h1 = port_event (evt1 ! 1) h
              in (poll_rh_status (h1\<lparr>old_status := port_status h1\<rparr>), evt1, k1))"

section \<open>The operations of the host controller\<close>

definition uoe_hcd_start :: "uoe_hcd \<Rightarrow> int \<times> uoe_hcd" where
  "uoe_hcd_start h = (let st = USB_PORT_STAT_POWER OR USB_PORT_STAT_CONNECTION in
     (0, h\<lparr>hcd_state := HC_STATE_RUNNING, hcd_queue := [], port_status := st, old_status := st\<rparr>))"

text \<open>\<open>kthread_stop\<close> waits for the thread and drops the last reference to it.\<close>

definition kthread_stop :: "task \<Rightarrow> uoe_fault + task" where
  "kthread_stop t = (if t = Task then Inr Dead_task else Inl Bad_thread)"

text \<open>A null pointer is not stopped; a stopped thread's pointer becomes null.\<close>

definition stop_thread :: "task \<Rightarrow> uoe_fault + task" where
  "stop_thread t = (if t = No_task then Inr No_task
     else case kthread_stop t of Inl f \<Rightarrow> Inl f | Inr _ \<Rightarrow> Inr No_task)"

definition uoe_hcd_stop :: "uoe_hcd \<times> nat \<Rightarrow> uoe_fault + uoe_hcd \<times> nat" where
  "uoe_hcd_stop = (\<lambda>(h, live). case stop_thread (hcd_poll_thread h) of Inl f \<Rightarrow> Inl f
   | Inr p \<Rightarrow> (case stop_thread (hcd_event_thread h) of Inl f \<Rightarrow> Inl f
     | Inr e \<Rightarrow> (case uoe_close (hcd_conn h, live) of (c, live1) \<Rightarrow>
         Inr (h\<lparr>hcd_poll_thread := p, hcd_event_thread := e, hcd_conn := c\<rparr>, live1))))"

text \<open>\<open>link\<close> is what \<open>usb_hcd_link_urb_to_ep\<close> returns, \<open>check\<close> what \<open>usb_hcd_check_unlink_urb\<close> does.\<close>

definition uoe_hcd_urb_enqueue :: "int \<Rightarrow> nat \<Rightarrow> uoe_hcd \<Rightarrow> int \<times> uoe_hcd" where
  "uoe_hcd_urb_enqueue link urb h =
     (if \<not> hcd_connected h then (- ENODEV, h)
      else if link \<noteq> 0 then (link, h)
      else (0, h\<lparr>hcd_queue := hcd_queue h @ [urb]\<rparr>))"

definition uoe_hcd_urb_dequeue :: "int \<Rightarrow> nat \<Rightarrow> int \<Rightarrow> uoe_hcd \<Rightarrow> int \<times> uoe_hcd" where
  "uoe_hcd_urb_dequeue check urb status h =
     (if check \<noteq> 0 then (check, h)
      else (0, h\<lparr>hcd_queue := remove1 urb (hcd_queue h), hcd_given := hcd_given h @ [(urb, status)]\<rparr>))"

definition uoe_hcd_get_frame :: "nat \<Rightarrow> nat" where
  "uoe_hcd_get_frame tv_nsec = tv_nsec div 1000000"

definition port_changed :: "uoe_hcd \<Rightarrow> bool" where
  "port_changed h \<longleftrightarrow> port_status h AND 0xffff0000 \<noteq> 0"

definition uoe_hcd_hub_status :: "bytes \<Rightarrow> uoe_hcd \<Rightarrow> int \<times> bytes \<times> uoe_hcd" where
  "uoe_hcd_hub_status buf h =
     (if port_changed h
      then (1, buf[0 := 2],
        if hcd_state h = HC_STATE_SUSPENDED then h\<lparr>hcd_rh_resumes := hcd_rh_resumes h + 1\<rparr> else h)
      else (0, buf, h))"

datatype hub_request = ClearHubFeature | ClearPortFeature | GetHubDescriptor | GetHubStatus
  | GetPortStatus | SetHubFeature | SetPortFeature | Other_request

definition hcd_send :: "(uoe_dgram \<Rightarrow> int) \<Rightarrow> u8 \<Rightarrow> uoe_hcd \<Rightarrow> uoe_hcd" where
  "hcd_send ks ev h = h\<lparr>hcd_conn := snd (uoe_send_event ks ev (hcd_conn h))\<rparr>"

definition clear_port_feature :: "(uoe_dgram \<Rightarrow> int) \<Rightarrow> nat \<Rightarrow> uoe_hcd \<Rightarrow> int \<times> uoe_hcd" where
  "clear_port_feature ks wValue h =
     (if wValue = USB_PORT_FEAT_SUSPEND then
        (0, hcd_send ks UOE_EVENT_RESUME (h\<lparr>port_status := port_status h AND NOT USB_PORT_STAT_SUSPEND\<rparr>))
      else if wValue = USB_PORT_FEAT_POWER then
        (0, h\<lparr>port_status := port_status h AND NOT USB_PORT_STAT_POWER\<rparr>)
      else if wValue = USB_PORT_FEAT_ENABLE \<or> wValue = USB_PORT_FEAT_C_CONNECTION \<or>
          wValue = USB_PORT_FEAT_C_RESET then
        (0, h\<lparr>port_status := port_status h AND NOT (push_bit wValue 1)\<rparr>)
      else (- EPIPE, h))"

definition set_port_feature :: "(uoe_dgram \<Rightarrow> int) \<Rightarrow> nat \<Rightarrow> uoe_hcd \<Rightarrow> int \<times> uoe_hcd" where
  "set_port_feature ks wValue h =
     (if wValue = USB_PORT_FEAT_SUSPEND then
        (0, if port_status h AND USB_PORT_STAT_ENABLE \<noteq> 0
            then hcd_send ks UOE_EVENT_SUSPEND
              (h\<lparr>port_status := port_status h OR USB_PORT_STAT_SUSPEND\<rparr>)
            else h)
      else if wValue = USB_PORT_FEAT_POWER then
        (0, h\<lparr>port_status := port_status h OR USB_PORT_STAT_POWER\<rparr>)
      else if wValue = USB_PORT_FEAT_RESET then
        (0, if port_status h AND USB_PORT_STAT_CONNECTION \<noteq> 0
            then h\<lparr>port_status := (port_status h OR USB_PORT_STAT_RESET) AND
              NOT (USB_PORT_STAT_ENABLE OR USB_PORT_STAT_LOW_SPEED OR USB_PORT_STAT_HIGH_SPEED)\<rparr>
            else h)
      else (- EPIPE, h))"

text \<open>The descriptor: length 9, type \<open>0x29\<close>, one port, individual power switching, and the two bytes
  of \<open>DeviceRemovable\<close>. The USB core passes a buffer of at least 15 bytes.\<close>

definition hub_descriptor :: "bytes \<Rightarrow> bytes" where
  "hub_descriptor buf = buf[0 := 9, 1 := 0x29, 2 := 1, 3 := 1, 4 := 0, 7 := 0, 8 := 0xff]"

definition hub_control_request ::
  "(uoe_dgram \<Rightarrow> int) \<Rightarrow> hub_request \<Rightarrow> nat \<Rightarrow> nat \<Rightarrow> bytes \<Rightarrow> uoe_hcd \<Rightarrow> int \<times> bytes \<times> uoe_hcd" where
  "hub_control_request ks req wValue wIndex buf h = (case req of
     ClearHubFeature \<Rightarrow> (0, buf, h)
   | ClearPortFeature \<Rightarrow> (case clear_port_feature ks wValue h of (r, h1) \<Rightarrow> (r, buf, h1))
   | GetHubDescriptor \<Rightarrow> (0, hub_descriptor buf, h)
   | GetHubStatus \<Rightarrow> (0, blit buf 0 (le32 0), h)
   | GetPortStatus \<Rightarrow>
       if wIndex \<noteq> 1 then (- EPIPE, buf, h)
       else (0, blit (blit buf 0 (le16 (unat (port_status h)))) 2
                  (le16 (unat (drop_bit 16 (port_status h)))), h)
   | SetHubFeature \<Rightarrow> (- EPIPE, buf, h)
   | SetPortFeature \<Rightarrow> (case set_port_feature ks wValue h of (r, h1) \<Rightarrow> (r, buf, h1))
   | Other_request \<Rightarrow> (- EPIPE, buf, h))"

definition uoe_hcd_hub_control ::
  "(uoe_dgram \<Rightarrow> int) \<Rightarrow> hub_request \<Rightarrow> nat \<Rightarrow> nat \<Rightarrow> bytes \<Rightarrow> uoe_hcd \<Rightarrow> int \<times> bytes \<times> uoe_hcd" where
  "uoe_hcd_hub_control ks req wValue wIndex buf h =
     (case hub_control_request ks req wValue wIndex buf h of (retval, buf1, h1) \<Rightarrow>
        (retval, buf1, if port_changed h1 then poll_rh_status h1 else h1))"

definition uoe_hcd_bus_suspend :: "uoe_hcd \<Rightarrow> int \<times> uoe_hcd" where
  "uoe_hcd_bus_suspend h = (0, h\<lparr>hcd_state := HC_STATE_SUSPENDED,
     port_status := port_status h OR USB_PORT_STAT_SUSPEND\<rparr>)"

definition uoe_hcd_bus_resume :: "uoe_hcd \<Rightarrow> int \<times> uoe_hcd" where
  "uoe_hcd_bus_resume h = (0, h\<lparr>hcd_state := HC_STATE_RUNNING,
     port_status := port_status h AND NOT USB_PORT_STAT_SUSPEND\<rparr>)"

section \<open>Binding\<close>

text \<open>\<open>rm\<close> is \<open>usb_remove_hcd\<close>, which calls the driver's \<open>stop\<close>; \<open>usb_add_hcd\<close> calls \<open>start\<close> when it
  succeeds. A thread is \<open>Task\<close>, or \<open>Err_task\<close> when \<open>kthread_run\<close> fails.\<close>

record hcd_env =
  he_disabled :: bool
  he_create :: bool
  he_sock1 :: uoe_sock_env
  he_sock2 :: uoe_sock_env
  he_add :: int
  he_poll :: int
  he_event :: int

type_synonym remove_call =
  "(uoe_hcd \<times> nat \<Rightarrow> uoe_fault + uoe_hcd \<times> nat) \<Rightarrow> uoe_hcd \<times> nat \<Rightarrow> uoe_fault + uoe_hcd \<times> nat"

definition calls_stop :: "remove_call \<Rightarrow> bool" where
  "calls_stop rm \<longleftrightarrow> (\<forall>stop s. rm stop s = stop s)"

definition zero_hcd :: uoe_hcd where
  "zero_hcd = \<lparr>hcd_state = HC_STATE_HALT, hcd_conn = zero_conn, hcd_poll_thread = No_task,
     hcd_event_thread = No_task, hcd_queue = [], port_status = 0, old_status = 0,
     hcd_connected = False, remote_connected = False, hcd_accessible = False, hcd_rh_polls = 0,
     hcd_rh_resumes = 0, hcd_given = []\<rparr>"

definition hcd_unwind ::
  "remove_call \<Rightarrow> int \<Rightarrow> uoe_hcd \<times> nat \<Rightarrow> uoe_fault + int \<times> uoe_hcd option \<times> nat" where
  "hcd_unwind rm retval s = (case rm uoe_hcd_stop s of Inl f \<Rightarrow> Inl f
     | Inr (h, live) \<Rightarrow> Inr (retval, None, snd (uoe_close (hcd_conn h, live))))"

definition uoe_hcd_probe ::
  "(string \<Rightarrow> u32) \<Rightarrow> remove_call \<Rightarrow> hcd_env \<Rightarrow> string option \<Rightarrow> int \<Rightarrow> int \<Rightarrow> nat \<Rightarrow>
     uoe_fault + int \<times> uoe_hcd option \<times> nat" where
  "uoe_hcd_probe aton rm e remote_ip data_port event_port live =
     (if he_disabled e then Inr (- ENODEV, None, live)
      else case remote_ip of None \<Rightarrow> Inr (- EINVAL, None, live)
      | Some ip \<Rightarrow>
        if ip = '''' then Inr (- EINVAL, None, live)
        else if \<not> he_create e then Inr (- ENOMEM, None, live)
        else case uoe_create_client aton (he_sock1 e) (he_sock2 e) ip data_port event_port live of
          (retval, c, live1) \<Rightarrow>
          if retval < 0 then Inr (retval, None, live1)
          else let h1 = zero_hcd\<lparr>hcd_conn := c, hcd_connected := True\<rparr> in
          if he_add e < 0 then Inr (he_add e, None, snd (uoe_close (c, live1)))
          else let h2 = snd (uoe_hcd_start h1) in
          if he_poll e < 0
          then hcd_unwind rm (he_poll e) (h2\<lparr>hcd_poll_thread := Err_task\<rparr>, live1)
          else let h3 = h2\<lparr>hcd_poll_thread := Task\<rparr> in
          if he_event e < 0
          then (case kthread_stop (hcd_poll_thread h3) of Inl f \<Rightarrow> Inl f
            | Inr t \<Rightarrow> hcd_unwind rm (he_event e)
                (h3\<lparr>hcd_poll_thread := t, hcd_event_thread := Err_task\<rparr>, live1))
          else Inr (0, Some (h3\<lparr>hcd_event_thread := Task\<rparr>), live1))"

text \<open>\<open>remove\<close> stops the threads without clearing their pointers.\<close>

definition stop_and_keep :: "task \<Rightarrow> uoe_fault + task" where
  "stop_and_keep t = (if t = No_task then Inr t else kthread_stop t)"

definition uoe_hcd_remove :: "remove_call \<Rightarrow> uoe_hcd option \<Rightarrow> nat \<Rightarrow> uoe_fault + int \<times> nat" where
  "uoe_hcd_remove rm hcd live = (case hcd of None \<Rightarrow> Inr (0, live)
   | Some h \<Rightarrow> (case stop_and_keep (hcd_poll_thread h) of Inl f \<Rightarrow> Inl f
     | Inr p \<Rightarrow> (case stop_and_keep (hcd_event_thread h) of Inl f \<Rightarrow> Inl f
       | Inr e \<Rightarrow> (case rm uoe_hcd_stop (h\<lparr>hcd_poll_thread := p, hcd_event_thread := e\<rparr>, live) of
           Inl f \<Rightarrow> Inl f
         | Inr (h1, live1) \<Rightarrow> Inr (0, snd (uoe_close (hcd_conn h1, live1)))))))"

definition uoe_hcd_suspend :: "uoe_hcd option \<Rightarrow> int \<times> uoe_hcd option" where
  "uoe_hcd_suspend hcd = (0, map_option (\<lambda>h. h\<lparr>hcd_accessible := True\<rparr>) hcd)"

definition uoe_hcd_resume :: "uoe_hcd option \<Rightarrow> int \<times> uoe_hcd option" where
  "uoe_hcd_resume hcd = (0, map_option (\<lambda>h. poll_rh_status (h\<lparr>hcd_accessible := True\<rparr>)) hcd)"

text \<open>The registered driver and the platform device, as in the device controller.\<close>

datatype hcd_res = Hcd_driver | Hcd_pdev

definition uoe_hcd_init :: "bool \<Rightarrow> int \<Rightarrow> bool \<Rightarrow> int \<Rightarrow> hcd_res set \<Rightarrow> int \<times> hcd_res set" where
  "uoe_hcd_init disabled reg palloc padd res =
     (if disabled then (- ENODEV, res)
      else if reg < 0 then (reg, res)
      else let res1 = insert Hcd_driver res in
      if \<not> palloc then (- ENOMEM, res1 - {Hcd_driver})
      else if padd < 0 then (padd, res1)
      else (0, insert Hcd_pdev res1))"

definition uoe_hcd_cleanup :: "hcd_res set \<Rightarrow> hcd_res set" where
  "uoe_hcd_cleanup res = (if Hcd_pdev \<in> res then res - {Hcd_pdev} else res) - {Hcd_driver}"

end
