(* ===== verification/Uoe_Udc.thy ===== *)
theory Uoe_Udc
  imports Uoe_Net
begin

text \<open>
  USB over Ethernet, the device controller (\<open>modules/dummy_usb/udc.c\<close>): its endpoints and request
  queues, the endpoint and gadget operations, the control requests it handles itself, and what the
  poll thread does with one packet. A completion handler runs after the lock has been dropped and
  as the last thing its caller does, except in \<open>nuke\<close>, which takes the handler as a parameter; the
  other operations record the request in \<open>udc_given\<close>, and what the handler does are further
  operations.
\<close>

section \<open>Endpoints and requests\<close>

datatype usb_speed = Speed_unknown | Speed_low | Speed_full | Speed_high | Speed_super

datatype xfer_type = Xfer_control | Xfer_isoc | Xfer_bulk | Xfer_int

text \<open>A descriptor as the code reads it: \<open>ed_xfer\<close> and \<open>ed_maxp\<close> are what \<open>usb_endpoint_type\<close> and
  \<open>usb_endpoint_maxp\<close> return for it.\<close>

record usb_endpoint_descriptor =
  ed_type :: nat
  ed_addr :: u8
  ed_xfer :: xfer_type
  ed_maxp :: nat

definition USB_DT_ENDPOINT :: nat where "USB_DT_ENDPOINT = 5"
definition USB_DIR_IN :: u8 where "USB_DIR_IN = 128"

definition dir_in :: "usb_endpoint_descriptor option \<Rightarrow> bool" where
  "dir_in desc = (case desc of None \<Rightarrow> False | Some ds \<Rightarrow> ed_addr ds AND USB_DIR_IN \<noteq> 0)"

text \<open>A buffer: memory of the gadget driver, the controller's \<open>fifo_buf\<close>, or a stack variable of a
  function that has returned. A request is the controller's own \<open>fifo_req\<close> or an allocated one.\<close>

datatype ubuf = Mem bytes | Fifo_buf | Dangling

datatype uoe_req = Fifo_req | Req nat

record usb_request =
  ur_buf :: ubuf
  ur_length :: nat
  ur_actual :: nat
  ur_status :: int
  ur_complete :: bool

definition zero_req :: usb_request where
  "zero_req = \<lparr>ur_buf = Mem [], ur_length = 0, ur_actual = 0, ur_status = 0, ur_complete = False\<rparr>"

record uoe_ep =
  ep_name :: string
  ep_maxpacket :: nat
  ep_desc :: "usb_endpoint_descriptor option"
  ep_queue :: "uoe_req list"
  ep_halted :: bool
  ep_wedged :: bool
  ep_setup_stage :: bool

definition FIFO_SIZE :: nat where "FIFO_SIZE = 64"

definition ep_names :: "string list" where
  "ep_names = [''ep0'', ''ep1in-bulk'', ''ep2out-bulk'', ''ep5in-int'', ''ep6in-bulk'',
     ''ep7out-bulk'', ''ep10in-int'', ''ep11in-bulk'', ''ep12out-bulk'', ''ep15in-int'',
     ''ep1out-bulk'', ''ep2in-bulk'', ''ep-aout'', ''ep-bin'']"

definition DUMMY_ENDPOINTS :: nat where "DUMMY_ENDPOINTS = 14"

text \<open>
  The device controller. The requests that have been allocated and not freed are the domain of
  \<open>udc_reqs\<close>. Three fields are for the theorems: whether interrupts are off on the processor that
  ran the last operation, the requests accepted by \<open>dummy_queue\<close>, and those given back: endpoint,
  request, status, actual length.
\<close>

record uoe_udc =
  udc_eps :: "uoe_ep list"
  udc_reqs :: "nat \<Rightarrow> usb_request option"
  udc_next :: nat
  udc_fifo :: usb_request
  udc_fifo_buf :: bytes
  udc_address :: nat
  udc_usage :: nat
  udc_speed :: usb_speed
  udc_selfpowered :: bool
  udc_driver :: bool
  udc_devstatus :: u16
  udc_ints_enabled :: bool
  udc_suspended :: bool
  udc_pullup :: bool
  udc_conn :: uoe_connection
  udc_irqs_off :: bool
  udc_taken :: "nat list"
  udc_given :: "(nat \<times> nat \<times> int \<times> nat) list"

definition ep_of :: "uoe_udc \<Rightarrow> nat \<Rightarrow> uoe_ep" where
  "ep_of d e = udc_eps d ! e"

definition upd_ep :: "nat \<Rightarrow> (uoe_ep \<Rightarrow> uoe_ep) \<Rightarrow> uoe_udc \<Rightarrow> uoe_udc" where
  "upd_ep e f d = d\<lparr>udc_eps := (udc_eps d)[e := f (ep_of d e)]\<rparr>"

definition set_queue :: "nat \<Rightarrow> uoe_req list \<Rightarrow> uoe_udc \<Rightarrow> uoe_udc" where
  "set_queue e q = upd_ep e (\<lambda>p. p\<lparr>ep_queue := q\<rparr>)"

definition put_req :: "nat \<Rightarrow> usb_request \<Rightarrow> uoe_udc \<Rightarrow> uoe_udc" where
  "put_req n rq d = d\<lparr>udc_reqs := (udc_reqs d)(n := Some rq)\<rparr>"

text \<open>\<open>list_empty(&req->queue)\<close> is false exactly while the request is linked into a queue.\<close>

definition queued :: "uoe_udc \<Rightarrow> uoe_req list" where
  "queued d = concat (map ep_queue (udc_eps d))"

definition on_queue :: "uoe_udc \<Rightarrow> uoe_req \<Rightarrow> bool" where
  "on_queue d r = (r \<in> set (queued d))"

definition req_of :: "uoe_udc \<Rightarrow> uoe_req \<Rightarrow> usb_request option" where
  "req_of d r = (case r of Fifo_req \<Rightarrow> Some (udc_fifo d) | Req n \<Rightarrow> udc_reqs d n)"

definition set_status :: "uoe_req \<Rightarrow> int \<Rightarrow> uoe_udc \<Rightarrow> uoe_fault + uoe_udc" where
  "set_status r st d = (case r of
     Fifo_req \<Rightarrow> Inr (d\<lparr>udc_fifo := (udc_fifo d)\<lparr>ur_status := st\<rparr>\<rparr>)
   | Req n \<Rightarrow> (case udc_reqs d n of None \<Rightarrow> Inl Use_after_free
       | Some rq \<Rightarrow> Inr (put_req n (rq\<lparr>ur_status := st\<rparr>) d)))"

text \<open>\<open>usb_gadget_giveback_request\<close>; \<open>fifo_complete\<close> does nothing.\<close>

definition fifo_complete :: "uoe_udc \<Rightarrow> uoe_udc" where
  "fifo_complete d = d"

definition gave_back :: "nat \<Rightarrow> uoe_req \<Rightarrow> uoe_udc \<Rightarrow> uoe_udc" where
  "gave_back e r d = (case r of Fifo_req \<Rightarrow> fifo_complete d
     | Req n \<Rightarrow> (case udc_reqs d n of None \<Rightarrow> d
         | Some rq \<Rightarrow> d\<lparr>udc_given := udc_given d @ [(e, n, ur_status rq, ur_actual rq)]\<rparr>))"

text \<open>The completion handlers of a gadget driver, as far as \<open>nuke\<close> is concerned: what the handler
  of request \<open>n\<close> on endpoint \<open>e\<close> does to the controller before it returns.\<close>

type_synonym handler = "nat \<Rightarrow> nat \<Rightarrow> uoe_udc \<Rightarrow> uoe_fault + uoe_udc"

definition run_handler :: "handler \<Rightarrow> nat \<Rightarrow> uoe_req \<Rightarrow> uoe_udc \<Rightarrow> uoe_fault + uoe_udc" where
  "run_handler cb e r d = (case r of Fifo_req \<Rightarrow> Inr d | Req n \<Rightarrow> cb e n d)"

definition nuke_one :: "handler \<Rightarrow> nat \<Rightarrow> uoe_req \<Rightarrow> uoe_req list \<Rightarrow> uoe_udc \<Rightarrow> uoe_fault + uoe_udc" where
  "nuke_one cb e r rs d = (case set_status r (- ESHUTDOWN) (set_queue e rs d) of
     Inl f \<Rightarrow> Inl f
   | Inr d1 \<Rightarrow> run_handler cb e r (gave_back e r d1))"

partial_function (option) nuke :: "handler \<Rightarrow> nat \<Rightarrow> uoe_udc \<Rightarrow> (uoe_fault + uoe_udc) option" where
  "nuke cb e d = (case ep_queue (ep_of d e) of
     [] \<Rightarrow> Some (Inr d)
   | r # rs \<Rightarrow> (case nuke_one cb e r rs d of Inl f \<Rightarrow> Some (Inl f) | Inr d1 \<Rightarrow> nuke cb e d1))"

text \<open>A loop over the endpoints \<open>es\<close>; \<open>None\<close> is a loop that does not end.\<close>

fun nuke_all :: "handler \<Rightarrow> nat list \<Rightarrow> uoe_udc \<Rightarrow> (uoe_fault + uoe_udc) option" where
  "nuke_all cb [] d = Some (Inr d)"
| "nuke_all cb (e # es) d = (case nuke cb e d of
     None \<Rightarrow> None
   | Some (Inl f) \<Rightarrow> Some (Inl f)
   | Some (Inr d1) \<Rightarrow> nuke_all cb es d1)"

definition stop_activity :: "handler \<Rightarrow> uoe_udc \<Rightarrow> (uoe_fault + uoe_udc) option" where
  "stop_activity cb d = nuke_all cb [0..<DUMMY_ENDPOINTS] (d\<lparr>udc_address := 0\<rparr>)"

section \<open>Endpoint operations\<close>

text \<open>An endpoint argument is an index into \<open>udc_eps\<close>, \<open>None\<close> for a null pointer; index 0 is the
  endpoint whose name is \<open>ep0name\<close>. A request argument is the number of an allocated request.\<close>

fun strstr :: "string \<Rightarrow> string \<Rightarrow> bool" where
  "strstr [] needle = (needle = [])"
| "strstr (c # cs) needle = (take (length needle) (c # cs) = needle \<or> strstr cs needle)"

definition bulk_maxp_ok :: "usb_speed \<Rightarrow> nat \<Rightarrow> bool" where
  "bulk_maxp_ok speed mp = (case speed of
     Speed_high \<Rightarrow> mp = 512
   | Speed_full \<Rightarrow> mp = 8 \<or> mp = 16 \<or> mp = 32 \<or> mp = 64
   | _ \<Rightarrow> False)"

definition int_maxp_ok :: "usb_speed \<Rightarrow> nat \<Rightarrow> bool" where
  "int_maxp_ok speed mp = (case speed of
     Speed_high \<Rightarrow> mp \<le> 1024
   | Speed_full \<Rightarrow> mp \<le> 64
   | _ \<Rightarrow> mp \<le> 8)"

definition desc_ok :: "string \<Rightarrow> usb_speed \<Rightarrow> usb_endpoint_descriptor \<Rightarrow> bool" where
  "desc_ok name speed ds = (case ed_xfer ds of
     Xfer_bulk \<Rightarrow> \<not> (strstr name ''-iso'' \<or> strstr name ''-int'') \<and> bulk_maxp_ok speed (ed_maxp ds)
   | Xfer_int \<Rightarrow> \<not> strstr name ''-iso'' \<and> int_maxp_ok speed (ed_maxp ds)
   | _ \<Rightarrow> False)"

definition dummy_enable ::
  "nat option \<Rightarrow> usb_endpoint_descriptor option \<Rightarrow> uoe_udc \<Rightarrow> int \<times> uoe_udc" where
  "dummy_enable ep desc d = (case (ep, desc) of
     (Some e, Some ds) \<Rightarrow>
       if ep_desc (ep_of d e) \<noteq> None \<or> e = 0 \<or> ed_type ds \<noteq> USB_DT_ENDPOINT then (- EINVAL, d)
       else if \<not> udc_driver d then (- ESHUTDOWN, d)
       else if \<not> desc_ok (ep_name (ep_of d e)) (udc_speed d) ds then (- EINVAL, d)
       else (0, upd_ep e (\<lambda>p. p\<lparr>ep_maxpacket := ed_maxp ds, ep_desc := Some ds,
                  ep_halted := False, ep_wedged := False\<rparr>) d)
   | _ \<Rightarrow> (- EINVAL, d))"

definition dummy_disable ::
  "handler \<Rightarrow> nat option \<Rightarrow> uoe_udc \<Rightarrow> (uoe_fault + int \<times> uoe_udc) option" where
  "dummy_disable cb ep d = (case ep of None \<Rightarrow> Some (Inr (- EINVAL, d))
   | Some e \<Rightarrow>
       if ep_desc (ep_of d e) = None \<or> e = 0 then Some (Inr (- EINVAL, d))
       else (case nuke cb e (upd_ep e (\<lambda>p. p\<lparr>ep_desc := None\<rparr>) d) of
           None \<Rightarrow> None
         | Some (Inl f) \<Rightarrow> Some (Inl f)
         | Some (Inr d1) \<Rightarrow> Some (Inr (0, d1))))"

definition dummy_alloc_request :: "bool \<Rightarrow> nat option \<Rightarrow> uoe_udc \<Rightarrow> nat option \<times> uoe_udc" where
  "dummy_alloc_request al ep d =
     (if ep = None \<or> \<not> al then (None, d)
      else (Some (udc_next d), put_req (udc_next d) zero_req (d\<lparr>udc_next := udc_next d + 1\<rparr>)))"

definition dummy_free_request :: "nat option \<Rightarrow> nat option \<Rightarrow> uoe_udc \<Rightarrow> uoe_udc" where
  "dummy_free_request ep req d = (case (ep, req) of
     (Some _, Some n) \<Rightarrow> d\<lparr>udc_reqs := (udc_reqs d)(n := None)\<rparr>
   | _ \<Rightarrow> d)"

definition buf_bytes :: "uoe_udc \<Rightarrow> ubuf \<Rightarrow> bytes option" where
  "buf_bytes d b = (case b of Mem bs \<Rightarrow> Some bs | Fifo_buf \<Rightarrow> Some (udc_fifo_buf d) | Dangling \<Rightarrow> None)"

text \<open>\<open>memcpy\<close> of \<open>n\<close> bytes from a buffer.\<close>

definition buf_read :: "uoe_udc \<Rightarrow> ubuf \<Rightarrow> nat \<Rightarrow> uoe_fault + bytes" where
  "buf_read d b n = (if n = 0 then Inr [] else case buf_bytes d b of
     None \<Rightarrow> Inl Bad_pointer
   | Some bs \<Rightarrow> if length bs < n then Inl Heap_overread else Inr (take n bs))"

definition queue_fifo :: "nat \<Rightarrow> nat \<Rightarrow> usb_request \<Rightarrow> bytes \<Rightarrow> uoe_udc \<Rightarrow> uoe_udc" where
  "queue_fifo e n rq data d =
     gave_back e (Req n) (put_req n (rq\<lparr>ur_actual := ur_length rq, ur_status := 0\<rparr>)
       (set_queue e (ep_queue (ep_of d e) @ [Fifo_req])
         (d\<lparr>udc_fifo := rq\<lparr>ur_buf := Fifo_buf, ur_complete := True\<rparr>,
            udc_fifo_buf := blit (udc_fifo_buf d) 0 data\<rparr>)))"

definition dummy_queue :: "nat option \<Rightarrow> nat option \<Rightarrow> uoe_udc \<Rightarrow> uoe_fault + int \<times> uoe_udc" where
  "dummy_queue ep req d = (case req of None \<Rightarrow> Inr (- EINVAL, d)
   | Some n \<Rightarrow> (case udc_reqs d n of None \<Rightarrow> Inl Use_after_free
   | Some rq0 \<Rightarrow>
       if on_queue d (Req n) \<or> \<not> ur_complete rq0 then Inr (- EINVAL, d)
       else (case ep of None \<Rightarrow> Inr (- EINVAL, d)
       | Some e \<Rightarrow>
           if ep_desc (ep_of d e) = None \<and> e \<noteq> 0 then Inr (- EINVAL, d)
           else if \<not> udc_driver d then Inr (- ESHUTDOWN, d)
           else
             let rq = rq0\<lparr>ur_status := - EINPROGRESS, ur_actual := 0\<rparr>;
                 d1 = (put_req n rq d)\<lparr>udc_taken := udc_taken d @ [n]\<rparr>
             in if dir_in (ep_desc (ep_of d1 e)) \<and> \<not> on_queue d1 Fifo_req \<and>
                   ep_queue (ep_of d1 e) = [] \<and> ur_length rq \<le> FIFO_SIZE
                then (case buf_read d1 (ur_buf rq) (ur_length rq) of
                    Inl f \<Rightarrow> Inl f
                  | Inr data \<Rightarrow> Inr (0, queue_fifo e n rq data d1))
                else Inr (0, set_queue e (ep_queue (ep_of d1 e) @ [Req n]) d1))))"

text \<open>The search stops at the request; it reads every node it passes.\<close>

definition dummy_dequeue :: "nat option \<Rightarrow> nat option \<Rightarrow> uoe_udc \<Rightarrow> uoe_fault + int \<times> uoe_udc" where
  "dummy_dequeue ep req d = (case (ep, req) of
     (Some e, Some n) \<Rightarrow>
       if \<not> udc_driver d then Inr (- ESHUTDOWN, d)
       else let q = ep_queue (ep_of d e) in
         if list_ex (\<lambda>r. req_of d r = None) (takeWhile (\<lambda>r. r \<noteq> Req n) q) then Inl Use_after_free
         else if Req n \<in> set q then
           (case set_status (Req n) (- ECONNRESET) (set_queue e (remove1 (Req n) q) d) of
              Inl f \<Rightarrow> Inl f
            | Inr d1 \<Rightarrow> Inr (0, (gave_back e (Req n) d1)\<lparr>udc_irqs_off := True\<rparr>))
         else Inr (- EINVAL, d)
   | _ \<Rightarrow> Inr (- EINVAL, d))"

definition dummy_set_halt :: "nat option \<Rightarrow> int \<Rightarrow> uoe_udc \<Rightarrow> int \<times> uoe_udc" where
  "dummy_set_halt ep value d = (case ep of None \<Rightarrow> (- EINVAL, d)
   | Some e \<Rightarrow>
       if \<not> udc_driver d then (- ESHUTDOWN, d)
       else if value = 0 then (0, upd_ep e (\<lambda>p. p\<lparr>ep_halted := False, ep_wedged := False\<rparr>) d)
       else if dir_in (ep_desc (ep_of d e)) \<and> ep_queue (ep_of d e) \<noteq> [] then (- EAGAIN, d)
       else (0, upd_ep e (\<lambda>p. p\<lparr>ep_halted := True,
                  ep_wedged := (if value = 2 then True else ep_wedged p)\<rparr>) d))"

definition dummy_set_wedge :: "nat option \<Rightarrow> uoe_udc \<Rightarrow> int \<times> uoe_udc" where
  "dummy_set_wedge ep d =
     (if ep = None \<or> ep = Some 0 then (- EINVAL, d) else dummy_set_halt ep 1 d)"

section \<open>Gadget operations\<close>

definition USB_DEVICE_SELF_POWERED :: nat where "USB_DEVICE_SELF_POWERED = 0"
definition USB_DEVICE_REMOTE_WAKEUP :: nat where "USB_DEVICE_REMOTE_WAKEUP = 1"

definition dummy_g_get_frame :: "nat \<Rightarrow> nat" where
  "dummy_g_get_frame tv_nsec = tv_nsec div 1000000"

definition send_event :: "(uoe_dgram \<Rightarrow> int) \<Rightarrow> u8 \<Rightarrow> uoe_udc \<Rightarrow> int \<times> uoe_udc" where
  "send_event ks ev d = (case uoe_send_event ks ev (udc_conn d) of (r, c) \<Rightarrow> (r, d\<lparr>udc_conn := c\<rparr>))"

definition dummy_wakeup :: "(uoe_dgram \<Rightarrow> int) \<Rightarrow> uoe_udc \<Rightarrow> int \<times> uoe_udc" where
  "dummy_wakeup ks d =
     (if udc_devstatus d AND push_bit USB_DEVICE_REMOTE_WAKEUP 1 = 0 then (- EINVAL, d)
      else send_event ks UOE_EVENT_RESUME d)"

definition dummy_set_selfpowered :: "int \<Rightarrow> uoe_udc \<Rightarrow> int \<times> uoe_udc" where
  "dummy_set_selfpowered value d = (0, d\<lparr>udc_selfpowered := (value \<noteq> 0),
     udc_devstatus := (if value \<noteq> 0 then udc_devstatus d OR push_bit USB_DEVICE_SELF_POWERED 1
       else udc_devstatus d AND NOT (push_bit USB_DEVICE_SELF_POWERED 1))\<rparr>)"

text \<open>With the pull-up off the code sleeps until no \<open>setup\<close> callback is running: the second half
  is reached only in a state where \<open>pullup_may_finish\<close> holds.\<close>

definition dummy_pullup_begin :: "int \<Rightarrow> uoe_udc \<Rightarrow> uoe_udc" where
  "dummy_pullup_begin value d = d\<lparr>udc_pullup := (value \<noteq> 0)\<rparr>"

definition pullup_may_finish :: "int \<Rightarrow> uoe_udc \<Rightarrow> bool" where
  "pullup_may_finish value d \<longleftrightarrow> value \<noteq> 0 \<or> udc_usage d = 0"

definition dummy_pullup_end :: "(uoe_dgram \<Rightarrow> int) \<Rightarrow> int \<Rightarrow> uoe_udc \<Rightarrow> int \<times> uoe_udc" where
  "dummy_pullup_end ks value d =
     (0, snd (send_event ks (if value \<noteq> 0 then UOE_EVENT_CONNECT else UOE_EVENT_DISCONNECT) d))"

definition dummy_udc_update_ep0 :: "uoe_udc \<Rightarrow> uoe_udc" where
  "dummy_udc_update_ep0 d =
     upd_ep 0 (\<lambda>p. p\<lparr>ep_maxpacket := (if udc_speed d = Speed_super then 9 else 64)\<rparr>) d"

definition dummy_udc_set_speed :: "usb_speed \<Rightarrow> uoe_udc \<Rightarrow> uoe_udc" where
  "dummy_udc_set_speed speed d = dummy_udc_update_ep0 (d\<lparr>udc_speed := speed\<rparr>)"

definition dummy_udc_async_callbacks :: "bool \<Rightarrow> uoe_udc \<Rightarrow> uoe_udc" where
  "dummy_udc_async_callbacks enable d = d\<lparr>udc_ints_enabled := enable\<rparr>"

definition dummy_udc_start :: "uoe_udc \<Rightarrow> int \<times> uoe_udc" where
  "dummy_udc_start d =
     (if udc_speed d \<in> {Speed_low, Speed_full, Speed_high}
      then (0, d\<lparr>udc_devstatus := 0, udc_driver := True\<rparr>) else (- EINVAL, d))"

definition dummy_udc_stop :: "handler \<Rightarrow> uoe_udc \<Rightarrow> (uoe_fault + int \<times> uoe_udc) option" where
  "dummy_udc_stop cb d = (case stop_activity cb (d\<lparr>udc_ints_enabled := False\<rparr>) of
     None \<Rightarrow> None
   | Some (Inl f) \<Rightarrow> Some (Inl f)
   | Some (Inr d1) \<Rightarrow> Some (Inr (0, d1\<lparr>udc_driver := False\<rparr>)))"

definition function_show :: "string option \<Rightarrow> uoe_udc \<Rightarrow> string" where
  "function_show func d = (if \<not> udc_driver d then '''' else case func of None \<Rightarrow> ''''
     | Some f \<Rightarrow> take 4095 (f @ [CHR 0x0A]))"

text \<open>\<open>maxpacket_limit\<close> is set to \<open>~0\<close>, of which the field keeps 16 bits.\<close>

definition new_ep :: "string \<Rightarrow> uoe_ep" where
  "new_ep name = \<lparr>ep_name = name, ep_maxpacket = 65535, ep_desc = None, ep_queue = [],
     ep_halted = False, ep_wedged = False, ep_setup_stage = False\<rparr>"

definition init_dummy_udc_hw :: "uoe_connection \<Rightarrow> uoe_udc" where
  "init_dummy_udc_hw c = \<lparr>udc_eps = map new_ep ep_names, udc_reqs = (\<lambda>_. None), udc_next = 0,
     udc_fifo = zero_req, udc_fifo_buf = replicate FIFO_SIZE 0, udc_address = 0, udc_usage = 0,
     udc_speed = Speed_unknown, udc_selfpowered = False, udc_driver = False, udc_devstatus = 0,
     udc_ints_enabled = False, udc_suspended = False, udc_pullup = False, udc_conn = c,
     udc_irqs_off = False, udc_taken = [], udc_given = []\<rparr>"

section \<open>Control requests\<close>

record ctrl_setup =
  cs_request_type :: nat
  cs_request :: nat
  cs_value :: nat
  cs_index :: nat

definition setup_of :: "bytes \<Rightarrow> ctrl_setup" where
  "setup_of bs = \<lparr>cs_request_type = unat (bs ! 0), cs_request = unat (bs ! 1),
     cs_value = rd_le (window bs 2 2), cs_index = rd_le (window bs 4 2)\<rparr>"

definition STD_DEVICE :: nat where "STD_DEVICE = 0"
definition STD_ENDPOINT :: nat where "STD_ENDPOINT = 2"
definition STD_DEVICE_IN :: nat where "STD_DEVICE_IN = 128"

definition ep_at :: "nat \<Rightarrow> nat \<Rightarrow> uoe_udc \<Rightarrow> nat option" where
  "ep_at from addr d = find (\<lambda>i. case ep_desc (ep_of d i) of None \<Rightarrow> False
     | Some ds \<Rightarrow> unat (ed_addr ds) = addr) [from..<DUMMY_ENDPOINTS]"

definition set_address :: "ctrl_setup \<Rightarrow> uoe_udc \<Rightarrow> int \<times> uoe_udc" where
  "set_address s d =
     (if cs_request_type s = STD_DEVICE then (0, d\<lparr>udc_address := cs_value s\<rparr>) else (1, d))"

definition set_feature :: "ctrl_setup \<Rightarrow> uoe_udc \<Rightarrow> int \<times> uoe_udc" where
  "set_feature s d =
     (if cs_request_type s = STD_DEVICE then
        (if cs_value s = USB_DEVICE_REMOTE_WAKEUP
         then (0, d\<lparr>udc_devstatus := udc_devstatus d OR push_bit USB_DEVICE_REMOTE_WAKEUP 1\<rparr>)
         else (1, d))
      else if cs_request_type s = STD_ENDPOINT then
        (case ep_at 1 (cs_index s) d of None \<Rightarrow> (1, d)
         | Some i \<Rightarrow> (0, upd_ep i (\<lambda>p. p\<lparr>ep_halted := True\<rparr>) d))
      else (1, d))"

definition clear_feature :: "ctrl_setup \<Rightarrow> uoe_udc \<Rightarrow> int \<times> uoe_udc" where
  "clear_feature s d =
     (if cs_request_type s = STD_DEVICE then
        (if cs_value s = USB_DEVICE_REMOTE_WAKEUP
         then (0, d\<lparr>udc_devstatus := udc_devstatus d AND NOT (push_bit USB_DEVICE_REMOTE_WAKEUP 1)\<rparr>)
         else (1, d))
      else if cs_request_type s = STD_ENDPOINT then
        (case ep_at 1 (cs_index s) d of None \<Rightarrow> (1, d)
         | Some i \<Rightarrow> (0, upd_ep i (\<lambda>p. if ep_wedged p then p else p\<lparr>ep_halted := False\<rparr>) d))
      else (1, d))"

definition get_status :: "ctrl_setup \<Rightarrow> uoe_udc \<Rightarrow> int \<times> uoe_udc" where
  "get_status s d =
     (if cs_request_type s = STD_DEVICE_IN
      then (0, d\<lparr>udc_fifo := (udc_fifo d)\<lparr>ur_buf := Dangling, ur_length := 2\<rparr>\<rparr>) else (1, d))"

definition handle_control_request :: "ctrl_setup \<Rightarrow> uoe_udc \<Rightarrow> int \<times> uoe_udc" where
  "handle_control_request s d =
     (if cs_request s = 5 then set_address s d
      else if cs_request s = 3 then set_feature s d
      else if cs_request s = 1 then clear_feature s d
      else if cs_request s = 0 then get_status s d
      else (1, d))"

section \<open>The poll thread\<close>

definition poll_ep :: "u8 \<Rightarrow> uoe_udc \<Rightarrow> nat option" where
  "poll_ep addr d = (case ep_at 0 (unat addr) d of
     Some i \<Rightarrow> Some i | None \<Rightarrow> if addr = 0 then Some 0 else None)"

definition udc_reply :: "(uoe_connection \<Rightarrow> int \<times> uoe_connection) \<Rightarrow> uoe_udc \<Rightarrow> uoe_udc" where
  "udc_reply send d = d\<lparr>udc_conn := snd (send (udc_conn d))\<rparr>"

definition udc_send_req ::
  "(uoe_dgram \<Rightarrow> int) \<Rightarrow> (nat \<Rightarrow> bool) \<Rightarrow> u8 \<Rightarrow> u16 \<Rightarrow> usb_request \<Rightarrow> uoe_udc \<Rightarrow> uoe_fault + uoe_udc" where
  "udc_send_req ks al addr seq rq d = (case buf_read d (ur_buf rq) (ur_actual rq) of
     Inl f \<Rightarrow> Inl f
   | Inr data \<Rightarrow>
       Inr (udc_reply (uoe_send_data ks al addr seq (Some data) (word_of_nat (ur_actual rq))) d))"

definition udc_poll ::
  "(uoe_dgram \<Rightarrow> int) \<Rightarrow> (nat \<Rightarrow> bool) \<Rightarrow> u8 \<Rightarrow> u16 \<Rightarrow> uoe_udc \<Rightarrow> uoe_fault + uoe_udc" where
  "udc_poll ks al addr seq d = (case poll_ep addr d of
     None \<Rightarrow> Inr (udc_reply (uoe_send_nak ks addr seq) d)
   | Some e \<Rightarrow> (case ep_queue (ep_of d e) of
       [] \<Rightarrow> Inr (if ep_halted (ep_of d e) then udc_reply (uoe_send_stall ks addr seq) d
                  else udc_reply (uoe_send_nak ks addr seq) d)
     | r # rs \<Rightarrow> (case req_of d r of None \<Rightarrow> Inl Use_after_free
         | Some rq \<Rightarrow> (case udc_send_req ks al addr seq rq (set_queue e rs d) of
             Inl f \<Rightarrow> Inl f
           | Inr d1 \<Rightarrow> Inr (gave_back e r d1)))))"

text \<open>A \<open>SETUP\<close> packet: with the result \<open>True\<close> the thread calls the gadget driver's \<open>setup\<close>, and
  after it \<open>udc_setup_end\<close>. The call's result is not used.\<close>

definition udc_setup :: "bytes \<Rightarrow> uoe_udc \<Rightarrow> uoe_fault + bool \<times> uoe_udc" where
  "udc_setup data d =
     (if length data < 8 then Inl Heap_overread
      else case handle_control_request (setup_of (take 8 data))
                  (upd_ep 0 (\<lambda>p. p\<lparr>ep_setup_stage := True\<rparr>) d) of
        (value, d1) \<Rightarrow>
          if 0 < value \<and> udc_driver d1 then Inr (True, d1\<lparr>udc_usage := udc_usage d1 + 1\<rparr>)
          else Inr (False, d1))"

definition udc_setup_end :: "uoe_udc \<Rightarrow> uoe_udc" where
  "udc_setup_end d = d\<lparr>udc_usage := udc_usage d - 1\<rparr>"

definition uoe_udc_packet ::
  "(uoe_dgram \<Rightarrow> int) \<Rightarrow> (nat \<Rightarrow> bool) \<Rightarrow> uoe_packet \<Rightarrow> uoe_udc \<Rightarrow> uoe_fault + bool \<times> uoe_udc" where
  "uoe_udc_packet ks al pkt d =
     (let h = up_hdr pkt in
      if uh_type h = UOE_POLL_IN \<or> uh_type h = UOE_POLL_OUT then
        (case udc_poll ks al (uh_ep_addr h) (uh_seq h) d of Inl f \<Rightarrow> Inl f | Inr d1 \<Rightarrow> Inr (False, d1))
      else if uh_type h = UOE_SETUP then udc_setup (up_data pkt) d
      else Inr (False, d))"

text \<open>One turn of the loop of \<open>uoe_udc_poll_loop\<close>; the two ways to \<open>continue\<close> after an error differ
  in a sleep only.\<close>

definition uoe_udc_poll_iter ::
  "(nat \<Rightarrow> 'k \<Rightarrow> int \<times> bytes \<times> 'k) \<Rightarrow> (uoe_dgram \<Rightarrow> int) \<Rightarrow> (nat \<Rightarrow> bool) \<Rightarrow> uoe_udc \<times> 'k \<Rightarrow>
     uoe_fault + bool \<times> uoe_udc \<times> 'k" where
  "uoe_udc_poll_iter recv ks al = (\<lambda>(d, k).
     case uoe_recv_packet recv al (udc_conn d) 1000 k of
       Inl f \<Rightarrow> Inl f
     | Inr (ret, pkt, k1) \<Rightarrow>
         if ret < 0 then Inr (False, d, k1)
         else (case pkt of None \<Rightarrow> Inr (False, d, k1)
           | Some p \<Rightarrow> (case uoe_udc_packet ks al p d of
               Inl f \<Rightarrow> Inl f | Inr (call, d1) \<Rightarrow> Inr (call, d1, k1))))"

section \<open>Binding the driver\<close>

text \<open>What exists in the kernel beside the sockets, and what the calls of one probe return.\<close>

datatype uoe_res = Res_gadget | Res_file | Res_thread | Res_driver | Res_pdev

record udc_env =
  pe_alloc :: bool
  pe_sock1 :: uoe_sock_env
  pe_sock2 :: uoe_sock_env
  pe_add_udc :: int
  pe_file :: int
  pe_run :: int

definition uoe_udc_probe ::
  "(string \<Rightarrow> u32) \<Rightarrow> udc_env \<Rightarrow> string option \<Rightarrow> int \<Rightarrow> nat \<times> uoe_res set \<Rightarrow>
     int \<times> uoe_udc option \<times> nat \<times> uoe_res set" where
  "uoe_udc_probe aton e listen_addr listen_port = (\<lambda>(live, res).
     if \<not> pe_alloc e then (- ENOMEM, None, live, res)
     else case uoe_create_server aton (pe_sock1 e) (pe_sock2 e) listen_addr listen_port
                 UOE_EVENT_PORT live of (rc, c, live1) \<Rightarrow>
       if rc < 0 then (rc, None, live1, res)
       else if pe_add_udc e < 0 then (pe_add_udc e, None, snd (uoe_close (c, live1)), res)
       else let res1 = insert Res_gadget res in
       if pe_file e < 0
       then (pe_file e, None, snd (uoe_close (c, live1)), res1 - {Res_gadget})
       else let res2 = insert Res_file res1 in
       if pe_run e < 0
       then (pe_run e, None, snd (uoe_close (c, live1)), res2 - {Res_file} - {Res_gadget})
       else (0, Some (init_dummy_udc_hw c), live1, insert Res_thread res2))"

definition uoe_udc_remove :: "uoe_udc \<Rightarrow> nat \<times> uoe_res set \<Rightarrow> int \<times> uoe_udc \<times> nat \<times> uoe_res set" where
  "uoe_udc_remove d = (\<lambda>(live, res).
     let res1 = res - {Res_thread}; res2 = res1 - {Res_file}; res3 = res2 - {Res_gadget} in
     case uoe_close (udc_conn d, live) of (c, live1) \<Rightarrow> (0, d\<lparr>udc_conn := c\<rparr>, live1, res3))"

definition uoe_udc_suspend :: "uoe_udc \<Rightarrow> int \<times> uoe_udc" where
  "uoe_udc_suspend d = (0, d\<lparr>udc_suspended := True\<rparr>)"

definition uoe_udc_resume :: "uoe_udc \<Rightarrow> int \<times> uoe_udc" where
  "uoe_udc_resume d = (0, d\<lparr>udc_suspended := False\<rparr>)"

text \<open>\<open>reg\<close>, \<open>palloc\<close> and \<open>padd\<close>: registering the driver, allocating and adding the device.\<close>

definition uoe_udc_init :: "int \<Rightarrow> bool \<Rightarrow> int \<Rightarrow> uoe_res set \<Rightarrow> int \<times> uoe_res set" where
  "uoe_udc_init reg palloc padd res =
     (if reg < 0 then (reg, res)
      else let res1 = insert Res_driver res in
      if \<not> palloc then (- ENOMEM, res1 - {Res_driver})
      else if padd < 0 then (padd, res1)
      else (0, insert Res_pdev res1))"

definition uoe_udc_cleanup :: "uoe_res set \<Rightarrow> uoe_res set" where
  "uoe_udc_cleanup res = (if Res_pdev \<in> res then res - {Res_pdev} else res) - {Res_driver}"

end
