(* ===== verification/Uoe_Inv.thy ===== *)
theory Uoe_Inv
  imports Uoe_Udc "HOL-Library.Multiset"
begin

text \<open>
  The device controller of USB over Ethernet as a system: what a gadget driver may call, what the
  UDC core and the network bring, and the invariant every operation keeps: an accepted request is
  on exactly one queue or has been given back, once for every time it was accepted.
\<close>

section \<open>The queues as multisets\<close>

lemmas upd_simps = upd_ep_def set_queue_def put_req_def ep_of_def

lemma ep_of_set_queue [simp]:
  "e < length (udc_eps d) \<Longrightarrow> ep_queue (ep_of (set_queue e q d) e) = q"
  by (simp add: upd_simps)

lemma mset_concat_update:
  assumes "e < length ps"
  shows "mset (concat (map ep_queue (ps[e := p]))) + mset (ep_queue (ps ! e)) =
    mset (concat (map ep_queue ps)) + mset (ep_queue p)"
  using assms
proof (induction ps arbitrary: e)
  case Nil
  then show ?case by simp
next
  case (Cons a ps)
  show ?case
  proof (cases e)
    case 0
    then show ?thesis by simp
  next
    case (Suc k)
    then have "mset (concat (map ep_queue (ps[k := p]))) + mset (ep_queue (ps ! k)) =
      mset (concat (map ep_queue ps)) + mset (ep_queue p)" using Cons by simp
    then show ?thesis using Suc by (simp add: ac_simps)
  qed
qed

lemma mset_queued_set_queue:
  assumes "e < length (udc_eps d)"
  shows "mset (queued (set_queue e q d)) + mset (ep_queue (ep_of d e)) = mset (queued d) + mset q"
  using mset_concat_update [OF assms, of "(ep_of d e)\<lparr>ep_queue := q\<rparr>"]
  by (simp add: queued_def upd_simps)

lemma queue_subset:
  "e < length (udc_eps d) \<Longrightarrow> r \<in> set (ep_queue (ep_of d e)) \<Longrightarrow> r \<in> set (queued d)"
  by (auto simp: queued_def ep_of_def)

lemma mset_queued_add:
  "e < length (udc_eps d) \<Longrightarrow>
     mset (queued (set_queue e (ep_queue (ep_of d e) @ [r]) d)) = add_mset r (mset (queued d))"
  using mset_queued_set_queue [of e d "ep_queue (ep_of d e) @ [r]"] by simp

lemma mset_queued_remove:
  assumes "e < length (udc_eps d)" "r \<in> set (ep_queue (ep_of d e))"
  shows "add_mset r (mset (queued (set_queue e (remove1 r (ep_queue (ep_of d e))) d))) =
    mset (queued d)"
proof -
  let ?q = "ep_queue (ep_of d e)"
  have "mset ?q = add_mset r (mset (remove1 r ?q))" using assms(2) by simp
  then have "mset (queued (set_queue e (remove1 r ?q) d)) + add_mset r (mset (remove1 r ?q)) =
      mset (queued d) + mset (remove1 r ?q)"
    using mset_queued_set_queue [OF assms(1), of "remove1 r ?q"] by metis
  then show ?thesis by simp
qed

section \<open>The invariant\<close>

text \<open>A queued request has transferred nothing; one of the driver's is allocated and in progress.\<close>

definition req_ok :: "uoe_udc \<Rightarrow> uoe_req \<Rightarrow> bool" where
  "req_ok d r = (case r of Fifo_req \<Rightarrow> ur_actual (udc_fifo d) = 0
   | Req n \<Rightarrow> (case udc_reqs d n of None \<Rightarrow> False
       | Some rq \<Rightarrow> ur_actual rq = 0 \<and> ur_status rq = - EINPROGRESS))"

definition buf_ok :: "usb_request \<Rightarrow> bool" where
  "buf_ok rq \<longleftrightarrow> (case ur_buf rq of Mem bs \<Rightarrow> ur_length rq \<le> length bs | _ \<Rightarrow> False)"

definition queues_ok :: "uoe_udc \<Rightarrow> bool" where
  "queues_ok d \<longleftrightarrow> length (udc_eps d) = DUMMY_ENDPOINTS \<and> distinct (queued d) \<and>
     (\<forall>r \<in> set (queued d). req_ok d r) \<and> ur_actual (udc_fifo d) = 0 \<and>
     length (udc_fifo_buf d) = FIFO_SIZE \<and> (\<forall>n \<ge> udc_next d. udc_reqs d n = None) \<and>
     (\<forall>n rq. udc_reqs d n = Some rq \<longrightarrow> buf_ok rq)"

text \<open>\<open>x\<close> is the request that has been taken off a queue and not yet given back, or accepted and
  not yet put on one.\<close>

definition accounted :: "nat option \<Rightarrow> uoe_udc \<Rightarrow> bool" where
  "accounted x d \<longleftrightarrow> (\<forall>n. count_list (udc_taken d) n =
     count_list (map (fst \<circ> snd) (udc_given d)) n + (if on_queue d (Req n) then 1 else 0) +
     (if x = Some n then 1 else 0))"

definition in_transit :: "nat option \<Rightarrow> uoe_udc \<Rightarrow> bool" where
  "in_transit x d \<longleftrightarrow> (\<forall>n. x = Some n \<longrightarrow> \<not> on_queue d (Req n) \<and> udc_reqs d n \<noteq> None)"

definition udc_good :: "nat option \<Rightarrow> uoe_udc \<Rightarrow> bool" where
  "udc_good x d \<longleftrightarrow> queues_ok d \<and> accounted x d \<and> in_transit x d"

definition transit :: "uoe_req \<Rightarrow> nat option" where
  "transit r = (case r of Fifo_req \<Rightarrow> None | Req n \<Rightarrow> Some n)"

text \<open>What the invariant looks at.\<close>

definition udc_view where
  "udc_view d = (map ep_queue (udc_eps d), udc_reqs d, udc_next d, ur_actual (udc_fifo d),
     length (udc_fifo_buf d), udc_taken d, udc_given d)"

lemma udc_good_view:
  assumes "udc_view d' = udc_view d" shows "udc_good x d' = udc_good x d"
proof -
  have e: "map ep_queue (udc_eps d') = map ep_queue (udc_eps d)" "udc_reqs d' = udc_reqs d"
    "udc_next d' = udc_next d" "ur_actual (udc_fifo d') = ur_actual (udc_fifo d)"
    "length (udc_fifo_buf d') = length (udc_fifo_buf d)" "udc_taken d' = udc_taken d"
    "udc_given d' = udc_given d" using assms by (simp_all add: udc_view_def)
  have q: "queued d' = queued d" "length (udc_eps d') = length (udc_eps d)"
    using e(1) by (simp_all add: queued_def) (metis length_map)
  show ?thesis
    by (simp add: udc_good_def queues_ok_def accounted_def in_transit_def on_queue_def req_ok_def
        q e cong: uoe_req.case_cong)
qed

lemma upd_ep_view: "ep_queue (f (ep_of d e)) = ep_queue (ep_of d e) \<Longrightarrow> udc_view (upd_ep e f d) = udc_view d"
  by (simp add: udc_view_def upd_simps map_update list_update_same_conv)
    (metis list_update_id map_update)

lemma good_len: "udc_good x d \<Longrightarrow> length (udc_eps d) = DUMMY_ENDPOINTS"
  by (simp add: udc_good_def queues_ok_def)

section \<open>Moving one request\<close>

lemma set_queue_fields [simp]:
  "udc_reqs (set_queue e q d) = udc_reqs d" "udc_fifo (set_queue e q d) = udc_fifo d"
  "udc_next (set_queue e q d) = udc_next d" "udc_fifo_buf (set_queue e q d) = udc_fifo_buf d"
  "udc_taken (set_queue e q d) = udc_taken d" "udc_given (set_queue e q d) = udc_given d"
  "length (udc_eps (set_queue e q d)) = length (udc_eps d)"
  "udc_conn (set_queue e q d) = udc_conn d" "udc_driver (set_queue e q d) = udc_driver d"
  by (simp_all add: upd_simps)

lemma req_ok_set_queue [simp]: "req_ok (set_queue e q d) r = req_ok d r"
  by (simp add: req_ok_def cong: uoe_req.case_cong)

lemma good_remove:
  assumes "udc_good None d" "e < DUMMY_ENDPOINTS" "r \<in> set (ep_queue (ep_of d e))"
  shows "udc_good (transit r) (set_queue e (remove1 r (ep_queue (ep_of d e))) d)"
    and "r \<notin> set (queued (set_queue e (remove1 r (ep_queue (ep_of d e))) d))"
proof -
  let ?d = "set_queue e (remove1 r (ep_queue (ep_of d e))) d"
  have e: "e < length (udc_eps d)" using assms(1,2) by (simp add: good_len)
  note m = mset_queued_remove [OF e assms(3)]
  have "distinct (r # queued ?d) = distinct (queued d)"
    by (rule mset_eq_imp_distinct_iff) (simp add: m)
  then have dis: "distinct (queued ?d)" "r \<notin> set (queued ?d)"
    using assms(1) by (simp_all add: udc_good_def queues_ok_def)
  have s: "set (queued d) = insert r (set (queued ?d))"
    using arg_cong [OF m, of set_mset] by simp
  show "r \<notin> set (queued ?d)" by (rule dis(2))
  have "queues_ok ?d" using assms(1) dis s by (simp add: udc_good_def queues_ok_def)
  moreover have "accounted (transit r) ?d"
    using assms(1) dis(2) s
    by (auto simp: udc_good_def accounted_def on_queue_def transit_def split: uoe_req.splits)
  moreover have "in_transit (transit r) ?d"
  proof -
    have "req_ok d r" using assms(1) s by (simp add: udc_good_def queues_ok_def)
    then show ?thesis using dis(2)
      by (auto simp: in_transit_def transit_def on_queue_def req_ok_def split: uoe_req.splits
          option.splits)
  qed
  ultimately show "udc_good (transit r) ?d" by (simp add: udc_good_def)
qed

lemma queued_fields [simp]:
  "queued (put_req n rq d) = queued d" "queued (d\<lparr>udc_fifo := f\<rparr>) = queued d"
  "queued (d\<lparr>udc_given := g\<rparr>) = queued d" "queued (d\<lparr>udc_taken := t\<rparr>) = queued d"
  "queued (d\<lparr>udc_fifo_buf := b\<rparr>) = queued d" "queued (d\<lparr>udc_next := k\<rparr>) = queued d"
  by (simp_all add: queued_def put_req_def)

lemma good_gave_back:
  assumes "udc_good (transit r) d"
  shows "udc_good None (gave_back e r d)"
proof (cases r)
  case Fifo_req
  then show ?thesis using assms by (simp add: gave_back_def transit_def fifo_complete_def)
next
  case (Req n)
  then obtain rq where rq: "udc_reqs d n = Some rq"
    using assms by (auto simp: udc_good_def in_transit_def transit_def)
  have "queues_ok (gave_back e r d) = queues_ok d"
    using rq Req by (simp add: gave_back_def queues_ok_def req_ok_def cong: uoe_req.case_cong)
  moreover have "accounted None (gave_back e r d)"
    using assms rq Req
    by (auto simp: udc_good_def accounted_def gave_back_def on_queue_def transit_def)
  moreover have "in_transit None (gave_back e r d)" by (simp add: in_transit_def)
  ultimately show ?thesis using assms by (simp add: udc_good_def)
qed

lemma good_put_req:
  assumes "udc_good x d" "Req n \<notin> set (queued d)" "n < udc_next d" "buf_ok rq"
  shows "udc_good x (put_req n rq d)"
proof -
  have "req_ok (put_req n rq d) r = req_ok d r" if "r \<in> set (queued d)" for r
  proof -
    have "r \<noteq> Req n" using that assms(2) by blast
    then show ?thesis by (cases r) (simp_all add: req_ok_def put_req_def)
  qed
  then have "queues_ok (put_req n rq d)"
    using assms unfolding udc_good_def queues_ok_def queued_fields by (simp add: put_req_def)
  then show ?thesis using assms(1)
    unfolding udc_good_def accounted_def in_transit_def on_queue_def queued_fields
    by (simp add: put_req_def)
qed

lemma good_buf: "udc_good x d \<Longrightarrow> udc_reqs d n = Some rq \<Longrightarrow> buf_ok rq"
  by (simp add: udc_good_def queues_ok_def)

lemma buf_ok_fields [simp]:
  "buf_ok (rq\<lparr>ur_status := st\<rparr>) = buf_ok rq" "buf_ok (rq\<lparr>ur_actual := a\<rparr>) = buf_ok rq"
  by (simp_all add: buf_ok_def split: ubuf.splits)

lemma good_live: "udc_good x d \<Longrightarrow> udc_reqs d n = Some rq \<Longrightarrow> n < udc_next d"
  by (rule ccontr) (simp add: udc_good_def queues_ok_def)

lemma good_fifo:
  assumes "udc_good x d" "ur_actual f = 0"
  shows "udc_good x (d\<lparr>udc_fifo := f\<rparr>)"
proof -
  have "udc_view (d\<lparr>udc_fifo := f\<rparr>) = udc_view d"
    using assms by (simp add: udc_view_def udc_good_def queues_ok_def)
  then show ?thesis using assms(1) udc_good_view by blast
qed

lemma good_set_status:
  assumes "udc_good x d" "r \<notin> set (queued d)" "set_status r st d = Inr d1"
  shows "udc_good x d1"
proof (cases r)
  case Fifo_req
  have "ur_actual (udc_fifo d) = 0" using assms(1) by (simp add: udc_good_def queues_ok_def)
  then have "udc_good x (d\<lparr>udc_fifo := (udc_fifo d)\<lparr>ur_status := st\<rparr>\<rparr>)"
    using assms(1) by (intro good_fifo) simp_all
  then show ?thesis using assms(3) Fifo_req by (auto simp: set_status_def)
next
  case (Req n)
  then show ?thesis
    using assms good_live [OF assms(1)] good_buf [OF assms(1)]
    by (auto simp: set_status_def intro!: good_put_req split: option.splits)
qed

lemma good_append:
  assumes "udc_good x d" "e < DUMMY_ENDPOINTS" "r \<notin> set (queued d)" "req_ok d r"
    and "r = Fifo_req \<or> x = transit r"
  shows "udc_good (if r = Fifo_req then x else None) (set_queue e (ep_queue (ep_of d e) @ [r]) d)"
proof -
  let ?d = "set_queue e (ep_queue (ep_of d e) @ [r]) d"
  have e: "e < length (udc_eps d)" using assms(1,2) by (simp add: good_len)
  note m = mset_queued_add [OF e, of r]
  have "distinct (queued ?d) = distinct (r # queued d)"
    by (rule mset_eq_imp_distinct_iff) (simp add: m)
  moreover have s: "set (queued ?d) = insert r (set (queued d))"
    using arg_cong [OF m, of set_mset] by simp
  ultimately have "queues_ok ?d" using assms by (simp add: udc_good_def queues_ok_def)
  moreover have "accounted (if r = Fifo_req then x else None) ?d"
    using assms s
    by (cases r) (auto simp: udc_good_def accounted_def on_queue_def transit_def)
  moreover have "in_transit (if r = Fifo_req then x else None) ?d"
    using assms s by (cases r) (auto simp: udc_good_def in_transit_def on_queue_def)
  ultimately show ?thesis by (simp add: udc_good_def)
qed

section \<open>Queueing, dequeueing, answering a poll\<close>

lemma good_irrelevant [simp]:
  "udc_good x (d\<lparr>udc_conn := c\<rparr>) = udc_good x d" "udc_good x (d\<lparr>udc_irqs_off := i\<rparr>) = udc_good x d"
  "udc_good x (d\<lparr>udc_address := a\<rparr>) = udc_good x d" "udc_good x (d\<lparr>udc_usage := u\<rparr>) = udc_good x d"
  "udc_good x (d\<lparr>udc_speed := s\<rparr>) = udc_good x d" "udc_good x (d\<lparr>udc_selfpowered := b\<rparr>) = udc_good x d"
  "udc_good x (d\<lparr>udc_driver := b\<rparr>) = udc_good x d"
  "udc_good x (d\<lparr>udc_devstatus := w\<rparr>) = udc_good x d"
  "udc_good x (d\<lparr>udc_ints_enabled := b\<rparr>) = udc_good x d"
  "udc_good x (d\<lparr>udc_suspended := b\<rparr>) = udc_good x d" "udc_good x (d\<lparr>udc_pullup := b\<rparr>) = udc_good x d"
  by (rule udc_good_view, simp add: udc_view_def)+

lemma good_accept:
  assumes "udc_good None d" "Req n \<notin> set (queued d)" "udc_reqs d n = Some rq0" "buf_ok rq"
  shows "udc_good (Some n) ((put_req n rq d)\<lparr>udc_taken := udc_taken d @ [n]\<rparr>)"
proof -
  have g: "udc_good None (put_req n rq d)"
    using assms good_live by (intro good_put_req) auto
  have t: "udc_taken (put_req n rq d) = udc_taken d" by (simp add: put_req_def)
  have "queues_ok ((put_req n rq d)\<lparr>udc_taken := udc_taken d @ [n]\<rparr>) = queues_ok (put_req n rq d)"
    unfolding queues_ok_def queued_fields by (simp add: req_ok_def cong: uoe_req.case_cong)
  moreover have "accounted (Some n) ((put_req n rq d)\<lparr>udc_taken := udc_taken d @ [n]\<rparr>)"
    using g assms(2) t unfolding udc_good_def accounted_def on_queue_def queued_fields by simp
  moreover have "in_transit (Some n) ((put_req n rq d)\<lparr>udc_taken := udc_taken d @ [n]\<rparr>)"
    using assms(2) unfolding in_transit_def on_queue_def queued_fields by (simp add: put_req_def)
  ultimately show ?thesis using g by (simp add: udc_good_def)
qed

lemma good_transitD: "udc_good (Some n) d \<Longrightarrow> n < udc_next d \<and> Req n \<notin> set (queued d)"
proof -
  assume g: "udc_good (Some n) d"
  then obtain rq where "udc_reqs d n = Some rq" by (auto simp: udc_good_def in_transit_def)
  then show ?thesis using g good_live [OF g] by (simp add: udc_good_def in_transit_def on_queue_def)
qed

lemma good_queue_fifo:
  assumes "udc_good (Some n) d" "e < DUMMY_ENDPOINTS" "Fifo_req \<notin> set (queued d)"
    and "ur_actual rq = 0" "length data \<le> FIFO_SIZE" "buf_ok rq"
  shows "udc_good None (queue_fifo e n rq data d)"
proof -
  let ?f = "rq\<lparr>ur_buf := Fifo_buf, ur_complete := True\<rparr>"
  let ?d1 = "d\<lparr>udc_fifo := ?f, udc_fifo_buf := blit (udc_fifo_buf d) 0 data\<rparr>"
  let ?d2 = "set_queue e (ep_queue (ep_of ?d1 e) @ [Fifo_req]) ?d1"
  have "udc_view ?d1 = udc_view d"
    using assms by (simp add: udc_view_def udc_good_def queues_ok_def length_blit)
  then have g1: "udc_good (Some n) ?d1" using assms(1) udc_good_view by blast
  have "udc_good (if Fifo_req = Fifo_req then Some n else None) ?d2"
    using g1 assms(2,3,4) by (intro good_append) (simp_all add: req_ok_def)
  then have g2: "udc_good (Some n) ?d2" by simp
  then have "udc_good (transit (Req n)) (put_req n (rq\<lparr>ur_actual := ur_length rq, ur_status := 0\<rparr>) ?d2)"
    using good_put_req [OF g2] good_transitD [OF g2] assms(6) by (simp add: transit_def)
  from good_gave_back [OF this, of e] show ?thesis by (simp add: queue_fifo_def ep_of_def)
qed

lemma buf_read_length: "buf_read d b n = Inr data \<Longrightarrow> length data = n"
  by (auto simp: buf_read_def split: if_split_asm option.splits)

definition ep_valid :: "nat option \<Rightarrow> bool" where
  "ep_valid ep = (case ep of None \<Rightarrow> True | Some e \<Rightarrow> e < DUMMY_ENDPOINTS)"

lemma ep_of_fields [simp]:
  "ep_of (put_req n rq d) = ep_of d" "ep_of (d\<lparr>udc_taken := t\<rparr>) = ep_of d"
  by (simp_all add: ep_of_def put_req_def fun_eq_iff)

lemma good_queue:
  assumes "udc_good None d" "ep_valid ep" "dummy_queue ep req d = Inr (ret, d')"
  shows "udc_good None d'"
proof -
  consider "d' = d" | e n rq0 rq where "ep = Some e" "req = Some n" "udc_reqs d n = Some rq0"
    "Req n \<notin> set (queued d)" "rq = rq0\<lparr>ur_status := - EINPROGRESS, ur_actual := 0\<rparr>"
    "dummy_queue ep req d = Inr (ret, d')" "ep_desc (ep_of d e) \<noteq> None \<or> e = 0" "udc_driver d"
    "ur_complete rq0"
    using assms(3) by (auto simp: dummy_queue_def on_queue_def split: option.splits if_split_asm)
  then show ?thesis
  proof cases
    case 1
    then show ?thesis using assms(1) by simp
  next
    case 2
    let ?d1 = "(put_req n rq d)\<lparr>udc_taken := udc_taken d @ [n]\<rparr>"
    have b: "buf_ok rq" using good_buf [OF assms(1) 2(3)] 2(5) by simp
    have g: "udc_good (Some n) ?d1" by (rule good_accept [OF assms(1) 2(4,3) b])
    have e: "e < DUMMY_ENDPOINTS" using assms(2) 2(1) by (simp add: ep_valid_def)
    have nq: "Req n \<notin> set (queued ?d1)" using 2(4) by simp
    show ?thesis
    proof (cases "dir_in (ep_desc (ep_of ?d1 e)) \<and> \<not> on_queue ?d1 Fifo_req \<and>
        ep_queue (ep_of ?d1 e) = [] \<and> ur_length rq \<le> FIFO_SIZE")
      case True
      then obtain data where "buf_read ?d1 (ur_buf rq) (ur_length rq) = Inr data"
        "d' = queue_fifo e n rq data ?d1"
        using 2 by (auto simp: dummy_queue_def on_queue_def Let_def split: sum.splits)
      then show ?thesis
        using good_queue_fifo [OF g e, of rq data] True 2(5) b buf_read_length
        by (fastforce simp: on_queue_def)
    next
      case False
      then have "d' = set_queue e (ep_queue (ep_of ?d1 e) @ [Req n]) ?d1"
        using 2 by (auto simp: dummy_queue_def on_queue_def Let_def split: if_split_asm)
      moreover have "req_ok ?d1 (Req n)" using 2(5) by (simp add: req_ok_def put_req_def)
      ultimately show ?thesis using good_append [OF g e nq] by (simp add: transit_def)
    qed
  qed
qed

lemma good_dequeue:
  assumes "udc_good None d" "ep_valid ep" "dummy_dequeue ep req d = Inr (ret, d')"
  shows "udc_good None d'"
proof -
  consider "d' = d" | e n d1 where "ep = Some e" "Req n \<in> set (ep_queue (ep_of d e))"
    "set_status (Req n) (- ECONNRESET)
       (set_queue e (remove1 (Req n) (ep_queue (ep_of d e))) d) = Inr d1"
    "d' = (gave_back e (Req n) d1)\<lparr>udc_irqs_off := True\<rparr>"
    using assms(3)
    by (auto simp: dummy_dequeue_def Let_def split: option.splits if_split_asm sum.splits)
  then show ?thesis
  proof cases
    case 1
    then show ?thesis using assms(1) by simp
  next
    case 2
    have e: "e < DUMMY_ENDPOINTS" using assms(2) 2(1) by (simp add: ep_valid_def)
    note g = good_remove [OF assms(1) e 2(2)]
    have "udc_good (transit (Req n)) d1" by (rule good_set_status [OF g 2(3)])
    then show ?thesis using good_gave_back 2(4) by simp
  qed
qed

text \<open>A handler that keeps the invariant.\<close>

definition handler_ok :: "handler \<Rightarrow> bool" where
  "handler_ok cb \<longleftrightarrow> (\<forall>e n d d'. udc_good None d \<longrightarrow> cb e n d = Inr d' \<longrightarrow> udc_good None d')"

lemma good_nuke_one:
  assumes "udc_good None d" "e < DUMMY_ENDPOINTS" "handler_ok cb" "ep_queue (ep_of d e) = r # rs"
    and "nuke_one cb e r rs d = Inr d'"
  shows "udc_good None d'"
proof -
  obtain d1 where d1: "set_status r (- ESHUTDOWN) (set_queue e rs d) = Inr d1"
    "run_handler cb e r (gave_back e r d1) = Inr d'"
    using assms(5) by (auto simp: nuke_one_def split: sum.splits)
  have r: "r \<in> set (ep_queue (ep_of d e))" "remove1 r (ep_queue (ep_of d e)) = rs"
    using assms(4) by simp_all
  note g = good_remove [OF assms(1,2) r(1), unfolded r(2)]
  have "udc_good (transit r) d1" by (rule good_set_status [OF g d1(1)])
  then have "udc_good None (gave_back e r d1)" by (rule good_gave_back)
  then show ?thesis using d1(2) assms(3)
    by (cases r) (auto simp: run_handler_def handler_ok_def)
qed

lemma good_nuke:
  assumes "nuke cb e d = Some res"
  shows "e < DUMMY_ENDPOINTS \<Longrightarrow> handler_ok cb \<Longrightarrow> udc_good None d \<Longrightarrow> res = Inr d' \<Longrightarrow>
    udc_good None d' \<and> ep_queue (ep_of d' e) = []"
  using assms
proof (induction rule: nuke.raw_induct [rotated, consumes 1, case_names step])
  case (step nuke' cb e d res)
  show ?case
  proof (cases "ep_queue (ep_of d e)")
    case Nil
    then show ?thesis using step by simp
  next
    case (Cons r rs)
    then obtain d1 where "nuke_one cb e r rs d = Inr d1" "nuke' cb e d1 = Some res"
      using step by (auto split: sum.splits)
    then show ?thesis using step good_nuke_one [OF _ _ _ Cons] by metis
  qed
qed

text \<open>Any property the single rounds keep is kept by the whole loop.\<close>

lemma nuke_keeps:
  assumes "nuke cb e d = Some res"
  shows "(\<And>d e r rs d'. P d \<Longrightarrow> nuke_one cb e r rs d = Inr d' \<Longrightarrow> P d') \<Longrightarrow> P d \<Longrightarrow> res = Inr d' \<Longrightarrow> P d'"
  using assms
proof (induction rule: nuke.raw_induct [rotated, consumes 1, case_names step])
  case (step nuke' cb e d res)
  show ?case
  proof (cases "ep_queue (ep_of d e)")
    case Nil
    then have "res = Inr d" using step.hyps by simp
    then show ?thesis using step.prems by simp
  next
    case (Cons r rs)
    then obtain d1 where d1: "nuke_one cb e r rs d = Inr d1" "nuke' cb e d1 = Some res"
      using step.hyps step.prems(3) by (auto split: sum.splits)
    show ?thesis
    proof (rule step.IH [OF d1(2)])
      show "P d1" by (rule step.prems(1) [OF step.prems(2) d1(1)])
      show "res = Inr d'" by (rule step.prems(3))
    qed (rule step.prems(1))
  qed
qed

lemma nuke_all_keeps:
  assumes "\<And>d e r rs d'. P d \<Longrightarrow> nuke_one cb e r rs d = Inr d' \<Longrightarrow> P d'"
  shows "nuke_all cb es d = Some (Inr d') \<Longrightarrow> P d \<Longrightarrow> P d'"
proof (induction es arbitrary: d)
  case Nil
  then show ?case by simp
next
  case (Cons e es)
  then obtain d1 where n: "nuke cb e d = Some (Inr d1)" "nuke_all cb es d1 = Some (Inr d')"
    by (auto split: option.splits sum.splits)
  have "P d1" by (rule nuke_keeps [where P = P, OF n(1) _ Cons.prems(2) refl]) (rule assms)
  then show ?case using Cons.IH n(2) by blast
qed

lemma good_nuke_all:
  "nuke_all cb es d = Some (Inr d') \<Longrightarrow> set es \<subseteq> {..<DUMMY_ENDPOINTS} \<Longrightarrow> handler_ok cb \<Longrightarrow>
     udc_good None d \<Longrightarrow> udc_good None d'"
proof (induction es arbitrary: d)
  case Nil
  then show ?case by simp
next
  case (Cons e es)
  then obtain d1 where n: "nuke cb e d = Some (Inr d1)" "nuke_all cb es d1 = Some (Inr d')"
    by (auto split: option.splits sum.splits)
  then have "udc_good None d1" using Cons.prems good_nuke [OF n(1), of d1] by simp
  then show ?case using Cons n(2) by simp
qed

lemma udc_reply_good [simp]: "udc_good x (udc_reply s d) = udc_good x d"
  by (simp add: udc_reply_def)

lemma poll_ep_valid: "poll_ep a d = Some e \<Longrightarrow> e < DUMMY_ENDPOINTS"
  by (auto simp: poll_ep_def ep_at_def find_Some_iff DUMMY_ENDPOINTS_def split: option.splits
      if_split_asm)

lemma good_poll:
  assumes "udc_good None d" "udc_poll ks al a seq d = Inr d'"
  shows "udc_good None d'"
proof -
  consider s where "d' = udc_reply s d" | e r rs rq d1 where "poll_ep a d = Some e"
    "ep_queue (ep_of d e) = r # rs" "udc_send_req ks al a seq rq (set_queue e rs d) = Inr d1"
    "d' = gave_back e r d1"
    using assms(2) by (auto simp: udc_poll_def split: option.splits list.splits sum.splits if_split_asm)
  then show ?thesis
  proof cases
    case 1
    then show ?thesis using assms(1) by simp
  next
    case 2
    have r: "r \<in> set (ep_queue (ep_of d e))" "remove1 r (ep_queue (ep_of d e)) = rs"
      using 2(2) by simp_all
    have "udc_good (transit r) (set_queue e rs d)"
      using good_remove(1) [OF assms(1) poll_ep_valid [OF 2(1)] r(1)] r(2) by simp
    then have "udc_good (transit r) d1"
      using 2(3) by (auto simp: udc_send_req_def split: sum.splits)
    then show ?thesis using good_gave_back 2(4) by simp
  qed
qed

section \<open>Everything that can happen to the controller\<close>

text \<open>
  The calls a gadget driver makes on its endpoints and requests. \<open>Fill\<close> is its own work on a request
  it holds: a buffer, a length, and a completion handler, which all gadget drivers set.
\<close>

datatype api_op = Alloc bool "nat option" | Fill nat bytes nat | Free "nat option" "nat option"
  | Queue "nat option" "nat option" | Dequeue "nat option" "nat option"
  | Set_halt "nat option" int | Set_wedge "nat option"

text \<open>The rules of the gadget API: a request is freed, filled or queued only while the driver holds
  it, and \<open>usb_ep_set_halt\<close> and \<open>usb_ep_clear_halt\<close> pass 1 and 0.\<close>

definition held :: "uoe_udc \<Rightarrow> nat \<Rightarrow> bool" where
  "held d n \<longleftrightarrow> udc_reqs d n \<noteq> None \<and> \<not> on_queue d (Req n)"

fun api_allowed :: "api_op \<Rightarrow> uoe_udc \<Rightarrow> bool" where
  "api_allowed (Alloc al ep) d = ep_valid ep"
| "api_allowed (Fill n bs len) d = (held d n \<and> len \<le> length bs)"
| "api_allowed (Free ep req) d = (ep_valid ep \<and> (case req of None \<Rightarrow> True | Some n \<Rightarrow> held d n))"
| "api_allowed (Queue ep req) d =
     (ep_valid ep \<and> (case req of None \<Rightarrow> True | Some n \<Rightarrow> udc_reqs d n \<noteq> None))"
| "api_allowed (Dequeue ep req) d = ep_valid ep"
| "api_allowed (Set_halt ep v) d = (ep_valid ep \<and> v \<in> {0, 1})"
| "api_allowed (Set_wedge ep) d = ep_valid ep"

definition filled :: "bytes \<Rightarrow> nat \<Rightarrow> usb_request" where
  "filled bs len = \<lparr>ur_buf = Mem bs, ur_length = len, ur_actual = 0, ur_status = 0,
     ur_complete = True\<rparr>"

definition snd_of :: "(uoe_fault + int \<times> uoe_udc) \<Rightarrow> uoe_fault + uoe_udc" where
  "snd_of r = (case r of Inl f \<Rightarrow> Inl f | Inr (ret, d) \<Rightarrow> Inr d)"

fun api_exec :: "api_op \<Rightarrow> uoe_udc \<Rightarrow> uoe_fault + uoe_udc" where
  "api_exec (Alloc al ep) d = Inr (snd (dummy_alloc_request al ep d))"
| "api_exec (Fill n bs len) d = Inr (put_req n (filled bs len) d)"
| "api_exec (Free ep req) d = Inr (dummy_free_request ep req d)"
| "api_exec (Queue ep req) d = snd_of (dummy_queue ep req d)"
| "api_exec (Dequeue ep req) d = snd_of (dummy_dequeue ep req d)"
| "api_exec (Set_halt ep v) d = Inr (snd (dummy_set_halt ep v d))"
| "api_exec (Set_wedge ep) d = Inr (snd (dummy_set_wedge ep d))"

text \<open>A completion handler that makes the calls its script lists, as far as they are allowed.\<close>

fun run_script :: "api_op list \<Rightarrow> uoe_udc \<Rightarrow> uoe_fault + uoe_udc" where
  "run_script [] d = Inr d"
| "run_script (op # ops) d = (if \<not> api_allowed op d then run_script ops d
     else case api_exec op d of Inl f \<Rightarrow> Inl f | Inr d1 \<Rightarrow> run_script ops d1)"

definition scripted :: "(nat \<Rightarrow> nat \<Rightarrow> uoe_udc \<Rightarrow> api_op list) \<Rightarrow> handler" where
  "scripted script e n d = run_script (script e n d) d"

lemma good_flags:
  "ep_queue (f (ep_of d e)) = ep_queue (ep_of d e) \<Longrightarrow> udc_good x (upd_ep e f d) = udc_good x d"
  using upd_ep_view udc_good_view by blast

lemma good_set_halt: "udc_good x (snd (dummy_set_halt ep v d)) = udc_good x d"
  by (cases ep) (simp_all add: dummy_set_halt_def good_flags)

lemma good_api:
  assumes "udc_good None d" "api_allowed op d" "api_exec op d = Inr d'"
  shows "udc_good None d'"
proof (cases op)
  case (Alloc al ep)
  have "udc_good None (put_req (udc_next d) zero_req (d\<lparr>udc_next := udc_next d + 1\<rparr>))"
  proof -
    have "Req (udc_next d) \<notin> set (queued d)"
    proof
      assume "Req (udc_next d) \<in> set (queued d)"
      then have "req_ok d (Req (udc_next d))" using assms(1) by (simp add: udc_good_def queues_ok_def)
      moreover have "udc_reqs d (udc_next d) = None"
        using assms(1) by (simp add: udc_good_def queues_ok_def)
      ultimately show False by (simp add: req_ok_def)
    qed
    moreover have "req_ok (d\<lparr>udc_next := udc_next d + 1\<rparr>) = req_ok d"
      by (simp add: req_ok_def fun_eq_iff split: uoe_req.split)
    then have "udc_good None (d\<lparr>udc_next := udc_next d + 1\<rparr>)"
      using assms(1) unfolding udc_good_def queues_ok_def accounted_def in_transit_def on_queue_def
        queued_fields by simp
    ultimately show ?thesis by (intro good_put_req) (simp_all add: buf_ok_def zero_req_def)
  qed
  then show ?thesis using assms Alloc by (auto simp: dummy_alloc_request_def split: if_split_asm)
next
  case (Fill n bs len)
  then have "udc_good None (put_req n (filled bs len) d)"
    using assms good_live [OF assms(1)]
    by (intro good_put_req) (auto simp: held_def on_queue_def buf_ok_def filled_def)
  then show ?thesis using assms(3) Fill by simp
next
  case (Free ep req)
  show ?thesis
  proof (cases "ep = None \<or> req = None")
    case True
    then show ?thesis using assms(1,3) Free by (auto simp: dummy_free_request_def split: option.splits)
  next
    case False
    then obtain n where n: "req = Some n" "d' = d\<lparr>udc_reqs := (udc_reqs d)(n := None)\<rparr>"
      using assms(3) Free by (auto simp: dummy_free_request_def)
    have h: "Req n \<notin> set (queued d)" using assms(2) Free n(1) by (simp add: held_def on_queue_def)
    have q: "queued d' = queued d" by (simp add: n(2) queued_def)
    have "req_ok d' r = req_ok d r" if "r \<in> set (queued d)" for r
    proof -
      have "r \<noteq> Req n" using that h by blast
      then show ?thesis by (cases r) (simp_all add: req_ok_def n(2))
    qed
    then have "queues_ok d'" using assms(1) n(2)
      unfolding udc_good_def queues_ok_def q by simp
    moreover have "accounted None d'" using assms(1) n(2)
      unfolding udc_good_def accounted_def on_queue_def q by simp
    ultimately show ?thesis by (simp add: udc_good_def in_transit_def)
  qed
next
  case (Queue ep req)
  then show ?thesis using assms good_queue by (auto simp: snd_of_def split: sum.splits)
next
  case (Dequeue ep req)
  then show ?thesis using assms good_dequeue by (auto simp: snd_of_def split: sum.splits)
next
  case (Set_halt ep v)
  then show ?thesis using assms good_set_halt by auto
next
  case (Set_wedge ep)
  then show ?thesis using assms good_set_halt by (auto simp: dummy_set_wedge_def split: if_split_asm)
qed

lemma good_script: "udc_good None d \<Longrightarrow> run_script ops d = Inr d' \<Longrightarrow> udc_good None d'"
  by (induction ops arbitrary: d) (auto split: if_split_asm sum.splits dest: good_api)

lemma scripted_ok: "handler_ok (scripted script)"
  using good_script by (simp add: handler_ok_def scripted_def)

text \<open>
  All events: the gadget driver's calls, those of the UDC core, packets from the network, the end
  of the gadget driver's \<open>setup\<close> callback, suspend and resume of the platform device.
\<close>

datatype udc_op = Api api_op | Enable "nat option" "usb_endpoint_descriptor option"
  | Disable "nat option" | Wakeup | Selfpowered int | Pullup_begin int | Pullup_end int
  | Set_speed usb_speed | Async_callbacks bool | Start | Stop | Packet uoe_packet | Setup_end
  | Suspend | Resume

fun op_allowed :: "udc_op \<Rightarrow> uoe_udc \<Rightarrow> bool" where
  "op_allowed (Api op) d = api_allowed op d"
| "op_allowed (Enable ep desc) d = ep_valid ep"
| "op_allowed (Disable ep) d = ep_valid ep"
| "op_allowed (Pullup_end v) d = pullup_may_finish v d"
| "op_allowed _ d = True"

definition returned :: "(uoe_fault + int \<times> uoe_udc) option \<Rightarrow> (uoe_fault + uoe_udc) option" where
  "returned r = (case r of None \<Rightarrow> None | Some x \<Rightarrow> Some (snd_of x))"

definition after_packet :: "uoe_fault + bool \<times> uoe_udc \<Rightarrow> uoe_fault + uoe_udc" where
  "after_packet r = (case r of Inl f \<Rightarrow> Inl f | Inr (call, d) \<Rightarrow> Inr d)"

fun udc_exec ::
  "(uoe_dgram \<Rightarrow> int) \<Rightarrow> (nat \<Rightarrow> bool) \<Rightarrow> handler \<Rightarrow> udc_op \<Rightarrow> uoe_udc \<Rightarrow> (uoe_fault + uoe_udc) option"
where
  "udc_exec ks al cb (Api op) d = Some (api_exec op d)"
| "udc_exec ks al cb (Enable ep desc) d = Some (Inr (snd (dummy_enable ep desc d)))"
| "udc_exec ks al cb (Disable ep) d = returned (dummy_disable cb ep d)"
| "udc_exec ks al cb Wakeup d = Some (Inr (snd (dummy_wakeup ks d)))"
| "udc_exec ks al cb (Selfpowered v) d = Some (Inr (snd (dummy_set_selfpowered v d)))"
| "udc_exec ks al cb (Pullup_begin v) d = Some (Inr (dummy_pullup_begin v d))"
| "udc_exec ks al cb (Pullup_end v) d = Some (Inr (snd (dummy_pullup_end ks v d)))"
| "udc_exec ks al cb (Set_speed s) d = Some (Inr (dummy_udc_set_speed s d))"
| "udc_exec ks al cb (Async_callbacks b) d = Some (Inr (dummy_udc_async_callbacks b d))"
| "udc_exec ks al cb Start d = Some (Inr (snd (dummy_udc_start d)))"
| "udc_exec ks al cb Stop d = returned (dummy_udc_stop cb d)"
| "udc_exec ks al cb (Packet p) d = Some (after_packet (uoe_udc_packet ks al p d))"
| "udc_exec ks al cb Setup_end d = Some (Inr (udc_setup_end d))"
| "udc_exec ks al cb Suspend d = Some (Inr (snd (uoe_udc_suspend d)))"
| "udc_exec ks al cb Resume d = Some (Inr (snd (uoe_udc_resume d)))"

definition udc_step ::
  "(uoe_dgram \<Rightarrow> int) \<Rightarrow> (nat \<Rightarrow> bool) \<Rightarrow> handler \<Rightarrow> uoe_udc \<Rightarrow> udc_op \<Rightarrow> uoe_udc \<Rightarrow> bool" where
  "udc_step ks al cb d op d' \<longleftrightarrow> op_allowed op d \<and> udc_exec ks al cb op d = Some (Inr d')"

lemma send_event_good [simp]: "udc_good x (snd (send_event ks ev d)) = udc_good x d"
  by (simp add: send_event_def split: prod.splits)

lemma good_control: "handle_control_request s d = (v, d') \<Longrightarrow> udc_good x d \<Longrightarrow> udc_good x d'"
proof -
  assume h: "handle_control_request s d = (v, d')" and g: "udc_good x d"
  have "udc_good x (snd (set_address s d))" using g by (simp add: set_address_def)
  moreover have "udc_good x (snd (set_feature s d))"
    using g by (simp add: set_feature_def good_flags split: option.split)
  moreover have "udc_good x (snd (clear_feature s d))"
    using g by (simp add: clear_feature_def good_flags split: option.split)
  moreover have "ur_actual (udc_fifo d) = 0" using g by (simp add: udc_good_def queues_ok_def)
  then have "udc_good x (snd (get_status s d))"
    using good_fifo [OF g] by (simp add: get_status_def g)
  ultimately show ?thesis using h g
    by (auto simp: handle_control_request_def split: if_split_asm)
qed

lemma good_packet:
  assumes "udc_good None d" "uoe_udc_packet ks al p d = Inr (call, d')"
  shows "udc_good None d'"
proof -
  let ?d1 = "upd_ep 0 (\<lambda>p. p\<lparr>ep_setup_stage := True\<rparr>) d"
  have g: "udc_good None ?d1" using assms(1) by (simp add: good_flags)
  have "udc_good None d'" if "udc_setup (up_data p) d = Inr (call, d')"
  proof -
    obtain v d2 where h: "handle_control_request (setup_of (take 8 (up_data p))) ?d1 = (v, d2)"
      by (meson surj_pair)
    then have "udc_good None d2" using good_control g by blast
    then show ?thesis using that h by (auto simp: udc_setup_def split: if_split_asm)
  qed
  then show ?thesis using assms good_poll
    by (auto simp: uoe_udc_packet_def Let_def split: if_split_asm sum.splits)
qed

lemma good_stop:
  assumes "udc_good None d" "handler_ok cb" "dummy_udc_stop cb d = Some (Inr (r, d'))"
  shows "udc_good None d'"
proof -
  obtain d1 where d1: "stop_activity cb (d\<lparr>udc_ints_enabled := False\<rparr>) = Some (Inr d1)"
    "d' = d1\<lparr>udc_driver := False\<rparr>"
    using assms(3) by (auto simp: dummy_udc_stop_def split: option.splits sum.splits)
  have "udc_good None d1"
    using good_nuke_all [OF d1(1) [unfolded stop_activity_def] _ assms(2)] assms(1)
    by (simp add: lessThan_atLeast0)
  then show ?thesis using d1(2) by simp
qed

lemma good_disable:
  assumes "udc_good None d" "handler_ok cb" "ep_valid ep" "dummy_disable cb ep d = Some (Inr (r, d'))"
  shows "udc_good None d'"
proof -
  consider "d' = d" | e where "ep = Some e"
    "nuke cb e (upd_ep e (\<lambda>p. p\<lparr>ep_desc := None\<rparr>) d) = Some (Inr d')"
    using assms(4) by (auto simp: dummy_disable_def split: option.splits if_split_asm sum.splits)
  then show ?thesis
  proof cases
    case 1
    then show ?thesis using assms(1) by simp
  next
    case 2
    have "udc_good None (upd_ep e (\<lambda>p. p\<lparr>ep_desc := None\<rparr>) d)"
      using assms(1) by (simp add: good_flags)
    then show ?thesis
      using good_nuke [OF 2(2) _ assms(2) _ refl] assms(3) 2(1) by (simp add: ep_valid_def)
  qed
qed

lemma returned_Inr: "returned r = Some (Inr d) \<longleftrightarrow> (\<exists>v. r = Some (Inr (v, d)))"
  by (auto simp: returned_def snd_of_def split: option.splits sum.splits)

lemma good_exec:
  assumes "udc_good None d" "op_allowed op d" "handler_ok cb" "udc_exec ks al cb op d = Some (Inr d')"
  shows "udc_good None d'"
proof (cases op)
  case (Api a)
  then show ?thesis using assms good_api by simp
next
  case (Disable ep)
  then show ?thesis using assms good_disable by (auto simp: returned_Inr)
next
  case Stop
  then show ?thesis using assms good_stop by (auto simp: returned_Inr)
next
  case (Packet p)
  then show ?thesis using assms good_packet by (auto simp: after_packet_def split: sum.splits)
next
  case (Enable ep desc)
  then show ?thesis using assms(1,4)
    by (auto simp: dummy_enable_def good_flags split: option.splits if_split_asm)
qed (use assms in \<open>auto simp: dummy_wakeup_def dummy_set_selfpowered_def dummy_pullup_begin_def
    dummy_pullup_end_def dummy_udc_set_speed_def dummy_udc_update_ep0_def good_flags udc_setup_end_def
    dummy_udc_async_callbacks_def dummy_udc_start_def uoe_udc_suspend_def uoe_udc_resume_def
    split: if_split_asm\<close>)

interpretation udc: lts "udc_step ks al cb" "\<lambda>d. udc_good None d \<and> handler_ok cb" for ks al cb
  using good_exec by unfold_locales (auto simp: udc_step_def)

lemma new_udc_good: "udc_good None (init_dummy_udc_hw c)"
proof -
  have q: "queued (init_dummy_udc_hw c) = []"
    by (simp add: queued_def init_dummy_udc_hw_def ep_names_def new_ep_def)
  have "length (udc_eps (init_dummy_udc_hw c)) = DUMMY_ENDPOINTS"
    by (simp add: init_dummy_udc_hw_def ep_names_def DUMMY_ENDPOINTS_def)
  then show ?thesis
    by (simp add: udc_good_def queues_ok_def accounted_def in_transit_def on_queue_def q)
      (simp add: init_dummy_udc_hw_def zero_req_def)
qed

lemma udc_run_good:
  "lts_run (udc_step ks al (scripted sc)) (init_dummy_udc_hw c) ops d \<Longrightarrow> udc_good None d"
  using udc.run_good new_udc_good scripted_ok by blast

section \<open>No fault\<close>

lemma good_req:
  assumes "udc_good x d" "Req n \<in> set (queued d)"
  obtains rq where "udc_reqs d n = Some rq" "ur_actual rq = 0" "ur_status rq = - EINPROGRESS"
proof -
  have "req_ok d (Req n)" using assms by (simp add: udc_good_def queues_ok_def)
  then show thesis using that by (auto simp: req_ok_def split: option.splits)
qed

lemma good_req_of:
  assumes "udc_good x d" "r \<in> set (queued d)"
  obtains rq where "req_of d r = Some rq" "ur_actual rq = 0"
proof (cases r)
  case Fifo_req
  then show thesis using that assms by (simp add: req_of_def udc_good_def queues_ok_def)
next
  case (Req n)
  then obtain rq where "udc_reqs d n = Some rq" "ur_actual rq = 0"
    using assms good_req by blast
  then show thesis using that [of rq] Req by (simp add: req_of_def)
qed

lemma set_status_live:
  "req_of d r \<noteq> None \<Longrightarrow> \<exists>d1. set_status r st d = Inr d1"
  by (auto simp: req_of_def set_status_def split: uoe_req.splits)

lemma req_of_set_queue [simp]: "req_of (set_queue e q d) r = req_of d r"
  by (simp add: req_of_def split: uoe_req.split)

lemma queue_no_fault:
  assumes "udc_good None d" "case req of None \<Rightarrow> True | Some n \<Rightarrow> udc_reqs d n \<noteq> None"
  shows "dummy_queue ep req d \<noteq> Inl f"
proof
  assume q: "dummy_queue ep req d = Inl f"
  then obtain n rq0 e where r: "req = Some n" "udc_reqs d n = Some rq0"
    "buf_read ((put_req n (rq0\<lparr>ur_status := - EINPROGRESS, ur_actual := 0\<rparr>) d)
       \<lparr>udc_taken := udc_taken d @ [n]\<rparr>) (ur_buf rq0) (ur_length rq0) = Inl f"
    using assms(2)
    by (auto simp: dummy_queue_def Let_def split: option.splits if_split_asm sum.splits)
  have "buf_ok rq0" using good_buf [OF assms(1) r(2)] .
  then show False using r(3)
    by (auto simp: buf_read_def buf_bytes_def buf_ok_def split: ubuf.splits if_split_asm)
qed

lemma dequeue_no_fault:
  assumes "udc_good None d" "ep_valid ep"
  shows "dummy_dequeue ep req d \<noteq> Inl f"
proof
  assume q: "dummy_dequeue ep req d = Inl f"
  then obtain e n where r: "ep = Some e" "req = Some n" by (auto simp: dummy_dequeue_def split: option.splits)
  have e: "e < length (udc_eps d)" using assms r(1) by (simp add: ep_valid_def good_len)
  have live: "req_of d r \<noteq> None" if "r \<in> set (ep_queue (ep_of d e))" for r
    using good_req_of [OF assms(1) queue_subset [OF e that]] by auto
  have "\<not> list_ex (\<lambda>r. req_of d r = None) (takeWhile (\<lambda>r. r \<noteq> Req n) (ep_queue (ep_of d e)))"
    using live by (auto simp: list_ex_iff dest: set_takeWhileD)
  moreover have "\<exists>d1. set_status (Req n) (- ECONNRESET) (set_queue e q d) = Inr d1"
    if "Req n \<in> set (ep_queue (ep_of d e))" for q
    using live [OF that] by (intro set_status_live) simp
  ultimately show False using q r
    by (auto simp: dummy_dequeue_def Let_def split: if_split_asm sum.splits) (metis Inr_not_Inl)
qed

lemma api_no_fault:
  assumes "udc_good None d" "api_allowed op d"
  shows "api_exec op d \<noteq> Inl f"
  using assms queue_no_fault dequeue_no_fault
  by (cases op) (auto simp: snd_of_def split: sum.splits prod.splits)

lemma script_no_fault: "udc_good None d \<Longrightarrow> run_script ops d \<noteq> Inl f"
  by (induction ops arbitrary: d) (auto split: sum.splits dest: api_no_fault good_api)

definition handler_safe :: "handler \<Rightarrow> bool" where
  "handler_safe cb \<longleftrightarrow> handler_ok cb \<and> (\<forall>e n d f. udc_good None d \<longrightarrow> cb e n d \<noteq> Inl f)"

lemma scripted_safe: "handler_safe (scripted sc)"
  using scripted_ok script_no_fault by (simp add: handler_safe_def) (simp add: scripted_def)

lemma nuke_one_no_fault:
  assumes "udc_good None d" "e < DUMMY_ENDPOINTS" "handler_safe cb" "ep_queue (ep_of d e) = r # rs"
  shows "nuke_one cb e r rs d \<noteq> Inl f"
proof -
  have r: "r \<in> set (ep_queue (ep_of d e))" "remove1 r (ep_queue (ep_of d e)) = rs"
    using assms(4) by simp_all
  have "r \<in> set (queued d)" using queue_subset assms(1,2) r(1) good_len by metis
  then have "req_of (set_queue e rs d) r \<noteq> None" using good_req_of [OF assms(1)] by auto
  then obtain d1 where d1: "set_status r (- ESHUTDOWN) (set_queue e rs d) = Inr d1"
    using set_status_live by blast
  note g = good_remove [OF assms(1,2) r(1), unfolded r(2)]
  have "udc_good None (gave_back e r d1)"
    using good_gave_back [OF good_set_status [OF g d1]] .
  then show ?thesis using d1 assms(3)
    by (cases r) (auto simp: nuke_one_def run_handler_def handler_safe_def)
qed

lemma nuke_no_fault:
  assumes "nuke cb e d = Some res"
  shows "e < DUMMY_ENDPOINTS \<Longrightarrow> handler_safe cb \<Longrightarrow> udc_good None d \<Longrightarrow> res \<noteq> Inl f"
  using assms
proof (induction rule: nuke.raw_induct [rotated, consumes 1, case_names step])
  case (step nuke' cb e d res)
  show ?case
  proof (cases "ep_queue (ep_of d e)")
    case Nil
    then show ?thesis using step by auto
  next
    case (Cons r rs)
    then obtain d1 where d1: "nuke_one cb e r rs d = Inr d1" "nuke' cb e d1 = Some res"
      using step nuke_one_no_fault [OF _ _ _ Cons] by (auto split: sum.splits)
    have "udc_good None d1"
      using good_nuke_one [OF step.prems(3,1) _ Cons d1(1)] step.prems(2) by (simp add: handler_safe_def)
    then show ?thesis using step.IH d1(2) step.prems by blast
  qed
qed

lemma nuke_all_no_fault:
  "nuke_all cb es d \<noteq> Some (Inl f)" if "set es \<subseteq> {..<DUMMY_ENDPOINTS}" "handler_safe cb"
    "udc_good None d"
  using that
proof (induction es arbitrary: d)
  case Nil
  then show ?case by simp
next
  case (Cons e es)
  show ?case
  proof (cases "nuke cb e d")
    case (Some res)
    then have "res \<noteq> Inl g" for g using nuke_no_fault [OF Some] Cons.prems by simp
    then obtain d1 where "res = Inr d1" by (cases res) auto
    moreover have "udc_good None d1"
      using good_nuke [OF Some, of d1] Cons.prems calculation by (simp add: handler_safe_def)
    ultimately show ?thesis using Some Cons by simp
  qed simp
qed

lemma poll_no_fault:
  assumes "udc_good None d"
  shows "udc_poll ks al a seq d \<noteq> Inl f"
proof
  assume p: "udc_poll ks al a seq d = Inl f"
  then obtain e r rs where e: "poll_ep a d = Some e" "ep_queue (ep_of d e) = r # rs"
    by (auto simp: udc_poll_def split: option.splits list.splits if_split_asm)
  have "r \<in> set (queued d)"
    using queue_subset [of e d r] assms poll_ep_valid [OF e(1)] e(2) by (simp add: good_len)
  then obtain rq where "req_of d r = Some rq" "ur_actual rq = 0" using good_req_of [OF assms] by metis
  then show False using p e by (simp add: udc_poll_def udc_send_req_def buf_read_def)
qed

text \<open>Only a control packet that is too short makes an allowed operation fault.\<close>

lemma exec_no_fault:
  assumes "udc_good None d" "op_allowed op d" "handler_safe cb"
    and "\<And>p. op = Packet p \<Longrightarrow> uh_type (up_hdr p) = UOE_SETUP \<Longrightarrow> 8 \<le> length (up_data p)"
  shows "udc_exec ks al cb op d \<noteq> Some (Inl f)"
proof (cases op)
  case (Api a)
  then show ?thesis using assms(1,2) api_no_fault by simp
next
  case (Disable ep)
  have "udc_good None (upd_ep e (\<lambda>p. p\<lparr>ep_desc := None\<rparr>) d)" for e
    using assms(1) by (simp add: good_flags)
  then have "dummy_disable cb ep d \<noteq> Some (Inl f)"
    using nuke_no_fault [OF _ _ assms(3)] assms(2) Disable
    by (auto simp: dummy_disable_def ep_valid_def split: option.splits if_split_asm sum.splits) blast
  then show ?thesis using Disable
    by (auto simp: returned_def snd_of_def split: option.splits sum.splits)
next
  case Stop
  have "stop_activity cb (d\<lparr>udc_ints_enabled := False\<rparr>) \<noteq> Some (Inl f)"
    unfolding stop_activity_def using assms(1)
    by (intro nuke_all_no_fault [OF _ assms(3)]) (auto simp: lessThan_atLeast0)
  then have "dummy_udc_stop cb d \<noteq> Some (Inl f)"
    by (auto simp: dummy_udc_stop_def split: option.splits sum.splits)
  then show ?thesis using Stop
    by (auto simp: returned_def snd_of_def split: option.splits sum.splits)
next
  case (Packet p)
  then show ?thesis using assms(1,4) poll_no_fault
    by (auto simp: after_packet_def uoe_udc_packet_def udc_setup_def Let_def
        split: sum.splits if_split_asm prod.splits)
qed simp_all

end
