(* ===== verification/Uoe_Claims.thy ===== *)
theory Uoe_Claims
  imports Uoe_Inv
begin

text \<open>
  What the device controller of USB over Ethernet guarantees, and where it does not do what it is
  for: requests are conserved and memory is safe under the rules of the gadget API, disabling an
  endpoint returns; but no data crosses a poll, and the small defects of the single operations.
\<close>

section \<open>An example\<close>

text \<open>A gadget driver enables the endpoint \<open>ep2out-bulk\<close> and queues one request on it.\<close>

definition uoe_demo_conn :: uoe_connection where
  "uoe_demo_conn = zero_conn\<lparr>sock_data := True, sock_event := True,
     local_event := uoe_sock_addr (\<lambda>_. 0) None 5556, uc_connected := True\<rparr>"

definition bulk_out :: usb_endpoint_descriptor where
  "bulk_out = \<lparr>ed_type = 5, ed_addr = 2, ed_xfer = Xfer_bulk, ed_maxp = 512\<rparr>"

definition uoe_demo_ops :: "udc_op list" where
  "uoe_demo_ops = [Set_speed Speed_high, Start, Enable (Some 2) (Some bulk_out),
     Api (Alloc True (Some 2)), Api (Fill 0 [1, 2, 3] 3), Api (Queue (Some 2) (Some 0))]"

text \<open>The controller after these calls.\<close>

definition uoe_demo_udc :: uoe_udc where
  "uoe_demo_udc = (init_dummy_udc_hw uoe_demo_conn)\<lparr>
     udc_eps := ((udc_eps (init_dummy_udc_hw uoe_demo_conn))[0 := (new_ep ''ep0'')\<lparr>ep_maxpacket := 64\<rparr>])
       [2 := (new_ep ''ep2out-bulk'')\<lparr>ep_maxpacket := 512, ep_desc := Some bulk_out,
          ep_queue := [Req 0]\<rparr>],
     udc_speed := Speed_high, udc_driver := True, udc_next := 1,
     udc_reqs := [0 \<mapsto> (filled [1, 2, 3] 3)\<lparr>ur_status := - EINPROGRESS\<rparr>],
     udc_taken := [0]\<rparr>"

lemmas demo_udc_simps = udc_step_def upd_simps dummy_udc_set_speed_def dummy_udc_update_ep0_def
  dummy_udc_start_def dummy_enable_def desc_ok_def bulk_maxp_ok_def USB_DT_ENDPOINT_def bulk_out_def
  ep_valid_def DUMMY_ENDPOINTS_def dummy_alloc_request_def held_def on_queue_def queued_def snd_of_def
  dummy_queue_def dir_in_def USB_DIR_IN_def init_dummy_udc_hw_def ep_names_def new_ep_def
  filled_def zero_req_def

lemma demo_run_udc:
  "lts_run (udc_step ks al cb) (init_dummy_udc_hw uoe_demo_conn) uoe_demo_ops uoe_demo_udc"
  unfolding uoe_demo_ops_def
  apply (rule lts_more, simp add: udc_step_def)
  apply (rule lts_more, simp add: udc_step_def)
  apply (rule lts_more, simp add: udc_step_def ep_valid_def DUMMY_ENDPOINTS_def)
  apply (rule lts_more, simp add: udc_step_def ep_valid_def DUMMY_ENDPOINTS_def)
  apply (rule lts_more, simp add: demo_udc_simps)
  apply (rule lts_more, simp add: demo_udc_simps Let_def)
  apply (simp add: lts_run_Nil demo_udc_simps uoe_demo_udc_def FIFO_SIZE_def)
  done

section \<open>Conservation and memory safety\<close>

text \<open>Property C3: conservation of requests, under a gadget driver that keeps to the rules of the
  gadget API (\<open>op_allowed\<close>, part of \<open>udc_step\<close>): it names endpoints that exist, frees and refills only
  requests it holds, with buffers as long as it says, queues only requests that are allocated, and
  halts with 0 or 1; its completion handlers make such calls too. Then, in any order of its calls,
  those of the UDC core and packets from the network, the requests on the queues are allocated and
  no request is on two queues or twice on one; and every request has been given back exactly as
  often as it was accepted, not counting the one time it may be on a queue. That the rule about
  freeing is needed shows \<open>udc_free_queued_dangles\<close>.\<close>

theorem udc_requests_conserved:
  assumes "lts_run (udc_step ks al (scripted sc)) (init_dummy_udc_hw c) ops d"
  shows "distinct (queued d) \<and> (\<forall>n. on_queue d (Req n) \<longrightarrow> udc_reqs d n \<noteq> None) \<and>
    count_list (udc_taken d) n =
      count_list (map (fst \<circ> snd) (udc_given d)) n + (if on_queue d (Req n) then 1 else 0)"
proof -
  have g: "udc_good None d" using udc_run_good [OF assms] .
  then have "udc_reqs d m \<noteq> None" if "on_queue d (Req m)" for m
    using that good_req [OF g] by (metis on_queue_def option.distinct(1))
  then show ?thesis using g by (simp add: udc_good_def queues_ok_def accounted_def)
qed

lemma udc_requests_conserved_witness:
  "distinct (queued uoe_demo_udc) \<and> count_list (udc_taken uoe_demo_udc) 0 =
     count_list (map (fst \<circ> snd) (udc_given uoe_demo_udc)) 0 + (if on_queue uoe_demo_udc (Req 0) then 1 else 0)"
  using udc_requests_conserved [OF demo_run_udc, where n = 0] by blast

text \<open>Fact: the controller does not check that a request it is asked to free is off its queues: freeing
  a queued request leaves it on its queue.\<close>

theorem udc_free_queued_dangles:
  assumes "on_queue d (Req n)"
  shows "on_queue (dummy_free_request (Some ep) (Some n) d) (Req n) \<and>
    udc_reqs (dummy_free_request (Some ep) (Some n) d) n = None"
  using assms by (simp add: dummy_free_request_def on_queue_def queued_def)

lemma udc_free_queued_dangles_witness:
  "on_queue (dummy_free_request (Some 2) (Some 0) uoe_demo_udc) (Req 0)"
  using udc_free_queued_dangles [of uoe_demo_udc 0 2]
  by (simp add: uoe_demo_udc_def on_queue_def queued_def init_dummy_udc_hw_def ep_names_def)



text \<open>Fact: a control packet can only be sent with \<open>uoe_send_poll\<close>, which sends no data; the
  receiver then copies eight bytes from a buffer that holds none.\<close>

theorem udc_setup_overread:
  assumes "sock_data c" "sock_data (udc_conn d)" "al 8" "datagram_socket recv"
    and "snd (uoe_send_poll ks UOE_SETUP 0 seq c) = c'"
  shows "\<exists>dg. uc_sent c' = uc_sent c @ [dg] \<and>
    uoe_udc_poll_iter recv ks al (d, dg_bytes dg # q) = Inl Heap_overread"
proof -
  obtain dg where dg: "uc_sent c' = uc_sent c @ [dg]"
    "uoe_recv_packet recv al (udc_conn d) 1000 (dg_bytes dg # q) =
       Inr (8, Some \<lparr>up_hdr = \<lparr>uh_type = UOE_SETUP, uh_ep_addr = 0, uh_seq = seq, uh_length = 0\<rparr>,
        up_data = []\<rparr>, q)"
    using assms by (auto simp: uoe_send_poll_def uoe_send_hdr_def uoe_send_udp_def Let_def
        recv_bare_header)
  then show ?thesis
    by (intro exI [of _ dg])
      (simp add: uoe_udc_poll_iter_def uoe_udc_packet_def udc_setup_def uoe_types Let_def)
qed

lemma udc_setup_overread_witness:
  "\<exists>dg :: uoe_dgram. uoe_udc_poll_iter udp_recv (\<lambda>_. 8) (\<lambda>_. True) (uoe_demo_udc, [dg_bytes dg]) =
     Inl Heap_overread"
  using udc_setup_overread [of uoe_demo_conn uoe_demo_udc "\<lambda>_. True" udp_recv "\<lambda>_. 8" 1 _ "[]"]
    udp_recv_datagram
  by (auto simp: uoe_demo_conn_def uoe_demo_udc_def init_dummy_udc_hw_def)

section \<open>Disabling an endpoint returns\<close>

text \<open>What a call of a completion handler cannot do to a disabled endpoint: enable it, or make its
  queue longer.\<close>

definition shrinks :: "nat \<Rightarrow> uoe_udc \<Rightarrow> uoe_udc \<Rightarrow> bool" where
  "shrinks e d d' \<longleftrightarrow> length (udc_eps d') = length (udc_eps d) \<and>
     (ep_desc (ep_of d e) = None \<longrightarrow> ep_desc (ep_of d' e) = None \<and>
        length (ep_queue (ep_of d' e)) \<le> length (ep_queue (ep_of d e)))"

lemma shrinks_refl: "shrinks e d d" by (simp add: shrinks_def)

lemma shrinks_trans: "shrinks e d1 d2 \<Longrightarrow> shrinks e d2 d3 \<Longrightarrow> shrinks e d1 d3"
  by (auto simp: shrinks_def)

lemma shrinks_same_eps: "udc_eps d' = udc_eps d \<Longrightarrow> shrinks e d d'"
  by (simp add: shrinks_def ep_of_def)

lemma shrinks_upd:
  "e' \<noteq> e \<or> (ep_desc (f (ep_of d e)) = ep_desc (ep_of d e) \<and>
      length (ep_queue (f (ep_of d e))) \<le> length (ep_queue (ep_of d e))) \<Longrightarrow>
     shrinks e d (upd_ep e' f d)"
  by (cases "e' = e"; cases "e < length (udc_eps d)")
    (auto simp: shrinks_def upd_simps list_update_beyond)

lemma gave_back_eps [simp]: "udc_eps (gave_back e r d) = udc_eps d"
  by (simp add: gave_back_def fifo_complete_def split: uoe_req.split option.split)

lemma set_status_eps: "set_status r st d = Inr d1 \<Longrightarrow> udc_eps d1 = udc_eps d"
  by (auto simp: set_status_def put_req_def split: uoe_req.splits option.splits)

lemma put_req_eps [simp]: "udc_eps (put_req n rq d) = udc_eps d"
  by (simp add: put_req_def)

lemma set_queue_eps: "udc_eps (set_queue e q d) = (udc_eps d)[e := (udc_eps d ! e)\<lparr>ep_queue := q\<rparr>]"
  by (simp add: upd_simps)

lemma queue_eps:
  assumes "dummy_queue ep req d = Inr (ret, d')"
  shows "udc_eps d' = udc_eps d \<or> (\<exists>e' q. (ep_desc (ep_of d e') \<noteq> None \<or> e' = 0) \<and>
    udc_eps d' = udc_eps (set_queue e' q d))"
proof (cases "udc_eps d' = udc_eps d")
  case False
  then obtain n rq0 e where 2: "req = Some n" "udc_reqs d n = Some rq0" "ep = Some e"
    "ep_desc (ep_of d e) \<noteq> None \<or> e = 0"
    using assms by (auto simp: dummy_queue_def split: option.splits if_split_asm)
  have "\<exists>q. udc_eps d' = udc_eps (set_queue e q d)"
    using assms 2 False
    by (auto simp: dummy_queue_def queue_fifo_def Let_def set_queue_eps split: if_split_asm sum.splits)
  then show ?thesis using 2(4) by blast
qed simp

lemma shrinks_queue:
  assumes "dummy_queue ep req d = Inr (ret, d')" "e \<noteq> 0" "ep_desc (ep_of d e) = None"
  shows "shrinks e d d'"
proof (cases "udc_eps d' = udc_eps d")
  case True
  then show ?thesis by (rule shrinks_same_eps)
next
  case False
  then obtain e' q where e: "ep_desc (ep_of d e') \<noteq> None \<or> e' = 0"
    "udc_eps d' = udc_eps (set_queue e' q d)" using queue_eps [OF assms(1)] by blast
  then have "shrinks e d (set_queue e' q d)"
    unfolding set_queue_def using assms(2,3) by (intro shrinks_upd) auto
  then show ?thesis using shrinks_trans shrinks_same_eps [OF e(2)] by blast
qed

lemma shrinks_dequeue:
  assumes "dummy_dequeue ep req d = Inr (ret, d')"
  shows "shrinks e d d'"
proof (cases "d' = d")
  case True
  then show ?thesis by (simp add: shrinks_refl)
next
  case False
  then obtain e' n d1 where e: "set_status (Req n) (- ECONNRESET)
      (set_queue e' (remove1 (Req n) (ep_queue (ep_of d e'))) d) = Inr d1"
    "udc_eps d' = udc_eps d1"
    using assms by (auto simp: dummy_dequeue_def Let_def split: option.splits if_split_asm sum.splits)
  have "shrinks e d (set_queue e' (remove1 (Req n) (ep_queue (ep_of d e'))) d)"
    unfolding set_queue_def by (intro shrinks_upd) (auto simp: length_remove1)
  then show ?thesis
    using shrinks_trans shrinks_same_eps [OF e(2)] shrinks_same_eps [OF set_status_eps [OF e(1)]]
    by blast
qed

lemma shrinks_api:
  assumes "api_exec op d = Inr d'" "e \<noteq> 0" "ep_desc (ep_of d e) = None"
  shows "shrinks e d d'"
proof (cases op)
  case (Queue ep req)
  then show ?thesis using assms shrinks_queue by (auto simp: snd_of_def split: sum.splits)
next
  case (Dequeue ep req)
  then show ?thesis using assms shrinks_dequeue by (auto simp: snd_of_def split: sum.splits)
next
  case (Set_halt ep v)
  then show ?thesis using assms(1)
    by (auto simp: dummy_set_halt_def intro!: shrinks_upd shrinks_refl split: option.splits)
next
  case (Set_wedge ep)
  then show ?thesis using assms(1)
    by (auto simp: dummy_set_wedge_def dummy_set_halt_def intro!: shrinks_upd shrinks_refl
        split: option.splits if_split_asm)
qed (use assms(1) in \<open>auto simp: dummy_alloc_request_def dummy_free_request_def
    intro!: shrinks_same_eps split: option.splits if_split_asm\<close>)

lemma shrinks_script:
  "run_script ops d = Inr d' \<Longrightarrow> e \<noteq> 0 \<Longrightarrow> ep_desc (ep_of d e) = None \<Longrightarrow> shrinks e d d'"
proof (induction ops arbitrary: d)
  case Nil
  then show ?case by (simp add: shrinks_refl)
next
  case (Cons op ops)
  show ?case
  proof (cases "api_allowed op d")
    case True
    then obtain d1 where d1: "api_exec op d = Inr d1" "run_script ops d1 = Inr d'"
      using Cons.prems(1) by (auto split: sum.splits)
    have s: "shrinks e d d1" using shrinks_api [OF d1(1)] Cons.prems by blast
    then have "shrinks e d1 d'"
      using Cons.IH [OF d1(2)] Cons.prems by (simp add: shrinks_def)
    then show ?thesis using s shrinks_trans by blast
  next
    case False
    then show ?thesis using Cons by simp
  qed
qed

lemma nuke_returns:
  "e \<noteq> 0 \<Longrightarrow> e < length (udc_eps d) \<Longrightarrow> ep_desc (ep_of d e) = None \<Longrightarrow>
     \<exists>res. nuke (scripted sc) e d = Some res"
proof (induction "length (ep_queue (ep_of d e))" arbitrary: d rule: less_induct)
  case less
  show ?case
  proof (cases "ep_queue (ep_of d e)")
    case Nil
    then show ?thesis by (subst nuke.simps) simp
  next
    case (Cons r rs)
    show ?thesis
    proof (cases "nuke_one (scripted sc) e r rs d")
      case (Inl f)
      then show ?thesis using Cons by (subst nuke.simps) simp
    next
      case (Inr d')
      then obtain d1 where d1: "set_status r (- ESHUTDOWN) (set_queue e rs d) = Inr d1"
        "run_handler (scripted sc) e r (gave_back e r d1) = Inr d'"
        by (auto simp: nuke_one_def split: sum.splits)
      let ?d2 = "gave_back e r d1"
      have "udc_eps ?d2 = udc_eps (set_queue e rs d)" using set_status_eps [OF d1(1)] by simp
      then have 2: "length (udc_eps ?d2) = length (udc_eps d)" "ep_desc (ep_of ?d2 e) = None"
        "ep_queue (ep_of ?d2 e) = rs"
        using less.prems by (simp_all add: ep_of_def set_queue_eps)
      have "shrinks e ?d2 d'"
        using d1(2) less.prems(1) 2(2) shrinks_script shrinks_refl
        by (cases r) (auto simp: run_handler_def scripted_def)
      then have "length (ep_queue (ep_of d' e)) < length (ep_queue (ep_of d e))"
        "length (udc_eps d') = length (udc_eps d)" "ep_desc (ep_of d' e) = None"
        using 2 Cons by (auto simp: shrinks_def)
      then obtain res where "nuke (scripted sc) e d' = Some res" using less by metis
      then show ?thesis using Cons Inr by (subst nuke.simps) simp
    qed
  qed
qed

text \<open>Property C16: disabling an endpoint returns, whatever calls the completion handlers of the gadget
  driver make, also when they queue the request they are handed again: the endpoint has lost its
  descriptor before the first of them runs. Afterwards its queue is empty.\<close>

theorem udc_disable_returns:
  assumes "lts_run (udc_step ks al (scripted sc)) (init_dummy_udc_hw c) ops d" "e < DUMMY_ENDPOINTS"
  shows "\<exists>ret d'. dummy_disable (scripted sc) (Some e) d = Some (Inr (ret, d')) \<and>
    (ret = 0 \<longrightarrow> ep_desc (ep_of d e) \<noteq> None \<and> ep_queue (ep_of d' e) = []) \<and>
    (ret \<noteq> 0 \<longrightarrow> ret = - EINVAL \<and> d' = d)"
proof (cases "ep_desc (ep_of d e) = None \<or> e = 0")
  case True
  then show ?thesis by (auto simp: dummy_disable_def)
next
  case False
  let ?d = "upd_ep e (\<lambda>p. p\<lparr>ep_desc := None\<rparr>) d"
  have g: "udc_good None d" using udc_run_good [OF assms(1)] .
  then have g': "udc_good None ?d" by (simp add: good_flags)
  have "e < length (udc_eps d)" using assms(2) good_len [OF g] by simp
  then have "e < length (udc_eps ?d)" "ep_desc (ep_of ?d e) = None" by (simp_all add: upd_simps)
  then obtain res where res: "nuke (scripted sc) e ?d = Some res" using nuke_returns False by blast
  obtain d' where d': "res = Inr d'"
    using nuke_no_fault [OF res assms(2) scripted_safe g'] by (cases res) auto
  then have "ep_queue (ep_of d' e) = []" using good_nuke [OF res assms(2) scripted_ok g' d'] by simp
  then show ?thesis using False res d' by (simp add: dummy_disable_def)
qed

lemma udc_disable_returns_witness:
  "\<exists>d'. dummy_disable (scripted (\<lambda>e n d. [Queue (Some e) (Some n)])) (Some 2) uoe_demo_udc = Some (Inr (0, d')) \<and>
     ep_queue (ep_of d' 2) = []"
proof -
  let ?cb = "scripted (\<lambda>e n d. [Queue (Some e) (Some n)])"
  obtain ret d' where r: "dummy_disable ?cb (Some 2) uoe_demo_udc = Some (Inr (ret, d'))"
    "ret = 0 \<longrightarrow> ep_queue (ep_of d' 2) = []" "ret \<noteq> 0 \<longrightarrow> ret = - EINVAL \<and> d' = uoe_demo_udc"
    using udc_disable_returns [OF demo_run_udc, of 2 "\<lambda>e n d. [Queue (Some e) (Some n)]"]
    by (auto simp: DUMMY_ENDPOINTS_def)
  moreover have "ret = 0"
    using r(1) by (auto simp: dummy_disable_def uoe_demo_udc_def init_dummy_udc_hw_def ep_names_def
        ep_of_def split: option.splits sum.splits if_split_asm)
  ultimately show ?thesis by auto
qed

section \<open>What a poll carries\<close>

definition poll_answer_type :: "u8 \<Rightarrow> uoe_udc \<Rightarrow> u8" where
  "poll_answer_type a d = (case poll_ep a d of None \<Rightarrow> UOE_NAK
   | Some e \<Rightarrow> if ep_queue (ep_of d e) \<noteq> [] then UOE_DATA
       else if ep_halted (ep_of d e) then UOE_STALL else UOE_NAK)"

lemma send_hdr_sent:
  "sock_data c \<Longrightarrow> uc_sent (snd (uoe_send_hdr ks ty a seq c)) = uc_sent c @ [\<lparr>dg_chan = Chan_data,
     dg_dest = remote_data c,
     dg_bytes = uoe_hdr_bytes \<lparr>uh_type = ty, uh_ep_addr = a, uh_seq = seq, uh_length = 0\<rparr>\<rparr>]"
  by (simp add: uoe_send_hdr_def uoe_send_udp_def Let_def)

lemma gave_back_conn [simp]: "udc_conn (gave_back e r d) = udc_conn d"
  by (simp add: gave_back_def fifo_complete_def split: uoe_req.split option.split)

text \<open>Fact: every poll is answered by one datagram, a bare header: a negative acknowledgement, a
  stall, or, when a request is queued, a data packet of length zero, since no queued request has
  transferred anything. A polled request is given back to the gadget driver as it was queued: still
  in progress, with nothing transferred. A queued request wins over a halted endpoint.\<close>

theorem udc_poll_carries_nothing:
  assumes "lts_run (udc_step ks al (scripted sc)) (init_dummy_udc_hw c) ops d"
    and "sock_data (udc_conn d)" "al 8"
  shows "\<exists>d'. udc_poll ks al a seq d = Inr d' \<and>
    uc_sent (udc_conn d') = uc_sent (udc_conn d) @ [\<lparr>dg_chan = Chan_data,
      dg_dest = remote_data (udc_conn d), dg_bytes = uoe_hdr_bytes
        \<lparr>uh_type = poll_answer_type a d, uh_ep_addr = a, uh_seq = seq, uh_length = 0\<rparr>\<rparr>] \<and>
    (poll_ep a d = Some e \<and> ep_queue (ep_of d e) = Req n # rs \<longrightarrow>
      udc_given d' = udc_given d @ [(e, n, - EINPROGRESS, 0)])"
proof -
  have g: "udc_good None d" using udc_run_good [OF assms(1)] .
  show ?thesis
  proof (cases "poll_ep a d")
    case None
    then show ?thesis using assms(2)
      by (simp add: udc_poll_def udc_reply_def uoe_send_nak_def send_hdr_sent poll_answer_type_def)
  next
    case (Some i)
    show ?thesis
    proof (cases "ep_queue (ep_of d i)")
      case Nil
      then show ?thesis using Some assms(2)
        by (auto simp: udc_poll_def udc_reply_def uoe_send_nak_def uoe_send_stall_def send_hdr_sent
            poll_answer_type_def)
    next
      case (Cons r rs')
      then have r: "r \<in> set (queued d)"
        using queue_subset [of i d r] poll_ep_valid [OF Some] g by (simp add: good_len)
      then obtain rq where rq: "req_of d r = Some rq" "ur_actual rq = 0" using good_req_of [OF g] by metis
      have "ur_status rq = - EINPROGRESS" if "r = Req m" for m
        using good_req [OF g, of m] r rq(1) that by (auto simp: req_of_def)
      then show ?thesis using Some Cons rq assms(2,3)
        by (auto simp: udc_poll_def udc_send_req_def buf_read_def udc_reply_def uoe_send_data_def
            uoe_send_udp_def Let_def poll_answer_type_def gave_back_def fifo_complete_def req_of_def
            split: uoe_req.splits)
    qed
  qed
qed

lemma udc_poll_carries_nothing_witness:
  "\<exists>d'. udc_poll (\<lambda>_. 8) (\<lambda>_. True) 2 5 uoe_demo_udc = Inr d' \<and> udc_given d' = [(2, 0, - EINPROGRESS, 0)]"
proof -
  have s: "sock_data (udc_conn uoe_demo_udc)"
    by (simp add: uoe_demo_udc_def init_dummy_udc_hw_def uoe_demo_conn_def)
  have "poll_ep 2 uoe_demo_udc = Some 2" "ep_queue (ep_of uoe_demo_udc 2) = [Req 0]"
    by (simp_all add: poll_ep_def ep_at_def DUMMY_ENDPOINTS_def upt_rec ep_of_def uoe_demo_udc_def
        init_dummy_udc_hw_def ep_names_def new_ep_def bulk_out_def)
  moreover have "udc_given uoe_demo_udc = []" by (simp add: uoe_demo_udc_def init_dummy_udc_hw_def)
  ultimately show ?thesis
    using udc_poll_carries_nothing [OF demo_run_udc s,
        where al = "\<lambda>_. True" and a = 2 and e = 2 and n = 0 and rs = "[]"] by auto
qed

text \<open>Fact: a request of at most 64 bytes queued on an idle IN endpoint, with the internal request
  free, is reported complete with its full length at once; its bytes are in \<open>fifo_buf\<close> and the
  internal request, which has transferred nothing, takes its place on the queue.\<close>

theorem udc_small_in_request:
  assumes "lts_run (udc_step ks al (scripted sc)) (init_dummy_udc_hw c) ops d" "e < DUMMY_ENDPOINTS"
    and "held d n" "udc_reqs d n = Some rq" "ur_complete rq" "ur_buf rq = Mem bs" "udc_driver d"
    and "dir_in (ep_desc (ep_of d e))" "ep_queue (ep_of d e) = []" "\<not> on_queue d Fifo_req"
    and "ur_length rq \<le> FIFO_SIZE"
  shows "\<exists>d'. dummy_queue (Some e) (Some n) d = Inr (0, d') \<and>
    udc_given d' = udc_given d @ [(e, n, 0, ur_length rq)] \<and>
    take (ur_length rq) (udc_fifo_buf d') = take (ur_length rq) bs \<and>
    ep_queue (ep_of d' e) = [Fifo_req] \<and> ur_actual (udc_fifo d') = 0"
proof -
  have g: "udc_good None d" using udc_run_good [OF assms(1)] .
  let ?d = "(put_req n (rq\<lparr>ur_status := - EINPROGRESS, ur_actual := 0\<rparr>) d)
    \<lparr>udc_taken := udc_taken d @ [n]\<rparr>"
  have b: "ur_length rq \<le> length bs" using good_buf [OF g assms(4)] assms(6) by (simp add: buf_ok_def)
  then have read: "buf_read ?d (Mem bs) (ur_length rq) = Inr (take (ur_length rq) bs)"
    by (simp add: buf_read_def buf_bytes_def)
  have e: "e < length (udc_eps d)" using assms(2) good_len [OF g] by simp
  have "\<not> on_queue ?d Fifo_req" "\<not> on_queue d (Req n)" "ep_desc (ep_of d e) \<noteq> None"
    using assms(3,8,10) by (auto simp: on_queue_def held_def dir_in_def split: option.splits)
  then have q: "dummy_queue (Some e) (Some n) d =
      Inr (0, queue_fifo e n (rq\<lparr>ur_status := - EINPROGRESS, ur_actual := 0\<rparr>)
        (take (ur_length rq) bs) ?d)"
    using assms(4-9,11) read by (simp add: dummy_queue_def Let_def)
  show ?thesis
    unfolding q using assms(9) b e
    by (simp add: queue_fifo_def gave_back_def blit_def put_req_def ep_of_def set_queue_eps)
qed

text \<open>A second example: the endpoint \<open>ep1in-bulk\<close> with one request filled and not yet queued.\<close>

definition bulk_in :: usb_endpoint_descriptor where
  "bulk_in = \<lparr>ed_type = 5, ed_addr = 129, ed_xfer = Xfer_bulk, ed_maxp = 512\<rparr>"

definition in_demo_ops :: "udc_op list" where
  "in_demo_ops = [Set_speed Speed_high, Start, Enable (Some 1) (Some bulk_in),
     Api (Alloc True (Some 1)), Api (Fill 0 [1, 2, 3] 3)]"

definition in_demo_udc :: uoe_udc where
  "in_demo_udc = (init_dummy_udc_hw uoe_demo_conn)\<lparr>
     udc_eps := ((udc_eps (init_dummy_udc_hw uoe_demo_conn))[0 := (new_ep ''ep0'')\<lparr>ep_maxpacket := 64\<rparr>])
       [1 := (new_ep ''ep1in-bulk'')\<lparr>ep_maxpacket := 512, ep_desc := Some bulk_in\<rparr>],
     udc_speed := Speed_high, udc_driver := True, udc_next := 1,
     udc_reqs := [0 \<mapsto> filled [1, 2, 3] 3]\<rparr>"

lemma in_demo_run:
  "lts_run (udc_step ks al cb) (init_dummy_udc_hw uoe_demo_conn) in_demo_ops in_demo_udc"
  unfolding in_demo_ops_def
  apply (rule lts_more, simp add: udc_step_def)
  apply (rule lts_more, simp add: udc_step_def)
  apply (rule lts_more, simp add: udc_step_def ep_valid_def DUMMY_ENDPOINTS_def)
  apply (rule lts_more, simp add: udc_step_def ep_valid_def DUMMY_ENDPOINTS_def)
  apply (rule lts_more, simp add: demo_udc_simps bulk_in_def)
  apply (simp add: lts_run_Nil demo_udc_simps bulk_in_def in_demo_udc_def FIFO_SIZE_def)
  done

lemma udc_small_in_request_witness:
  "\<exists>d'. dummy_queue (Some 1) (Some 0) in_demo_udc = Inr (0, d') \<and> udc_given d' = [(1, 0, 0, 3)] \<and>
     take 3 (udc_fifo_buf d') = [1, 2, 3]"
proof -
  have eps: "udc_eps in_demo_udc = (new_ep ''ep0'')\<lparr>ep_maxpacket := 64\<rparr> #
      (new_ep ''ep1in-bulk'')\<lparr>ep_maxpacket := 512, ep_desc := Some bulk_in\<rparr> #
      map new_ep (drop 2 ep_names)"
    by (simp add: in_demo_udc_def init_dummy_udc_hw_def ep_names_def)
  then have q: "queued in_demo_udc = []" by (simp add: queued_def new_ep_def ep_names_def)
  have reqs: "udc_reqs in_demo_udc = [0 \<mapsto> filled [1, 2, 3] 3]" "udc_driver in_demo_udc"
    "udc_given in_demo_udc = []" by (simp_all add: in_demo_udc_def init_dummy_udc_hw_def)
  have ep: "ep_queue (ep_of in_demo_udc 1) = []" "ep_desc (ep_of in_demo_udc 1) = Some bulk_in"
    using eps by (simp_all add: ep_of_def new_ep_def)
  have "\<exists>d'. dummy_queue (Some 1) (Some 0) in_demo_udc = Inr (0, d') \<and>
      udc_given d' = udc_given in_demo_udc @ [(1, 0, 0, ur_length (filled [1, 2, 3] 3))] \<and>
      take (ur_length (filled [1, 2, 3] 3)) (udc_fifo_buf d') =
        take (ur_length (filled [1, 2, 3] 3)) [1, 2, 3] \<and>
      ep_queue (ep_of d' 1) = [Fifo_req] \<and> ur_actual (udc_fifo d') = 0"
    by (rule udc_small_in_request [OF in_demo_run])
      (simp_all add: ep [unfolded One_nat_def] q reqs held_def on_queue_def dir_in_def bulk_in_def USB_DIR_IN_def filled_def
        FIFO_SIZE_def DUMMY_ENDPOINTS_def)
  then show ?thesis using reqs(3) by (auto simp: filled_def)
qed

section \<open>Wedging\<close>

text \<open>No endpoint is ever wedged: \<open>dummy_set_wedge\<close> passes 1, and only 2 would wedge.\<close>

definition unwedged :: "uoe_udc \<Rightarrow> bool" where
  "unwedged d \<longleftrightarrow> (\<forall>p \<in> set (udc_eps d). \<not> ep_wedged p)"

lemma unwedged_same: "udc_eps d' = udc_eps d \<Longrightarrow> unwedged d' = unwedged d"
  by (simp add: unwedged_def)

lemma unwedged_fields [simp]:
  "unwedged (d\<lparr>udc_conn := c\<rparr>) = unwedged d" "unwedged (d\<lparr>udc_address := a\<rparr>) = unwedged d"
  "unwedged (d\<lparr>udc_usage := u\<rparr>) = unwedged d" "unwedged (d\<lparr>udc_speed := s\<rparr>) = unwedged d"
  "unwedged (d\<lparr>udc_selfpowered := b\<rparr>) = unwedged d" "unwedged (d\<lparr>udc_driver := b\<rparr>) = unwedged d"
  "unwedged (d\<lparr>udc_devstatus := w\<rparr>) = unwedged d" "unwedged (d\<lparr>udc_ints_enabled := b\<rparr>) = unwedged d"
  "unwedged (d\<lparr>udc_suspended := b\<rparr>) = unwedged d" "unwedged (d\<lparr>udc_pullup := b\<rparr>) = unwedged d"
  "unwedged (d\<lparr>udc_fifo := f\<rparr>) = unwedged d"
  by (simp_all add: unwedged_def)

lemma unwedged_upd:
  assumes "unwedged d" "\<And>p. \<not> ep_wedged p \<Longrightarrow> \<not> ep_wedged (f p)"
  shows "unwedged (upd_ep e f d)"
proof (cases "e < length (udc_eps d)")
  case True
  then show ?thesis using assms set_update_subset_insert [of "udc_eps d" e "f (udc_eps d ! e)"]
    by (auto simp: unwedged_def upd_simps)
next
  case False
  then show ?thesis using assms(1) by (simp add: unwedged_def upd_simps list_update_beyond)
qed

lemma unwedged_set_queue: "unwedged d \<Longrightarrow> unwedged (set_queue e q d)"
  unfolding set_queue_def by (rule unwedged_upd) simp_all

lemma unwedged_api:
  assumes "unwedged d" "api_allowed op d" "api_exec op d = Inr d'"
  shows "unwedged d'"
proof (cases op)
  case (Queue ep req)
  then obtain ret where "dummy_queue ep req d = Inr (ret, d')"
    using assms(3) by (auto simp: snd_of_def split: sum.splits)
  then show ?thesis using queue_eps assms(1) unwedged_set_queue unwedged_same by metis
next
  case (Dequeue ep req)
  then obtain ret where q: "dummy_dequeue ep req d = Inr (ret, d')"
    using assms(3) by (auto simp: snd_of_def split: sum.splits)
  show ?thesis
  proof (cases "d' = d")
    case False
    then obtain e n q d1 where "set_status (Req n) (- ECONNRESET) (set_queue e q d) = Inr d1"
      "udc_eps d' = udc_eps d1"
      using q by (auto simp: dummy_dequeue_def Let_def split: option.splits if_split_asm sum.splits)
    then show ?thesis using set_status_eps unwedged_same unwedged_set_queue assms(1) by metis
  qed (simp add: assms(1))
next
  case (Set_halt ep v)
  then show ?thesis using assms
    by (auto simp: dummy_set_halt_def intro!: unwedged_upd split: option.splits)
next
  case (Set_wedge ep)
  then show ?thesis using assms
    by (auto simp: dummy_set_wedge_def dummy_set_halt_def intro!: unwedged_upd
        split: option.splits if_split_asm)
qed (use assms in \<open>auto simp: dummy_alloc_request_def dummy_free_request_def unwedged_def
    split: option.splits if_split_asm\<close>)

lemma unwedged_script: "unwedged d \<Longrightarrow> run_script ops d = Inr d' \<Longrightarrow> unwedged d'"
  by (induction ops arbitrary: d) (auto split: if_split_asm sum.splits dest: unwedged_api)

lemma unwedged_nuke_one:
  assumes "unwedged d" "nuke_one (scripted sc) e r rs d = Inr d'"
  shows "unwedged d'"
proof -
  obtain d1 where d1: "set_status r (- ESHUTDOWN) (set_queue e rs d) = Inr d1"
    "run_handler (scripted sc) e r (gave_back e r d1) = Inr d'"
    using assms(2) by (auto simp: nuke_one_def split: sum.splits)
  have "unwedged (gave_back e r d1)"
    using unwedged_set_queue [OF assms(1)] unwedged_same [of "gave_back e r d1"]
      set_status_eps [OF d1(1)] by simp
  then show ?thesis using d1(2) unwedged_script
    by (cases r) (auto simp: run_handler_def scripted_def)
qed

lemma unwedged_nuke: "nuke (scripted sc) e d = Some (Inr d') \<Longrightarrow> unwedged d \<Longrightarrow> unwedged d'"
  by (rule nuke_keeps [where P = unwedged, OF _ _ _ refl]) (auto dest: unwedged_nuke_one)

lemma unwedged_nuke_all: "nuke_all (scripted sc) es d = Some (Inr d') \<Longrightarrow> unwedged d \<Longrightarrow> unwedged d'"
  by (rule nuke_all_keeps [where P = unwedged]) (auto dest: unwedged_nuke_one)

lemma unwedged_exec:
  assumes "unwedged d" "op_allowed op d" "udc_exec ks al (scripted sc) op d = Some (Inr d')"
  shows "unwedged d'"
proof (cases op)
  case (Api a)
  then show ?thesis using assms unwedged_api by simp
next
  case (Enable ep desc)
  then show ?thesis using assms(1,3)
    by (auto simp: dummy_enable_def intro!: unwedged_upd split: option.splits if_split_asm)
next
  case (Disable ep)
  then obtain ret where "dummy_disable (scripted sc) ep d = Some (Inr (ret, d'))"
    using assms(3) by (auto simp: returned_Inr)
  then consider "d' = d" | e where
    "nuke (scripted sc) e (upd_ep e (\<lambda>p. p\<lparr>ep_desc := None\<rparr>) d) = Some (Inr d')"
    by (auto simp: dummy_disable_def split: option.splits if_split_asm sum.splits)
  then show ?thesis
  proof cases
    case 1
    then show ?thesis using assms(1) by simp
  next
    case 2
    show ?thesis by (rule unwedged_nuke [OF 2]) (auto intro: unwedged_upd [OF assms(1)])
  qed
next
  case Stop
  then obtain d1 where
    "nuke_all (scripted sc) [0..<DUMMY_ENDPOINTS] (d\<lparr>udc_ints_enabled := False, udc_address := 0\<rparr>) =
       Some (Inr d1)" "d' = d1\<lparr>udc_driver := False\<rparr>"
    using assms(3)
    by (auto simp: returned_Inr dummy_udc_stop_def stop_activity_def split: option.splits sum.splits)
  then show ?thesis using unwedged_nuke_all assms(1) by simp
next
  case (Packet p)
  have "unwedged d1" if "udc_poll ks al a seq d = Inr d1" for a seq d1
  proof -
    have "udc_eps d1 = udc_eps d \<or> (\<exists>e q. udc_eps d1 = udc_eps (set_queue e q d))"
      using that
      by (auto simp: udc_poll_def udc_send_req_def udc_reply_def split: option.splits list.splits
          sum.splits if_split_asm) blast
    then show ?thesis using unwedged_set_queue [OF assms(1)] unwedged_same assms(1) by metis
  qed
  moreover have "unwedged d1" if "udc_setup bs d = Inr (call, d1)" for bs call d1
  proof -
    let ?d = "upd_ep 0 (\<lambda>p. p\<lparr>ep_setup_stage := True\<rparr>) d"
    have u: "unwedged ?d" by (rule unwedged_upd [OF assms(1)]) simp
    have "unwedged (snd (handle_control_request s ?d))" for s
      using u by (auto simp: handle_control_request_def set_address_def set_feature_def
          clear_feature_def get_status_def intro!: unwedged_upd split: option.splits)
    then show ?thesis using that
      by (auto simp: udc_setup_def split: prod.splits if_split_asm) (metis snd_conv)+
  qed
  ultimately show ?thesis using Packet assms(1,3)
    by (auto simp: after_packet_def uoe_udc_packet_def Let_def split: sum.splits if_split_asm)
qed (use assms in \<open>auto simp: dummy_wakeup_def dummy_set_selfpowered_def dummy_pullup_begin_def
    dummy_pullup_end_def send_event_def dummy_udc_set_speed_def dummy_udc_update_ep0_def
    udc_setup_end_def dummy_udc_async_callbacks_def dummy_udc_start_def uoe_udc_suspend_def
    uoe_udc_resume_def intro!: unwedged_upd split: if_split_asm prod.splits\<close>)

interpretation wedge: lts "udc_step ks al (scripted sc)" unwedged for ks al sc
  using unwedged_exec by unfold_locales (auto simp: udc_step_def)

lemma new_udc_unwedged: "unwedged (init_dummy_udc_hw c)"
  by (simp add: unwedged_def init_dummy_udc_hw_def ep_names_def new_ep_def)

text \<open>Fact: a wedge is to survive the host's \<open>CLEAR_FEATURE\<close>, and the code that handles that
  request respects it; but an endpoint on which \<open>dummy_set_wedge\<close> has succeeded is only halted, and
  the next such request clears the halt.\<close>

theorem udc_wedge_is_cleared:
  assumes "lts_run (udc_step ks al (scripted sc)) (init_dummy_udc_hw c) ops d"
    and "dummy_set_wedge (Some e) d = (0, d1)" "e < DUMMY_ENDPOINTS"
    and "ep_at 1 (cs_index s) d1 = Some e" "cs_request s = 1" "cs_request_type s = STD_ENDPOINT"
  shows "ep_halted (ep_of d1 e) \<and>
    (\<exists>d2. handle_control_request s d1 = (0, d2) \<and> \<not> ep_halted (ep_of d2 e))"
proof -
  have u: "unwedged d" using wedge.run_good [OF assms(1) new_udc_unwedged] .
  have e: "e < length (udc_eps d)" using assms(3) good_len [OF udc_run_good [OF assms(1)]] by simp
  then have "\<not> ep_wedged (ep_of d e)" using u by (simp add: unwedged_def ep_of_def)
  moreover have "d1 = upd_ep e (\<lambda>p. p\<lparr>ep_halted := True, ep_wedged := ep_wedged p\<rparr>) d"
    using assms(2) by (auto simp: dummy_set_wedge_def dummy_set_halt_def split: if_split_asm)
  moreover have "STD_ENDPOINT \<noteq> STD_DEVICE" by (simp add: STD_ENDPOINT_def STD_DEVICE_def)
  ultimately show ?thesis using e assms(4-6)
    by (simp add: handle_control_request_def clear_feature_def) (simp add: upd_simps)
qed

lemma udc_wedge_is_cleared_witness:
  "\<exists>d1 d2. dummy_set_wedge (Some 1) in_demo_udc = (0, d1) \<and> ep_halted (ep_of d1 1) \<and>
     handle_control_request \<lparr>cs_request_type = 2, cs_request = 1, cs_value = 0, cs_index = 129\<rparr> d1 =
       (0, d2) \<and> \<not> ep_halted (ep_of d2 1)"
proof -
  let ?s = "\<lparr>cs_request_type = 2, cs_request = 1, cs_value = 0, cs_index = 129\<rparr>"
  let ?d1 = "upd_ep 1 (\<lambda>p. p\<lparr>ep_halted := True, ep_wedged := ep_wedged p\<rparr>) in_demo_udc"
  have w: "dummy_set_wedge (Some 1) in_demo_udc = (0, ?d1)"
    by (simp add: dummy_set_wedge_def dummy_set_halt_def in_demo_udc_def init_dummy_udc_hw_def
        ep_names_def ep_of_def new_ep_def)
  have "ep_at 1 129 ?d1 = Some 1"
    by (simp add: ep_at_def DUMMY_ENDPOINTS_def upt_rec upd_simps in_demo_udc_def
        init_dummy_udc_hw_def ep_names_def new_ep_def bulk_in_def)
  then show ?thesis
    using udc_wedge_is_cleared [OF in_demo_run w, of ?s] w
    by (auto simp: DUMMY_ENDPOINTS_def STD_ENDPOINT_def)
qed

section \<open>Binding\<close>

text \<open>Fact: probing is all or nothing: it returns 0 with two sockets, the gadget, its sysfs file and
  the poll thread in place, or the error of the call that failed with none of them; and removing a
  bound device takes all of it away.\<close>

theorem udc_probe_all_or_nothing:
  assumes "uoe_udc_probe aton e addr port (live, res) = (rc, dum, live', res')"
    and "res \<inter> {Res_gadget, Res_file, Res_thread} = {}"
  shows "(rc < 0 \<and> dum = None \<and> live' = live \<and> res' = res) \<or>
    (\<exists>d d'. rc = 0 \<and> dum = Some d \<and> live' = live + 2 \<and>
       res' = res \<union> {Res_gadget, Res_file, Res_thread} \<and>
       uoe_udc_remove d (live', res') = (0, d', live, res) \<and> \<not> uc_connected (udc_conn d'))"
proof -
  obtain rc1 c live1 where s: "uoe_create_server aton (pe_sock1 e) (pe_sock2 e) addr port
      UOE_EVENT_PORT live = (rc1, c, live1)" by (metis prod_cases3)
  note whole = uoe_server_whole [OF s]
  have close: "snd (uoe_close (c, live1)) = live" if "\<not> rc1 < 0"
    using whole that by (auto simp: uoe_close_def uoe_open_sockets_def Let_def)
  have fresh: "Res_gadget \<notin> res" "Res_file \<notin> res" "Res_thread \<notin> res" using assms(2) by auto
  show ?thesis
  proof (cases "pe_alloc e \<and> \<not> rc1 < 0")
    case False
    then show ?thesis using assms(1) s whole
      by (cases "pe_alloc e") (auto simp: uoe_udc_probe_def)
  next
    case True
    have "\<exists>d'. uoe_udc_remove (init_dummy_udc_hw c)
        (live1, insert Res_thread (insert Res_file (insert Res_gadget res))) = (0, d', live, res) \<and>
        \<not> uc_connected (udc_conn d')"
      using whole True fresh
      by (simp add: uoe_udc_remove_def uoe_close_def uoe_open_sockets_def init_dummy_udc_hw_def
          Let_def)
    moreover have "live1 = live + 2" using whole True by (simp add: uoe_open_sockets_def)
    ultimately show ?thesis
      using assms(1) True s close fresh
      by (auto simp: uoe_udc_probe_def Let_def insert_commute split: if_split_asm)
  qed
qed

lemma udc_probe_all_or_nothing_witness:
  "\<exists>d. uoe_udc_probe (\<lambda>_. 7) \<lparr>pe_alloc = True, pe_sock1 = \<lparr>se_create = 0, se_bind = 0\<rparr>,
       pe_sock2 = \<lparr>se_create = 0, se_bind = 0\<rparr>, pe_add_udc = 0, pe_file = 0, pe_run = 0\<rparr>
       None 5555 (0, {Res_driver}) = (0, Some d, 2, {Res_driver, Res_gadget, Res_file, Res_thread})"
proof -
  let ?e = "\<lparr>pe_alloc = True, pe_sock1 = \<lparr>se_create = 0, se_bind = 0\<rparr>,
       pe_sock2 = \<lparr>se_create = 0, se_bind = 0\<rparr>, pe_add_udc = 0, pe_file = 0, pe_run = 0\<rparr>"
  obtain rc dum live' res' where p: "uoe_udc_probe (\<lambda>_. 7) ?e None 5555 (0, {Res_driver}) =
    (rc, dum, live', res')" by (metis prod_cases4)
  moreover have "rc = 0"
    using p by (auto simp: uoe_udc_probe_def uoe_create_server_def uoe_create_udp_socket_def Let_def)
  ultimately show ?thesis using udc_probe_all_or_nothing [OF p] by (auto simp: insert_commute)
qed

section \<open>Where the answers go\<close>

text \<open>A controller that knows no peer and has sent nothing to anybody, and no event but the three
  that \<open>udc.c\<close> sends.\<close>

definition udc_events :: "bytes set" where
  "udc_events = (\<lambda>ev. uoe_event_bytes \<lparr>ue_type = UOE_EVENT, ue_event = ev, ue_reserved = 0\<rparr>) `
     {UOE_EVENT_CONNECT, UOE_EVENT_DISCONNECT, UOE_EVENT_RESUME}"

definition nowhere :: "uoe_udc \<Rightarrow> bool" where
  "nowhere d \<longleftrightarrow> remote_data (udc_conn d) = no_addr \<and> remote_event (udc_conn d) = no_addr \<and>
     (\<forall>dg \<in> set (uc_sent (udc_conn d)). dg_dest dg = no_addr \<and>
        (dg_chan dg = Chan_event \<longrightarrow> dg_bytes dg \<in> udc_events))"

lemma nowhere_same: "udc_conn d' = udc_conn d \<Longrightarrow> nowhere d \<Longrightarrow> nowhere d'"
  by (simp add: nowhere_def)

lemma nowhere_send_udp:
  "nowhere d \<Longrightarrow> ch = Chan_data \<and> a = remote_data (udc_conn d) \<or> ch = Chan_event \<and> a = remote_event (udc_conn d) \<and> bs \<in> udc_events \<Longrightarrow>
     nowhere (d\<lparr>udc_conn := snd (uoe_send_udp ks s ch a bs (udc_conn d))\<rparr>)"
  by (auto simp: nowhere_def uoe_send_udp_def Let_def)

lemma upd_ep_conn [simp]: "udc_conn (upd_ep e f d) = udc_conn d"
  by (simp add: upd_ep_def)

lemma set_status_conn: "set_status r st d = Inr d1 \<Longrightarrow> udc_conn d1 = udc_conn d"
  by (auto simp: set_status_def put_req_def split: uoe_req.splits option.splits)

lemma api_conn: "api_exec op d = Inr d' \<Longrightarrow> udc_conn d' = udc_conn d"
  by (cases op) (auto simp: dummy_alloc_request_def put_req_def dummy_free_request_def snd_of_def
      dummy_queue_def queue_fifo_def dummy_dequeue_def dummy_set_halt_def dummy_set_wedge_def Let_def
      dest!: set_status_conn split: option.splits sum.splits if_split_asm)

lemma script_conn: "run_script ops d = Inr d' \<Longrightarrow> udc_conn d' = udc_conn d"
  by (induction ops arbitrary: d) (auto split: if_split_asm sum.splits dest: api_conn)

lemma nowhere_nuke_one:
  assumes "nowhere d" "nuke_one (scripted sc) e r rs d = Inr d'"
  shows "nowhere d'"
proof -
  have "udc_conn d' = udc_conn d"
    using assms(2)
    by (cases r) (auto simp: nuke_one_def run_handler_def scripted_def dest!: set_status_conn
        script_conn split: sum.splits)
  then show ?thesis using assms(1) nowhere_same by blast
qed

lemma nowhere_nuke: "nuke (scripted sc) e d = Some (Inr d') \<Longrightarrow> nowhere d \<Longrightarrow> nowhere d'"
  by (rule nuke_keeps [where P = nowhere, OF _ _ _ refl]) (auto dest: nowhere_nuke_one)

lemma nowhere_nuke_all: "nuke_all (scripted sc) es d = Some (Inr d') \<Longrightarrow> nowhere d \<Longrightarrow> nowhere d'"
  by (rule nuke_all_keeps [where P = nowhere]) (auto dest: nowhere_nuke_one)

lemma nowhere_event:
  assumes "nowhere d" "ev \<in> {UOE_EVENT_CONNECT, UOE_EVENT_DISCONNECT, UOE_EVENT_RESUME}"
  shows "nowhere (snd (send_event ks ev d))"
proof -
  let ?m = "uoe_event_bytes \<lparr>ue_type = UOE_EVENT, ue_event = ev, ue_reserved = 0\<rparr>"
  have "?m \<in> udc_events" using assms(2) by (auto simp: udc_events_def)
  then have "nowhere (d\<lparr>udc_conn := snd (uoe_send_udp ks (sock_event (udc_conn d)) Chan_event
      (remote_event (udc_conn d)) ?m (udc_conn d))\<rparr>)"
    using nowhere_send_udp [OF assms(1)] by blast
  then show ?thesis by (simp add: send_event_def uoe_send_event_def case_prod_beta)
qed

lemma nowhere_poll: "nowhere d \<Longrightarrow> udc_poll ks al a seq d = Inr d' \<Longrightarrow> nowhere d'"
proof -
  assume n: "nowhere d" and p: "udc_poll ks al a seq d = Inr d'"
  have hdr: "nowhere (udc_reply (uoe_send_nak ks b sq) x)" "nowhere (udc_reply (uoe_send_stall ks b sq) x)"
    if "nowhere x" for b sq x
    using nowhere_send_udp [OF that]
    by (simp_all add: udc_reply_def uoe_send_hdr_def uoe_send_nak_def uoe_send_stall_def)
  have dat: "nowhere (udc_reply (uoe_send_data ks al b sq bs len) x)" if "nowhere x" for b sq bs len x
    using that nowhere_send_udp [OF that] nowhere_same [of "udc_reply (\<lambda>c. (0, c)) x" x]
    by (auto simp: udc_reply_def uoe_send_data_def Let_def)
  have "nowhere (set_queue e q d)" for e q using nowhere_same [OF _ n] by simp
  then show ?thesis using p n hdr dat nowhere_same [OF gave_back_conn]
    by (auto simp: udc_poll_def udc_send_req_def
        split: option.splits list.splits sum.splits if_split_asm)
qed

lemma control_conn: "udc_conn (snd (handle_control_request s d)) = udc_conn d"
  by (simp add: handle_control_request_def set_address_def set_feature_def clear_feature_def
      get_status_def split: option.split)

lemma setup_conn: "udc_setup bs d = Inr (call, d') \<Longrightarrow> udc_conn d' = udc_conn d"
  using control_conn by (auto simp: udc_setup_def split: if_split_asm prod.splits)
    (metis upd_ep_conn snd_conv)+

lemma nowhere_exec:
  assumes "nowhere d" "udc_exec ks al (scripted sc) op d = Some (Inr d')"
  shows "nowhere d'"
proof (cases op)
  case (Api a)
  then have "api_exec a d = Inr d'" using assms(2) by simp
  then show ?thesis using nowhere_same [OF api_conn assms(1)] by blast
next
  case (Enable ep desc)
  then have "udc_conn d' = udc_conn d"
    using assms(2) by (auto simp: dummy_enable_def split: option.splits if_split_asm)
  then show ?thesis using assms(1) nowhere_same by blast
next
  case (Disable ep)
  then obtain ret where "dummy_disable (scripted sc) ep d = Some (Inr (ret, d'))"
    using assms(2) by (auto simp: returned_Inr)
  then consider "d' = d" | e where
    "nuke (scripted sc) e (upd_ep e (\<lambda>p. p\<lparr>ep_desc := None\<rparr>) d) = Some (Inr d')"
    by (auto simp: dummy_disable_def split: option.splits if_split_asm sum.splits)
  then show ?thesis
  proof cases
    case 1
    then show ?thesis using assms(1) by simp
  next
    case 2
    show ?thesis by (rule nowhere_nuke [OF 2]) (auto intro: nowhere_same [OF _ assms(1)])
  qed
next
  case Stop
  then obtain d1 where
    "nuke_all (scripted sc) [0..<DUMMY_ENDPOINTS] (d\<lparr>udc_ints_enabled := False, udc_address := 0\<rparr>) =
       Some (Inr d1)" "d' = d1\<lparr>udc_driver := False\<rparr>"
    using assms(2)
    by (auto simp: returned_Inr dummy_udc_stop_def stop_activity_def split: option.splits sum.splits)
  moreover have "nowhere (d\<lparr>udc_ints_enabled := False, udc_address := 0\<rparr>)"
    using nowhere_same [OF _ assms(1)] by simp
  ultimately show ?thesis using nowhere_nuke_all nowhere_same [of d' d1] by simp
next
  case (Packet p)
  then consider "d' = d" | a seq where "udc_poll ks al a seq d = Inr d'"
    | bs call where "udc_setup bs d = Inr (call, d')"
    using assms(2)
    by (auto simp: after_packet_def uoe_udc_packet_def Let_def split: sum.splits if_split_asm)
  then show ?thesis
    using assms(1) nowhere_poll nowhere_same [OF setup_conn assms(1)] by cases blast+
next
  case Wakeup
  then show ?thesis using assms nowhere_event by (auto simp: dummy_wakeup_def split: if_split_asm)
next
  case (Pullup_end v)
  then show ?thesis using assms nowhere_event by (auto simp: dummy_pullup_end_def)
qed (use assms(2) nowhere_same [OF _ assms(1)] in \<open>auto simp: dummy_set_selfpowered_def
    dummy_pullup_begin_def dummy_udc_set_speed_def dummy_udc_update_ep0_def udc_setup_end_def
    dummy_udc_async_callbacks_def dummy_udc_start_def uoe_udc_suspend_def uoe_udc_resume_def
    split: if_split_asm\<close>)

interpretation deaf: lts "udc_step ks al (scripted sc)" nowhere for ks al sc
  using nowhere_exec by unfold_locales (auto simp: udc_step_def)

lemma server_nowhere:
  assumes "uoe_create_server aton e1 e2 addr lp ep live = (0, c, live')"
    and "lts_run (udc_step ks al (scripted sc)) (init_dummy_udc_hw c) ops d"
  shows "nowhere d"
proof -
  have "nowhere (init_dummy_udc_hw c)"
    using uoe_server_whole [OF assms(1)] by (simp add: nowhere_def init_dummy_udc_hw_def)
  then show ?thesis using deaf.run_good [OF assms(2)] by blast
qed

text \<open>Fact: the answers go nowhere: the server stores neither the address of a peer nor that of
  the packets it receives, so every datagram of the controller, answers to polls and events alike,
  is sent to address 0, port 0.\<close>

theorem udc_sends_nowhere:
  assumes "uoe_create_server aton e1 e2 addr lp ep live = (0, c, live')"
    and "lts_run (udc_step ks al (scripted sc)) (init_dummy_udc_hw c) ops d"
    and "dg \<in> set (uc_sent (udc_conn d))"
  shows "dg_dest dg = no_addr"
  using server_nowhere [OF assms(1,2)] assms(3) by (simp add: nowhere_def)

lemma demo_server:
  "uoe_create_server (\<lambda>_. 0) \<lparr>se_create = 0, se_bind = 0\<rparr> \<lparr>se_create = 0, se_bind = 0\<rparr>
     None 5555 5556 0 = (0, uoe_demo_conn, 2)"
  by (simp add: uoe_create_server_def uoe_create_udp_socket_def uoe_demo_conn_def Let_def)

lemma demo_connect:
  "\<exists>d dg. lts_run (udc_step (\<lambda>_. 4) (\<lambda>_. True) (scripted (\<lambda>_ _ _. []))) (init_dummy_udc_hw uoe_demo_conn)
      [Pullup_begin 1, Pullup_end 1] d \<and> uc_sent (udc_conn d) = [dg] \<and> dg_chan dg = Chan_event \<and>
    dg_bytes dg = [16, 1, 0, 0]"
proof -
  let ?new = "init_dummy_udc_hw uoe_demo_conn"
  let ?d = "snd (dummy_pullup_end (\<lambda>_. 4) 1 (dummy_pullup_begin 1 ?new))"
  have run: "lts_run (udc_step (\<lambda>_. 4) (\<lambda>_. True) (scripted (\<lambda>_ _ _. []))) ?new
      [Pullup_begin 1, Pullup_end 1] ?d"
    by (simp add: lts_run_Cons lts_run_Nil udc_step_def pullup_may_finish_def)
  have "uc_sent (udc_conn ?d) = [\<lparr>dg_chan = Chan_event, dg_dest = no_addr, dg_bytes = [16, 1, 0, 0]\<rparr>]"
    by (simp add: dummy_pullup_end_def dummy_pullup_begin_def send_event_def uoe_send_event_def
        uoe_send_udp_def init_dummy_udc_hw_def uoe_demo_conn_def zero_conn_def uoe_event_bytes_def
        uoe_events numeral_2_eq_2 Let_def)
  then show ?thesis using run by fastforce
qed

lemma udc_sends_nowhere_witness:
  "\<exists>d dg. lts_run (udc_step (\<lambda>_. 4) (\<lambda>_. True) (scripted (\<lambda>_ _ _. []))) (init_dummy_udc_hw uoe_demo_conn)
      [Pullup_begin 1, Pullup_end 1] d \<and> uc_sent (udc_conn d) = [dg] \<and> dg_dest dg = no_addr"
  using demo_connect udc_sends_nowhere [OF demo_server] by (metis list.set_intros(1))

end
