(* ===== verification/Uoe_Sys.thy ===== *)
theory Uoe_Sys
  imports Uoe_Hcd Uoe_Claims
begin

text \<open>
  The host controller of USB over Ethernet as a system, and what it and the device controller do
  together: its port never reports a connection, a reset of the port never completes, no URB is
  completed unless it is cancelled, and unbinding crashes.
\<close>

section \<open>What happens to a host controller\<close>

text \<open>An URB with the answer of the USB core, a call of the hub driver, a datagram on the event
  socket, a turn of the poll thread with the datagrams queued on the data socket and the answers of
  the allocator. The state is the controller with the event thread's local variable. Where a turn
  of the poll thread overruns the heap (\<open>uoe_recv_heap_overflow\<close>) the model does not follow what
  happens to the rest of memory, and leaves the controller as it was.\<close>

datatype hcd_op = Enqueue int nat | Dequeue_urb int nat int | Hub_status bytes
  | Hub_control hub_request nat nat bytes | Remote_event bytes | Remote_data "nat \<Rightarrow> bool" "bytes list"
  | Bus_suspend | Bus_resume

definition one_datagram :: "nat \<Rightarrow> bytes \<Rightarrow> int \<times> bytes \<times> bytes" where
  "one_datagram n d = (int (length (take n d)), take n d, d)"

fun hcd_op_step :: "(uoe_dgram \<Rightarrow> int) \<Rightarrow> uoe_hcd \<times> bytes \<Rightarrow> hcd_op \<Rightarrow> uoe_hcd \<times> bytes" where
  "hcd_op_step ks (h, evt) (Enqueue link u) = (snd (uoe_hcd_urb_enqueue link u h), evt)"
| "hcd_op_step ks (h, evt) (Dequeue_urb check u st) = (snd (uoe_hcd_urb_dequeue check u st h), evt)"
| "hcd_op_step ks (h, evt) (Hub_status buf) = (snd (snd (uoe_hcd_hub_status buf h)), evt)"
| "hcd_op_step ks (h, evt) (Hub_control req v i buf) =
     (snd (snd (uoe_hcd_hub_control ks req v i buf h)), evt)"
| "hcd_op_step ks (h, evt) (Remote_event d) =
     (case uoe_hcd_event_iter one_datagram (h, evt, d) of (h1, evt1, _) \<Rightarrow> (h1, evt1))"
| "hcd_op_step ks (h, evt) (Remote_data al q) =
     (case uoe_hcd_poll_iter udp_recv al (h, q) of Inl f \<Rightarrow> (h, evt) | Inr (h1, _) \<Rightarrow> (h1, evt))"
| "hcd_op_step ks (h, evt) Bus_suspend = (snd (uoe_hcd_bus_suspend h), evt)"
| "hcd_op_step ks (h, evt) Bus_resume = (snd (uoe_hcd_bus_resume h), evt)"

abbreviation hcd_run :: "(uoe_dgram \<Rightarrow> int) \<Rightarrow> uoe_hcd \<times> bytes \<Rightarrow> hcd_op list \<Rightarrow> uoe_hcd \<times> bytes" where
  "hcd_run ks \<equiv> foldl (hcd_op_step ks)"

lemma poll_iter_keeps [simp]: "hcd_op_step ks (h, evt) (Remote_data al q) = (h, evt)"
  by (auto simp: uoe_hcd_poll_iter_def split: sum.split prod.split)

lemma event_iter_one:
  "hcd_op_step ks (h, evt) (Remote_event d) =
     (let evt1 = blit evt 0 (take 4 d) in
      if evt1 ! 0 \<noteq> UOE_EVENT then (h, evt1)
      else let h1 = port_event (evt1 ! 1) h in (poll_rh_status (h1\<lparr>old_status := port_status h1\<rparr>), evt1))"
  by (simp add: uoe_hcd_event_iter_def one_datagram_def Let_def)

lemma poll_rh_fields [simp]:
  "port_status (poll_rh_status h) = port_status h" "hcd_queue (poll_rh_status h) = hcd_queue h"
  "hcd_given (poll_rh_status h) = hcd_given h" "hcd_connected (poll_rh_status h) = hcd_connected h"
  "hcd_state (poll_rh_status h) = hcd_state h"
  by (simp_all add: poll_rh_status_def)

lemma hcd_send_fields [simp]:
  "port_status (hcd_send ks ev h) = port_status h" "hcd_queue (hcd_send ks ev h) = hcd_queue h"
  "hcd_given (hcd_send ks ev h) = hcd_given h" "hcd_state (hcd_send ks ev h) = hcd_state h"
  by (simp_all add: hcd_send_def)

section \<open>URBs\<close>


lemma port_event_urbs [simp]:
  "hcd_queue (port_event ev h) = hcd_queue h" "hcd_given (port_event ev h) = hcd_given h"
  by (simp_all add: port_event_def)





section \<open>The port\<close>

lemma and_mask_or: "a AND m = 0 \<Longrightarrow> b AND m = 0 \<Longrightarrow> (a OR b) AND m = (0 :: u32)"
  by (simp add: bit.conj_disj_distrib2)

lemma and_mask_and: "a AND m = 0 \<Longrightarrow> (a AND b) AND m = (0 :: u32)"
  by (metis and.assoc and.commute and_zero_eq)

definition no_change :: "uoe_hcd \<Rightarrow> bool" where
  "no_change h \<longleftrightarrow> port_status h AND 0xffff0000 = 0"

definition in_reset :: "uoe_hcd \<Rightarrow> bool" where
  "in_reset h \<longleftrightarrow> bit (port_status h) 4"

lemma low_stats:
  "USB_PORT_STAT_CONNECTION AND 0xffff0000 = 0" "USB_PORT_STAT_ENABLE AND 0xffff0000 = 0"
  "USB_PORT_STAT_SUSPEND AND 0xffff0000 = 0" "USB_PORT_STAT_RESET AND 0xffff0000 = 0"
  "USB_PORT_STAT_POWER AND 0xffff0000 = 0"
  by (simp_all add: port_stats)

lemma reset_bits:
  "\<not> bit USB_PORT_STAT_CONNECTION 4" "\<not> bit USB_PORT_STAT_ENABLE 4" "\<not> bit USB_PORT_STAT_SUSPEND 4"
  "\<not> bit USB_PORT_STAT_POWER 4" "\<not> bit USB_PORT_STAT_LOW_SPEED 4"
  "\<not> bit USB_PORT_STAT_HIGH_SPEED 4" "bit USB_PORT_STAT_RESET 4"
  "\<not> bit (push_bit USB_PORT_FEAT_ENABLE 1 :: u32) 4"
  "\<not> bit (push_bit USB_PORT_FEAT_C_CONNECTION 1 :: u32) 4"
  "\<not> bit (push_bit USB_PORT_FEAT_C_RESET 1 :: u32) 4"
  by (simp_all add: port_stats port_feats bit_simps)

lemma hub_control_no_change:
  "no_change h \<Longrightarrow> no_change (snd (snd (uoe_hcd_hub_control ks req v i buf h)))"
  by (cases req) (simp_all add: uoe_hcd_hub_control_def hub_control_request_def
      clear_port_feature_def set_port_feature_def no_change_def low_stats and_mask_or and_mask_and)

lemma hub_control_in_reset:
  "in_reset h \<Longrightarrow> in_reset (snd (snd (uoe_hcd_hub_control ks req v i buf h)))"
  by (cases req) (auto simp: uoe_hcd_hub_control_def hub_control_request_def
      clear_port_feature_def set_port_feature_def in_reset_def reset_bits bit_simps port_feats)

lemma port_event_no_change:
  "no_change h \<Longrightarrow> ev \<noteq> UOE_EVENT_RESET_DONE \<Longrightarrow> no_change (port_event ev h)"
  by (simp add: port_event_def no_change_def low_stats and_mask_or and_mask_and)

lemma port_event_in_reset:
  "in_reset h \<Longrightarrow> ev \<noteq> UOE_EVENT_RESET_DONE \<Longrightarrow> in_reset (port_event ev h)"
  by (simp add: port_event_def in_reset_def reset_bits bit_simps)

text \<open>A port whose hub has no change to report stays so, and a port in reset stays in reset, until
  a reset-done event is in the event thread's variable.\<close>

definition no_reset_done :: "bytes \<Rightarrow> bool" where
  "no_reset_done evt \<longleftrightarrow> length evt = 4 \<and> evt ! 1 \<noteq> UOE_EVENT_RESET_DONE"

definition harmless :: "hcd_op \<Rightarrow> bool" where
  "harmless op = (case op of Remote_event d \<Rightarrow> 1 < length d \<longrightarrow> d ! 1 \<noteq> UOE_EVENT_RESET_DONE
     | _ \<Rightarrow> True)"

lemma received_no_reset_done:
  assumes "no_reset_done evt" "harmless (Remote_event d)"
  shows "no_reset_done (blit evt 0 (take 4 d))"
proof -
  have "length (blit evt 0 (take 4 d)) = 4"
    using assms(1) by (simp add: no_reset_done_def length_blit)
  moreover have "blit evt 0 (take 4 d) ! 1 = (if 1 < length d then d ! 1 else evt ! 1)"
    using assms(1) by (subst nth_blit) (auto simp: no_reset_done_def)
  ultimately show ?thesis using assms by (simp add: no_reset_done_def harmless_def)
qed

definition quiet_port :: "(uoe_hcd \<Rightarrow> bool) \<Rightarrow> uoe_hcd \<times> bytes \<Rightarrow> bool" where
  "quiet_port P = (\<lambda>(h, evt). P h \<and> no_reset_done evt)"

lemma hcd_op_keeps:
  assumes "quiet_port P s" "harmless op" "P = no_change \<or> P = in_reset"
  shows "quiet_port P (hcd_op_step ks s op)"
proof -
  obtain h evt where s: "s = (h, evt)" by (meson surj_pair)
  have same: "P h'" if "port_status h' = port_status h''" "P h''" for h' h''
    using that assms(3) by (auto simp: no_change_def in_reset_def)
  have p: "P h" "no_reset_done evt" using assms(1) by (simp_all add: s quiet_port_def)
  show ?thesis
  proof (cases op)
    case (Hub_control req v i buf)
    then show ?thesis using p assms(3) hub_control_no_change hub_control_in_reset
      by (auto simp: s quiet_port_def)
  next
    case (Remote_event d)
    let ?evt = "blit evt 0 (take 4 d)"
    have n: "no_reset_done ?evt"
      using received_no_reset_done p(2) assms(2) Remote_event by blast
    then have "P (port_event (?evt ! 1) h)"
      using p(1) assms(3) port_event_no_change port_event_in_reset by (auto simp: no_reset_done_def)
    then have "P (poll_rh_status (port_event (?evt ! 1) h
        \<lparr>old_status := port_status (port_event (?evt ! 1) h)\<rparr>))" by (rule same [rotated]) simp
    then show ?thesis using n p unfolding s Remote_event event_iter_one
      by (simp add: quiet_port_def Let_def)
  next
    case (Remote_data al q)
    then show ?thesis using p by (simp add: s quiet_port_def del: hcd_op_step.simps)
  next
    case (Enqueue link u)
    then show ?thesis using p by (simp add: s quiet_port_def uoe_hcd_urb_enqueue_def same [OF _ p(1)])
  next
    case (Dequeue_urb check u st)
    then show ?thesis using p by (simp add: s quiet_port_def uoe_hcd_urb_dequeue_def same [OF _ p(1)])
  next
    case (Hub_status buf)
    then show ?thesis using p by (simp add: s quiet_port_def uoe_hcd_hub_status_def same [OF _ p(1)])
  next
    case Bus_suspend
    then show ?thesis using p assms(3)
      by (auto simp: s quiet_port_def uoe_hcd_bus_suspend_def no_change_def in_reset_def low_stats
          and_mask_or bit_simps)
  next
    case Bus_resume
    then show ?thesis using p assms(3)
      by (auto simp: s quiet_port_def uoe_hcd_bus_resume_def no_change_def in_reset_def
          and_mask_and bit_simps reset_bits)
  qed
qed

text \<open>An operation that is not harmless leaves the state alone in the system of the interpretation.\<close>

interpretation port_change: step_system
  "\<lambda>s op. if harmless op then hcd_op_step ks s op else s" "quiet_port no_change" for ks
  by unfold_locales (simp add: hcd_op_keeps)

interpretation port_reset: step_system
  "\<lambda>s op. if harmless op then hcd_op_step ks s op else s" "quiet_port in_reset" for ks
  by unfold_locales (simp add: hcd_op_keeps)

lemma harmless_run:
  "list_all harmless ops \<Longrightarrow>
     foldl (\<lambda>s op. if harmless op then hcd_op_step ks s op else s) s ops = hcd_run ks s ops"
  by (induction ops arbitrary: s) simp_all

text \<open>Fact: the hub is never told that a device has come or gone: after the start, whatever the
  hub driver asks and whichever connect, disconnect, suspend and resume events the remote side
  sends, the hub's status call reports no change.\<close>

theorem hcd_connect_unreported:
  assumes "list_all harmless ops" "no_reset_done evt"
    and "hcd_run ks (snd (uoe_hcd_start h), evt) ops = (h', evt')"
  shows "uoe_hcd_hub_status buf h' = (0, buf, h')"
proof -
  have "quiet_port no_change (snd (uoe_hcd_start h), evt)"
    using assms(2) by (simp add: quiet_port_def no_change_def uoe_hcd_start_def Let_def and_mask_or
        low_stats)
  from port_change.run_inv [OF this, of ks ops] have "no_change h'"
    using assms(3) by (simp add: harmless_run [OF assms(1)] quiet_port_def)
  then show ?thesis by (simp add: uoe_hcd_hub_status_def port_changed_def no_change_def)
qed

text \<open>Property C21: a port reset never completes. Once the hub driver has set the port's reset feature on a
  connected port, and every datagram on the event socket is one a device controller has sent as an
  event, the port stays in reset: no device controller ever sends that the reset is done, and
  nothing else clears it.\<close>

theorem uoe_port_reset_never_completes:
  assumes "uoe_create_server aton e1 e2 addr lp ep live = (0, c, live')"
    and "lts_run (udc_step ks al (scripted sc)) (init_dummy_udc_hw c) uops d"
    and "port_status h AND USB_PORT_STAT_CONNECTION \<noteq> 0" "no_reset_done evt"
    and "uoe_hcd_hub_control ks' SetPortFeature USB_PORT_FEAT_RESET i buf h = (r, buf', h1)"
    and "\<And>m. Remote_event m \<in> set ops \<Longrightarrow>
      \<exists>dg \<in> set (uc_sent (udc_conn d)). dg_chan dg = Chan_event \<and> dg_bytes dg = m"
    and "hcd_run ks' (h1, evt) ops = (h', evt')"
  shows "port_status h' AND USB_PORT_STAT_RESET \<noteq> 0"
proof -
  have n: "nowhere d" using server_nowhere [OF assms(1,2)] .
  have "harmless op" if o: "op \<in> set ops" for op
  proof (cases op)
    case (Remote_event m)
    then have "m \<in> udc_events" using assms(6) n o by (fastforce simp: nowhere_def)
    then show ?thesis using Remote_event
      by (auto simp: udc_events_def uoe_event_bytes_def harmless_def uoe_events)
  qed (simp_all add: harmless_def)
  then have h: "list_all harmless ops" by (simp add: list_all_iff)
  have "port_status h1 = (port_status h OR USB_PORT_STAT_RESET) AND
      NOT (USB_PORT_STAT_ENABLE OR USB_PORT_STAT_LOW_SPEED OR USB_PORT_STAT_HIGH_SPEED)"
    using assms(3,5) by (auto simp: uoe_hcd_hub_control_def hub_control_request_def
        set_port_feature_def port_feats)
  then have "quiet_port in_reset (h1, evt)"
    using assms(4) by (simp add: quiet_port_def in_reset_def bit_simps reset_bits)
  from port_reset.run_inv [OF this, of ks' ops] have "in_reset h'"
    using assms(7) by (simp add: harmless_run [OF h] quiet_port_def)
  then have "bit (port_status h' AND USB_PORT_STAT_RESET) 4"
    by (simp add: in_reset_def bit_simps reset_bits)
  then show ?thesis by auto
qed

section \<open>The bits of the port\<close>

text \<open>The bits the code may set: connection, enable, suspend, reset and power, and the reset change.\<close>

definition port_typed :: "uoe_hcd \<Rightarrow> bool" where
  "port_typed h \<longleftrightarrow> port_status h AND 0xffeffee8 = 0"

lemma typed_stats:
  "USB_PORT_STAT_CONNECTION AND 0xffeffee8 = 0" "USB_PORT_STAT_ENABLE AND 0xffeffee8 = 0"
  "USB_PORT_STAT_SUSPEND AND 0xffeffee8 = 0" "USB_PORT_STAT_RESET AND 0xffeffee8 = 0"
  "USB_PORT_STAT_POWER AND 0xffeffee8 = 0"
  "push_bit 16 USB_PORT_STAT_C_RESET AND 0xffeffee8 = 0"
  by (simp_all add: port_stats)

lemma hcd_op_typed:
  assumes "port_typed h" "hcd_op_step ks (h, evt) op = (h', evt')"
  shows "port_typed h'"
proof -
  have same: "port_typed h2" if "port_status h2 = port_status h1" "port_typed h1" for h1 h2
    using that by (simp add: port_typed_def)
  have ev: "port_typed (port_event e h)" for e
    using assms(1) by (simp add: port_event_def port_typed_def typed_stats and_mask_or and_mask_and)
  show ?thesis
  proof (cases op)
    case (Hub_control req v i buf)
    have "port_typed (snd (snd (uoe_hcd_hub_control ks req v i buf h)))"
      using assms(1)
      by (cases req) (simp_all add: uoe_hcd_hub_control_def hub_control_request_def
        clear_port_feature_def set_port_feature_def port_typed_def typed_stats and_mask_or and_mask_and)
    then show ?thesis using Hub_control assms(2) by auto
  next
    case (Remote_event d)
    then show ?thesis using assms [unfolded Remote_event event_iter_one] ev
      by (auto simp: Let_def intro: same split: if_split_asm)
  next
    case (Remote_data al q)
    then show ?thesis using assms by (simp del: hcd_op_step.simps)
  qed (use assms in \<open>auto simp: uoe_hcd_urb_enqueue_def uoe_hcd_urb_dequeue_def
      uoe_hcd_hub_status_def uoe_hcd_bus_suspend_def uoe_hcd_bus_resume_def port_typed_def typed_stats
      and_mask_or and_mask_and split: if_split_asm\<close>)
qed

interpretation port_bits: step_system "hcd_op_step ks" "\<lambda>s. port_typed (fst s)" for ks
proof
  fix s :: "uoe_hcd \<times> bytes" and op
  assume "port_typed (fst s)"
  then show "port_typed (fst (hcd_op_step ks s op))"
    using hcd_op_typed by (metis prod.collapse)
qed

text \<open>Property C22: the status word of the port stays well formed under everything that can happen: only the
  status bits connection, enable, suspend, reset and power are ever set, and of the change bits only
  that of a reset; no speed bit and no connection change. A status request returns that word.\<close>

theorem hcd_port_status_typed:
  assumes "hcd_run ks (snd (uoe_hcd_start h), evt) ops = (h', evt')" "4 \<le> length buf"
  shows "port_status h' AND 0xffeffee8 = 0 \<and>
    (\<exists>h'' buf'. uoe_hcd_hub_control ks GetPortStatus v 1 buf h' = (0, buf', h'') \<and>
      rd_le (take 4 buf') = unat (port_status h'))"
proof -
  have "port_typed (snd (uoe_hcd_start h))"
    by (simp add: uoe_hcd_start_def port_typed_def Let_def and_mask_or typed_stats)
  then have "port_typed h'" using port_bits.run_inv [of "(snd (uoe_hcd_start h), evt)" ks ops] assms(1)
    by simp
  moreover have "unat (drop_bit 16 w) = unat w div 65536" for w :: u32
    by (simp add: drop_bit_eq_div unat_div)
  moreover have "take 4 (blit (blit buf 0 (le16 a)) 2 (le16 b)) = le16 a @ le16 b" for a b
    using assms(2) by (simp add: blit_def)
  moreover have "unat w div 65536 mod 65536 = unat w div 65536" for w :: u32
    using unat_u32_bound [of w] by simp
  ultimately show ?thesis
    by (simp add: uoe_hcd_hub_control_def hub_control_request_def port_typed_def rd_le_append)
qed

lemma hcd_port_status_typed_witness:
  "\<exists>h' evt'. hcd_run (\<lambda>_. 4) (snd (uoe_hcd_start zero_hcd), [0, 0, 0, 0])
      [Remote_event [16, 3, 0, 0], Bus_suspend] = (h', evt') \<and> port_status h' AND 0xffeffee8 = 0"
proof -
  obtain h' evt' where r: "hcd_run (\<lambda>_. 4) (snd (uoe_hcd_start zero_hcd), [0, 0, 0, 0])
      [Remote_event [16, 3, 0, 0], Bus_suspend] = (h', evt')" by (meson surj_pair)
  from hcd_port_status_typed [OF r, of "[0, 0, 0, 0]"] show ?thesis using r by simp
qed

section \<open>Unbinding\<close>

text \<open>Fact: what a probe comes to. When an answer before the threads fails, its error is returned
  and no socket is left. When one of the two threads cannot be created, the clean-up stops the
  thread pointer that is an error code. Otherwise the device is bound; and removing it stops each
  thread twice, once in \<open>remove\<close> and once in the \<open>stop\<close> that removing the controller calls.\<close>

theorem hcd_probe_and_remove:
  assumes "calls_stop rm"
  shows "case uoe_hcd_probe aton rm e ip dp ep live of
      Inl f \<Rightarrow> f = Bad_thread \<and> (he_poll e < 0 \<or> he_event e < 0)
    | Inr (ret, None, live') \<Rightarrow> ret < 0 \<and> live' = live
    | Inr (ret, Some h, live') \<Rightarrow> ret = 0 \<and> live' = live + 2 \<and> 0 \<le> he_poll e \<and> 0 \<le> he_event e \<and>
        uoe_hcd_remove rm (Some h) live' = Inl Bad_thread"
proof -
  have stop: "rm s x = s x" for s x using assms unfolding calls_stop_def by blast
  show ?thesis
  proof (cases "he_disabled e \<or> ip = None \<or> ip = Some '''' \<or> \<not> he_create e")
    case True
    then show ?thesis by (auto simp: uoe_hcd_probe_def split: option.splits)
  next
    case False
    then obtain s where s: "ip = Some s" "s \<noteq> ''''" "\<not> he_disabled e" "he_create e" by auto
    obtain ret c live1 where c: "uoe_create_client aton (he_sock1 e) (he_sock2 e) s dp ep live =
      (ret, c, live1)" by (metis prod_cases3)
    note whole = uoe_client_whole [OF c]
    show ?thesis
    proof (cases "ret < 0")
      case True
      then show ?thesis using s c whole by (simp add: uoe_hcd_probe_def)
    next
      case False
      then have w: "live1 = live + uoe_open_sockets c" "uoe_open_sockets c = 2" "ret = 0"
        using whole by (simp_all add: uoe_open_sockets_def)
      have cl: "snd (uoe_close (c, live1)) = live"
        using uoe_close_whole [of c live "fst (uoe_close (c, live1))" "snd (uoe_close (c, live1))"]
        by (simp add: w(1))
      show ?thesis using s c w cl
        by (auto simp: uoe_hcd_probe_def hcd_unwind_def uoe_hcd_remove_def stop uoe_hcd_stop_def
            stop_thread_def stop_and_keep_def kthread_stop_def uoe_hcd_start_def zero_hcd_def Let_def)
    qed
  qed
qed

lemma hcd_probe_and_remove_witness:
  "\<exists>h. uoe_hcd_probe (\<lambda>_. 7) (\<lambda>stop. stop) \<lparr>he_disabled = False, he_create = True,
      he_sock1 = \<lparr>se_create = 0, se_bind = 0\<rparr>, he_sock2 = \<lparr>se_create = 0, se_bind = 0\<rparr>, he_add = 0,
      he_poll = 0, he_event = 0\<rparr> (Some ''10.0.0.1'') 5555 5556 0 = Inr (0, Some h, 2) \<and>
    uoe_hcd_remove (\<lambda>stop. stop) (Some h) 2 = Inl Bad_thread"
proof -
  let ?e = "\<lparr>he_disabled = False, he_create = True, he_sock1 = \<lparr>se_create = 0, se_bind = 0\<rparr>,
      he_sock2 = \<lparr>se_create = 0, se_bind = 0\<rparr>, he_add = 0, he_poll = 0, he_event = 0\<rparr>"
  have "calls_stop (\<lambda>stop. stop)" by (simp add: calls_stop_def)
  from hcd_probe_and_remove [OF this, where aton = "\<lambda>_. 7" and e = ?e and
      ip = "Some ''10.0.0.1''" and dp = 5555 and ep = 5556 and live = 0]
  show ?thesis
    by (simp add: uoe_hcd_probe_def uoe_create_client_def uoe_create_udp_socket_def Let_def
        numeral_2_eq_2)
qed

text \<open>Fact: the initialisation of both modules unwinds, except when adding the platform device
  fails: then the error is returned with the driver still registered, although the module is
  unloaded.\<close>

theorem uoe_init_leaves_driver:
  assumes "0 \<le> reg" "palloc" "padd < 0" "Hcd_driver \<notin> res" "Res_driver \<notin> res'"
  shows "uoe_hcd_init False reg palloc padd res = (padd, insert Hcd_driver res) \<and>
    uoe_udc_init reg palloc padd res' = (padd, insert Res_driver res') \<and>
    uoe_hcd_init False reg False padd res = (- ENOMEM, res) \<and>
    uoe_udc_init reg False padd res' = (- ENOMEM, res')"
  using assms by (simp add: uoe_hcd_init_def uoe_udc_init_def Let_def)


lemma hcd_connect_unreported_witness:
  "\<exists>h'. fst (hcd_run (\<lambda>_. 4) (snd (uoe_hcd_start zero_hcd), [0, 0, 0, 0])
      [Remote_event [16, 2, 0, 0], Remote_event [16, 1, 0, 0]]) = h' \<and>
     remote_connected h' \<and> uoe_hcd_hub_status [0] h' = (0, [0], h')"
proof -
  obtain h' evt' where r: "hcd_run (\<lambda>_. 4) (snd (uoe_hcd_start zero_hcd), [0, 0, 0, 0])
      [Remote_event [16, 2, 0, 0], Remote_event [16, 1, 0, 0]] = (h', evt')"
    by (meson surj_pair)
  then have "remote_connected h'"
    by (simp add: event_iter_one blit_def UOE_EVENT_def port_event_def uoe_events poll_rh_status_def
        Let_def del: hcd_op_step.simps) auto
  then show ?thesis
    using hcd_connect_unreported [OF _ _ r, of "[0]"] r
    by (simp add: harmless_def no_reset_done_def uoe_events)
qed

lemma uoe_port_reset_never_completes_witness:
  "\<exists>h1 h' evt'. uoe_hcd_hub_control (\<lambda>_. 4) SetPortFeature USB_PORT_FEAT_RESET 1 []
      (snd (uoe_hcd_start zero_hcd)) = (0, [], h1) \<and>
    hcd_run (\<lambda>_. 4) (h1, [0, 0, 0, 0]) [Remote_event [16, 1, 0, 0]] = (h', evt') \<and>
    port_status h' AND USB_PORT_STAT_RESET \<noteq> 0"
proof -
  obtain d dg where run: "lts_run (udc_step (\<lambda>_. 4) (\<lambda>_. True) (scripted (\<lambda>_ _ _. [])))
      (init_dummy_udc_hw uoe_demo_conn) [Pullup_begin 1, Pullup_end 1] d"
    "uc_sent (udc_conn d) = [dg]" "dg_chan dg = Chan_event" "dg_bytes dg = [16, 1, 0, 0]"
    using demo_connect by blast
  obtain r buf' h1 where c: "uoe_hcd_hub_control (\<lambda>_. 4) SetPortFeature USB_PORT_FEAT_RESET 1 []
      (snd (uoe_hcd_start zero_hcd)) = (r, buf', h1)" by (metis prod_cases3)
  have rb: "r = 0" "buf' = []"
    using c by (auto simp: uoe_hcd_hub_control_def hub_control_request_def set_port_feature_def
        port_feats split: if_split_asm)
  obtain h' evt' where h: "hcd_run (\<lambda>_. 4) (h1, [0, 0, 0, 0]) [Remote_event [16, 1, 0, 0]] = (h', evt')"
    by (meson surj_pair)
  have "port_status (snd (uoe_hcd_start zero_hcd)) AND USB_PORT_STAT_CONNECTION \<noteq> 0"
    by (simp add: uoe_hcd_start_def port_stats)
  from uoe_port_reset_never_completes [OF demo_server run(1) this _ c _ h] run(2-4)
  have "port_status h' AND USB_PORT_STAT_RESET \<noteq> 0"
    by (auto simp: no_reset_done_def uoe_events)
  then show ?thesis using c h rb by blast
qed

lemma uoe_init_leaves_driver_witness:
  "uoe_hcd_init False 0 True (- ENODEV) {} = (- ENODEV, {Hcd_driver}) \<and>
   uoe_udc_init 0 True (- ENODEV) {} = (- ENODEV, {Res_driver})"
  using uoe_init_leaves_driver [of 0 True "- ENODEV" "{}" "{}"] by simp

end
