(* ===== verification/Sketh_Ring.thy ===== *)
theory Sketh_Ring
  imports Driver_Prelude
begin

text \<open>
  The network driver \<open>modules/sketh_plat/sketh.c\<close>, data path: the rings with their buffers and
  descriptors, filling and cleaning a receive ring, transmitting and cleaning a transmit ring, XDP,
  and one poll. The allocator, DMA mapping, the XDP program and the network stack are parameters.
\<close>

section \<open>Rings\<close>

text \<open>The two index functions of \<open>sketh.h\<close>, on 16-bit values.\<close>

definition next_to_use :: "u16 \<Rightarrow> u16 \<Rightarrow> u16" where
  "next_to_use index count = (index + 1) AND (count - 1)"

definition next_to_clean :: "u16 \<Rightarrow> u16 \<Rightarrow> u16" where
  "next_to_clean index count = (index + count - 1) AND (count - 1)"

text \<open>Called with the ring's \<open>unsigned int\<close> indices, which are truncated.\<close>

definition ring_next :: "nat \<Rightarrow> nat \<Rightarrow> nat" where
  "ring_next i count = unat (next_to_use (word_of_nat i) (word_of_nat count))"

record sketh_rx_buffer =
  rb_skb :: "(nat \<times> nat) option"
  rb_dma :: bool

record sketh_tx_buffer =
  tb_skb :: "nat option"
  tb_bytes :: nat
  tb_mapped :: bool

record sketh_tx_desc =
  td_skb :: nat
  td_length :: u16
  td_cmd :: nat

text \<open>
  An skb is its number; a receive buffer also knows how many bytes the skb can take. A pointer that
  may be null (\<open>rx_buffer\<close>/\<open>tx_buffer\<close>, \<open>desc\<close>) is an option. The union of the two kinds of buffer is
  the type parameter. The descriptors of a receive ring are allocated and never written.
  \<open>rg_desc_dma\<close> says whether the bus address of the descriptors is not 0. The adapter, the device and
  the index of the ring, which every ring points back to, are those of the list it is in.
\<close>

record 'b sketh_ring =
  rg_count :: nat
  rg_next_to_use :: nat
  rg_next_to_clean :: nat
  rg_buffer :: "'b list option"
  rg_desc :: "sketh_tx_desc list option"
  rg_desc_dma :: bool
  rg_xdp_enabled :: bool
  rg_napi_on :: bool

datatype sketh_fault = Null_pointer | Outside_ring | Skb_over_panic

section \<open>The adapter\<close>

datatype netif_feature = NETIF_F_SG | NETIF_F_HW_CSUM | NETIF_F_NTUPLE | NETIF_F_RXCSUM
  | NETIF_F_HW_VLAN_CTAG_RX | NETIF_F_HW_VLAN_CTAG_TX | NETIF_F_TSO | NETIF_F_TSO6

text \<open>
  The fields \<open>nd_\<close> and \<open>st_\<close> are those of the \<open>net_device\<close> and its statistics. \<open>ad_msix_entries\<close> lists
  the vectors, \<open>ad_irqs\<close> the handlers registered, as vector and ring.
  \<open>ad_freed\<close>, \<open>ad_up\<close> and \<open>ad_next_skb\<close> are for the theorems: the skbs the driver has freed, those it
  has handed to the network stack with their length, and the next number of an skb it allocates.
  \<open>ad_resets\<close> counts the reset work scheduled, \<open>ad_irq_on\<close> the calls of \<open>enable_irq\<close>.
\<close>

record sketh_adapter =
  ad_rx_ring :: "sketh_rx_buffer sketh_ring list option"
  ad_tx_ring :: "sketh_tx_buffer sketh_ring list option"
  ad_num_queues :: nat
  ad_mtu :: nat
  ad_down :: bool
  ad_msix_entries :: "nat list option"
  ad_irqs :: "(nat \<times> nat) list"
  ad_xdp_prog :: "nat option"
  ad_prog_puts :: "nat list"
  ad_hw_accel :: bool
  ad_registered :: bool
  ad_rx_drops :: u64
  ad_tx_dropped :: u64
  ad_xdp_tx :: u64
  ad_xdp_drops :: u64
  ad_xdp_redirect :: u64
  ad_tx_restart :: u64
  ad_rx_polls :: u64
  ad_tx_timeouts :: u64
  st_rx_packets :: u64
  st_rx_bytes :: u64
  st_tx_packets :: u64
  st_tx_bytes :: u64
  st_rx_dropped :: u64
  st_tx_dropped :: u64
  ad_freed :: "nat list"
  ad_up :: "(nat \<times> nat) list"
  ad_next_skb :: nat
  ad_resets :: nat
  ad_irq_on :: nat
  ad_queues_stopped :: bool
  ad_hw_addr :: bool
  nd_dev_addr :: bytes
  nd_features :: "netif_feature list"
  nd_hw_features :: "netif_feature list"
  nd_vlan_features :: "netif_feature list"
  nd_running :: bool
  nd_attached :: bool

text \<open>
  What the kernel answers: whether an skb can be allocated and a buffer mapped, the room of an skb
  allocated with a given size, the XDP program's verdict on an skb, the length of the frame as it
  leaves it (a program may move both ends of the data), and whether a redirect succeeds,
  whether the network stack drops an skb, and the result of requesting the interrupt of a ring.
\<close>

datatype xdp_act = XDP_ABORTED | XDP_DROP | XDP_PASS | XDP_TX | XDP_REDIRECT | Xdp_other

record sketh_env =
  se_alloc :: "nat \<Rightarrow> bool"
  se_room :: "nat \<Rightarrow> nat"
  se_map :: "nat \<Rightarrow> bool"
  se_prog :: "nat \<Rightarrow> nat \<Rightarrow> xdp_act"
  se_xdp_len :: "nat \<Rightarrow> nat \<Rightarrow> nat \<Rightarrow> nat"
  se_redirect :: "nat \<Rightarrow> bool"
  se_drop :: "nat \<Rightarrow> bool"
  se_irq :: "nat \<Rightarrow> int"

definition ETH_HLEN :: nat where "ETH_HLEN = 14"
definition VLAN_HLEN :: nat where "VLAN_HLEN = 4"
definition ETH_FCS_LEN :: int where "ETH_FCS_LEN = 4"

text \<open>The size of a receive buffer and of a frame, computed in \<open>unsigned int\<close>.\<close>

definition rx_buf_len :: "sketh_adapter \<Rightarrow> nat" where
  "rx_buf_len ad = (ad_mtu ad + ETH_HLEN + VLAN_HLEN) mod 4294967296"

definition rx_frame_len :: "sketh_adapter \<Rightarrow> nat" where
  "rx_frame_len ad = (ad_mtu ad + ETH_HLEN) mod 4294967296"

definition free_skb :: "nat \<Rightarrow> sketh_adapter \<Rightarrow> sketh_adapter" where
  "free_skb n ad = ad\<lparr>ad_freed := ad_freed ad @ [n]\<rparr>"

text \<open>\<open>&adapter->rx_ring[q]\<close>, \<open>&adapter->tx_ring[q]\<close>, and storing a ring back.\<close>

definition ring_at :: "'a list option \<Rightarrow> nat \<Rightarrow> sketh_fault + 'a" where
  "ring_at rs q = (case rs of None \<Rightarrow> Inl Null_pointer
     | Some xs \<Rightarrow> if q < length xs then Inr (xs ! q) else Inl Outside_ring)"

definition put_rx :: "nat \<Rightarrow> sketh_rx_buffer sketh_ring \<Rightarrow> sketh_adapter \<Rightarrow> sketh_adapter" where
  "put_rx q r ad = ad\<lparr>ad_rx_ring := map_option (\<lambda>rs. rs[q := r]) (ad_rx_ring ad)\<rparr>"

definition put_tx :: "nat \<Rightarrow> sketh_tx_buffer sketh_ring \<Rightarrow> sketh_adapter \<Rightarrow> sketh_adapter" where
  "put_tx q r ad = ad\<lparr>ad_tx_ring := map_option (\<lambda>rs. rs[q := r]) (ad_tx_ring ad)\<rparr>"

section \<open>Filling a receive ring\<close>

text \<open>The loop: how many buffers are left to post, the index, the ring and the adapter.\<close>

fun alloc_rx_loop ::
  "sketh_env \<Rightarrow> nat \<Rightarrow> nat \<Rightarrow> sketh_rx_buffer sketh_ring \<times> sketh_adapter \<Rightarrow>
     sketh_fault + nat \<times> sketh_rx_buffer sketh_ring \<times> sketh_adapter" where
  "alloc_rx_loop e 0 i s = Inr (i, s)"
| "alloc_rx_loop e (Suc k) i (r, ad) =
     (let n = ad_next_skb ad in
      if \<not> se_alloc e n then Inr (i, r, ad\<lparr>ad_rx_drops := ad_rx_drops ad + 1\<rparr>)
      else case rg_buffer r of None \<Rightarrow> Inl Null_pointer
      | Some bs \<Rightarrow>
          let ad1 = ad\<lparr>ad_next_skb := n + 1\<rparr> in
          if length bs \<le> i then Inl Outside_ring
          else if \<not> se_map e n
          then Inr (i, r\<lparr>rg_buffer := Some (bs[i := (bs ! i)\<lparr>rb_skb := None, rb_dma := True\<rparr>])\<rparr>,
            (free_skb n ad1)\<lparr>ad_rx_drops := ad_rx_drops ad1 + 1\<rparr>)
          else alloc_rx_loop e k (ring_next i (rg_count r))
            (r\<lparr>rg_buffer := Some (bs[i := \<lparr>rb_skb = Some (n, se_room e (rx_buf_len ad)),
               rb_dma = True\<rparr>])\<rparr>, ad1))"

definition sketh_alloc_rx_buffers ::
  "sketh_env \<Rightarrow> nat \<Rightarrow> nat \<Rightarrow> sketh_adapter \<Rightarrow> sketh_fault + sketh_adapter" where
  "sketh_alloc_rx_buffers e q cleaned_count ad = (case ring_at (ad_rx_ring ad) q of Inl f \<Rightarrow> Inl f
     | Inr r \<Rightarrow> (case alloc_rx_loop e cleaned_count (rg_next_to_use r) (r, ad) of Inl f \<Rightarrow> Inl f
       | Inr (i, r1, ad1) \<Rightarrow> Inr (put_rx q (r1\<lparr>rg_next_to_use := i\<rparr>) ad1)))"

section \<open>Transmitting\<close>

definition SKETH_TX_DESC_CMD :: nat where "SKETH_TX_DESC_CMD = 3"

text \<open>The length field of the descriptor has 16 bits. The checksum offset is 0 in any case.\<close>

definition sketh_xmit_desc ::
  "sketh_tx_buffer sketh_ring \<Rightarrow> nat \<Rightarrow> nat \<Rightarrow> sketh_fault + sketh_tx_buffer sketh_ring" where
  "sketh_xmit_desc r skb len = (case rg_desc r of None \<Rightarrow> Inl Null_pointer
     | Some ds \<Rightarrow>
         let i = rg_next_to_use r in
         if length ds \<le> i then Inl Outside_ring
         else Inr (r\<lparr>rg_desc := Some (ds[i := \<lparr>td_skb = skb, td_length = word_of_nat len,
             td_cmd = SKETH_TX_DESC_CMD\<rparr>]),
           rg_next_to_use := ring_next i (rg_count r)\<rparr>))"

text \<open>A packet to send: its number, its length, the length of its linear part, its queue.\<close>

record tx_skb =
  ts_skb :: nat
  ts_len :: nat
  ts_headlen :: nat
  ts_queue :: nat

definition sketh_start_xmit :: "sketh_env \<Rightarrow> tx_skb \<Rightarrow> sketh_adapter \<Rightarrow> sketh_fault + sketh_adapter" where
  "sketh_start_xmit e s ad =
     (if ts_len s = 0 then Inr (free_skb (ts_skb s) ad)
      else if ad_down ad
      then Inr ((free_skb (ts_skb s) ad)\<lparr>st_tx_dropped := st_tx_dropped ad + 1\<rparr>)
      else if \<not> se_map e (ts_skb s)
      then Inr ((free_skb (ts_skb s) ad)\<lparr>ad_tx_dropped := ad_tx_dropped ad + 1\<rparr>)
      else case ring_at (ad_tx_ring ad) (ts_queue s) of Inl f \<Rightarrow> Inl f
      | Inr r \<Rightarrow> (case rg_buffer r of None \<Rightarrow> Inl Null_pointer
        | Some bs \<Rightarrow>
            let i = rg_next_to_use r in
            if length bs \<le> i then Inl Outside_ring
            else
              let r1 = r\<lparr>rg_buffer := Some (bs[i := \<lparr>tb_skb = Some (ts_skb s), tb_bytes = ts_headlen s,
                    tb_mapped = True\<rparr>]),
                  rg_next_to_use := ring_next i (rg_count r)\<rparr>
              in (case sketh_xmit_desc r1 (ts_skb s) (ts_headlen s) of Inl f \<Rightarrow> Inl f
                | Inr r2 \<Rightarrow>
                    let ad1 = put_tx (ts_queue s) r2 ad in
                    Inr (if rg_next_to_use r2 = rg_next_to_clean r2
                         then ad1\<lparr>ad_tx_restart := ad_tx_restart ad1 + 1\<rparr> else ad1))))"

definition empty_tx_buffer :: sketh_tx_buffer where
  "empty_tx_buffer = \<lparr>tb_skb = None, tb_bytes = 0, tb_mapped = False\<rparr>"

text \<open>Unmapping is not modelled beyond the flag.\<close>

definition sketh_unmap_and_free_tx_buffer ::
  "sketh_tx_buffer \<Rightarrow> sketh_adapter \<Rightarrow> sketh_tx_buffer \<times> sketh_adapter" where
  "sketh_unmap_and_free_tx_buffer b ad =
     (empty_tx_buffer, case tb_skb b of None \<Rightarrow> ad | Some n \<Rightarrow> free_skb n ad)"

text \<open>The loop from index \<open>i\<close> to \<open>stop\<close> over the buffers, counting packets and bytes in 32 bits;
  \<open>None\<close> is a loop that does not end.\<close>

partial_function (option) clean_tx_loop ::
  "nat \<Rightarrow> nat \<Rightarrow> nat \<Rightarrow> sketh_tx_buffer list option \<Rightarrow> u32 \<Rightarrow> u32 \<Rightarrow> sketh_adapter \<Rightarrow>
     (sketh_fault + sketh_tx_buffer list option \<times> u32 \<times> u32 \<times> sketh_adapter) option" where
  "clean_tx_loop count stop i bufs packets bytes ad =
     (if i = stop then Some (Inr (bufs, packets, bytes, ad))
      else case bufs of None \<Rightarrow> Some (Inl Null_pointer)
      | Some bs \<Rightarrow>
          if length bs \<le> i then Some (Inl Outside_ring)
          else if tb_skb (bs ! i) = None
          then clean_tx_loop count stop (ring_next i count) bufs packets bytes ad
          else case sketh_unmap_and_free_tx_buffer (bs ! i) ad of (b, ad1) \<Rightarrow>
            clean_tx_loop count stop (ring_next i count) (Some (bs[i := b])) (packets + 1)
              (bytes + word_of_nat (tb_bytes (bs ! i))) ad1)"

definition sketh_clean_tx_ring :: "nat \<Rightarrow> sketh_adapter \<Rightarrow> (sketh_fault + sketh_adapter) option" where
  "sketh_clean_tx_ring q ad = (case ring_at (ad_tx_ring ad) q of Inl f \<Rightarrow> Some (Inl f)
     | Inr r \<Rightarrow> (case clean_tx_loop (rg_count r) (rg_next_to_use r) (rg_next_to_clean r) (rg_buffer r)
             0 0 ad of
         None \<Rightarrow> None
       | Some (Inl f) \<Rightarrow> Some (Inl f)
       | Some (Inr (bufs, packets, bytes, ad1)) \<Rightarrow>
           let ad2 = put_tx q (r\<lparr>rg_buffer := bufs, rg_next_to_clean := rg_next_to_use r\<rparr>) ad1 in
           Some (Inr (if packets \<noteq> 0
             then ad2\<lparr>st_tx_packets := st_tx_packets ad2 + ucast packets,
                st_tx_bytes := st_tx_bytes ad2 + ucast bytes\<rparr>
             else ad2))))"

text \<open>\<open>bi\<close> is the buffer at the old \<open>next_to_use\<close> first and at the new one after each round.\<close>

partial_function (option) alloc_tx_loop ::
  "sketh_tx_buffer sketh_ring \<Rightarrow> (sketh_fault + sketh_tx_buffer sketh_ring) option" where
  "alloc_tx_loop r =
     (if rg_next_to_clean r = rg_next_to_use r then Some (Inr r)
      else case rg_buffer r of None \<Rightarrow> Some (Inl Null_pointer)
      | Some bs \<Rightarrow>
          if length bs \<le> rg_next_to_use r then Some (Inl Outside_ring)
          else alloc_tx_loop (r\<lparr>rg_buffer := Some (bs[rg_next_to_use r := empty_tx_buffer]),
            rg_next_to_use := ring_next (rg_next_to_use r) (rg_count r)\<rparr>))"

definition sketh_alloc_tx_buffers ::
  "nat \<Rightarrow> sketh_adapter \<Rightarrow> (sketh_fault + sketh_adapter) option" where
  "sketh_alloc_tx_buffers q ad = (case ring_at (ad_tx_ring ad) q of Inl f \<Rightarrow> Some (Inl f)
     | Inr r \<Rightarrow> (case alloc_tx_loop r of None \<Rightarrow> None
       | Some (Inl f) \<Rightarrow> Some (Inl f) | Some (Inr r1) \<Rightarrow> Some (Inr (put_tx q r1 ad))))"

section \<open>Receiving\<close>

text \<open>\<open>sketh_xdp_tx\<close>: the data of the skb is put on transmit ring 0 without the skb; \<open>len\<close> is
  \<open>xdp->data_end - xdp->data\<close>, as the program left them.\<close>

definition sketh_xdp_tx :: "sketh_env \<Rightarrow> nat \<Rightarrow> nat \<Rightarrow> sketh_adapter \<Rightarrow> sketh_fault + int \<times> sketh_adapter" where
  "sketh_xdp_tx e skb len ad =
     (if \<not> se_map e skb then Inr (- ENOMEM, ad)
      else case ring_at (ad_tx_ring ad) 0 of Inl f \<Rightarrow> Inl f
      | Inr r \<Rightarrow> (case rg_buffer r of None \<Rightarrow> Inl Null_pointer
        | Some bs \<Rightarrow>
            let i = rg_next_to_use r in
            if length bs \<le> i then Inl Outside_ring
            else Inr (0, put_tx 0 (r\<lparr>rg_buffer := Some (bs[i := (bs ! i)\<lparr>tb_bytes := len, tb_mapped := True\<rparr>]),
              rg_next_to_use := ring_next i (rg_count r)\<rparr>) ad)))"

definition xdp_verdict :: "sketh_env \<Rightarrow> nat \<Rightarrow> sketh_adapter \<Rightarrow> xdp_act" where
  "xdp_verdict e skb ad = (case ad_xdp_prog ad of None \<Rightarrow> XDP_PASS | Some p \<Rightarrow> se_prog e p skb)"

definition xdp_len :: "sketh_env \<Rightarrow> nat \<Rightarrow> nat \<Rightarrow> sketh_adapter \<Rightarrow> nat" where
  "xdp_len e skb len ad = (case ad_xdp_prog ad of None \<Rightarrow> len | Some p \<Rightarrow> se_xdp_len e p skb len)"

definition count_drop :: "sketh_adapter \<Rightarrow> sketh_adapter" where
  "count_drop ad = ad\<lparr>ad_xdp_drops := ad_xdp_drops ad + 1\<rparr>"

text \<open>\<open>skb_put\<close> panics when the skb has no room. \<open>room\<close> is that of the receive buffer.\<close>

definition sketh_receive_skb ::
  "sketh_env \<Rightarrow> nat \<times> nat \<Rightarrow> nat \<Rightarrow> sketh_adapter \<Rightarrow> sketh_fault + sketh_adapter" where
  "sketh_receive_skb e = (\<lambda>(skb, room) len ad. case xdp_verdict e skb ad of
     XDP_TX \<Rightarrow> (case sketh_xdp_tx e skb (xdp_len e skb len ad) ad of Inl f \<Rightarrow> Inl f
       | Inr (_, ad1) \<Rightarrow> Inr (free_skb skb (ad1\<lparr>ad_xdp_tx := ad_xdp_tx ad1 + 1\<rparr>)))
   | XDP_REDIRECT \<Rightarrow> Inr (free_skb skb (if se_redirect e skb
       then ad\<lparr>ad_xdp_redirect := ad_xdp_redirect ad + 1\<rparr> else count_drop ad))
   | XDP_PASS \<Rightarrow>
       if room < len then Inl Skb_over_panic
       else let ad1 = ad\<lparr>ad_up := ad_up ad @ [(skb, len)]\<rparr> in
         Inr (if se_drop e skb then ad1\<lparr>ad_rx_drops := ad_rx_drops ad1 + 1\<rparr> else ad1)
   | _ \<Rightarrow> Inr (free_skb skb (count_drop ad)))"

text \<open>The loop of \<open>sketh_clean_rx_ring\<close>, \<open>k\<close> packets of the budget left; it returns the packets received
  and the bytes.\<close>

fun clean_rx_loop ::
  "sketh_env \<Rightarrow> nat \<Rightarrow> nat \<Rightarrow> sketh_adapter \<Rightarrow> sketh_fault + nat \<times> sketh_adapter" where
  "clean_rx_loop e q 0 ad = Inr (0, ad)"
| "clean_rx_loop e q (Suc k) ad = (case ring_at (ad_rx_ring ad) q of Inl f \<Rightarrow> Inl f
     | Inr r \<Rightarrow> (case rg_buffer r of None \<Rightarrow> Inl Null_pointer
       | Some bs \<Rightarrow>
           let i = rg_next_to_clean r in
           if length bs \<le> i then Inl Outside_ring
           else (case rb_skb (bs ! i) of None \<Rightarrow> Inr (0, ad)
             | Some s \<Rightarrow>
                 (case sketh_receive_skb e s (rx_frame_len ad)
                     (put_rx q (r\<lparr>rg_buffer := Some (bs[i := \<lparr>rb_skb = None, rb_dma = False\<rparr>]),
                        rg_next_to_clean := ring_next i (rg_count r)\<rparr>) ad) of
                    Inl f \<Rightarrow> Inl f
                  | Inr ad1 \<Rightarrow> (case clean_rx_loop e q k ad1 of Inl f \<Rightarrow> Inl f
                     | Inr (n, ad2) \<Rightarrow> Inr (n + 1, ad2))))))"

definition sketh_clean_rx_ring ::
  "sketh_env \<Rightarrow> nat \<Rightarrow> nat \<Rightarrow> sketh_adapter \<Rightarrow> sketh_fault + nat \<times> sketh_adapter" where
  "sketh_clean_rx_ring e q budget ad = (case clean_rx_loop e q budget ad of Inl f \<Rightarrow> Inl f
     | Inr (n, ad1) \<Rightarrow>
         if n = 0 then Inr (0, ad1)
         else (case sketh_alloc_rx_buffers e q n ad1 of Inl f \<Rightarrow> Inl f
           | Inr ad2 \<Rightarrow> Inr (n, ad2\<lparr>st_rx_packets := st_rx_packets ad2 + word_of_nat n,
               st_rx_bytes := st_rx_bytes ad2 + ucast (word_of_nat (n * rx_frame_len ad) :: u32)\<rparr>)))"

text \<open>One poll; \<open>napi_complete_done\<close> is not modelled, enabling the interrupt is counted.\<close>

definition sketh_napi_poll ::
  "sketh_env \<Rightarrow> nat \<Rightarrow> nat \<Rightarrow> sketh_adapter \<Rightarrow> (sketh_fault + nat \<times> sketh_adapter) option" where
  "sketh_napi_poll e q budget ad =
     (case sketh_clean_rx_ring e q budget (ad\<lparr>ad_rx_polls := ad_rx_polls ad + 1\<rparr>) of
        Inl f \<Rightarrow> Some (Inl f)
      | Inr (work, ad1) \<Rightarrow> (case ring_at (ad_rx_ring ad1) q of Inl f \<Rightarrow> Some (Inl f)
        | Inr r \<Rightarrow>
            let ad2 = (if rg_next_to_use r \<noteq> rg_next_to_clean r \<and> work < budget \<and>
                  ad_msix_entries ad1 \<noteq> None
                then ad1\<lparr>ad_irq_on := ad_irq_on ad1 + 1\<rparr> else ad1)
            in if budget = 0 then Some (Inr (work, ad2))
               else (case sketh_clean_tx_ring q ad2 of None \<Rightarrow> None
                 | Some (Inl f) \<Rightarrow> Some (Inl f) | Some (Inr ad3) \<Rightarrow> Some (Inr (work, ad3)))))"

end
