(* ===== verification/Sketh_Dev.thy ===== *)
theory Sketh_Dev
  imports Sketh_Ring
begin

text \<open>
  The network driver \<open>modules/sketh_plat/sketh.c\<close>, control path: configuring, opening and stopping the
  device, its interrupts, ring memory, statistics, offload hooks, and the two bindings (PCI and
  platform). \<open>sketh_exec\<close> collects the calls the kernel can make on a bound device.
\<close>

section \<open>Configuring\<close>

text \<open>A loop over the queues, stopped by a fault or by a step that does not end.\<close>

fun each_queue ::
  "(nat \<Rightarrow> sketh_adapter \<Rightarrow> (sketh_fault + sketh_adapter) option) \<Rightarrow> nat list \<Rightarrow> sketh_adapter \<Rightarrow>
     (sketh_fault + sketh_adapter) option" where
  "each_queue f [] ad = Some (Inr ad)"
| "each_queue f (q # qs) ad = (case f q ad of None \<Rightarrow> None | Some (Inl x) \<Rightarrow> Some (Inl x)
     | Some (Inr ad1) \<Rightarrow> each_queue f qs ad1)"

definition drop_first_buffer :: "nat \<Rightarrow> sketh_adapter \<Rightarrow> (sketh_fault + sketh_adapter) option" where
  "drop_first_buffer q ad = Some (case ring_at (ad_rx_ring ad) q of Inl f \<Rightarrow> Inl f
     | Inr r \<Rightarrow>
         if \<not> rg_xdp_enabled r then Inr ad
         else (case rg_buffer r of None \<Rightarrow> Inl Null_pointer
           | Some [] \<Rightarrow> Inl Outside_ring
           | Some (b # bs) \<Rightarrow> Inr (put_rx q (r\<lparr>rg_buffer := Some (b\<lparr>rb_skb := None\<rparr> # bs)\<rparr>) ad)))"

definition sketh_set_rx_buffer_len :: "sketh_adapter \<Rightarrow> (sketh_fault + sketh_adapter) option" where
  "sketh_set_rx_buffer_len ad = each_queue drop_first_buffer [0..<ad_num_queues ad] ad"

definition fill_queue :: "sketh_env \<Rightarrow> nat \<Rightarrow> sketh_adapter \<Rightarrow> (sketh_fault + sketh_adapter) option" where
  "fill_queue e q ad = Some (case ring_at (ad_rx_ring ad) q of Inl f \<Rightarrow> Inl f
     | Inr r \<Rightarrow> sketh_alloc_rx_buffers e q (rg_count r) ad)"

definition sketh_configure_rx :: "sketh_env \<Rightarrow> sketh_adapter \<Rightarrow> (sketh_fault + sketh_adapter) option" where
  "sketh_configure_rx e ad = (case sketh_set_rx_buffer_len ad of None \<Rightarrow> None
     | Some (Inl f) \<Rightarrow> Some (Inl f)
     | Some (Inr ad1) \<Rightarrow> each_queue (fill_queue e) [0..<ad_num_queues ad] ad1)"

definition sketh_configure_tx :: "sketh_adapter \<Rightarrow> (sketh_fault + sketh_adapter) option" where
  "sketh_configure_tx ad = each_queue sketh_alloc_tx_buffers [0..<ad_num_queues ad] ad"

definition sketh_features :: "netif_feature list" where
  "sketh_features = [NETIF_F_SG, NETIF_F_HW_CSUM, NETIF_F_NTUPLE, NETIF_F_RXCSUM,
     NETIF_F_HW_VLAN_CTAG_RX, NETIF_F_HW_VLAN_CTAG_TX, NETIF_F_TSO, NETIF_F_TSO6]"

definition set_all_features :: "sketh_adapter \<Rightarrow> sketh_adapter" where
  "set_all_features ad = ad\<lparr>nd_features := sketh_features, nd_hw_features := sketh_features,
     nd_vlan_features := removeAll NETIF_F_HW_VLAN_CTAG_RX sketh_features\<rparr>"

definition sketh_configure :: "sketh_env \<Rightarrow> sketh_adapter \<Rightarrow> (sketh_fault + sketh_adapter) option" where
  "sketh_configure e ad = (case sketh_configure_tx ad of None \<Rightarrow> None
     | Some (Inl f) \<Rightarrow> Some (Inl f)
     | Some (Inr ad1) \<Rightarrow> (case sketh_configure_rx e ad1 of None \<Rightarrow> None
       | Some (Inl f) \<Rightarrow> Some (Inl f) | Some (Inr ad2) \<Rightarrow> Some (Inr (set_all_features ad2))))"

section \<open>Addresses, sizes, time-outs\<close>

definition is_valid_ether_addr :: "bytes \<Rightarrow> bool" where
  "is_valid_ether_addr a \<longleftrightarrow> hd a AND 1 = 0 \<and> (\<exists>b \<in> set (take 6 a). b \<noteq> 0)"

definition sketh_set_mac_address :: "bytes \<Rightarrow> sketh_adapter \<Rightarrow> int \<times> sketh_adapter" where
  "sketh_set_mac_address a ad = (if \<not> is_valid_ether_addr a then (- EADDRNOTAVAIL, ad)
     else (0, ad\<lparr>nd_dev_addr := blit (nd_dev_addr ad) 0 (take 6 a)\<rparr>))"

definition SKETH_MIN_MTU :: int where "SKETH_MIN_MTU = 68"
definition SKETH_MAX_MTU :: int where "SKETH_MAX_MTU = 9000"

text \<open>The frame size is computed in \<open>int\<close>; the kernel is compiled so that a signed sum wraps. Above
  2147483629 it is negative and passes the test of its upper bound.\<close>

definition max_frame :: "int \<Rightarrow> int" where
  "max_frame new_mtu = int_of_u32 (nat ((new_mtu + int ETH_HLEN + ETH_FCS_LEN) mod 4294967296))"

lemma max_frame_small:
  assumes "0 \<le> m" "m + int ETH_HLEN + ETH_FCS_LEN \<le> SKETH_MAX_MTU"
  shows "max_frame m = m + int ETH_HLEN + ETH_FCS_LEN"
  using assms by (simp add: max_frame_def int_of_u32_def SKETH_MAX_MTU_def ETH_HLEN_def ETH_FCS_LEN_def Let_def)

definition sketh_change_mtu :: "int \<Rightarrow> sketh_adapter \<Rightarrow> int \<times> sketh_adapter" where
  "sketh_change_mtu new_mtu ad =
     (if new_mtu < SKETH_MIN_MTU \<or> SKETH_MAX_MTU < max_frame new_mtu
      then (- EINVAL, ad) else (0, ad\<lparr>ad_mtu := nat new_mtu\<rparr>))"

definition sketh_tx_timeout :: "sketh_adapter \<Rightarrow> sketh_adapter" where
  "sketh_tx_timeout ad = ad\<lparr>ad_tx_timeouts := ad_tx_timeouts ad + 1, ad_resets := ad_resets ad + 1\<rparr>"

text \<open>The reset work and \<open>sketh_set_rx_mode\<close> change nothing.\<close>

definition sketh_reset_task :: "sketh_adapter \<Rightarrow> sketh_adapter" where
  "sketh_reset_task ad = ad\<lparr>ad_resets := ad_resets ad - 1\<rparr>"

definition sketh_set_rx_mode :: "sketh_adapter \<Rightarrow> sketh_adapter" where
  "sketh_set_rx_mode ad = ad"

definition sketh_set_features :: "netif_feature list \<Rightarrow> sketh_adapter \<Rightarrow> int \<times> sketh_adapter" where
  "sketh_set_features fs ad = (0, ad)"

section \<open>Interrupts\<close>

text \<open>
  The loop of \<open>sketh_request_irqs\<close> at queue \<open>i\<close>, \<open>k\<close> queues left; on an error the handlers of the
  queues before are freed, the last first. A handler is registered for a vector and a ring.
\<close>

fun unwind_irqs :: "nat list \<Rightarrow> nat \<Rightarrow> (nat \<times> nat) list \<Rightarrow> (nat \<times> nat) list" where
  "unwind_irqs vs 0 hs = hs"
| "unwind_irqs vs (Suc i) hs = unwind_irqs vs i (remove1 (vs ! i, i) hs)"

fun request_loop ::
  "sketh_env \<Rightarrow> nat list \<Rightarrow> nat \<Rightarrow> nat \<Rightarrow> (nat \<times> nat) list \<Rightarrow> sketh_fault + int \<times> (nat \<times> nat) list" where
  "request_loop e vs 0 i hs = Inr (0, hs)"
| "request_loop e vs (Suc k) i hs =
     (if length vs \<le> i then Inl Outside_ring
      else if se_irq e i \<noteq> 0 then Inr (se_irq e i, unwind_irqs vs i hs)
      else request_loop e vs k (i + 1) ((vs ! i, i) # hs))"

definition sketh_request_irqs :: "sketh_env \<Rightarrow> sketh_adapter \<Rightarrow> sketh_fault + int \<times> sketh_adapter" where
  "sketh_request_irqs e ad =
     (if ad_num_queues ad = 0 then Inr (0, ad)
      else case ad_msix_entries ad of None \<Rightarrow> Inl Null_pointer
      | Some vs \<Rightarrow> (case request_loop e vs (ad_num_queues ad) 0 (ad_irqs ad) of Inl f \<Rightarrow> Inl f
        | Inr (err, hs) \<Rightarrow> Inr (err, ad\<lparr>ad_irqs := hs\<rparr>)))"

text \<open>A vector 0 counts as not set.\<close>

definition free_irq_of :: "nat list \<Rightarrow> nat \<Rightarrow> (nat \<times> nat) list \<Rightarrow> (nat \<times> nat) list" where
  "free_irq_of vs i hs = (if vs ! i \<noteq> 0 then remove1 (vs ! i, i) hs else hs)"

definition sketh_free_irqs :: "sketh_adapter \<Rightarrow> sketh_fault + sketh_adapter" where
  "sketh_free_irqs ad = (case ad_msix_entries ad of None \<Rightarrow> Inr ad
     | Some vs \<Rightarrow>
         if length vs < ad_num_queues ad then Inl Outside_ring
         else Inr (ad\<lparr>ad_irqs := fold (free_irq_of vs) [0..<ad_num_queues ad] (ad_irqs ad),
           ad_msix_entries := None\<rparr>))"

text \<open>\<open>sketh_msix_ring\<close> schedules the poll of its ring; here that is returning it. \<open>sketh_msix_mbx\<close>
  does nothing.\<close>

definition sketh_msix_ring :: "nat \<Rightarrow> nat option" where
  "sketh_msix_ring q = Some q"

definition sketh_msix_mbx :: "nat option" where
  "sketh_msix_mbx = None"

section \<open>Memory of the rings\<close>

text \<open>Whether \<open>vzalloc\<close> succeeds, and the result of \<open>dma_alloc_coherent\<close>: nothing, or memory whose bus
  address is 0 or not. No call of these two functions is in the driver.\<close>

definition empty_rx_buffer :: sketh_rx_buffer where
  "empty_rx_buffer = \<lparr>rb_skb = None, rb_dma = False\<rparr>"

definition empty_tx_desc :: sketh_tx_desc where
  "empty_tx_desc = \<lparr>td_skb = 0, td_length = 0, td_cmd = 0\<rparr>"

definition setup_resources ::
  "'b \<Rightarrow> bool \<Rightarrow> bool option \<Rightarrow> 'b sketh_ring \<Rightarrow> int \<times> 'b sketh_ring" where
  "setup_resources blank buf_ok desc r =
     (if \<not> buf_ok then (- ENOMEM, r\<lparr>rg_buffer := None\<rparr>)
      else case desc of None \<Rightarrow> (- ENOMEM, r\<lparr>rg_buffer := None, rg_desc := None\<rparr>)
      | Some nz \<Rightarrow> (0, r\<lparr>rg_buffer := Some (replicate (rg_count r) blank),
          rg_desc := Some (replicate (rg_count r) empty_tx_desc), rg_desc_dma := nz,
          rg_next_to_clean := 0, rg_next_to_use := 0\<rparr>))"

definition sketh_setup_rx_resources ::
  "bool \<Rightarrow> bool option \<Rightarrow> sketh_rx_buffer sketh_ring \<Rightarrow> int \<times> sketh_rx_buffer sketh_ring" where
  "sketh_setup_rx_resources = setup_resources empty_rx_buffer"

definition sketh_setup_tx_resources ::
  "bool \<Rightarrow> bool option \<Rightarrow> sketh_tx_buffer sketh_ring \<Rightarrow> int \<times> sketh_tx_buffer sketh_ring" where
  "sketh_setup_tx_resources = setup_resources empty_tx_buffer"

definition free_resources :: "'b sketh_ring \<Rightarrow> 'b sketh_ring" where
  "free_resources r = (let r1 = r\<lparr>rg_buffer := None\<rparr> in
     if rg_desc r1 \<noteq> None \<and> rg_desc_dma r1 then r1\<lparr>rg_desc := None, rg_desc_dma := False\<rparr> else r1)"

definition sketh_free_rx_resources :: "sketh_rx_buffer sketh_ring \<Rightarrow> sketh_rx_buffer sketh_ring" where
  "sketh_free_rx_resources = free_resources"

definition sketh_free_tx_resources :: "sketh_tx_buffer sketh_ring \<Rightarrow> sketh_tx_buffer sketh_ring" where
  "sketh_free_tx_resources = free_resources"

section \<open>Opening and stopping\<close>

definition napi_rx :: "bool \<Rightarrow> nat \<Rightarrow> sketh_adapter \<Rightarrow> (sketh_fault + sketh_adapter) option" where
  "napi_rx on q ad = Some (case ring_at (ad_rx_ring ad) q of Inl f \<Rightarrow> Inl f
     | Inr r \<Rightarrow> Inr (put_rx q (r\<lparr>rg_napi_on := on\<rparr>) ad))"

definition sketh_open :: "sketh_env \<Rightarrow> sketh_adapter \<Rightarrow> (sketh_fault + int \<times> sketh_adapter) option" where
  "sketh_open e ad =
     (if ad_down ad then Some (Inr (- EBUSY, ad))
      else case sketh_request_irqs e ad of Inl f \<Rightarrow> Some (Inl f)
      | Inr (err, ad1) \<Rightarrow>
          if err \<noteq> 0 then Some (Inr (err, ad1))
          else (case sketh_configure e ad1 of None \<Rightarrow> None
            | Some (Inl f) \<Rightarrow> Some (Inl f)
            | Some (Inr ad2) \<Rightarrow>
                (case each_queue (napi_rx True) [0..<ad_num_queues ad2] ad2 of None \<Rightarrow> None
                 | Some (Inl f) \<Rightarrow> Some (Inl f)
                 | Some (Inr ad3) \<Rightarrow>
                     Some (Inr (0, ad3\<lparr>ad_down := False, ad_queues_stopped := False\<rparr>)))))"

definition free_queue_memory :: "nat \<Rightarrow> sketh_adapter \<Rightarrow> (sketh_fault + sketh_adapter) option" where
  "free_queue_memory q ad = Some (case ring_at (ad_tx_ring ad) q of Inl f \<Rightarrow> Inl f
     | Inr t \<Rightarrow> (case ring_at (ad_rx_ring ad) q of Inl f \<Rightarrow> Inl f
       | Inr r \<Rightarrow>
           let ad1 = (if rg_desc t \<noteq> None then put_tx q (sketh_free_tx_resources t) ad else ad)
           in Inr (if rg_desc r \<noteq> None then put_rx q (sketh_free_rx_resources r) ad1 else ad1)))"

definition sketh_stop :: "sketh_adapter \<Rightarrow> (sketh_fault + int \<times> sketh_adapter) option" where
  "sketh_stop ad =
     (let ad0 = ad\<lparr>ad_down := True, ad_queues_stopped := True\<rparr> in
      case each_queue (napi_rx False) [0..<ad_num_queues ad0] ad0 of None \<Rightarrow> None
      | Some (Inl f) \<Rightarrow> Some (Inl f)
      | Some (Inr ad1) \<Rightarrow> (case sketh_free_irqs ad1 of Inl f \<Rightarrow> Some (Inl f)
        | Inr ad2 \<Rightarrow> (case each_queue free_queue_memory [0..<ad_num_queues ad2] ad2 of None \<Rightarrow> None
          | Some (Inl f) \<Rightarrow> Some (Inl f)
          | Some (Inr ad3) \<Rightarrow> Some (Inr (0, ad3)))))"

section \<open>XDP program, offload, statistics\<close>

definition sketh_xdp_setup_prog :: "nat option \<Rightarrow> sketh_adapter \<Rightarrow> int \<times> sketh_adapter" where
  "sketh_xdp_setup_prog prog ad = (case prog of None \<Rightarrow> (0, ad)
     | Some p \<Rightarrow> (0, ad\<lparr>ad_xdp_prog := Some p,
         ad_prog_puts := (case ad_xdp_prog ad of None \<Rightarrow> ad_prog_puts ad
           | Some old \<Rightarrow> ad_prog_puts ad @ [old])\<rparr>))"

text \<open>A tracked connection is \<open>Some\<close> of whether its offload bit is set.\<close>

definition sketh_netfilter_offload :: "sketh_adapter \<Rightarrow> bool option \<Rightarrow> int" where
  "sketh_netfilter_offload ad conn = (if conn = None then - EINVAL
     else if \<not> ad_hw_accel ad then - EOPNOTSUPP else 0)"

definition sketh_hw_offload_enable :: "sketh_adapter \<Rightarrow> int \<times> sketh_adapter" where
  "sketh_hw_offload_enable ad = (0, ad\<lparr>ad_hw_accel := True\<rparr>)"

definition sketh_hw_offload_disable :: "sketh_adapter \<Rightarrow> int \<times> sketh_adapter" where
  "sketh_hw_offload_disable ad = (0, ad\<lparr>ad_hw_accel := False\<rparr>)"

definition sketh_hw_flow_table_create :: "sketh_adapter \<Rightarrow> u32 \<Rightarrow> int \<times> sketh_adapter" where
  "sketh_hw_flow_table_create ad table_size = (0, ad)"

definition sketh_hw_flow_table_destroy :: "sketh_adapter \<Rightarrow> int \<times> sketh_adapter" where
  "sketh_hw_flow_table_destroy ad = (0, ad)"

datatype nf_verdict = NF_ACCEPT | NF_STOLEN

definition sketh_nf_in :: "sketh_adapter option \<Rightarrow> bool option \<Rightarrow> nf_verdict" where
  "sketh_nf_in priv ct = (case priv of None \<Rightarrow> NF_ACCEPT
     | Some ad \<Rightarrow> (case ct of None \<Rightarrow> NF_ACCEPT
       | Some offloaded \<Rightarrow>
           if \<not> offloaded then NF_ACCEPT
           else if sketh_netfilter_offload ad ct = 0 then NF_STOLEN else NF_ACCEPT))"

record sketh_stats64 =
  s64_rx_packets :: u64
  s64_rx_bytes :: u64
  s64_tx_packets :: u64
  s64_tx_bytes :: u64
  s64_rx_errors :: u64
  s64_tx_errors :: u64
  s64_rx_dropped :: u64
  s64_tx_dropped :: u64

text \<open>The error counters of the device are only ever set to 0.\<close>

definition sketh_update_stats :: "sketh_adapter \<Rightarrow> sketh_adapter" where
  "sketh_update_stats ad = ad\<lparr>st_rx_dropped := ad_rx_drops ad, st_tx_dropped := ad_tx_dropped ad\<rparr>"

definition sketh_get_stats64 :: "sketh_adapter \<Rightarrow> sketh_stats64 \<times> sketh_adapter" where
  "sketh_get_stats64 ad = (let ad1 = sketh_update_stats ad in
     (\<lparr>s64_rx_packets = st_rx_packets ad1, s64_rx_bytes = st_rx_bytes ad1,
       s64_tx_packets = st_tx_packets ad1, s64_tx_bytes = st_tx_bytes ad1,
       s64_rx_errors = 0, s64_tx_errors = 0,
       s64_rx_dropped = st_rx_dropped ad1, s64_tx_dropped = st_tx_dropped ad1\<rparr>, ad1))"

definition sketh_get_link :: "sketh_adapter \<Rightarrow> u32" where
  "sketh_get_link ad = 1"

section \<open>Suspending and resuming\<close>

definition sketh_platform_suspend :: "sketh_adapter \<Rightarrow> (sketh_fault + int \<times> sketh_adapter) option" where
  "sketh_platform_suspend ad = (let ad1 = ad\<lparr>nd_attached := False\<rparr> in
     if nd_running ad1 then (case sketh_stop ad1 of None \<Rightarrow> None | Some (Inl f) \<Rightarrow> Some (Inl f)
       | Some (Inr (_, ad2)) \<Rightarrow> Some (Inr (0, ad2)))
     else Some (Inr (0, ad1)))"

definition sketh_platform_resume ::
  "sketh_env \<Rightarrow> sketh_adapter \<Rightarrow> (sketh_fault + int \<times> sketh_adapter) option" where
  "sketh_platform_resume e ad =
     (if nd_running ad then (case sketh_open e ad of None \<Rightarrow> None | Some (Inl f) \<Rightarrow> Some (Inl f)
       | Some (Inr (err, ad1)) \<Rightarrow>
           Some (Inr (if err \<noteq> 0 then (err, ad1) else (0, ad1\<lparr>nd_attached := True\<rparr>))))
     else Some (Inr (0, ad\<lparr>nd_attached := True\<rparr>)))"

section \<open>Binding\<close>

text \<open>
  What the kernel answers while the driver binds, the two module parameters among it. \<open>num_queues\<close>
  is an \<open>int\<close>: for 0 or less \<open>vzalloc\<close> fails whatever memory there is.
\<close>

record sketh_probe_env =
  pe_enable :: int
  pe_regions :: int
  pe_netdev :: bool
  pe_rx_ring :: bool
  pe_tx_ring :: bool
  pe_msix :: bool
  pe_res :: bool
  pe_ioremap :: int
  pe_register :: int
  pe_hook :: int
  pe_num_queues :: int
  pe_mtu :: int

text \<open>
  \<open>sh_netdev\<close> counts the network devices allocated; \<open>sh_leaked\<close> is the memory the driver still owned
  when it freed the device that held the last pointer to it.
\<close>

datatype sketh_mem = Mem_rx_ring | Mem_tx_ring | Mem_msix

record sketh_host =
  sh_enabled :: bool
  sh_regions :: bool
  sh_netdev :: nat
  sh_registered :: bool
  sh_hook :: bool
  sh_mapped :: bool
  sh_drvdata :: "sketh_adapter option"
  sh_leaked :: "sketh_mem list"

definition SKETH_MAX_NUM_QUEUES :: int where "SKETH_MAX_NUM_QUEUES = 16"
definition SKETH_RX_MAX_DESC :: nat where "SKETH_RX_MAX_DESC = 512"
definition SKETH_TX_MAX_DESC :: nat where "SKETH_TX_MAX_DESC = 512"

definition new_ring :: "nat \<Rightarrow> 'b sketh_ring" where
  "new_ring n = \<lparr>rg_count = n, rg_next_to_use = 0, rg_next_to_clean = 0, rg_buffer = None, rg_desc = None,
     rg_desc_dma = False, rg_xdp_enabled = False, rg_napi_on = False\<rparr>"

definition sketh_alloc_queues :: "sketh_probe_env \<Rightarrow> int \<Rightarrow> sketh_adapter \<Rightarrow> int \<times> sketh_adapter" where
  "sketh_alloc_queues pe n ad =
     (let ad1 = ad\<lparr>
        ad_rx_ring := (if 0 < n \<and> pe_rx_ring pe then Some (replicate (nat n) (new_ring SKETH_RX_MAX_DESC)) else None),
        ad_tx_ring := (if 0 < n \<and> pe_tx_ring pe then Some (replicate (nat n) (new_ring SKETH_TX_MAX_DESC)) else None),
        ad_num_queues := nat n\<rparr>
      in (if ad_rx_ring ad1 = None \<or> ad_tx_ring ad1 = None then - ENOMEM else 0, ad1))"

definition sketh_free_queues :: "sketh_adapter \<Rightarrow> sketh_adapter" where
  "sketh_free_queues ad = ad\<lparr>ad_rx_ring := None, ad_tx_ring := None\<rparr>"

text \<open>The private area of a network device comes zeroed.\<close>

definition new_adapter :: sketh_adapter where
  "new_adapter = \<lparr>ad_rx_ring = None, ad_tx_ring = None, ad_num_queues = 0, ad_mtu = 1500, ad_down = False,
     ad_msix_entries = None, ad_irqs = [], ad_xdp_prog = None, ad_prog_puts = [], ad_hw_accel = False,
     ad_registered = False, ad_rx_drops = 0, ad_tx_dropped = 0, ad_xdp_tx = 0, ad_xdp_drops = 0,
     ad_xdp_redirect = 0, ad_tx_restart = 0, ad_rx_polls = 0, ad_tx_timeouts = 0, st_rx_packets = 0,
     st_rx_bytes = 0, st_tx_packets = 0, st_tx_bytes = 0, st_rx_dropped = 0, st_tx_dropped = 0,
     ad_freed = [], ad_up = [], ad_next_skb = 0, ad_resets = 0, ad_irq_on = 0, ad_queues_stopped = False,
     ad_hw_addr = False, nd_dev_addr = replicate 6 0, nd_features = [], nd_hw_features = [],
     nd_vlan_features = [], nd_running = False, nd_attached = True\<rparr>"

definition owned_memory :: "sketh_adapter \<Rightarrow> sketh_mem list" where
  "owned_memory ad = (if ad_rx_ring ad \<noteq> None then [Mem_rx_ring] else []) @
     (if ad_tx_ring ad \<noteq> None then [Mem_tx_ring] else []) @
     (if ad_msix_entries ad \<noteq> None then [Mem_msix] else [])"

definition free_netdev :: "sketh_adapter \<Rightarrow> sketh_host \<Rightarrow> sketh_host" where
  "free_netdev ad h = h\<lparr>sh_netdev := sh_netdev h - 1, sh_leaked := sh_leaked h @ owned_memory ad\<rparr>"

definition clamp_queues :: "int \<Rightarrow> int" where
  "clamp_queues n = (if SKETH_MAX_NUM_QUEUES < n then SKETH_MAX_NUM_QUEUES else n)"

text \<open>What both probe functions set before they configure; the size is stored without a check.\<close>

definition init_netdev :: "sketh_probe_env \<Rightarrow> sketh_adapter \<Rightarrow> sketh_adapter" where
  "init_netdev pe ad = set_all_features (ad\<lparr>ad_mtu := unat (word_of_int (pe_mtu pe) :: u32)\<rparr>)"

text \<open>The end of both: registration, and the netfilter hook, whose failure is only logged.\<close>

definition register_device :: "sketh_probe_env \<Rightarrow> sketh_adapter \<Rightarrow> sketh_host \<Rightarrow> sketh_host" where
  "register_device pe ad h = h\<lparr>sh_registered := True, sh_hook := (pe_hook pe = 0),
     sh_drvdata := Some (ad\<lparr>ad_registered := True\<rparr>)\<rparr>"

definition pci_release :: "sketh_host \<Rightarrow> sketh_host" where
  "pci_release h = h\<lparr>sh_regions := False, sh_enabled := False\<rparr>"

definition sketh_probe ::
  "sketh_probe_env \<Rightarrow> sketh_env \<Rightarrow> sketh_host \<Rightarrow> (sketh_fault + int \<times> sketh_host) option" where
  "sketh_probe pe e h =
     (if pe_enable pe \<noteq> 0 then Some (Inr (pe_enable pe, h))
      else if pe_regions pe \<noteq> 0 then Some (Inr (pe_regions pe, h))
      else
        let h1 = h\<lparr>sh_enabled := True, sh_regions := True\<rparr> in
        if \<not> pe_netdev pe then Some (Inr (- ENOMEM, pci_release h1))
        else
          let h2 = h1\<lparr>sh_netdev := sh_netdev h1 + 1\<rparr> in
          (case sketh_alloc_queues pe (clamp_queues (pe_num_queues pe)) new_adapter of (err, ad) \<Rightarrow>
             if err \<noteq> 0 then Some (Inr (err, pci_release (free_netdev ad h2)))
             else if \<not> pe_msix pe
             then Some (Inr (- ENOMEM, pci_release (free_netdev (sketh_free_queues ad) h2)))
             else
               (case sketh_configure e (init_netdev pe
                    (ad\<lparr>ad_msix_entries := Some (replicate (ad_num_queues ad) 0)\<rparr>)) of
                  None \<Rightarrow> None
                | Some (Inl f) \<Rightarrow> Some (Inl f)
                | Some (Inr ad1) \<Rightarrow>
                    if pe_register pe \<noteq> 0
                    then Some (Inr (pe_register pe, pci_release
                      (free_netdev (sketh_free_queues (ad1\<lparr>ad_msix_entries := None\<rparr>)) h2)))
                    else Some (Inr (0, register_device pe ad1 h2)))))"

definition put_prog :: "sketh_adapter \<Rightarrow> sketh_adapter" where
  "put_prog ad = (case ad_xdp_prog ad of None \<Rightarrow> ad
     | Some p \<Rightarrow> ad\<lparr>ad_xdp_prog := None, ad_prog_puts := ad_prog_puts ad @ [p]\<rparr>)"

text \<open>Unregistering a network device that is up closes it first.\<close>

definition unregister_device ::
  "sketh_adapter \<Rightarrow> sketh_host \<Rightarrow> (sketh_fault + sketh_adapter \<times> sketh_host) option" where
  "unregister_device ad h =
     (if \<not> ad_registered ad then Some (Inr (ad, h))
      else
        let h1 = h\<lparr>sh_hook := False, sh_registered := False\<rparr> in
        if \<not> nd_running ad then Some (Inr (ad, h1))
        else (case sketh_stop ad of None \<Rightarrow> None | Some (Inl f) \<Rightarrow> Some (Inl f)
          | Some (Inr (_, ad1)) \<Rightarrow> Some (Inr (ad1\<lparr>nd_running := False\<rparr>, h1))))"

definition sketh_remove :: "sketh_adapter \<Rightarrow> sketh_host \<Rightarrow> (sketh_fault + sketh_host) option" where
  "sketh_remove ad h = (case unregister_device ad h of None \<Rightarrow> None | Some (Inl f) \<Rightarrow> Some (Inl f)
     | Some (Inr (ad1, h1)) \<Rightarrow>
         let ad2 = (put_prog (sketh_free_queues ad1))\<lparr>ad_msix_entries := None\<rparr> in
         Some (Inr (pci_release (free_netdev ad2 (h1\<lparr>sh_drvdata := None\<rparr>)))))"

definition sketh_get_resources ::
  "sketh_probe_env \<Rightarrow> sketh_adapter \<Rightarrow> sketh_host \<Rightarrow> int \<times> sketh_adapter \<times> sketh_host" where
  "sketh_get_resources pe ad h = (if \<not> pe_res pe then (- ENODEV, ad, h)
     else if pe_ioremap pe < 0 then (pe_ioremap pe, ad\<lparr>ad_hw_addr := True\<rparr>, h)
     else (0, ad\<lparr>ad_hw_addr := True\<rparr>, h\<lparr>sh_mapped := True\<rparr>))"

definition sketh_put_resources :: "sketh_adapter \<Rightarrow> sketh_host \<Rightarrow> sketh_host" where
  "sketh_put_resources ad h = (if ad_hw_addr ad then h\<lparr>sh_mapped := False\<rparr> else h)"

definition sketh_platform_probe ::
  "sketh_probe_env \<Rightarrow> sketh_env \<Rightarrow> sketh_host \<Rightarrow> (sketh_fault + int \<times> sketh_host) option" where
  "sketh_platform_probe pe e h =
     (if \<not> pe_netdev pe then Some (Inr (- ENOMEM, h))
      else
        let h1 = h\<lparr>sh_netdev := sh_netdev h + 1\<rparr> in
        (case sketh_alloc_queues pe (clamp_queues (pe_num_queues pe)) new_adapter of (err, ad) \<Rightarrow>
           if err \<noteq> 0 then Some (Inr (err, free_netdev ad h1))
           else (case sketh_get_resources pe ad h1 of (err, ad1, h2) \<Rightarrow>
             if err \<noteq> 0 then Some (Inr (err, free_netdev (sketh_free_queues ad1) h2))
             else (case sketh_configure e (init_netdev pe ad1) of
                 None \<Rightarrow> None
               | Some (Inl f) \<Rightarrow> Some (Inl f)
               | Some (Inr ad2) \<Rightarrow>
                   if pe_register pe \<noteq> 0
                   then Some (Inr (pe_register pe,
                     free_netdev (sketh_free_queues ad2) (sketh_put_resources ad2 h2)))
                   else Some (Inr (0, register_device pe ad2 h2))))))"

definition sketh_platform_remove :: "sketh_adapter \<Rightarrow> sketh_host \<Rightarrow> (sketh_fault + sketh_host) option" where
  "sketh_platform_remove ad h = (case unregister_device ad h of None \<Rightarrow> None | Some (Inl f) \<Rightarrow> Some (Inl f)
     | Some (Inr (ad1, h1)) \<Rightarrow>
         Some (Inr (free_netdev (put_prog (sketh_free_queues ad1))
           (sketh_put_resources ad1 (h1\<lparr>sh_drvdata := None\<rparr>)))))"

text \<open>Module initialisation: what the two registrations return; which drivers are registered then.\<close>

definition sketh_init_module :: "int \<Rightarrow> int \<Rightarrow> int \<times> bool \<times> bool" where
  "sketh_init_module pci plat = (if pci < 0 then (pci, False, False)
     else if plat < 0 then (plat, False, False) else (0, True, True))"

definition sketh_cleanup_module :: "bool \<times> bool \<Rightarrow> bool \<times> bool" where
  "sketh_cleanup_module = (\<lambda>(pci, plat). (False, False))"

text \<open>
  \<open>modules/sketh_pci/sketh.c\<close> is the same file without the platform binding, the two resource functions
  and the platform driver; its initialisation registers the PCI driver alone.
\<close>

definition sketh_pci_init_module :: "int \<Rightarrow> int \<times> bool" where
  "sketh_pci_init_module pci = (pci, pci = 0)"

definition sketh_pci_cleanup_module :: "bool \<Rightarrow> bool" where
  "sketh_pci_cleanup_module pci = False"

end
