(* ===== verification/Sketh_Inv.thy ===== *)
theory Sketh_Inv
  imports Sketh_Dev "HOL-Library.Multiset"
begin

text \<open>
  Rings as queues: the index functions are arithmetic modulo the ring size, \<open>rx_holds\<close> relates a
  receive ring to the list of skbs posted on it, and one lemma per operation says what it does to
  that list. The calls on a bound device are collected in \<open>sketh_exec\<close>.
\<close>

section \<open>Indices\<close>

text \<open>The sizes for which the index functions work: the powers of two that 16 bits can count.\<close>

definition ring_size :: "nat \<Rightarrow> bool" where
  "ring_size n \<longleftrightarrow> n \<in> set (map (\<lambda>k. 2 ^ k) [0..<17])"

lemma ring_sizeE:
  assumes "ring_size n" obtains k where "k \<le> 16" "n = 2 ^ k"
  using assms by (auto simp: ring_size_def)

lemma ring_size_pos: "ring_size n \<Longrightarrow> 0 < n"
  by (auto simp: ring_size_def)

lemma ring_size_512 [simp]: "ring_size 512"
  using imageI [of 9 "set [0..<17]" "\<lambda>k. 2 ^ k :: nat"] by (simp add: ring_size_def)

lemma unat_and_mask16: "unat ((w :: u16) AND (2 ^ k - 1)) = unat w mod 2 ^ k"
proof -
  have "w AND (2 ^ k - 1) = take_bit k w"
    by (simp add: take_bit_eq_mask mask_eq_exp_minus_1)
  moreover have "unat (take_bit k w) = unat w mod 2 ^ k"
    by (subst unsigned_take_bit_eq) (rule take_bit_eq_mod)
  ultimately show ?thesis by simp
qed

lemma mod_u16_mod: "k \<le> 16 \<Longrightarrow> m mod 65536 mod 2 ^ k = m mod (2 ^ k :: nat)"
proof -
  assume "k \<le> 16"
  then have "(2 ^ k :: nat) dvd 2 ^ 16" by (rule le_imp_power_dvd)
  then show ?thesis by (simp add: mod_mod_cancel)
qed

lemma ring_next_mod:
  assumes "ring_size n" shows "ring_next i n = Suc i mod n"
proof -
  obtain k where k: "k \<le> 16" "n = 2 ^ k" using assms by (rule ring_sizeE)
  have "next_to_use (word_of_nat i) (word_of_nat n) = word_of_nat (Suc i) AND (2 ^ k - 1)"
    by (simp add: next_to_use_def k(2) add.commute)
  then show ?thesis
    using k by (simp add: ring_next_def unat_and_mask16 unat_of_nat mod_u16_mod del: of_nat_Suc)
qed

section \<open>Rotations\<close>

lemma add_mod_inj:
  assumes "(m + j) mod n = (m + k) mod n" "j < n" "k < (n::nat)"
  shows "j = k"
  using assms
proof (induction j k rule: linorder_wlog)
  case (le j k)
  then have "n dvd (m + k) - (m + j)"
    by (metis add_le_cancel_left mod_eq_dvd_iff_nat)
  then have "n dvd k - j" by simp
  then show ?case using le by (metis diff_is_0_eq' dvd_imp_le le_antisym less_imp_diff_less not_less zero_less_diff)
next
  case (sym j k)
  then show ?case by metis
qed

lemma rotate_update:
  assumes "k < length bs"
  shows "rotate m (bs[(m + k) mod length bs := b]) = (rotate m bs)[k := b]"
proof (rule nth_equalityI)
  fix j assume "j < length (rotate m (bs[(m + k) mod length bs := b]))"
  then have j: "j < length bs" by simp
  have "bs \<noteq> []" using assms by auto
  then have l: "(m + k) mod length bs < length bs" by simp
  have "(m + j) mod length bs = (m + k) mod length bs \<longleftrightarrow> j = k"
    using j assms by (metis add_mod_inj)
  then show "rotate m (bs[(m + k) mod length bs := b]) ! j = (rotate m bs)[k := b] ! j"
    using j assms l by (auto simp: nth_rotate nth_list_update)
qed simp

lemma rotate_Suc_mod: "rotate (Suc m mod length bs) bs = rotate1 (rotate m bs)"
  by (metis rotate_Suc rotate_conv_mod)

section \<open>A receive ring as a queue\<close>

text \<open>
  The posted skbs are those from \<open>next_to_clean\<close> to \<open>next_to_use\<close>, in ring order; all other slots are
  empty. Equal indices mean an empty or a full ring.
\<close>

definition rx_holds :: "sketh_rx_buffer sketh_ring \<Rightarrow> (nat \<times> nat) list \<Rightarrow> bool" where
  "rx_holds r xs \<longleftrightarrow> ring_size (rg_count r) \<and> rg_next_to_clean r < rg_count r \<and>
     length xs \<le> rg_count r \<and> rg_next_to_use r = (rg_next_to_clean r + length xs) mod rg_count r \<and>
     (case rg_buffer r of None \<Rightarrow> False | Some bs \<Rightarrow> length bs = rg_count r \<and>
        map rb_skb (rotate (rg_next_to_clean r) bs) =
          map Some xs @ replicate (rg_count r - length xs) None)"

lemma rx_holdsE:
  assumes "rx_holds r xs"
  obtains bs where "rg_buffer r = Some bs" "length bs = rg_count r" "ring_size (rg_count r)"
    "rg_next_to_clean r < rg_count r" "length xs \<le> rg_count r"
    "rg_next_to_use r = (rg_next_to_clean r + length xs) mod rg_count r"
    "map rb_skb (rotate (rg_next_to_clean r) bs) = map Some xs @ replicate (rg_count r - length xs) None"
  using assms by (auto simp: rx_holds_def split: option.splits)

lemma rx_holds_slot:
  assumes "rx_holds r xs" "rg_buffer r = Some bs" "j < rg_count r"
  shows "rb_skb (bs ! ((rg_next_to_clean r + j) mod rg_count r)) = (if j < length xs then Some (xs ! j) else None)"
proof -
  have l: "length bs = rg_count r"
    and m: "map rb_skb (rotate (rg_next_to_clean r) bs) = map Some xs @ replicate (rg_count r - length xs) None"
    using assms(1,2) by (auto simp: rx_holds_def)
  have "rb_skb (bs ! ((rg_next_to_clean r + j) mod rg_count r)) = map rb_skb (rotate (rg_next_to_clean r) bs) ! j"
    using l assms(3) by (simp add: nth_rotate)
  also have "\<dots> = (if j < length xs then Some (xs ! j) else None)"
    unfolding m using assms(3) by (auto simp: nth_append)
  finally show ?thesis .
qed

lemma rx_holds_first:
  assumes "rx_holds r xs" "rg_buffer r = Some bs"
  shows "rg_next_to_clean r < length bs" "rb_skb (bs ! rg_next_to_clean r) = (case xs of [] \<Rightarrow> None | s # _ \<Rightarrow> Some s)"
proof -
  have n: "rg_next_to_clean r < rg_count r" "length bs = rg_count r"
    using assms by (auto simp: rx_holds_def)
  then show "rg_next_to_clean r < length bs" by simp
  show "rb_skb (bs ! rg_next_to_clean r) = (case xs of [] \<Rightarrow> None | s # _ \<Rightarrow> Some s)"
    using rx_holds_slot [OF assms, of 0] n by (cases xs) auto
qed

lemma rx_holds_pop:
  assumes h: "rx_holds r (s # xs)" and b: "rg_buffer r = Some bs" and e: "rb_skb b = None"
  shows "rx_holds (r\<lparr>rg_buffer := Some (bs[rg_next_to_clean r := b]),
    rg_next_to_clean := ring_next (rg_next_to_clean r) (rg_count r)\<rparr>) xs"
proof -
  let ?n = "rg_count r" and ?i = "rg_next_to_clean r"
  have p: "length bs = ?n" "ring_size ?n" "?i < ?n" "length xs < ?n"
      "rg_next_to_use r = (?i + Suc (length xs)) mod ?n"
    and m: "map rb_skb (rotate ?i bs) = Some s # map Some xs @ replicate (?n - Suc (length xs)) None"
    using h b by (auto simp: rx_holds_def)
  have rep: "replicate (?n - Suc (length xs)) None @ [None] = replicate (?n - length xs) None"
    using p(4) by (metis Suc_diff_Suc replicate_Suc replicate_append_same)
  have u: "rotate ?i (bs[?i := b]) = (rotate ?i bs)[0 := b]"
    using rotate_update [of 0 bs ?i b] p by simp
  then have "rotate (Suc ?i mod ?n) (bs[?i := b]) = rotate1 ((rotate ?i bs)[0 := b])"
    using rotate_Suc_mod [of ?i "bs[?i := b]"] p(1) by simp
  then have "map rb_skb (rotate (Suc ?i mod ?n) (bs[?i := b])) = rotate1 ((map rb_skb (rotate ?i bs))[0 := None])"
    using e by (simp add: rotate1_map [symmetric] map_update del: rotate1_map)
  then show ?thesis
    using p unfolding m by (simp add: rx_holds_def ring_next_mod rep mod_simps)
qed

lemma rx_holds_post:
  assumes h: "rx_holds (r\<lparr>rg_next_to_use := i\<rparr>) xs" and b: "rg_buffer r = Some bs" and s: "rb_skb b = Some s"
    and l: "length xs < rg_count r"
  shows "rx_holds (r\<lparr>rg_buffer := Some (bs[i := b]), rg_next_to_use := ring_next i (rg_count r)\<rparr>) (xs @ [s])"
proof -
  let ?n = "rg_count r" and ?c = "rg_next_to_clean r"
  have p: "length bs = ?n" "ring_size ?n" "?c < ?n" "i = (?c + length xs) mod ?n"
    and m: "map rb_skb (rotate ?c bs) = map Some xs @ replicate (?n - length xs) None"
    using h b by (auto simp: rx_holds_def)
  have "rotate ?c (bs[i := b]) = (rotate ?c bs)[length xs := b]"
    using rotate_update [of "length xs" bs ?c b] p l by simp
  then have "map rb_skb (rotate ?c (bs[i := b])) = (map Some xs @ replicate (?n - length xs) None)[length xs := Some s]"
    using s by (simp add: map_update m)
  also have "\<dots> = map Some (xs @ [s]) @ replicate (?n - length (xs @ [s])) None"
    using l by (simp add: list_update_append Suc_diff_Suc [symmetric])
  finally show ?thesis
    using p l by (simp add: rx_holds_def ring_next_mod mod_simps)
qed

lemma rx_holds_unmapped:
  assumes h: "rx_holds (r\<lparr>rg_next_to_use := i\<rparr>) xs" and b: "rg_buffer r = Some bs" and s: "rb_skb b = None"
    and l: "length xs < rg_count r"
  shows "rx_holds (r\<lparr>rg_buffer := Some (bs[i := b]), rg_next_to_use := i\<rparr>) xs"
proof -
  let ?n = "rg_count r" and ?c = "rg_next_to_clean r"
  have p: "length bs = ?n" "ring_size ?n" "?c < ?n" "i = (?c + length xs) mod ?n"
    and m: "map rb_skb (rotate ?c bs) = map Some xs @ replicate (?n - length xs) None"
    using h b by (auto simp: rx_holds_def)
  have "rotate ?c (bs[i := b]) = (rotate ?c bs)[length xs := b]"
    using rotate_update [of "length xs" bs ?c b] p l by simp
  then have "map rb_skb (rotate ?c (bs[i := b])) = (map Some xs @ replicate (?n - length xs) None)[length xs := None]"
    using s by (simp add: map_update m)
  also have "\<dots> = map Some xs @ replicate (?n - length xs) None"
    using l by (simp add: list_update_append list_update_same_conv Suc_diff_Suc [symmetric])
  finally show ?thesis
    using p l by (simp add: rx_holds_def)
qed

section \<open>Filling\<close>

text \<open>
  What a loop that posts skbs leaves: the new skbs are numbered from the old counter on, have the
  room asked for, and every number taken is either posted or freed.
\<close>

definition posts :: "sketh_env \<Rightarrow> sketh_adapter \<Rightarrow> sketh_adapter \<Rightarrow> (nat \<times> nat) list \<Rightarrow> bool" where
  "posts e ad ad' new \<longleftrightarrow>
     (\<exists>k fr dr. ad' = ad\<lparr>ad_next_skb := ad_next_skb ad + k, ad_freed := ad_freed ad @ fr, ad_rx_drops := dr\<rparr> \<and>
        mset (map fst new) + mset fr = mset [ad_next_skb ad..<ad_next_skb ad + k]) \<and>
     (\<forall>s\<in>set new. snd s = se_room e (rx_buf_len ad))"

lemma posts_none: "posts e ad (ad\<lparr>ad_rx_drops := dr\<rparr>) []"
proof -
  have "ad\<lparr>ad_rx_drops := dr\<rparr> = ad\<lparr>ad_next_skb := ad_next_skb ad + 0, ad_freed := ad_freed ad @ [], ad_rx_drops := dr\<rparr>"
    by simp
  then show ?thesis unfolding posts_def
    by (intro conjI exI [of _ 0] exI [of _ "[]"] exI [of _ dr]) simp_all
qed

lemma posts_refl: "posts e ad ad []"
  using posts_none [of e ad "ad_rx_drops ad"] by simp

lemma posts_freed:
  "posts e ad ((free_skb (ad_next_skb ad) (ad\<lparr>ad_next_skb := ad_next_skb ad + 1\<rparr>))\<lparr>ad_rx_drops := dr\<rparr>) []"
  unfolding posts_def free_skb_def
  by (intro conjI exI [of _ 1] exI [of _ "[ad_next_skb ad]"] exI [of _ dr]) simp_all

lemma posts_Cons:
  assumes "posts e (ad\<lparr>ad_next_skb := ad_next_skb ad + 1\<rparr>) ad' new"
  shows "posts e ad ad' ((ad_next_skb ad, se_room e (rx_buf_len ad)) # new)"
proof -
  let ?n = "ad_next_skb ad"
  obtain k fr dr where p: "ad' = ad\<lparr>ad_next_skb := ?n + 1 + k, ad_freed := ad_freed ad @ fr, ad_rx_drops := dr\<rparr>"
      "mset (map fst new) + mset fr = mset [?n + 1..<?n + 1 + k]"
      "\<forall>s\<in>set new. snd s = se_room e (rx_buf_len ad)"
    using assms by (auto simp: posts_def rx_buf_len_def)
  have "[?n..<?n + Suc k] = ?n # [?n + 1..<?n + 1 + k]" by (simp add: upt_rec [of ?n])
  then have "mset (map fst ((?n, se_room e (rx_buf_len ad)) # new)) + mset fr = mset [?n..<?n + Suc k]"
    using p(2) by simp
  then show ?thesis using p(1,3) unfolding posts_def
    by (intro conjI exI [of _ "Suc k"] exI [of _ fr] exI [of _ dr]) simp_all
qed

lemma posts_fields:
  assumes "posts e ad ad' new"
  shows "ad_mtu ad' = ad_mtu ad" "ad_num_queues ad' = ad_num_queues ad" "ad_rx_ring ad' = ad_rx_ring ad"
    "ad_tx_ring ad' = ad_tx_ring ad" "ad_up ad' = ad_up ad" "ad_msix_entries ad' = ad_msix_entries ad"
    "ad_xdp_prog ad' = ad_xdp_prog ad" "ad_down ad' = ad_down ad" "ad_next_skb ad \<le> ad_next_skb ad'"
    "mset (ad_freed ad') + mset (map fst new) = mset (ad_freed ad) + mset [ad_next_skb ad..<ad_next_skb ad']"
proof -
  obtain k fr dr where p: "ad' = ad\<lparr>ad_next_skb := ad_next_skb ad + k, ad_freed := ad_freed ad @ fr, ad_rx_drops := dr\<rparr>"
      and m: "mset (map fst new) + mset fr = mset [ad_next_skb ad..<ad_next_skb ad + k]"
    using assms by (auto simp: posts_def)
  show "mset (ad_freed ad') + mset (map fst new) = mset (ad_freed ad) + mset [ad_next_skb ad..<ad_next_skb ad']"
    unfolding p using m by (simp add: ac_simps)
qed (use assms in \<open>auto simp: posts_def\<close>)

lemma alloc_rx_loop_posts:
  assumes "rx_holds (r\<lparr>rg_next_to_use := i\<rparr>) xs" "k + length xs \<le> rg_count r"
  shows "\<exists>i' r' ad' new. alloc_rx_loop e k i (r, ad) = Inr (i', r', ad') \<and>
    rx_holds (r'\<lparr>rg_next_to_use := i'\<rparr>) (xs @ new) \<and> length new \<le> k \<and> posts e ad ad' new \<and>
    ((\<forall>n. se_alloc e n \<and> se_map e n) \<longrightarrow> length new = k)"
  using assms
proof (induction k arbitrary: i r ad xs)
  case 0
  then show ?case using posts_refl by auto
next
  case (Suc k)
  let ?n = "ad_next_skb ad" and ?ad = "ad\<lparr>ad_next_skb := ad_next_skb ad + 1\<rparr>"
  obtain bs where b: "rg_buffer r = Some bs" "length bs = rg_count r"
      "i = (rg_next_to_clean r + length xs) mod rg_count r"
    using Suc.prems(1) by (auto elim: rx_holdsE)
  have l: "length xs < rg_count r" "i < length bs" using Suc.prems(2) b by auto
  show ?case
  proof (cases "se_alloc e ?n")
    case False
    then show ?thesis using Suc.prems(1) posts_none
      by (intro exI [of _ i] exI [of _ r] exI [of _ "ad\<lparr>ad_rx_drops := ad_rx_drops ad + 1\<rparr>"] exI [of _ "[]"]) auto
  next
    case al: True
    show ?thesis
    proof (cases "se_map e ?n")
      case False
      let ?r = "r\<lparr>rg_buffer := Some (bs[i := (bs ! i)\<lparr>rb_skb := None, rb_dma := True\<rparr>])\<rparr>"
      let ?a = "(free_skb ?n ?ad)\<lparr>ad_rx_drops := ad_rx_drops ?ad + 1\<rparr>"
      have "alloc_rx_loop e (Suc k) i (r, ad) = Inr (i, ?r, ?a)"
        using al False b(1) l(2) by (simp add: Let_def)
      moreover have "rx_holds (?r\<lparr>rg_next_to_use := i\<rparr>) (xs @ [])"
        using rx_holds_unmapped [OF Suc.prems(1) b(1), of "(bs ! i)\<lparr>rb_skb := None, rb_dma := True\<rparr>"] l by simp
      moreover have "posts e ad ?a []" by (rule posts_freed)
      moreover have "\<not> (\<forall>n. se_alloc e n \<and> se_map e n)" using False by blast
      ultimately show ?thesis
        by (metis list.size(3) le0)
    next
      case True
      let ?s = "(?n, se_room e (rx_buf_len ad))"
      let ?r = "r\<lparr>rg_buffer := Some (bs[i := \<lparr>rb_skb = Some ?s, rb_dma = True\<rparr>])\<rparr>"
      have h: "rx_holds (?r\<lparr>rg_next_to_use := ring_next i (rg_count r)\<rparr>) (xs @ [?s])"
        using rx_holds_post [OF Suc.prems(1) b(1), of "\<lparr>rb_skb = Some ?s, rb_dma = True\<rparr>" ?s] l by simp
      have rec: "alloc_rx_loop e (Suc k) i (r, ad) = alloc_rx_loop e k (ring_next i (rg_count r)) (?r, ?ad)"
        using al True b(1) l(2) by (simp add: Let_def rx_buf_len_def)
      have "k + length (xs @ [?s]) \<le> rg_count ?r" using Suc.prems(2) by simp
      from Suc.IH [OF h this, of ?ad] obtain i' r' ad' new where "alloc_rx_loop e k (ring_next i (rg_count r)) (?r, ?ad) = Inr (i', r', ad')"
          "rx_holds (r'\<lparr>rg_next_to_use := i'\<rparr>) ((xs @ [?s]) @ new)" "length new \<le> k" "posts e ?ad ad' new"
          "(\<forall>n. se_alloc e n \<and> se_map e n) \<longrightarrow> length new = k"
        by blast
      then show ?thesis unfolding rec using posts_Cons [of e ad ad' new]
        by (intro exI [of _ i'] exI [of _ r'] exI [of _ ad'] exI [of _ "?s # new"]) auto
    qed
  qed
qed

lemma alloc_rx_buffers_posts:
  assumes "ring_at (ad_rx_ring ad) q = Inr r" "rx_holds r xs" "k + length xs \<le> rg_count r"
  shows "\<exists>r' ad1 new. sketh_alloc_rx_buffers e q k ad = Inr (put_rx q r' ad1) \<and> rx_holds r' (xs @ new) \<and>
    length new \<le> k \<and> posts e ad ad1 new \<and> ((\<forall>n. se_alloc e n \<and> se_map e n) \<longrightarrow> length new = k)"
proof -
  have "rx_holds (r\<lparr>rg_next_to_use := rg_next_to_use r\<rparr>) xs" using assms(2) by simp
  from alloc_rx_loop_posts [OF this assms(3), of e ad] assms(1)
  show ?thesis unfolding sketh_alloc_rx_buffers_def by fastforce
qed

section \<open>Receiving\<close>

definition tx_ok :: "sketh_tx_buffer sketh_ring \<Rightarrow> bool" where
  "tx_ok t \<longleftrightarrow> ring_size (rg_count t) \<and> rg_next_to_use t < rg_count t \<and> rg_next_to_clean t < rg_count t \<and>
     map_option length (rg_buffer t) = Some (rg_count t) \<and> map_option length (rg_desc t) = Some (rg_count t)"

definition txs_ok :: "sketh_adapter \<Rightarrow> bool" where
  "txs_ok ad = (case ad_tx_ring ad of None \<Rightarrow> False
     | Some ts \<Rightarrow> ts \<noteq> [] \<and> ad_num_queues ad \<le> length ts \<and> list_all tx_ok ts)"

definition settings_of :: "sketh_adapter \<Rightarrow> nat \<times> nat \<times> nat list option \<times> nat option \<times> bool" where
  "settings_of ad = (ad_mtu ad, ad_num_queues ad, ad_msix_entries ad, ad_xdp_prog ad, ad_down ad)"

lemma settings_fields:
  "settings_of ad' = settings_of ad \<longleftrightarrow> ad_mtu ad' = ad_mtu ad \<and> ad_num_queues ad' = ad_num_queues ad \<and>
     ad_msix_entries ad' = ad_msix_entries ad \<and> ad_xdp_prog ad' = ad_xdp_prog ad \<and> ad_down ad' = ad_down ad"
  by (auto simp: settings_of_def)

lemma ring_at_Inr: "ring_at rs q = Inr r \<longleftrightarrow> (\<exists>xs. rs = Some xs \<and> q < length xs \<and> r = xs ! q)"
  by (auto simp: ring_at_def split: option.splits)

lemma ring_at_put_same [simp]:
  "ring_at rs q = Inr r \<Longrightarrow> ring_at (map_option (\<lambda>xs. xs[q := r']) rs) q = Inr r'"
  by (auto simp: ring_at_Inr)

lemma ring_at_put_other [simp]:
  "q' \<noteq> q \<Longrightarrow> ring_at (map_option (\<lambda>xs. xs[q := r']) rs) q' = ring_at rs q'"
  by (cases rs) (auto simp: ring_at_def)

lemma put_rx_fields [simp]:
  "ad_rx_ring (put_rx q r ad) = map_option (\<lambda>rs. rs[q := r]) (ad_rx_ring ad)"
  "ad_tx_ring (put_rx q r ad) = ad_tx_ring ad" "ad_freed (put_rx q r ad) = ad_freed ad"
  "ad_up (put_rx q r ad) = ad_up ad" "ad_next_skb (put_rx q r ad) = ad_next_skb ad"
  "ad_mtu (put_rx q r ad) = ad_mtu ad" "ad_num_queues (put_rx q r ad) = ad_num_queues ad"
  "ad_xdp_prog (put_rx q r ad) = ad_xdp_prog ad" "settings_of (put_rx q r ad) = settings_of ad"
  "rx_frame_len (put_rx q r ad) = rx_frame_len ad" "txs_ok (put_rx q r ad) = txs_ok ad"
  by (simp_all add: put_rx_def settings_of_def rx_frame_len_def txs_ok_def cong: option.case_cong)

lemma put_tx_fields [simp]:
  "ad_rx_ring (put_tx q t ad) = ad_rx_ring ad" "ad_freed (put_tx q t ad) = ad_freed ad"
  "ad_tx_ring (put_tx q t ad) = map_option (\<lambda>rs. rs[q := t]) (ad_tx_ring ad)"
  "ad_up (put_tx q t ad) = ad_up ad" "ad_next_skb (put_tx q t ad) = ad_next_skb ad"
  "settings_of (put_tx q t ad) = settings_of ad" "ad_num_queues (put_tx q t ad) = ad_num_queues ad"
  by (simp_all add: put_tx_def settings_of_def)

lemma txs_ok_cong:
  "ad_tx_ring ad' = ad_tx_ring ad \<Longrightarrow> ad_num_queues ad' = ad_num_queues ad \<Longrightarrow> txs_ok ad' = txs_ok ad"
  by (simp add: txs_ok_def cong: option.case_cong)

lemma txs_ok_update [simp]:
  "txs_ok (ad\<lparr>ad_freed := a\<rparr>) = txs_ok ad" "txs_ok (ad\<lparr>ad_up := b\<rparr>) = txs_ok ad"
  "txs_ok (ad\<lparr>ad_rx_drops := c\<rparr>) = txs_ok ad" "txs_ok (ad\<lparr>ad_xdp_drops := c\<rparr>) = txs_ok ad"
  "txs_ok (ad\<lparr>ad_xdp_tx := c\<rparr>) = txs_ok ad" "txs_ok (ad\<lparr>ad_xdp_redirect := c\<rparr>) = txs_ok ad"
  by (simp_all add: txs_ok_def cong: option.case_cong)

lemma txs_ok_put: "txs_ok ad \<Longrightarrow> tx_ok t \<Longrightarrow> txs_ok (put_tx q t ad)"
  by (auto simp: txs_ok_def list_all_iff dest: set_update_subset_insert [THEN subsetD] split: option.splits)

lemma txs_ok_at:
  assumes "txs_ok ad" "q < ad_num_queues ad \<or> q = 0"
  obtains t where "ring_at (ad_tx_ring ad) q = Inr t" "tx_ok t"
  using assms by (fastforce simp: txs_ok_def ring_at_def list_all_length split: option.splits)

lemma tx_okE:
  assumes "tx_ok t"
  obtains bs ds where "rg_buffer t = Some bs" "length bs = rg_count t" "rg_desc t = Some ds" "length ds = rg_count t"
    "ring_size (rg_count t)" "rg_next_to_use t < rg_count t" "rg_next_to_clean t < rg_count t"
  using assms by (auto simp: tx_ok_def)

lemma ring_next_less: "ring_size n \<Longrightarrow> ring_next i n < n"
  by (simp add: ring_next_mod ring_size_pos)

lemma xdp_tx_ok:
  assumes "txs_ok ad"
  shows "\<exists>x ad'. sketh_xdp_tx e skb len ad = Inr (x, ad') \<and> txs_ok ad' \<and> (\<exists>ts. ad' = ad\<lparr>ad_tx_ring := ts\<rparr>)"
proof -
  obtain t where t: "ring_at (ad_tx_ring ad) 0 = Inr t" "tx_ok t" using assms by (auto elim: txs_ok_at)
  from t(2) show ?thesis
  proof (rule tx_okE)
    fix bs ds
    assume b: "rg_buffer t = Some bs" "length bs = rg_count t" "rg_desc t = Some ds" "length ds = rg_count t"
      "ring_size (rg_count t)" "rg_next_to_use t < rg_count t" "rg_next_to_clean t < rg_count t"
    let ?t = "t\<lparr>rg_buffer := Some (bs[rg_next_to_use t := (bs ! rg_next_to_use t)\<lparr>tb_bytes := len, tb_mapped := True\<rparr>]),
      rg_next_to_use := ring_next (rg_next_to_use t) (rg_count t)\<rparr>"
    have "tx_ok ?t" using b by (simp add: tx_ok_def ring_next_less)
    then have "txs_ok (put_tx 0 ?t ad)" using assms by (intro txs_ok_put)
    moreover have "\<exists>ts. put_tx 0 ?t ad = ad\<lparr>ad_tx_ring := ts\<rparr>" unfolding put_tx_def by blast
    moreover have "\<exists>ts. ad = ad\<lparr>ad_tx_ring := ts\<rparr>" by (rule exI [of _ "ad_tx_ring ad"]) simp
    moreover have "sketh_xdp_tx e skb len ad = (if se_map e skb then Inr (0, put_tx 0 ?t ad) else Inr (- ENOMEM, ad))"
      using t b by (simp add: sketh_xdp_tx_def Let_def)
    ultimately show ?thesis using assms by (cases "se_map e skb") (simp_all only: if_True if_False, blast+)
  qed
qed

lemma receive_skb_ok:
  assumes "txs_ok ad" "len \<le> snd s"
  shows "\<exists>ad'. sketh_receive_skb e s len ad = Inr ad' \<and> txs_ok ad' \<and> settings_of ad' = settings_of ad \<and>
    ad_rx_ring ad' = ad_rx_ring ad \<and> ad_next_skb ad' = ad_next_skb ad \<and>
    mset (ad_freed ad') + mset (map fst (ad_up ad')) = add_mset (fst s) (mset (ad_freed ad) + mset (map fst (ad_up ad))) \<and>
    (ad_xdp_prog ad = None \<longrightarrow> ad_up ad' = ad_up ad @ [(fst s, len)] \<and> ad_freed ad' = ad_freed ad)"
proof -
  obtain skb room where s: "s = (skb, room)" by (cases s)
  obtain x ad1 ts where x: "sketh_xdp_tx e skb (xdp_len e skb len ad) ad = Inr (x, ad1)" "txs_ok ad1" "ad1 = ad\<lparr>ad_tx_ring := ts\<rparr>"
    using xdp_tx_ok [OF assms(1)] by blast
  have c: "txs_ok (ad\<lparr>ad_tx_ring := ts\<rparr>)" using x by simp
  have p: "ad_xdp_prog ad = None \<Longrightarrow> xdp_verdict e skb ad = XDP_PASS" by (simp add: xdp_verdict_def)
  show ?thesis
    using assms c p unfolding s sketh_receive_skb_def
    by (cases "xdp_verdict e skb ad")
      (auto simp: x(1) x(3) free_skb_def count_drop_def settings_of_def Let_def)
qed

lemma clean_rx_loop_ok:
  assumes "ring_at (ad_rx_ring ad) q = Inr r" "rx_holds r xs" "\<forall>s\<in>set xs. rx_frame_len ad \<le> snd s" "txs_ok ad"
  shows "\<exists>r' ad'. clean_rx_loop e q k ad = Inr (min k (length xs), ad') \<and> rx_holds r' (drop k xs) \<and>
    ad_rx_ring ad' = map_option (\<lambda>rs. rs[q := r']) (ad_rx_ring ad) \<and> rg_count r' = rg_count r \<and>
    txs_ok ad' \<and> settings_of ad' = settings_of ad \<and> ad_next_skb ad' = ad_next_skb ad \<and>
    mset (ad_freed ad') + mset (map fst (ad_up ad')) =
      mset (ad_freed ad) + mset (map fst (ad_up ad)) + mset (map fst (take k xs)) \<and>
    (ad_xdp_prog ad = None \<longrightarrow> ad_freed ad' = ad_freed ad \<and>
       ad_up ad' = ad_up ad @ map (\<lambda>s. (fst s, rx_frame_len ad)) (take k xs))"
  using assms
proof (induction k arbitrary: ad r xs)
  case 0
  have "ad_rx_ring ad = map_option (\<lambda>rs. rs[q := r]) (ad_rx_ring ad)"
    using "0.prems"(1) by (auto simp: ring_at_Inr)
  then show ?case using "0.prems" by (intro exI [of _ r] exI [of _ ad]) auto
next
  case (Suc k)
  obtain bs where b: "rg_buffer r = Some bs" using Suc.prems(2) by (auto elim: rx_holdsE)
  note f = rx_holds_first [OF Suc.prems(2) b]
  show ?case
  proof (cases xs)
    case Nil
    have "ad_rx_ring ad = map_option (\<lambda>rs. rs[q := r]) (ad_rx_ring ad)"
      using Suc.prems(1) by (auto simp: ring_at_Inr)
    then show ?thesis using Suc.prems b f Nil by (intro exI [of _ r] exI [of _ ad]) (auto simp: Let_def)
  next
    case (Cons s ys)
    let ?r = "r\<lparr>rg_buffer := Some (bs[rg_next_to_clean r := \<lparr>rb_skb = None, rb_dma = False\<rparr>]),
      rg_next_to_clean := ring_next (rg_next_to_clean r) (rg_count r)\<rparr>"
    let ?ad = "put_rx q ?r ad"
    have hr: "rx_holds ?r ys" using rx_holds_pop [OF _ b] Suc.prems(2) Cons by simp
    obtain ad1 where a: "sketh_receive_skb e s (rx_frame_len ad) ?ad = Inr ad1" "txs_ok ad1"
        "settings_of ad1 = settings_of ?ad" "ad_rx_ring ad1 = ad_rx_ring ?ad" "ad_next_skb ad1 = ad_next_skb ?ad"
        "mset (ad_freed ad1) + mset (map fst (ad_up ad1)) =
          add_mset (fst s) (mset (ad_freed ?ad) + mset (map fst (ad_up ?ad)))"
        "ad_xdp_prog ad = None \<longrightarrow> ad_up ad1 = ad_up ad @ [(fst s, rx_frame_len ad)] \<and> ad_freed ad1 = ad_freed ad"
      using receive_skb_ok [of ?ad "rx_frame_len ad" s e] Suc.prems(3,4) Cons by auto
    have l: "rx_frame_len ad1 = rx_frame_len ad" and pr: "ad_xdp_prog ad1 = ad_xdp_prog ad"
      using a(3) by (simp_all add: settings_fields rx_frame_len_def put_rx_def)
    have at: "ring_at (ad_rx_ring ad1) q = Inr ?r" using a(4) Suc.prems(1) by simp
    obtain r' ad' where i: "clean_rx_loop e q k ad1 = Inr (min k (length ys), ad')" "rx_holds r' (drop k ys)"
        "ad_rx_ring ad' = map_option (\<lambda>rs. rs[q := r']) (ad_rx_ring ad1)" "rg_count r' = rg_count ?r"
        "txs_ok ad'" "settings_of ad' = settings_of ad1" "ad_next_skb ad' = ad_next_skb ad1"
        "mset (ad_freed ad') + mset (map fst (ad_up ad')) =
          mset (ad_freed ad1) + mset (map fst (ad_up ad1)) + mset (map fst (take k ys))"
        "ad_xdp_prog ad1 = None \<longrightarrow> ad_freed ad' = ad_freed ad1 \<and>
          ad_up ad' = ad_up ad1 @ map (\<lambda>s. (fst s, rx_frame_len ad1)) (take k ys)"
      using Suc.IH [OF at hr _ a(2)] Suc.prems(3) Cons l by auto
    have "clean_rx_loop e q (Suc k) ad = Inr (Suc (min k (length ys)), ad')"
      using Suc.prems(1) b f Cons a(1) i(1) by (simp add: Let_def)
    then show ?thesis
      using i a l pr Cons by (intro exI [of _ r'] exI [of _ ad']) (simp add: option.map_comp o_def)
  qed
qed

lemma rx_frame_len_cong: "ad_mtu ad' = ad_mtu ad \<Longrightarrow> rx_frame_len ad' = rx_frame_len ad"
  by (simp add: rx_frame_len_def)

lemma rx_buf_len_cong: "ad_mtu ad' = ad_mtu ad \<Longrightarrow> rx_buf_len ad' = rx_buf_len ad"
  by (simp add: rx_buf_len_def)

lemma clean_rx_ring_ok:
  assumes "ring_at (ad_rx_ring ad) q = Inr r" "rx_holds r xs" "\<forall>s\<in>set xs. rx_frame_len ad \<le> snd s" "txs_ok ad"
  shows "\<exists>r' ad' new. sketh_clean_rx_ring e q b ad = Inr (min b (length xs), ad') \<and>
    rx_holds r' (drop b xs @ new) \<and> length new \<le> min b (length xs) \<and>
    ad_rx_ring ad' = map_option (\<lambda>rs. rs[q := r']) (ad_rx_ring ad) \<and>
    txs_ok ad' \<and> settings_of ad' = settings_of ad \<and> ad_next_skb ad \<le> ad_next_skb ad' \<and>
    mset (ad_freed ad') + mset (map fst (ad_up ad')) + mset (map fst (drop b xs @ new)) =
      mset (ad_freed ad) + mset (map fst (ad_up ad)) + mset (map fst xs) + mset [ad_next_skb ad..<ad_next_skb ad'] \<and>
    (\<forall>s\<in>set new. snd s = se_room e (rx_buf_len ad)) \<and>
    ((\<forall>n. se_alloc e n \<and> se_map e n) \<longrightarrow> length new = min b (length xs)) \<and>
    (ad_xdp_prog ad = None \<longrightarrow> ad_up ad' = ad_up ad @ map (\<lambda>s. (fst s, rx_frame_len ad)) (take b xs))"
proof -
  let ?n = "min b (length xs)"
  obtain r1 ad1 where c: "clean_rx_loop e q b ad = Inr (?n, ad1)" "rx_holds r1 (drop b xs)"
      "ad_rx_ring ad1 = map_option (\<lambda>rs. rs[q := r1]) (ad_rx_ring ad)" "rg_count r1 = rg_count r"
      "txs_ok ad1" "settings_of ad1 = settings_of ad" "ad_next_skb ad1 = ad_next_skb ad"
      "mset (ad_freed ad1) + mset (map fst (ad_up ad1)) =
        mset (ad_freed ad) + mset (map fst (ad_up ad)) + mset (map fst (take b xs))"
      "ad_xdp_prog ad = None \<longrightarrow> ad_freed ad1 = ad_freed ad \<and>
        ad_up ad1 = ad_up ad @ map (\<lambda>s. (fst s, rx_frame_len ad)) (take b xs)"
    using clean_rx_loop_ok [OF assms, of e b] by auto
  have halves: "mset (map fst xs) = mset (map fst (take b xs)) + mset (map fst (drop b xs))"
    by (metis append_take_drop_id map_append mset_append)
  show ?thesis
  proof (cases "?n = 0")
    case True
    then show ?thesis using c
      by (intro exI [of _ r1] exI [of _ ad1] exI [of _ "[]"])
        (simp add: sketh_clean_rx_ring_def halves del: mset_map)
  next
    case False
    have at1: "ring_at (ad_rx_ring ad1) q = Inr r1" using c(3) assms(1) by simp
    have room: "?n + length (drop b xs) \<le> rg_count r1"
      using assms(2) c(4) by (auto simp: rx_holds_def)
    obtain r2 ad2 new where a: "sketh_alloc_rx_buffers e q ?n ad1 = Inr (put_rx q r2 ad2)"
        "rx_holds r2 (drop b xs @ new)" "length new \<le> ?n" "posts e ad1 ad2 new"
        "(\<forall>n. se_alloc e n \<and> se_map e n) \<longrightarrow> length new = ?n"
      using alloc_rx_buffers_posts [OF at1 c(2) room, of e] by blast
    note f = posts_fields [OF a(4)]
    let ?ad = "(put_rx q r2 ad2)\<lparr>st_rx_packets := st_rx_packets (put_rx q r2 ad2) + word_of_nat ?n,
      st_rx_bytes := st_rx_bytes (put_rx q r2 ad2) + ucast (word_of_nat (?n * rx_frame_len ad) :: u32)\<rparr>"
    have t2: "txs_ok ad2" using c(5) f(2,4) txs_ok_cong by blast
    have "\<forall>s\<in>set new. snd s = se_room e (rx_buf_len ad)"
      using a(4) c(6) by (simp add: posts_def settings_fields rx_buf_len_def)
    moreover have "length new \<le> ?n" by fact
    moreover have "rx_holds r2 (drop b xs @ new)" by fact
    moreover have "(\<forall>n. se_alloc e n \<and> se_map e n) \<longrightarrow> length new = ?n" by fact
    moreover have "settings_of ?ad = settings_of ad"
      using c(6) f by (simp add: settings_fields put_rx_def)
    moreover have "txs_ok ?ad" using t2 by (simp add: txs_ok_def cong: option.case_cong)
    moreover have "ad_next_skb ad \<le> ad_next_skb ?ad" using c(7) f(9) by simp
    moreover have "ad_xdp_prog ad = None \<longrightarrow> ad_up ?ad = ad_up ad @ map (\<lambda>s. (fst s, rx_frame_len ad)) (take b xs)"
      using c(9) f(5) by simp
    moreover have "ad_rx_ring ?ad = map_option (\<lambda>rs. rs[q := r2]) (ad_rx_ring ad)"
      using c(3) f(3) by (simp add: option.map_comp o_def)
    moreover have "mset (ad_freed ?ad) + mset (map fst (ad_up ?ad)) + mset (map fst (drop b xs @ new)) =
        mset (ad_freed ad) + mset (map fst (ad_up ad)) + mset (map fst xs) + mset [ad_next_skb ad..<ad_next_skb ?ad]"
      using c(7,8) f(5,10) halves by (simp del: mset_map add: ac_simps) (metis (no_types, lifting) add.assoc add.commute)
    moreover have "sketh_clean_rx_ring e q b ad = Inr (?n, ?ad)"
      unfolding sketh_clean_rx_ring_def c(1) by (simp only: sum.case prod.case a(1) False if_False)
    ultimately show ?thesis by (intro exI conjI) assumption+
  qed
qed

end
