(* ===== verification/Sketh_Tx.thy ===== *)
theory Sketh_Tx
  imports Sketh_Inv
begin

text \<open>
  Transmission in \<open>modules/sketh_plat/sketh.c\<close>: the loops over a transmit ring end, what cleaning
  frees, and what a sequence of transmissions leaves on the ring (\<open>tx_holds\<close>).
\<close>

section \<open>Cleaning\<close>

definition cleared :: "sketh_tx_buffer \<Rightarrow> sketh_tx_buffer" where
  "cleared b = (if tb_skb b = None then b else empty_tx_buffer)"

definition tx_skbs :: "sketh_tx_buffer list \<Rightarrow> nat list" where
  "tx_skbs bs = concat (map (\<lambda>b. case tb_skb b of None \<Rightarrow> [] | Some n \<Rightarrow> [n]) bs)"

lemma tx_skbs_simps [simp]:
  "tx_skbs [] = []"
  "tx_skbs (b # bs) = (case tb_skb b of None \<Rightarrow> tx_skbs bs | Some n \<Rightarrow> n # tx_skbs bs)"
  by (simp_all add: tx_skbs_def split: option.splits)

lemma rotate1_eq_snoc: "rotate1 zs = ws @ [c] \<Longrightarrow> zs = c # ws"
  by (cases zs) auto

text \<open>Passing one slot at the front of the rotated ring.\<close>

lemma rotate_front:
  assumes "i < length bs"
  obtains ys where "rotate i bs = bs ! i # ys" "rotate (Suc i mod length bs) (bs[i := c]) = ys @ [c]"
proof -
  have i: "i mod length bs = i" "bs \<noteq> []" "0 < length bs" using assms by auto
  have h: "rotate i bs ! 0 = bs ! i" using nth_rotate [of 0 bs i] i by simp
  obtain x ys where r: "rotate i bs = x # ys" using i by (cases "rotate i bs") auto
  have "rotate i (bs[i := c]) = c # ys"
    using rotate_update [of 0 bs i c] i r by simp
  then have "rotate (Suc i mod length bs) (bs[i := c]) = ys @ [c]"
    using rotate_Suc_mod [of i "bs[i := c]"] by simp
  moreover have "rotate i bs = bs ! i # ys" using h r by simp
  ultimately show thesis using that by blast
qed

lemma clean_tx_loop_ok:
  assumes "ring_size n" "length bs = n" "i < n" "d < n"
  shows "\<exists>bs' p' by'. clean_tx_loop n ((i + d) mod n) i (Some bs) p b ad =
      Some (Inr (Some bs', p', by', ad\<lparr>ad_freed := ad_freed ad @ tx_skbs (take d (rotate i bs))\<rparr>)) \<and>
    length bs' = n \<and> rotate i bs' = map cleared (take d (rotate i bs)) @ drop d (rotate i bs)"
  using assms
proof (induction d arbitrary: i bs p b ad)
  case 0
  then show ?case by (subst clean_tx_loop.simps) simp
next
  case (Suc d)
  let ?c = "cleared (bs ! i)" and ?stop = "(i + Suc d) mod n"
  let ?bs = "bs[i := ?c]" and ?i = "Suc i mod n"
  let ?ad = "ad\<lparr>ad_freed := ad_freed ad @ tx_skbs [bs ! i]\<rparr>"
  have ne: "i \<noteq> ?stop" using add_mod_inj [of i 0 n "Suc d"] Suc.prems by auto
  have i: "i < length bs" "?i < n" using Suc.prems ring_size_pos by auto
  obtain ys where y: "rotate i bs = bs ! i # ys" "rotate ?i ?bs = ys @ [?c]"
    using rotate_front [OF i(1)] Suc.prems(2) by metis
  have ly: "length ys = n - 1" using arg_cong [OF y(1), of length] Suc.prems(2) by simp
  have "\<exists>p1 b1. clean_tx_loop n ?stop i (Some bs) p b ad = clean_tx_loop n ?stop ?i (Some ?bs) p1 b1 ?ad"
  proof (cases "tb_skb (bs ! i)")
    case None
    then have "?bs = bs" by (simp add: cleared_def list_update_id)
    then show ?thesis using ne i None Suc.prems(1)
      by (subst clean_tx_loop.simps) (auto simp: ring_next_mod)
  next
    case (Some x)
    then show ?thesis using ne i Suc.prems(1)
      by (subst clean_tx_loop.simps)
        (auto simp: ring_next_mod sketh_unmap_and_free_tx_buffer_def cleared_def free_skb_def)
  qed
  then obtain p1 b1 where step: "clean_tx_loop n ?stop i (Some bs) p b ad = clean_tx_loop n ?stop ?i (Some ?bs) p1 b1 ?ad"
    by blast
  have stop: "?stop = (?i + d) mod n" by (simp add: mod_simps)
  obtain bs' p' by' where r: "clean_tx_loop n ((?i + d) mod n) ?i (Some ?bs) p1 b1 ?ad =
        Some (Inr (Some bs', p', by', ?ad\<lparr>ad_freed := ad_freed ?ad @ tx_skbs (take d (rotate ?i ?bs))\<rparr>))"
      "length bs' = n" "rotate ?i bs' = map cleared (take d (rotate ?i ?bs)) @ drop d (rotate ?i ?bs)"
    using Suc.IH [of ?bs ?i p1 b1 ?ad] Suc.prems i by auto
  have "rotate1 (rotate i bs') = (map cleared (take d ys) @ drop d ys) @ [?c]"
    using r(2,3) rotate_Suc_mod [of i bs'] Suc.prems(4) ly by (simp add: y(2))
  then have "rotate i bs' = ?c # map cleared (take d ys) @ drop d ys" by (rule rotate1_eq_snoc)
  then have fin: "rotate i bs' = map cleared (take (Suc d) (rotate i bs)) @ drop (Suc d) (rotate i bs)"
    by (simp add: y(1))
  have "tx_skbs [bs ! i] @ tx_skbs (take d (rotate ?i ?bs)) = tx_skbs (take (Suc d) (rotate i bs))"
    using Suc.prems(4) ly by (simp add: y split: option.splits)
  then have eq: "?ad\<lparr>ad_freed := ad_freed ?ad @ tx_skbs (take d (rotate ?i ?bs))\<rparr> =
      ad\<lparr>ad_freed := ad_freed ad @ tx_skbs (take (Suc d) (rotate i bs))\<rparr>"
    by (simp del: tx_skbs_simps)
  have "clean_tx_loop n ?stop i (Some bs) p b ad =
      Some (Inr (Some bs', p', by', ad\<lparr>ad_freed := ad_freed ad @ tx_skbs (take (Suc d) (rotate i bs))\<rparr>))"
    unfolding step eq [symmetric] using r(1) by (simp only: stop)
  then show ?case using r(2) fin by blast
qed

definition tx_pending :: "'b sketh_ring \<Rightarrow> nat" where
  "tx_pending t = (rg_next_to_use t + rg_count t - rg_next_to_clean t) mod rg_count t"

lemma tx_pending_less: "tx_ok t \<Longrightarrow> tx_pending t < rg_count t"
  by (auto simp: tx_pending_def tx_ok_def)

lemma tx_pending_stop: "tx_ok t \<Longrightarrow> (rg_next_to_clean t + tx_pending t) mod rg_count t = rg_next_to_use t"
  by (auto simp: tx_pending_def tx_ok_def mod_simps)

lemma clean_tx_ring_ok:
  assumes "ring_at (ad_tx_ring ad) q = Inr t" "tx_ok t" "rg_buffer t = Some bs"
  shows "\<exists>ad' bs'. sketh_clean_tx_ring q ad = Some (Inr ad') \<and>
    ad_tx_ring ad' = map_option (\<lambda>ts. ts[q := t\<lparr>rg_buffer := Some bs', rg_next_to_clean := rg_next_to_use t\<rparr>])
      (ad_tx_ring ad) \<and>
    tx_ok (t\<lparr>rg_buffer := Some bs', rg_next_to_clean := rg_next_to_use t\<rparr>) \<and>
    rotate (rg_next_to_clean t) bs' = map cleared (take (tx_pending t) (rotate (rg_next_to_clean t) bs)) @
      drop (tx_pending t) (rotate (rg_next_to_clean t) bs) \<and>
    ad_freed ad' = ad_freed ad @ tx_skbs (take (tx_pending t) (rotate (rg_next_to_clean t) bs)) \<and>
    ad_rx_ring ad' = ad_rx_ring ad \<and> ad_up ad' = ad_up ad \<and> ad_next_skb ad' = ad_next_skb ad \<and>
    settings_of ad' = settings_of ad"
proof -
  have t: "ring_size (rg_count t)" "length bs = rg_count t" "rg_next_to_clean t < rg_count t"
    using assms by (auto simp: tx_ok_def)
  let ?freed = "ad_freed ad @ tx_skbs (take (tx_pending t) (rotate (rg_next_to_clean t) bs))"
  obtain bs' p b where c: "clean_tx_loop (rg_count t) (rg_next_to_use t) (rg_next_to_clean t) (Some bs) 0 0 ad =
        Some (Inr (Some bs', p, b, ad\<lparr>ad_freed := ?freed\<rparr>))" "length bs' = rg_count t"
      "rotate (rg_next_to_clean t) bs' = map cleared (take (tx_pending t) (rotate (rg_next_to_clean t) bs)) @
        drop (tx_pending t) (rotate (rg_next_to_clean t) bs)"
    using clean_tx_loop_ok [OF t tx_pending_less [OF assms(2)], of 0 0 ad] tx_pending_stop [OF assms(2)] by auto
  let ?t = "t\<lparr>rg_buffer := Some bs', rg_next_to_clean := rg_next_to_use t\<rparr>"
  have "tx_ok ?t" using assms(2) c(2) by (auto simp: tx_ok_def)
  moreover obtain ad' where "sketh_clean_tx_ring q ad = Some (Inr ad')"
      "ad_tx_ring ad' = map_option (\<lambda>ts. ts[q := ?t]) (ad_tx_ring ad)" "ad_freed ad' = ?freed"
      "ad_rx_ring ad' = ad_rx_ring ad" "ad_up ad' = ad_up ad" "ad_next_skb ad' = ad_next_skb ad"
      "settings_of ad' = settings_of ad"
    using assms c(1) by (cases "p = 0") (auto simp: sketh_clean_tx_ring_def put_tx_def settings_of_def Let_def)
  ultimately show ?thesis using c(3) by blast
qed

lemma alloc_tx_loop_ok:
  assumes "tx_ok t" "(rg_next_to_use t + d) mod rg_count t = rg_next_to_clean t" "d < rg_count t"
  shows "\<exists>t'. alloc_tx_loop t = Some (Inr t') \<and> tx_ok t'"
  using assms
proof (induction d arbitrary: t)
  case 0
  then have "rg_next_to_clean t = rg_next_to_use t" by (auto simp: tx_ok_def)
  then show ?case using "0.prems" by (subst alloc_tx_loop.simps) simp
next
  case (Suc d)
  obtain bs where b: "rg_buffer t = Some bs" "length bs = rg_count t" "ring_size (rg_count t)"
      "rg_next_to_use t < rg_count t"
    using Suc.prems(1) by (auto elim: tx_okE)
  let ?t = "t\<lparr>rg_buffer := Some (bs[rg_next_to_use t := empty_tx_buffer]),
    rg_next_to_use := ring_next (rg_next_to_use t) (rg_count t)\<rparr>"
  have ne: "rg_next_to_clean t \<noteq> rg_next_to_use t"
    using Suc.prems(2,3) b add_mod_inj [of "rg_next_to_use t" "Suc d" "rg_count t" 0] by auto
  have "tx_ok ?t" using Suc.prems(1) b by (auto simp: tx_ok_def ring_next_less)
  moreover have "(rg_next_to_use ?t + d) mod rg_count ?t = rg_next_to_clean ?t"
    using Suc.prems(2) b by (simp add: ring_next_mod mod_simps)
  ultimately have "\<exists>t'. alloc_tx_loop ?t = Some (Inr t') \<and> tx_ok t'"
    using Suc.IH [of ?t] Suc.prems(3) by auto
  then show ?case using ne b by (subst alloc_tx_loop.simps) simp
qed

lemma alloc_tx_buffers_ok:
  assumes "ring_at (ad_tx_ring ad) q = Inr t" "tx_ok t"
  shows "\<exists>t'. sketh_alloc_tx_buffers q ad = Some (Inr (put_tx q t' ad)) \<and> tx_ok t'"
proof -
  let ?n = "rg_count t" and ?d = "(rg_next_to_clean t + rg_count t - rg_next_to_use t) mod rg_count t"
  have "?d < ?n" "(rg_next_to_use t + ?d) mod ?n = rg_next_to_clean t"
    using assms(2) by (auto simp: tx_ok_def mod_simps)
  then obtain t' where "alloc_tx_loop t = Some (Inr t')" "tx_ok t'"
    using alloc_tx_loop_ok [OF assms(2)] by blast
  then show ?thesis using assms(1) by (intro exI [of _ t']) (simp add: sketh_alloc_tx_buffers_def)
qed

section \<open>Transmitting\<close>

text \<open>
  A ring that nothing but \<open>sketh_start_xmit\<close> has filled since it was last cleaned: every packet takes
  two slots, the first for its buffer and the second for its descriptor.
\<close>

definition tx_holds :: "sketh_tx_buffer sketh_ring \<Rightarrow> nat list \<Rightarrow> bool" where
  "tx_holds t ss \<longleftrightarrow> tx_ok t \<and> 2 * length ss \<le> rg_count t \<and>
     rg_next_to_use t = (rg_next_to_clean t + 2 * length ss) mod rg_count t \<and>
     (case rg_buffer t of None \<Rightarrow> False | Some bs \<Rightarrow>
        map tb_skb (rotate (rg_next_to_clean t) bs) =
          concat (map (\<lambda>s. [Some s, None]) ss) @ replicate (rg_count t - 2 * length ss) None)"

lemma length_slots: "length (concat (map (\<lambda>s. [Some s, None]) ss)) = 2 * length ss"
  by (induction ss) simp_all

definition sent_buffer :: "tx_skb \<Rightarrow> sketh_tx_buffer" where
  "sent_buffer s = \<lparr>tb_skb = Some (ts_skb s), tb_bytes = ts_headlen s, tb_mapped = True\<rparr>"

definition sent_desc :: "tx_skb \<Rightarrow> sketh_tx_desc" where
  "sent_desc s = \<lparr>td_skb = ts_skb s, td_length = word_of_nat (ts_headlen s), td_cmd = SKETH_TX_DESC_CMD\<rparr>"

definition sent_ring :: "tx_skb \<Rightarrow> sketh_tx_buffer sketh_ring \<Rightarrow> sketh_tx_buffer sketh_ring" where
  "sent_ring s t = (let n = rg_count t; i = rg_next_to_use t; j = Suc i mod n in
     t\<lparr>rg_buffer := map_option (\<lambda>bs. bs[i := sent_buffer s]) (rg_buffer t),
       rg_desc := map_option (\<lambda>ds. ds[j := sent_desc s]) (rg_desc t),
       rg_next_to_use := Suc j mod n\<rparr>)"

lemma sent_ring_ok: "tx_ok t \<Longrightarrow> tx_ok (sent_ring s t)"
  by (auto simp: tx_ok_def sent_ring_def Let_def ring_size_pos)

lemma restart_update: "\<exists>x. (if c then ad\<lparr>ad_tx_restart := y\<rparr> else ad) = ad\<lparr>ad_tx_restart := x\<rparr>"
  by (cases c) (auto intro: exI [of _ y] exI [of _ "ad_tx_restart ad"])

lemma start_xmit_sends:
  assumes "ring_at (ad_tx_ring ad) (ts_queue s) = Inr t" "tx_ok t" "0 < ts_len s" "\<not> ad_down ad" "se_map e (ts_skb s)"
  shows "\<exists>x. sketh_start_xmit e s ad = Inr ((put_tx (ts_queue s) (sent_ring s t) ad)\<lparr>ad_tx_restart := x\<rparr>)"
proof -
  obtain bs ds where b: "rg_buffer t = Some bs" "length bs = rg_count t" "rg_desc t = Some ds"
      "length ds = rg_count t" "ring_size (rg_count t)" "rg_next_to_use t < rg_count t"
    using assms(2) by (auto elim: tx_okE)
  let ?n = "rg_count t" and ?i = "rg_next_to_use t"
  have d: "sketh_xmit_desc (t\<lparr>rg_buffer := Some (bs[?i := sent_buffer s]), rg_next_to_use := ring_next ?i ?n\<rparr>)
      (ts_skb s) (ts_headlen s) = Inr (sent_ring s t)"
    using b by (simp add: sketh_xmit_desc_def ring_next_mod sent_ring_def sent_desc_def Let_def not_le ring_size_pos)
  have x: "sketh_start_xmit e s ad = Inr (if rg_next_to_use (sent_ring s t) = rg_next_to_clean (sent_ring s t)
      then (put_tx (ts_queue s) (sent_ring s t) ad)
        \<lparr>ad_tx_restart := ad_tx_restart (put_tx (ts_queue s) (sent_ring s t) ad) + 1\<rparr>
      else put_tx (ts_queue s) (sent_ring s t) ad)"
    using assms(1,3,4,5) b(1,2,6) d unfolding sketh_start_xmit_def Let_def sent_buffer_def [symmetric]
    by simp
  show ?thesis unfolding x by (simp only: sum.inject restart_update)
qed

lemma tx_holds_sent:
  assumes h: "tx_holds t ss" and l: "2 * length ss + 2 \<le> rg_count t"
  shows "tx_holds (sent_ring s t) (ss @ [ts_skb s])"
proof -
  let ?n = "rg_count t" and ?c = "rg_next_to_clean t" and ?k = "2 * length ss"
  obtain bs where b: "rg_buffer t = Some bs" "length bs = ?n" "tx_ok t"
      "rg_next_to_use t = (?c + ?k) mod ?n"
      "map tb_skb (rotate ?c bs) = concat (map (\<lambda>s. [Some s, None]) ss) @ replicate (?n - ?k) None"
    using h by (auto simp: tx_holds_def tx_ok_def split: option.splits)
  have "rotate ?c (bs[(?c + ?k) mod ?n := sent_buffer s]) = (rotate ?c bs)[?k := sent_buffer s]"
    using rotate_update [of ?k bs ?c] b(2) l by simp
  then have "map tb_skb (rotate ?c (bs[(?c + ?k) mod ?n := sent_buffer s])) =
      (concat (map (\<lambda>s. [Some s, None]) ss) @ replicate (?n - ?k) None)[?k := Some (ts_skb s)]"
    by (simp add: map_update b(5) sent_buffer_def)
  also have "\<dots> = concat (map (\<lambda>s. [Some s, None]) (ss @ [ts_skb s])) @ replicate (?n - ?k - 2) None"
  proof -
    have m: "?n - ?k = Suc (Suc (?n - ?k - 2))" using l by linarith
    show ?thesis
      using list_update_length [of "concat (map (\<lambda>s. [Some s, None]) ss)" None "None # replicate (?n - ?k - 2) None" "Some (ts_skb s)"]
      by (subst m) (simp only: length_slots replicate_Suc map_append concat_append list.map concat.simps
        append_assoc append_Cons append_Nil)
  qed
  finally show ?thesis using b l sent_ring_ok [OF b(3), of s]
    by (simp add: tx_holds_def sent_ring_def Let_def mod_simps)
qed

end
