(* ===== verification/Sketh_Sys.thy ===== *)
theory Sketh_Sys
  imports Sketh_Tx
begin

text \<open>
  The calls the kernel makes on a bound device of \<open>modules/sketh_plat/sketh.c\<close> as one step function
  and as a labelled transition relation, with the invariants of each.
\<close>

section \<open>Calls\<close>

datatype sketh_op = Sk_open | Sk_stop | Sk_xmit tx_skb | Sk_poll nat nat | Sk_timeout | Sk_reset | Sk_rx_mode
  | Sk_mac bytes | Sk_mtu int | Sk_features "netif_feature list" | Sk_stats | Sk_prog "nat option"
  | Sk_offload bool | Sk_suspend | Sk_resume

definition forget_result ::
  "(sketh_fault + 'r \<times> sketh_adapter) option \<Rightarrow> (sketh_fault + sketh_adapter) option" where
  "forget_result = map_option (map_sum id snd)"

text \<open>The network core opens a device that is down and closes one that is up, and remembers which.\<close>

definition core_open :: "sketh_env \<Rightarrow> sketh_adapter \<Rightarrow> (sketh_fault + sketh_adapter) option" where
  "core_open e ad = (if nd_running ad then Some (Inr ad)
     else case sketh_open e ad of None \<Rightarrow> None | Some (Inl f) \<Rightarrow> Some (Inl f)
     | Some (Inr (err, ad1)) \<Rightarrow> Some (Inr (ad1\<lparr>nd_running := (err = 0)\<rparr>)))"

definition core_stop :: "sketh_adapter \<Rightarrow> (sketh_fault + sketh_adapter) option" where
  "core_stop ad = (if \<not> nd_running ad then Some (Inr ad)
     else case sketh_stop ad of None \<Rightarrow> None | Some (Inl f) \<Rightarrow> Some (Inl f)
     | Some (Inr (_, ad1)) \<Rightarrow> Some (Inr (ad1\<lparr>nd_running := False\<rparr>)))"

fun sketh_exec :: "sketh_env \<Rightarrow> sketh_op \<Rightarrow> sketh_adapter \<Rightarrow> (sketh_fault + sketh_adapter) option" where
  "sketh_exec e Sk_open ad = core_open e ad"
| "sketh_exec e Sk_stop ad = core_stop ad"
| "sketh_exec e (Sk_xmit s) ad = Some (sketh_start_xmit e s ad)"
| "sketh_exec e (Sk_poll q budget) ad = forget_result (sketh_napi_poll e q budget ad)"
| "sketh_exec e Sk_timeout ad = Some (Inr (sketh_tx_timeout ad))"
| "sketh_exec e Sk_reset ad = Some (Inr (sketh_reset_task ad))"
| "sketh_exec e Sk_rx_mode ad = Some (Inr (sketh_set_rx_mode ad))"
| "sketh_exec e (Sk_mac a) ad = Some (Inr (snd (sketh_set_mac_address a ad)))"
| "sketh_exec e (Sk_mtu m) ad = Some (Inr (snd (sketh_change_mtu m ad)))"
| "sketh_exec e (Sk_features fs) ad = Some (Inr (snd (sketh_set_features fs ad)))"
| "sketh_exec e Sk_stats ad = Some (Inr (snd (sketh_get_stats64 ad)))"
| "sketh_exec e (Sk_prog p) ad = Some (Inr (snd (sketh_xdp_setup_prog p ad)))"
| "sketh_exec e (Sk_offload on) ad =
     Some (Inr (snd (if on then sketh_hw_offload_enable ad else sketh_hw_offload_disable ad)))"
| "sketh_exec e Sk_suspend ad = forget_result (sketh_platform_suspend ad)"
| "sketh_exec e Sk_resume ad = forget_result (sketh_platform_resume e ad)"

section \<open>The data path is safe\<close>

definition rx_ok :: "nat \<Rightarrow> sketh_rx_buffer sketh_ring \<Rightarrow> bool" where
  "rx_ok len r \<longleftrightarrow> (\<exists>xs. rx_holds r xs \<and> (\<forall>s\<in>set xs. len \<le> snd s))"

definition rxs_ok :: "sketh_adapter \<Rightarrow> bool" where
  "rxs_ok ad = (case ad_rx_ring ad of None \<Rightarrow> False
     | Some rs \<Rightarrow> ad_num_queues ad \<le> length rs \<and> (\<forall>r\<in>set rs. rx_ok (rx_frame_len ad) r))"

definition adapter_ok :: "sketh_adapter \<Rightarrow> bool" where
  "adapter_ok ad \<longleftrightarrow> txs_ok ad \<and> rxs_ok ad \<and> ad_mtu ad + ETH_HLEN + VLAN_HLEN < 4294967296"

text \<open>
  The calls of the data path: an existing queue, no larger MTU than the present one, an allocator that
  gives at least the room asked for. Opening and stopping are treated apart.
\<close>

fun data_op :: "sketh_adapter \<Rightarrow> sketh_op \<Rightarrow> bool" where
  "data_op ad Sk_open = False"
| "data_op ad Sk_stop = False"
| "data_op ad Sk_suspend = False"
| "data_op ad Sk_resume = False"
| "data_op ad (Sk_xmit s) = (ts_queue s < ad_num_queues ad)"
| "data_op ad (Sk_poll q budget) = (q < ad_num_queues ad)"
| "data_op ad (Sk_mtu m) = (m \<le> int (ad_mtu ad))"
| "data_op ad _ = True"

definition roomy :: "sketh_env \<Rightarrow> bool" where
  "roomy e \<longleftrightarrow> (\<forall>n. n \<le> se_room e n)"

definition data_step :: "sketh_adapter \<Rightarrow> sketh_env \<times> sketh_op \<Rightarrow> sketh_adapter \<Rightarrow> bool" where
  "data_step ad = (\<lambda>(e, op) ad'. roomy e \<and> data_op ad op \<and> sketh_exec e op ad = Some (Inr ad'))"

lemma rx_ok_mono: "rx_ok m r \<Longrightarrow> n \<le> m \<Longrightarrow> rx_ok n r"
  unfolding rx_ok_def by (meson order_trans)

lemma rxs_ok_cong:
  "ad_rx_ring ad' = ad_rx_ring ad \<Longrightarrow> ad_num_queues ad' = ad_num_queues ad \<Longrightarrow> ad_mtu ad' = ad_mtu ad \<Longrightarrow>
     rxs_ok ad' = rxs_ok ad"
  by (simp add: rxs_ok_def rx_frame_len_def cong: option.case_cong)

lemma adapter_ok_cong:
  assumes "ad_rx_ring ad' = ad_rx_ring ad" "ad_tx_ring ad' = ad_tx_ring ad"
    "ad_num_queues ad' = ad_num_queues ad" "ad_mtu ad' = ad_mtu ad"
  shows "adapter_ok ad' = adapter_ok ad"
  unfolding adapter_ok_def using rxs_ok_cong [of ad' ad] txs_ok_cong [of ad' ad] assms by simp

lemma rxs_ok_at:
  assumes "rxs_ok ad" "q < ad_num_queues ad"
  obtains r xs where "ring_at (ad_rx_ring ad) q = Inr r" "rx_holds r xs" "\<forall>s\<in>set xs. rx_frame_len ad \<le> snd s"
proof -
  obtain rs where rs: "ad_rx_ring ad = Some rs" "q < length rs" "\<forall>r\<in>set rs. rx_ok (rx_frame_len ad) r"
    using assms by (auto simp: rxs_ok_def split: option.splits)
  then have "rx_ok (rx_frame_len ad) (rs ! q)" by simp
  then obtain xs where "rx_holds (rs ! q) xs" "\<forall>s\<in>set xs. rx_frame_len ad \<le> snd s"
    unfolding rx_ok_def by blast
  then show thesis using that rs by (auto simp: ring_at_Inr)
qed

lemma rxs_ok_update:
  assumes "rxs_ok ad" "ad_rx_ring ad' = map_option (\<lambda>rs. rs[q := r]) (ad_rx_ring ad)"
    "settings_of ad' = settings_of ad" "rx_ok (rx_frame_len ad) r"
  shows "rxs_ok ad'"
proof -
  have l: "rx_frame_len ad' = rx_frame_len ad" "ad_num_queues ad' = ad_num_queues ad"
    using assms(3) by (simp_all add: settings_fields rx_frame_len_def)
  show ?thesis
    using assms(1,2,4) set_update_subset_insert [of _ q r]
    unfolding rxs_ok_def l by (fastforce split: option.splits)
qed

lemma frame_fits: "adapter_ok ad \<Longrightarrow> rx_frame_len ad \<le> rx_buf_len ad"
  by (simp add: adapter_ok_def rx_frame_len_def rx_buf_len_def ETH_HLEN_def VLAN_HLEN_def)

text \<open>One poll.\<close>

lemma napi_poll_ok:
  assumes ok: "adapter_ok ad" and q: "q < ad_num_queues ad" and e: "roomy e"
    and r: "ring_at (ad_rx_ring ad) q = Inr r" "rx_holds r xs" "\<forall>s\<in>set xs. rx_frame_len ad \<le> snd s"
  shows "\<exists>ad' r' new. sketh_napi_poll e q b ad = Some (Inr (min b (length xs), ad')) \<and> adapter_ok ad' \<and>
    ad_rx_ring ad' = map_option (\<lambda>rs. rs[q := r']) (ad_rx_ring ad) \<and> rx_holds r' (drop b xs @ new) \<and>
    length new \<le> min b (length xs) \<and> settings_of ad' = settings_of ad \<and>
    ((\<forall>n. se_alloc e n \<and> se_map e n) \<longrightarrow> length new = min b (length xs)) \<and>
    (ad_xdp_prog ad = None \<longrightarrow> ad_up ad' = ad_up ad @ map (\<lambda>s. (fst s, rx_frame_len ad)) (take b xs))"
proof -
  let ?ad = "ad\<lparr>ad_rx_polls := ad_rx_polls ad + 1\<rparr>"
  have f [simp]: "rx_frame_len ?ad = rx_frame_len ad" "rx_buf_len ?ad = rx_buf_len ad"
      "settings_of ?ad = settings_of ad"
    by (simp_all add: rx_frame_len_def rx_buf_len_def settings_of_def)
  have tx: "txs_ok ?ad" using ok by (simp add: adapter_ok_def txs_ok_def cong: option.case_cong)
  have pre: "ring_at (ad_rx_ring ?ad) q = Inr r" "\<forall>s\<in>set xs. rx_frame_len ?ad \<le> snd s"
    using r by simp_all
  obtain r' ad1 new where c: "sketh_clean_rx_ring e q b ?ad = Inr (min b (length xs), ad1)"
      "rx_holds r' (drop b xs @ new)" "length new \<le> min b (length xs)"
      "ad_rx_ring ad1 = map_option (\<lambda>rs. rs[q := r']) (ad_rx_ring ?ad)"
      "txs_ok ad1" "settings_of ad1 = settings_of ?ad" "\<forall>s\<in>set new. snd s = se_room e (rx_buf_len ?ad)"
      "(\<forall>n. se_alloc e n \<and> se_map e n) \<longrightarrow> length new = min b (length xs)"
      "ad_xdp_prog ?ad = None \<longrightarrow> ad_up ad1 = ad_up ?ad @ map (\<lambda>s. (fst s, rx_frame_len ?ad)) (take b xs)"
    using clean_rx_ring_ok [OF pre(1) r(2) pre(2) tx, of e b] by (elim exE conjE) (rule that, assumption+)
  have [simp]: "ad_rx_ring ?ad = ad_rx_ring ad" "ad_xdp_prog ?ad = ad_xdp_prog ad" "ad_up ?ad = ad_up ad" by simp_all
  note c = c [unfolded f this]
  have r1: "ring_at (ad_rx_ring ad1) q = Inr r'" using c(4) r(1) by simp
  have "rx_frame_len ad \<le> se_room e (rx_buf_len ad)"
    using frame_fits [OF ok] e unfolding roomy_def by (meson order_trans)
  then have "\<forall>s\<in>set (drop b xs @ new). rx_frame_len ad \<le> snd s"
    using r(3) c(7) by (auto dest: in_set_dropD)
  then have "rx_ok (rx_frame_len ad) r'" using c(2) unfolding rx_ok_def by blast
  then have "rxs_ok ad1" using rxs_ok_update [OF _ c(4) c(6)] ok by (simp add: adapter_ok_def)
  then have ok1: "adapter_ok ad1" using c(5,6) ok by (simp add: adapter_ok_def settings_fields)
  let ?ad2 = "if rg_next_to_use r' \<noteq> rg_next_to_clean r' \<and> min b (length xs) < b \<and> ad_msix_entries ad1 \<noteq> None
    then ad1\<lparr>ad_irq_on := ad_irq_on ad1 + 1\<rparr> else ad1"
  have two: "ad_rx_ring ?ad2 = ad_rx_ring ad1" "ad_tx_ring ?ad2 = ad_tx_ring ad1" "ad_up ?ad2 = ad_up ad1"
      "settings_of ?ad2 = settings_of ad1" "adapter_ok ?ad2"
    using ok1 adapter_ok_cong [of "ad1\<lparr>ad_irq_on := ad_irq_on ad1 + 1\<rparr>" ad1] by (simp_all add: settings_of_def)
  have poll: "sketh_napi_poll e q b ad = (if b = 0 then Some (Inr (min b (length xs), ?ad2))
      else (case sketh_clean_tx_ring q ?ad2 of None \<Rightarrow> None | Some (Inl f) \<Rightarrow> Some (Inl f)
        | Some (Inr ad3) \<Rightarrow> Some (Inr (min b (length xs), ad3))))"
    by (simp add: sketh_napi_poll_def c(1) r1 Let_def)
  show ?thesis
  proof (cases "b = 0")
    case True
    then show ?thesis using poll two c
      by (intro exI [of _ ?ad2] exI [of _ r'] exI [of _ new]) simp
  next
    case False
    have "q < ad_num_queues ?ad2" using q c(6) two(4) by (simp add: settings_fields)
    then obtain t where t: "ring_at (ad_tx_ring ?ad2) q = Inr t" "tx_ok t"
      using two(5) txs_ok_at [of ?ad2 q] unfolding adapter_ok_def by metis
    then obtain bs where "rg_buffer t = Some bs" by (auto elim: tx_okE)
    from clean_tx_ring_ok [OF t this] obtain ad3 t' where d: "sketh_clean_tx_ring q ?ad2 = Some (Inr ad3)"
        "ad_tx_ring ad3 = map_option (\<lambda>ts. ts[q := t']) (ad_tx_ring ?ad2)" "tx_ok t'"
        "ad_rx_ring ad3 = ad_rx_ring ?ad2" "ad_up ad3 = ad_up ?ad2" "settings_of ad3 = settings_of ?ad2"
      by blast
    have n3: "ad_num_queues ad3 = ad_num_queues ?ad2" "ad_mtu ad3 = ad_mtu ?ad2"
      using d(6) by (simp_all add: settings_fields)
    have "txs_ok (put_tx q t' ?ad2)" using txs_ok_put two(5) d(3) unfolding adapter_ok_def by blast
    then have "txs_ok ad3" using txs_ok_cong [of ad3 "put_tx q t' ?ad2"] d(2) n3 by simp
    then have "adapter_ok ad3"
      using two(5) rxs_ok_cong [of ad3 ?ad2] d(4) n3 unfolding adapter_ok_def by metis
    moreover have "sketh_napi_poll e q b ad = Some (Inr (min b (length xs), ad3))"
      unfolding poll d(1) using False by simp
    ultimately show ?thesis using c d two by metis
  qed
qed

text \<open>One transmission.\<close>

lemma settings_update [simp]:
  "settings_of (ad\<lparr>ad_tx_restart := x\<rparr>) = settings_of ad" "settings_of (ad\<lparr>ad_freed := a\<rparr>) = settings_of ad"
  "settings_of (ad\<lparr>ad_tx_dropped := x\<rparr>) = settings_of ad" "settings_of (ad\<lparr>st_tx_dropped := x\<rparr>) = settings_of ad"
  by (simp_all add: settings_of_def)

lemma start_xmit_frees:
  assumes "\<not> (0 < ts_len s \<and> \<not> ad_down ad \<and> se_map e (ts_skb s))"
  shows "\<exists>ad'. sketh_start_xmit e s ad = Inr ad' \<and> ad_rx_ring ad' = ad_rx_ring ad \<and>
    ad_tx_ring ad' = ad_tx_ring ad \<and> ad_up ad' = ad_up ad \<and> settings_of ad' = settings_of ad \<and>
    ad_freed ad' = ad_freed ad @ [ts_skb s]"
proof -
  consider "ts_len s = 0" | "0 < ts_len s" "ad_down ad" | "0 < ts_len s" "\<not> ad_down ad" "\<not> se_map e (ts_skb s)"
    using assms by auto
  then show ?thesis by cases (simp_all add: sketh_start_xmit_def free_skb_def)
qed

lemma start_xmit_ok:
  assumes ok: "adapter_ok ad" and q: "ts_queue s < ad_num_queues ad"
  shows "\<exists>ad'. sketh_start_xmit e s ad = Inr ad' \<and> adapter_ok ad' \<and> ad_rx_ring ad' = ad_rx_ring ad \<and>
    ad_up ad' = ad_up ad \<and> settings_of ad' = settings_of ad"
proof (cases "0 < ts_len s \<and> \<not> ad_down ad \<and> se_map e (ts_skb s)")
  case True
  obtain t where t: "ring_at (ad_tx_ring ad) (ts_queue s) = Inr t" "tx_ok t"
    using ok q txs_ok_at unfolding adapter_ok_def by metis
  let ?ad = "put_tx (ts_queue s) (sent_ring s t) ad"
  have tx: "txs_ok ?ad" using ok t sent_ring_ok txs_ok_put unfolding adapter_ok_def by blast
  have "ad_mtu ?ad = ad_mtu ad" by (simp add: put_tx_def)
  then have "adapter_ok ?ad" using ok tx rxs_ok_cong [of ?ad ad] by (simp add: adapter_ok_def)
  then have "adapter_ok (?ad\<lparr>ad_tx_restart := x\<rparr>)" for x by (subst adapter_ok_cong [of _ ?ad]) simp_all
  moreover obtain x where "sketh_start_xmit e s ad = Inr (?ad\<lparr>ad_tx_restart := x\<rparr>)"
    using start_xmit_sends [OF t] True by blast
  ultimately show ?thesis by (intro exI [of _ "?ad\<lparr>ad_tx_restart := x\<rparr>"]) simp
next
  case False
  then obtain ad' where "sketh_start_xmit e s ad = Inr ad'" "ad_rx_ring ad' = ad_rx_ring ad"
      "ad_tx_ring ad' = ad_tx_ring ad" "ad_up ad' = ad_up ad" "settings_of ad' = settings_of ad"
    using start_xmit_frees by blast
  moreover have "adapter_ok ad' = adapter_ok ad"
    using calculation by (intro adapter_ok_cong) (simp_all add: settings_fields)
  ultimately show ?thesis using ok by blast
qed

lemma change_mtu_ok:
  assumes ok: "adapter_ok ad" and m: "m \<le> int (ad_mtu ad)"
  shows "adapter_ok (snd (sketh_change_mtu m ad))"
proof -
  have "adapter_ok (ad\<lparr>ad_mtu := nat m\<rparr>)"
  proof -
    have "rx_frame_len (ad\<lparr>ad_mtu := nat m\<rparr>) \<le> rx_frame_len ad"
      using ok m by (simp add: adapter_ok_def rx_frame_len_def ETH_HLEN_def)
    then have "rxs_ok (ad\<lparr>ad_mtu := nat m\<rparr>)"
      using ok unfolding adapter_ok_def rxs_ok_def by (auto split: option.splits intro: rx_ok_mono)
    moreover have "nat m \<le> ad_mtu ad" using m by simp
    ultimately show ?thesis using ok txs_ok_cong [of "ad\<lparr>ad_mtu := nat m\<rparr>" ad] by (simp add: adapter_ok_def)
  qed
  then show ?thesis using ok by (simp add: sketh_change_mtu_def)
qed

text \<open>Every call of the data path returns and keeps the invariant, and posts nothing new.\<close>

definition posted :: "nat \<Rightarrow> sketh_adapter \<Rightarrow> (nat \<times> nat) list \<Rightarrow> bool" where
  "posted q ad xs \<longleftrightarrow> (case ring_at (ad_rx_ring ad) q of Inl _ \<Rightarrow> False | Inr r \<Rightarrow> rx_holds r xs)"

lemma posted_unique:
  assumes "posted q ad xs" "posted q ad ys" shows "xs = ys"
proof -
  obtain r where r: "rx_holds r xs" "rx_holds r ys"
    using assms by (auto simp: posted_def split: sum.splits)
  then obtain bs where b: "rg_buffer r = Some bs" by (auto elim: rx_holdsE)
  let ?n = "rg_count r"
  have l: "length xs \<le> ?n" "length ys \<le> ?n" using r by (auto simp: rx_holds_def)
  have s: "j < ?n \<Longrightarrow> (if j < length xs then Some (xs ! j) else None) = (if j < length ys then Some (ys ! j) else None)" for j
    using rx_holds_slot [OF r(1) b] rx_holds_slot [OF r(2) b] by metis
  have "length xs = length ys"
  proof (rule ccontr)
    assume "length xs \<noteq> length ys"
    then show False using s [of "length xs"] s [of "length ys"] l by (cases "length xs < length ys") auto
  qed
  moreover have "j < length xs \<Longrightarrow> xs ! j = ys ! j" for j using s [of j] l calculation by auto
  ultimately show ?thesis by (rule nth_equalityI)
qed

lemma posted_rings: "ad_rx_ring ad' = ad_rx_ring ad \<Longrightarrow> posted q ad' xs = posted q ad xs"
  by (simp add: posted_def)

definition data_result :: "sketh_adapter \<Rightarrow> sketh_adapter \<Rightarrow> bool" where
  "data_result ad ad' \<longleftrightarrow> adapter_ok ad' \<and> ad_num_queues ad' = ad_num_queues ad \<and>
     (\<forall>q xs. posted q ad xs \<longrightarrow> (\<exists>ys. posted q ad' ys \<and> length ys \<le> length xs))"

lemma data_result_same:
  assumes "adapter_ok ad" "ad_rx_ring ad' = ad_rx_ring ad" "ad_tx_ring ad' = ad_tx_ring ad"
    "ad_num_queues ad' = ad_num_queues ad" "ad_mtu ad' = ad_mtu ad"
  shows "data_result ad ad'"
  using assms adapter_ok_cong [OF assms(2-5)] posted_rings [OF assms(2)] unfolding data_result_def by auto

lemma data_exec:
  assumes ok: "adapter_ok ad" and op: "data_op ad op" and e: "roomy e"
  shows "\<exists>ad'. sketh_exec e op ad = Some (Inr ad') \<and> data_result ad ad'"
proof (cases op)
  case (Sk_xmit s)
  then obtain ad' where "sketh_start_xmit e s ad = Inr ad'" "adapter_ok ad'" "ad_rx_ring ad' = ad_rx_ring ad"
      "settings_of ad' = settings_of ad"
    using start_xmit_ok [OF ok, of s e] op by auto
  then show ?thesis using Sk_xmit posted_rings [of ad' ad] by (auto simp: data_result_def settings_fields)
next
  case (Sk_poll q b)
  then have q: "q < ad_num_queues ad" using op by simp
  obtain r xs where r: "ring_at (ad_rx_ring ad) q = Inr r" "rx_holds r xs" "\<forall>s\<in>set xs. rx_frame_len ad \<le> snd s"
    using ok q rxs_ok_at unfolding adapter_ok_def by metis
  obtain ad' r' new where p: "sketh_napi_poll e q b ad = Some (Inr (min b (length xs), ad'))" "adapter_ok ad'"
      "ad_rx_ring ad' = map_option (\<lambda>rs. rs[q := r']) (ad_rx_ring ad)" "rx_holds r' (drop b xs @ new)"
      "length new \<le> min b (length xs)" "settings_of ad' = settings_of ad"
    using napi_poll_ok [OF ok q e r, of b] by (elim exE conjE) (rule that, assumption+)
  have "\<exists>ys. posted q' ad' ys \<and> length ys \<le> length zs" if z: "posted q' ad zs" for q' zs
  proof (cases "q' = q")
    case True
    then have "posted q ad zs" "posted q ad xs" using z r by (simp_all add: posted_def)
    then have "zs = xs" by (rule posted_unique)
    moreover have "posted q ad' (drop b xs @ new)" using p(3,4) r(1) by (simp add: posted_def)
    moreover have "length (drop b xs @ new) \<le> length xs" using p(5) by (simp add: min_def split: if_splits)
    ultimately show ?thesis using True by blast
  next
    case False
    then have "posted q' ad' zs" using z p(3) by (simp add: posted_def)
    then show ?thesis by blast
  qed
  then show ?thesis using p(1,2,6) Sk_poll by (auto simp: data_result_def forget_result_def settings_fields)
next
  case (Sk_mtu m)
  have "ad_rx_ring (snd (sketh_change_mtu m ad)) = ad_rx_ring ad"
    "ad_num_queues (snd (sketh_change_mtu m ad)) = ad_num_queues ad" by (simp_all add: sketh_change_mtu_def)
  moreover from this(1) have "posted q (snd (sketh_change_mtu m ad)) xs = posted q ad xs" for q xs
    by (rule posted_rings)
  moreover have "adapter_ok (snd (sketh_change_mtu m ad))" using Sk_mtu op by (intro change_mtu_ok [OF ok]) simp
  ultimately show ?thesis using Sk_mtu by (auto simp: data_result_def)
next
  case (Sk_prog p)
  then show ?thesis by (cases p) (simp_all add: sketh_xdp_setup_prog_def data_result_same [OF ok])
qed (use op in \<open>simp_all add: data_result_same [OF ok] sketh_tx_timeout_def sketh_reset_task_def
  sketh_set_rx_mode_def sketh_set_mac_address_def sketh_set_features_def sketh_get_stats64_def
  sketh_update_stats_def sketh_hw_offload_enable_def sketh_hw_offload_disable_def Let_def\<close>)

lemma data_step_result: "adapter_ok ad \<Longrightarrow> data_step ad l ad' \<Longrightarrow> data_result ad ad'"
  using data_exec [of ad "snd l" "fst l"] by (auto simp: data_step_def split: prod.splits)

interpretation sketh_data: lts data_step adapter_ok
  by unfold_locales (use data_step_result in \<open>auto simp: data_result_def\<close>)

interpretation sketh_posted: lts data_step
  "\<lambda>ad. adapter_ok ad \<and> (\<exists>ys. posted q ad ys \<and> length ys \<le> m)" for q m
  by unfold_locales (use data_step_result in \<open>fastforce simp: data_result_def intro: order_trans\<close>)

end
