(* ===== verification/Sketh_Claims.thy ===== *)
theory Sketh_Claims
  imports Sketh_Sys
begin

text \<open>
  What holds of the network driver \<open>modules/sketh_plat/sketh.c\<close>: ring indices, receiving,
  transmitting, the life cycle of a device, interrupts and binding, with a witness for each.
\<close>

section \<open>Indices\<close>

lemma next_to_clean_mod:
  assumes "ring_size n" "i < n"
  shows "unat (next_to_clean (word_of_nat i) (word_of_nat n)) = (i + n - 1) mod n"
proof -
  obtain k where k: "k \<le> 16" "n = 2 ^ k" using assms(1) by (rule ring_sizeE)
  have p: "1 \<le> i + n" using ring_size_pos [OF assms(1)] by linarith
  have "(word_of_nat i + word_of_nat n - 1 :: u16) = word_of_nat (i + n - 1)"
    using p by (simp add: of_nat_diff)
  then have "next_to_clean (word_of_nat i) (word_of_nat n) = word_of_nat (i + n - 1) AND (2 ^ k - 1)"
    by (simp add: next_to_clean_def k(2))
  then show ?thesis
    using k by (simp add: unat_and_mask16 unat_of_nat mod_u16_mod del: of_nat_add of_nat_diff)
qed

text \<open>Property C15: for every ring size that is a power of two up to 65536, \<open>next_to_use\<close> on truncated
  16-bit values is the successor modulo the size, also when repeated, \<open>next_to_clean\<close> is the
  predecessor, and each undoes the other.\<close>

theorem sketh_ring_index:
  assumes "ring_size n" "i < n"
  shows "((\<lambda>j. ring_next j n) ^^ k) i = (i + k) mod n \<and>
    unat (next_to_clean (word_of_nat i) (word_of_nat n)) = (i + n - 1) mod n \<and>
    unat (next_to_clean (word_of_nat (ring_next i n)) (word_of_nat n)) = i \<and>
    ring_next (unat (next_to_clean (word_of_nat i) (word_of_nat n))) n = i"
proof (intro conjI)
  show "((\<lambda>j. ring_next j n) ^^ k) i = (i + k) mod n"
    using assms by (induction k) (simp_all add: ring_next_mod mod_Suc_eq)
  show c: "unat (next_to_clean (word_of_nat i) (word_of_nat n)) = (i + n - 1) mod n"
    using assms by (rule next_to_clean_mod)
  have n: "0 < n" using ring_size_pos [OF assms(1)] .
  have "unat (next_to_clean (word_of_nat (ring_next i n)) (word_of_nat n)) = (Suc i mod n + n - 1) mod n"
    using next_to_clean_mod [OF assms(1) ring_next_less [OF assms(1)]] by (simp add: ring_next_mod assms(1))
  also have "\<dots> = i" using assms(2) n by (cases "Suc i = n") (auto simp: mod_if)
  finally show "unat (next_to_clean (word_of_nat (ring_next i n)) (word_of_nat n)) = i" .
  have "Suc ((i + n - 1) mod n) mod n = (i + n) mod n" using n by (simp add: mod_Suc_eq)
  then show "ring_next (unat (next_to_clean (word_of_nat i) (word_of_nat n))) n = i"
    unfolding c using assms by (simp add: ring_next_mod)
qed

theorem sketh_ring_index_witness:
  "((\<lambda>j. ring_next j 512) ^^ 3) 510 = 1 \<and> unat (next_to_clean 0 512) = 511"
  using sketh_ring_index [of 512 510 3] sketh_ring_index [of 512 0 0] by simp

section \<open>Receiving\<close>

text \<open>Property C4: polling a receive ring loses no skb and duplicates none. The packets processed
  are the first posted ones, up to the budget; every skb that was posted, or allocated meanwhile, is afterwards
  freed, handed to the network stack, or posted, exactly once, whatever the XDP program decides,
  whichever allocations and mappings fail.\<close>

theorem sketh_rx_conserves:
  assumes "ring_at (ad_rx_ring ad) q = Inr r" "rx_holds r xs" "\<forall>s\<in>set xs. rx_frame_len ad \<le> snd s" "txs_ok ad"
  shows "\<exists>r' ad' ys new. sketh_clean_rx_ring e q budget ad = Inr (min budget (length xs), ad') \<and>
    ring_at (ad_rx_ring ad') q = Inr r' \<and> rx_holds r' ys \<and> ys = drop budget xs @ new \<and> length ys \<le> length xs \<and>
    mset (ad_freed ad') + mset (map fst (ad_up ad')) + mset (map fst ys) =
      mset (ad_freed ad) + mset (map fst (ad_up ad)) + mset (map fst xs) +
      mset [ad_next_skb ad..<ad_next_skb ad']"
proof -
  obtain r' ad' new where c: "sketh_clean_rx_ring e q budget ad = Inr (min budget (length xs), ad')"
      "rx_holds r' (drop budget xs @ new)" "length new \<le> min budget (length xs)"
      "ad_rx_ring ad' = map_option (\<lambda>rs. rs[q := r']) (ad_rx_ring ad)"
      "mset (ad_freed ad') + mset (map fst (ad_up ad')) + mset (map fst (drop budget xs @ new)) =
        mset (ad_freed ad) + mset (map fst (ad_up ad)) + mset (map fst xs) + mset [ad_next_skb ad..<ad_next_skb ad']"
    using clean_rx_ring_ok [OF assms, of e budget] by (elim exE conjE) (rule that, assumption+)
  have "length (drop budget xs @ new) \<le> length xs" using c(3) by (simp add: min_def split: if_splits)
  moreover have "ring_at (ad_rx_ring ad') q = Inr r'" using c(4) assms(1) by simp
  ultimately show ?thesis using c(1,2,5) by blast
qed

text \<open>Property C32: without an XDP program and with an allocator that never fails, a poll hands the first
  posted skbs, up to the budget, to the network stack in order, each as a frame of full MTU size, and
  refills the ring to where it was. No descriptor is looked at: it does so whether or not the device
  has received anything.\<close>

theorem sketh_poll_delivers:
  assumes "adapter_ok ad" "q < ad_num_queues ad" "roomy e" "\<forall>n. se_alloc e n \<and> se_map e n"
    "ad_xdp_prog ad = None" "ring_at (ad_rx_ring ad) q = Inr r" "rx_holds r xs"
    "\<forall>s\<in>set xs. rx_frame_len ad \<le> snd s"
  shows "\<exists>ad' r' new. sketh_napi_poll e q budget ad = Some (Inr (min budget (length xs), ad')) \<and>
    ad_up ad' = ad_up ad @ map (\<lambda>s. (fst s, rx_frame_len ad)) (take budget xs) \<and>
    ring_at (ad_rx_ring ad') q = Inr r' \<and> rx_holds r' (drop budget xs @ new) \<and>
    length (drop budget xs @ new) = length xs"
proof -
  obtain ad' r' new where p: "sketh_napi_poll e q budget ad = Some (Inr (min budget (length xs), ad'))"
      "ad_rx_ring ad' = map_option (\<lambda>rs. rs[q := r']) (ad_rx_ring ad)" "rx_holds r' (drop budget xs @ new)"
      "(\<forall>n. se_alloc e n \<and> se_map e n) \<longrightarrow> length new = min budget (length xs)"
      "ad_xdp_prog ad = None \<longrightarrow> ad_up ad' = ad_up ad @ map (\<lambda>s. (fst s, rx_frame_len ad)) (take budget xs)"
    using napi_poll_ok [OF assms(1,2,3,6,7,8), of budget] by (elim exE conjE) (rule that, assumption+)
  have "length (drop budget xs @ new) = length xs" using p(4) assms(4) by (simp add: min_def)
  moreover have "ring_at (ad_rx_ring ad') q = Inr r'" using p(2) assms(6) by simp
  ultimately show ?thesis using p(1,3,5) assms(5) by blast
qed

text \<open>Property C7: from an adapter whose rings are set up, no sequence of data path calls (transmissions
  and polls on existing queues, time-outs, statistics, XDP programs, offload, addresses, a smaller MTU), with
  any failing allocations, mappings and redirects, reads or writes outside a ring, dereferences a null pointer,
  panics or hangs: after every such run every further call returns.\<close>

theorem sketh_data_path_safe:
  assumes "adapter_ok ad" "lts_run data_step ad ls ad'" "data_op ad' op" "roomy e"
  shows "\<exists>ad''. sketh_exec e op ad' = Some (Inr ad'') \<and> adapter_ok ad''"
proof -
  have "adapter_ok ad'" using sketh_data.run_good [OF assms(2,1)] .
  from data_exec [OF this assms(3,4)] show ?thesis by (auto simp: data_result_def)
qed

text \<open>Property C20: a receive ring never recovers. The number of skbs posted on it never grows under data path
  calls, so what a failed allocation costs is lost until the device is closed; once a ring is empty,
  every poll of it receives nothing, even with memory available again.\<close>

theorem sketh_rx_never_recovers:
  assumes "adapter_ok ad" "posted q ad xs" "lts_run data_step ad ls ad'"
  shows "(\<exists>ys. posted q ad' ys \<and> length ys \<le> length xs) \<and>
    (xs = [] \<and> roomy e \<and> q < ad_num_queues ad' \<longrightarrow>
      (\<exists>ad''. sketh_napi_poll e q budget ad' = Some (Inr (0, ad'')) \<and> posted q ad'' []))"
proof -
  have g: "adapter_ok ad' \<and> (\<exists>ys. posted q ad' ys \<and> length ys \<le> length xs)"
    using sketh_posted.run_good [OF assms(3), of q "length xs"] assms(1,2) by blast
  then obtain ys where y: "posted q ad' ys" "length ys \<le> length xs" by blast
  have "\<exists>ad''. sketh_napi_poll e q budget ad' = Some (Inr (0, ad'')) \<and> posted q ad'' []"
    if h: "xs = []" "roomy e" "q < ad_num_queues ad'"
  proof -
    obtain r where r: "ring_at (ad_rx_ring ad') q = Inr r" "rx_holds r []"
      using y h(1) by (auto simp: posted_def split: sum.splits)
    have s: "\<forall>s\<in>set ([] :: (nat \<times> nat) list). rx_frame_len ad' \<le> snd s" by simp
    have ok: "adapter_ok ad'" using g by (rule conjunct1)
    obtain ad'' r' new where p: "sketh_napi_poll e q budget ad' = Some (Inr (min budget (length ([] :: (nat \<times> nat) list)), ad''))"
        "ad_rx_ring ad'' = map_option (\<lambda>rs. rs[q := r']) (ad_rx_ring ad')" "rx_holds r' (drop budget [] @ new)"
        "length new \<le> min budget (length ([] :: (nat \<times> nat) list))"
      using napi_poll_ok [OF ok h(3,2) r s, of budget] by (elim exE conjE) (rule that, assumption+)
    then show ?thesis using r(1) by (simp add: posted_def)
  qed
  then show ?thesis using y by blast
qed

text \<open>Property C30: raising the MTU while the device is up can panic. The posted skbs keep the room of the
  old size; when the first of them has no room for a frame of the new size (the raise exceeds the four
  bytes left for a VLAN tag and whatever the allocator rounded up) and no XDP program is attached to
  take the frame first, the change is accepted and the next poll appends a frame of the new size to
  that skb.\<close>

theorem sketh_mtu_raise_panics:
  assumes "ring_at (ad_rx_ring ad) q = Inr r" "rx_holds r ((n, room) # xs)" "ad_xdp_prog ad = None" "0 < budget"
    "SKETH_MIN_MTU \<le> m" "m + int ETH_HLEN + ETH_FCS_LEN \<le> SKETH_MAX_MTU" "int room < m + int ETH_HLEN"
  shows "fst (sketh_change_mtu m ad) = 0 \<and>
    sketh_napi_poll e q budget (snd (sketh_change_mtu m ad)) = Some (Inl Skb_over_panic)"
proof -
  obtain k where k: "budget = Suc k" using assms(4) by (cases budget) auto
  obtain bs where b: "rg_buffer r = Some bs" using assms(2) by (auto elim: rx_holdsE)
  have c: "sketh_change_mtu m ad = (0, ad\<lparr>ad_mtu := nat m\<rparr>)"
    using assms(5,6) max_frame_small [of m] by (simp add: sketh_change_mtu_def SKETH_MIN_MTU_def)
  have l: "room < (nat m + ETH_HLEN) mod 4294967296"
    using assms(5,6,7) by (simp add: SKETH_MIN_MTU_def SKETH_MAX_MTU_def ETH_HLEN_def ETH_FCS_LEN_def)
  show ?thesis
    using assms(1,3) b rx_holds_first [OF assms(2) b] l
    by (simp add: c k sketh_napi_poll_def sketh_clean_rx_ring_def sketh_receive_skb_def xdp_verdict_def
      rx_frame_len_def Let_def put_rx_def)
qed

section \<open>Transmitting\<close>

text \<open>Property C11: cleaning a transmit ring and preparing it always end: whatever the indices of a set-up
  ring are, the loops from one index to the other reach it, cleaning frees the skbs in between and
  empties the ring.\<close>

theorem sketh_tx_loops_end:
  assumes "txs_ok ad" "q < ad_num_queues ad"
  shows "(\<exists>ad' t t'. sketh_clean_tx_ring q ad = Some (Inr ad') \<and> ring_at (ad_tx_ring ad) q = Inr t \<and>
      ring_at (ad_tx_ring ad') q = Inr t' \<and> tx_ok t' \<and> rg_next_to_clean t' = rg_next_to_use t \<and>
      tx_pending t' = 0 \<and> ad_freed ad' = ad_freed ad @
        tx_skbs (take (tx_pending t) (rotate (rg_next_to_clean t) (the (rg_buffer t))))) \<and>
    (\<exists>ad' t'. sketh_alloc_tx_buffers q ad = Some (Inr ad') \<and> ring_at (ad_tx_ring ad') q = Inr t' \<and> tx_ok t')"
proof -
  obtain t where t: "ring_at (ad_tx_ring ad) q = Inr t" "tx_ok t" using txs_ok_at assms by metis
  then obtain bs where b: "rg_buffer t = Some bs" by (auto elim: tx_okE)
  let ?t = "\<lambda>bs'. t\<lparr>rg_buffer := Some bs', rg_next_to_clean := rg_next_to_use t\<rparr>"
  obtain ad' bs' where c: "sketh_clean_tx_ring q ad = Some (Inr ad')"
      "ad_tx_ring ad' = map_option (\<lambda>ts. ts[q := ?t bs']) (ad_tx_ring ad)" "tx_ok (?t bs')"
      "ad_freed ad' = ad_freed ad @ tx_skbs (take (tx_pending t) (rotate (rg_next_to_clean t) bs))"
    using clean_tx_ring_ok [OF t b] by (elim exE conjE) (rule that, assumption+)
  have "ring_at (ad_tx_ring ad') q = Inr (?t bs')" using c(2) t(1) by simp
  moreover have "tx_pending (?t bs') = 0" by (simp add: tx_pending_def)
  moreover obtain t' where "sketh_alloc_tx_buffers q ad = Some (Inr (put_tx q t' ad))" "tx_ok t'"
    using alloc_tx_buffers_ok [OF t] by blast
  moreover have "ring_at (ad_tx_ring (put_tx q t' ad)) q = Inr t'" for t' using t(1) by simp
  ultimately show ?thesis using c t b
    by (intro conjI) (fastforce, blast)
qed

text \<open>Packets handed over one after the other.\<close>

fun send_all :: "sketh_env \<Rightarrow> tx_skb list \<Rightarrow> sketh_adapter \<Rightarrow> sketh_fault + sketh_adapter" where
  "send_all e [] ad = Inr ad"
| "send_all e (s # ss) ad = (case sketh_start_xmit e s ad of Inl f \<Rightarrow> Inl f | Inr ad1 \<Rightarrow> send_all e ss ad1)"

lemma send_all_holds:
  assumes "ring_at (ad_tx_ring ad) q = Inr t" "tx_holds t us" "2 * (length us + length ps) \<le> rg_count t"
    "\<forall>s\<in>set ps. 0 < ts_len s \<and> ts_queue s = q \<and> se_map e (ts_skb s)" "\<not> ad_down ad"
  shows "\<exists>ad' t'. send_all e ps ad = Inr ad' \<and> ring_at (ad_tx_ring ad') q = Inr t' \<and> rg_count t' = rg_count t \<and>
    tx_holds t' (us @ map ts_skb ps) \<and> ad_freed ad' = ad_freed ad"
  using assms
proof (induction ps arbitrary: ad t us)
  case Nil
  then show ?case by simp
next
  case (Cons s ps)
  have ok: "tx_ok t" using Cons.prems(2) by (simp add: tx_holds_def)
  have q: "ts_queue s = q" "0 < ts_len s" "se_map e (ts_skb s)" using Cons.prems(4) by simp_all
  obtain x where x: "sketh_start_xmit e s ad = Inr ((put_tx q (sent_ring s t) ad)\<lparr>ad_tx_restart := x\<rparr>)"
    using start_xmit_sends [of ad s t e] Cons.prems(1,5) ok q by auto
  let ?ad = "(put_tx q (sent_ring s t) ad)\<lparr>ad_tx_restart := x\<rparr>"
  have "ring_at (ad_tx_ring ?ad) q = Inr (sent_ring s t)" using Cons.prems(1) by simp
  moreover have "tx_holds (sent_ring s t) (us @ [ts_skb s])"
    using tx_holds_sent [OF Cons.prems(2)] Cons.prems(3) by simp
  moreover have c: "rg_count (sent_ring s t) = rg_count t" by (simp add: sent_ring_def Let_def)
  moreover have "\<not> ad_down ?ad" using Cons.prems(5) by (simp add: put_tx_def)
  ultimately obtain ad' t' where "send_all e ps ?ad = Inr ad'" "ring_at (ad_tx_ring ad') q = Inr t'"
      "rg_count t' = rg_count t" "tx_holds t' ((us @ [ts_skb s]) @ map ts_skb ps)" "ad_freed ad' = ad_freed ?ad"
    using Cons.IH [of ?ad "sent_ring s t" "us @ [ts_skb s]"] Cons.prems(3,4) by auto
  then show ?case using x by auto
qed

lemma tx_skbs_slots:
  "map tb_skb bs = concat (map (\<lambda>s. [Some s, None]) ss) \<Longrightarrow> tx_skbs bs = ss"
proof (induction ss arbitrary: bs)
  case Nil
  then show ?case by simp
next
  case (Cons s ss)
  then obtain b c cs where "bs = b # c # cs" "tb_skb b = Some s" "tb_skb c = None"
      "map tb_skb cs = concat (map (\<lambda>s. [Some s, None]) ss)"
    by (auto simp: map_eq_Cons_conv)
  then show ?case using Cons.IH by simp
qed

lemma tx_holds_skbs:
  assumes "tx_holds t ss" "rg_buffer t = Some bs"
  shows "tx_skbs (take (tx_pending t) (rotate (rg_next_to_clean t) bs)) = (if 2 * length ss < rg_count t then ss else [])"
proof (cases "2 * length ss < rg_count t")
  case True
  have h: "rg_next_to_use t = (rg_next_to_clean t + 2 * length ss) mod rg_count t" "tx_ok t"
    using assms(1) by (auto simp: tx_holds_def)
  then have "(rg_next_to_clean t + tx_pending t) mod rg_count t = (rg_next_to_clean t + 2 * length ss) mod rg_count t"
    using tx_pending_stop by metis
  then have p: "tx_pending t = 2 * length ss"
    using add_mod_inj tx_pending_less [OF h(2)] True by blast
  have m: "map tb_skb (rotate (rg_next_to_clean t) bs) =
      concat (map (\<lambda>s. [Some s, None]) ss) @ replicate (rg_count t - 2 * length ss) None"
    using assms by (simp add: tx_holds_def)
  have "map tb_skb (take (tx_pending t) (rotate (rg_next_to_clean t) bs)) = concat (map (\<lambda>s. [Some s, None]) ss)"
    unfolding take_map [symmetric] m p by (simp add: length_slots)
  then have "tx_skbs (take (tx_pending t) (rotate (rg_next_to_clean t) bs)) = ss" by (rule tx_skbs_slots)
  then show ?thesis using True by simp
next
  case False
  have "2 * length ss = rg_count t" "rg_next_to_use t = (rg_next_to_clean t + 2 * length ss) mod rg_count t" "tx_ok t"
    using assms False by (auto simp: tx_holds_def)
  then have "rg_next_to_use t = rg_next_to_clean t" by (auto simp: tx_ok_def)
  then show ?thesis using False by (simp add: tx_pending_def)
qed

text \<open>Property C14: packets sent on an empty ring are freed by the next cleaning, in order, as long as they fill
  less than half of the ring. A packet takes two slots, one for its buffer and the next for its
  descriptor, so that with half as many packets as slots the indices meet: the ring passes for empty, and cleaning
  frees none of them.\<close>

theorem sketh_tx_completion:
  assumes "ring_at (ad_tx_ring ad) q = Inr t" "tx_holds t []" "2 * length ps \<le> rg_count t"
    "\<forall>s\<in>set ps. 0 < ts_len s \<and> ts_queue s = q \<and> se_map e (ts_skb s)" "\<not> ad_down ad"
  shows "\<exists>ad1 ad2. send_all e ps ad = Inr ad1 \<and> sketh_clean_tx_ring q ad1 = Some (Inr ad2) \<and>
    ad_freed ad2 = ad_freed ad @ (if 2 * length ps < rg_count t then map ts_skb ps else [])"
proof -
  obtain ad1 t1 where s: "send_all e ps ad = Inr ad1" "ring_at (ad_tx_ring ad1) q = Inr t1" "rg_count t1 = rg_count t"
      "tx_holds t1 (map ts_skb ps)" "ad_freed ad1 = ad_freed ad"
    using send_all_holds [OF assms(1,2) _ assms(4,5)] assms(3) by auto
  have ok: "tx_ok t1" using s(4) by (simp add: tx_holds_def)
  then obtain bs where b: "rg_buffer t1 = Some bs" by (auto elim: tx_okE)
  obtain ad2 where "sketh_clean_tx_ring q ad1 = Some (Inr ad2)"
      "ad_freed ad2 = ad_freed ad1 @ tx_skbs (take (tx_pending t1) (rotate (rg_next_to_clean t1) bs))"
    using clean_tx_ring_ok [OF s(2) ok b] by blast
  then show ?thesis using s tx_holds_skbs [OF s(4) b] by simp
qed

section \<open>Stopping\<close>

text \<open>Nothing but opening clears the state bit.\<close>

lemma alloc_rx_loop_down:
  "alloc_rx_loop e k i s = Inr (i', r', ad') \<Longrightarrow> ad_down ad' = ad_down (snd s)"
proof (induction e k i s arbitrary: i' r' ad' rule: alloc_rx_loop.induct)
  case (1 e i s)
  then show ?case by auto
next
  case (2 e k i r ad)
  show ?case
  proof (cases "se_alloc e (ad_next_skb ad)")
    case False
    then show ?thesis using "2.prems" by (auto simp: Let_def)
  next
    case True
    then obtain bs where b: "rg_buffer r = Some bs" "\<not> length bs \<le> i"
      using "2.prems" by (auto simp: Let_def split: option.splits if_splits)
    show ?thesis
    proof (cases "se_map e (ad_next_skb ad)")
      case False
      then show ?thesis using "2.prems" b True by (auto simp: Let_def free_skb_def)
    next
      case m: True
      then show ?thesis using "2.IH" [OF refl _ b(1) refl b(2)] "2.prems" b True
        by (simp add: Let_def)
    qed
  qed
qed

lemma alloc_rx_down: "sketh_alloc_rx_buffers e q k ad = Inr ad' \<Longrightarrow> ad_down ad' = ad_down ad"
  by (auto simp: sketh_alloc_rx_buffers_def put_rx_def dest: alloc_rx_loop_down split: sum.splits prod.splits)

lemma xdp_tx_down: "sketh_xdp_tx e s len ad = Inr (x, ad') \<Longrightarrow> ad_down ad' = ad_down ad"
  by (auto simp: sketh_xdp_tx_def put_tx_def Let_def split: if_splits sum.splits option.splits)

lemma receive_down: "sketh_receive_skb e s len ad = Inr ad' \<Longrightarrow> ad_down ad' = ad_down ad"
  by (cases s; cases "xdp_verdict e (fst s) ad")
    (auto simp: sketh_receive_skb_def free_skb_def count_drop_def Let_def dest: xdp_tx_down
      split: if_splits sum.splits)

lemma clean_rx_loop_down: "clean_rx_loop e q k ad = Inr (n, ad') \<Longrightarrow> ad_down ad' = ad_down ad"
proof (induction k arbitrary: ad n)
  case 0
  then show ?case by simp
next
  case (Suc k)
  then show ?case
    by (auto simp: Let_def put_rx_def split: sum.splits option.splits if_splits dest!: receive_down)
qed

lemma clean_rx_ring_down: "sketh_clean_rx_ring e q b ad = Inr (n, ad') \<Longrightarrow> ad_down ad' = ad_down ad"
  by (auto simp: sketh_clean_rx_ring_def dest!: clean_rx_loop_down alloc_rx_down split: sum.splits if_splits)

lemma clean_tx_loop_down:
  "clean_tx_loop n stop i bufs p b ad = Some res \<Longrightarrow> res = Inr (x, y, z, ad') \<Longrightarrow> ad_down ad' = ad_down ad"
proof (induction arbitrary: x y z ad' rule: clean_tx_loop.raw_induct [rotated, consumes 1, case_names step])
  case (step f n stop i bufs p b ad res)
  show ?case
    using step.hyps step.prems
    by (auto simp: sketh_unmap_and_free_tx_buffer_def free_skb_def dest!: step.IH split: if_splits option.splits)
qed

lemma clean_tx_ring_down: "sketh_clean_tx_ring q ad = Some (Inr ad') \<Longrightarrow> ad_down ad' = ad_down ad"
  by (auto simp: sketh_clean_tx_ring_def put_tx_def Let_def dest!: clean_tx_loop_down
    split: sum.splits option.splits if_splits)

lemma napi_poll_down: "sketh_napi_poll e q b ad = Some (Inr (n, ad')) \<Longrightarrow> ad_down ad' = ad_down ad"
  by (auto simp: sketh_napi_poll_def Let_def dest!: clean_rx_ring_down clean_tx_ring_down
    split: sum.splits option.splits if_splits)

lemma each_queue_down:
  assumes "\<And>q ad ad'. f q ad = Some (Inr ad') \<Longrightarrow> ad_down ad' = ad_down ad"
  shows "each_queue f qs ad = Some (Inr ad') \<Longrightarrow> ad_down ad' = ad_down ad"
proof (induction qs arbitrary: ad)
  case Nil
  then show ?case by simp
next
  case (Cons q qs)
  then show ?case using assms by (auto split: option.splits sum.splits)
qed

lemma napi_rx_down: "napi_rx on q ad = Some (Inr ad') \<Longrightarrow> ad_down ad' = ad_down ad"
  by (auto simp: napi_rx_def put_rx_def split: sum.splits)

lemma free_queue_memory_down: "free_queue_memory q ad = Some (Inr ad') \<Longrightarrow> ad_down ad' = ad_down ad"
  by (auto simp: free_queue_memory_def put_rx_def put_tx_def Let_def split: sum.splits if_splits)

lemma free_irqs_down: "sketh_free_irqs ad = Inr ad' \<Longrightarrow> ad_down ad' = ad_down ad"
  by (auto simp: sketh_free_irqs_def split: option.splits if_splits)

lemma stop_down:
  assumes "sketh_stop ad = Some (Inr (x, ad'))" shows "ad_down ad'"
proof -
  obtain ad1 ad2 where "each_queue (napi_rx False) [0..<ad_num_queues ad] (ad\<lparr>ad_down := True, ad_queues_stopped := True\<rparr>) = Some (Inr ad1)"
      "sketh_free_irqs ad1 = Inr ad2" "each_queue free_queue_memory [0..<ad_num_queues ad2] ad2 = Some (Inr ad')"
    using assms by (auto simp: sketh_stop_def Let_def split: option.splits sum.splits)
  then show ?thesis
    using each_queue_down [OF napi_rx_down] each_queue_down [OF free_queue_memory_down] free_irqs_down by fastforce
qed

text \<open>The calls as one step function over a state that a fault or a hang ends.\<close>

definition sketh_next ::
  "(sketh_fault + sketh_adapter) option \<Rightarrow> sketh_env \<times> sketh_op \<Rightarrow> (sketh_fault + sketh_adapter) option" where
  "sketh_next st l = (case st of Some (Inr ad) \<Rightarrow> sketh_exec (fst l) (snd l) ad | _ \<Rightarrow> st)"

definition is_down :: "(sketh_fault + sketh_adapter) option \<Rightarrow> bool" where
  "is_down st = (case st of Some (Inr ad) \<Rightarrow> ad_down ad | _ \<Rightarrow> True)"

lemma forget_result_Inr: "forget_result r = Some (Inr ad) \<longleftrightarrow> (\<exists>x. r = Some (Inr (x, ad)))"
  by (cases r; cases "the r") (auto simp: forget_result_def)

lemma exec_down:
  assumes "ad_down ad" shows "is_down (sketh_exec e op ad)"
proof (cases op)
  case (Sk_xmit s)
  then show ?thesis using assms by (simp add: is_down_def sketh_start_xmit_def free_skb_def)
next
  case (Sk_poll q b)
  then show ?thesis using assms
    by (auto simp: is_down_def forget_result_Inr dest: napi_poll_down split: option.splits sum.splits)
next
  case Sk_stop
  then show ?thesis using assms stop_down
    by (auto simp: is_down_def core_stop_def split: option.splits sum.splits if_splits)
next
  case Sk_suspend
  then show ?thesis using assms stop_down
    by (auto simp: is_down_def forget_result_Inr sketh_platform_suspend_def Let_def split: option.splits sum.splits if_splits)
qed (use assms in \<open>auto simp: is_down_def core_open_def sketh_open_def sketh_platform_resume_def forget_result_def
  sketh_tx_timeout_def sketh_reset_task_def sketh_set_rx_mode_def sketh_set_mac_address_def sketh_change_mtu_def
  sketh_set_features_def sketh_get_stats64_def sketh_update_stats_def sketh_xdp_setup_prog_def
  sketh_hw_offload_enable_def sketh_hw_offload_disable_def Let_def split: option.splits\<close>)

interpretation sketh_stopped: step_system sketh_next is_down
proof unfold_locales
  fix st l
  assume d: "is_down st"
  consider (running) ad where "st = Some (Inr ad)" | (ended) "\<nexists>ad. st = Some (Inr ad)" by blast
  then show "is_down (sketh_next st l)"
  proof cases
    case running
    then have "ad_down ad" using d by (simp add: is_down_def)
    then show ?thesis using running exec_down by (simp add: sketh_next_def)
  next
    case ended
    then show ?thesis by (auto simp: sketh_next_def is_down_def split: option.splits sum.splits)
  qed
qed

text \<open>Property C18: a device that has been stopped once, by closing or by suspending it, never comes up again. Opening
  tests the bit that stopping sets and only a successful open clears: whatever calls follow,
  opening answers \<open>-EBUSY\<close> and changes nothing, resuming a device that was up fails, and every packet is dropped.\<close>

theorem sketh_stop_is_final:
  assumes "sketh_stop ad0 = Some (Inr (x, ad))" "foldl sketh_next (Some (Inr ad)) ls = Some (Inr ad')"
  shows "sketh_open e ad' = Some (Inr (- EBUSY, ad')) \<and>
    (nd_running ad' \<longrightarrow> sketh_platform_resume e ad' = Some (Inr (- EBUSY, ad'))) \<and>
    (0 < ts_len s \<longrightarrow> sketh_start_xmit e s ad' =
      Inr ((free_skb (ts_skb s) ad')\<lparr>st_tx_dropped := st_tx_dropped ad' + 1\<rparr>))"
proof -
  have "is_down (Some (Inr ad))" using stop_down [OF assms(1)] by (simp add: is_down_def)
  then have "is_down (Some (Inr ad'))" using sketh_stopped.run_inv [of "Some (Inr ad)" ls] assms(2) by simp
  then have "ad_down ad'" by (simp add: is_down_def)
  then show ?thesis by (simp add: sketh_open_def sketh_platform_resume_def sketh_start_xmit_def)
qed

section \<open>Interrupts\<close>

text \<open>The handlers of the first \<open>i\<close> queues, the last one first.\<close>

definition handlers :: "nat list \<Rightarrow> nat \<Rightarrow> (nat \<times> nat) list" where
  "handlers vs i = rev (map (\<lambda>j. (vs ! j, j)) [0..<i])"

lemma handlers_Suc [simp]: "handlers vs (Suc i) = (vs ! i, i) # handlers vs i"
  by (simp add: handlers_def)

lemma unwind_handlers: "unwind_irqs vs i (handlers vs i @ hs) = hs"
  by (induction i) (simp_all add: handlers_def)

lemma request_loop_outcome:
  assumes "i + k \<le> length vs"
  shows "request_loop e vs k i (handlers vs i @ hs) = Inr (if \<forall>j. i \<le> j \<and> j < i + k \<longrightarrow> se_irq e j = 0
    then (0, handlers vs (i + k) @ hs) else (se_irq e (LEAST j. i \<le> j \<and> se_irq e j \<noteq> 0), hs))"
  using assms
proof (induction k arbitrary: i)
  case 0
  then show ?case by simp
next
  case (Suc k)
  show ?case
  proof (cases "se_irq e i = 0")
    case True
    have "(\<forall>j. i \<le> j \<and> j < i + Suc k \<longrightarrow> se_irq e j = 0) \<longleftrightarrow> (\<forall>j. Suc i \<le> j \<and> j < Suc i + k \<longrightarrow> se_irq e j = 0)"
      using True by (metis Suc_leD add_Suc_right add_Suc not_less_eq_eq order_le_less not_less)
    moreover have "(i \<le> j \<and> se_irq e j \<noteq> 0) = (Suc i \<le> j \<and> se_irq e j \<noteq> 0)" for j
      using True by (metis Suc_leD Suc_leI order_le_less)
    ultimately show ?thesis using Suc.IH [of "Suc i"] Suc.prems True by simp
  next
    case False
    have "(LEAST j. i \<le> j \<and> se_irq e j \<noteq> 0) = i" using False by (intro Least_equality) auto
    then show ?thesis using False Suc.prems by (auto simp: unwind_handlers)
  qed
qed

lemma free_irqs_fold:
  "distinct hs \<Longrightarrow> fold (free_irq_of vs) is hs = filter (\<lambda>h. \<not> (snd h \<in> set is \<and> h = (vs ! snd h, snd h) \<and> fst h \<noteq> 0)) hs"
proof (induction "is" arbitrary: hs)
  case Nil
  then show ?case by simp
next
  case (Cons i is')
  have one: "free_irq_of vs i hs = filter (\<lambda>h. \<not> (h = (vs ! i, i) \<and> vs ! i \<noteq> 0)) hs"
    using Cons.prems by (auto simp: free_irq_of_def distinct_remove1_removeAll removeAll_filter_not_eq)
      (metis (mono_tags, lifting) filter_True)
  show ?case using Cons by (auto simp: one intro!: filter_cong)
qed

text \<open>Property C33: requesting the interrupts is all or nothing: either every queue has its handler, or the first
  error is returned and exactly the handlers from before are registered. Freeing them after success takes away
  those with a vector other than 0 only; the probe functions leave every vector 0, so that all handlers stay
  registered with the memory of their rings gone.\<close>

theorem sketh_irqs_requested:
  assumes "ad_msix_entries ad = Some vs" "0 < ad_num_queues ad" "ad_num_queues ad \<le> length vs" "ad_irqs ad = []"
  shows "if \<forall>i < ad_num_queues ad. se_irq e i = 0
    then \<exists>ad1 ad2. sketh_request_irqs e ad = Inr (0, ad1) \<and> ad_irqs ad1 = handlers vs (ad_num_queues ad) \<and>
      sketh_free_irqs ad1 = Inr ad2 \<and>
      ad_irqs ad2 = filter (\<lambda>h. fst h = 0) (handlers vs (ad_num_queues ad)) \<and> ad_msix_entries ad2 = None
    else sketh_request_irqs e ad = Inr (se_irq e (LEAST i. se_irq e i \<noteq> 0), ad)"
proof (cases "\<forall>i < ad_num_queues ad. se_irq e i = 0")
  case True
  let ?n = "ad_num_queues ad" and ?ad = "ad\<lparr>ad_irqs := handlers vs (ad_num_queues ad)\<rparr>"
  have h0: "handlers vs 0 = []" by (simp add: handlers_def)
  have "sketh_request_irqs e ad = Inr (0, ?ad)"
    using request_loop_outcome [of 0 ?n vs e "[]"] True assms h0 by (simp add: sketh_request_irqs_def)
  moreover have "distinct (handlers vs ?n)" by (simp add: handlers_def distinct_map inj_on_def)
  then have "fold (free_irq_of vs) [0..<?n] (handlers vs ?n) = filter (\<lambda>h. fst h = 0) (handlers vs ?n)"
    by (auto simp: free_irqs_fold handlers_def intro!: filter_cong)
  ultimately show ?thesis using True assms by (simp add: sketh_free_irqs_def)
next
  case False
  have h0: "handlers vs 0 = []" by (simp add: handlers_def)
  have "ad\<lparr>ad_irqs := []\<rparr> = ad" using assms(4) by simp
  then have "sketh_request_irqs e ad = Inr (se_irq e (LEAST i. se_irq e i \<noteq> 0), ad)"
    using request_loop_outcome [of 0 "ad_num_queues ad" vs e "[]"] False assms h0
    by (auto simp: sketh_request_irqs_def)
  then show ?thesis by (simp only: False if_False)
qed

section \<open>Binding\<close>

lemma each_queue_id:
  "(\<And>q. q \<in> set qs \<Longrightarrow> f q ad = Some (Inr ad)) \<Longrightarrow> each_queue f qs ad = Some (Inr ad)"
  by (induction qs) simp_all

lemma put_tx_same: "ring_at (ad_tx_ring ad) q = Inr t \<Longrightarrow> put_tx q t ad = ad"
  by (cases "ad_tx_ring ad") (auto simp: put_tx_def ring_at_Inr)

lemma alloc_rx_loop_null:
  "0 < k \<Longrightarrow> rg_buffer r = None \<Longrightarrow> se_alloc e (ad_next_skb ad) \<Longrightarrow> alloc_rx_loop e k i (r, ad) = Inl Null_pointer"
  by (cases k) (simp_all add: Let_def)

text \<open>What the rings of both probe functions look like when they configure.\<close>

definition unset_rings :: "sketh_adapter \<Rightarrow> bool" where
  "unset_rings ad \<longleftrightarrow> 0 < ad_num_queues ad \<and>
     ad_rx_ring ad = Some (replicate (ad_num_queues ad) (new_ring SKETH_RX_MAX_DESC)) \<and>
     ad_tx_ring ad = Some (replicate (ad_num_queues ad) (new_ring SKETH_TX_MAX_DESC))"

lemma configure_unset:
  assumes u: "unset_rings ad" and a: "se_alloc e (ad_next_skb ad)"
  shows "sketh_configure e ad = Some (Inl Null_pointer)"
proof -
  let ?n = "ad_num_queues ad"
  have t: "q < ?n \<Longrightarrow> ring_at (ad_tx_ring ad) q = Inr (new_ring SKETH_TX_MAX_DESC)" for q
    using u by (simp add: unset_rings_def ring_at_def)
  have r: "q < ?n \<Longrightarrow> ring_at (ad_rx_ring ad) q = Inr (new_ring SKETH_RX_MAX_DESC)" for q
    using u by (simp add: unset_rings_def ring_at_def)
  have "alloc_tx_loop (new_ring SKETH_TX_MAX_DESC) = Some (Inr (new_ring SKETH_TX_MAX_DESC))"
    by (subst alloc_tx_loop.simps) (simp add: new_ring_def)
  then have "sketh_configure_tx ad = Some (Inr ad)"
    unfolding sketh_configure_tx_def
    by (intro each_queue_id) (simp add: sketh_alloc_tx_buffers_def t put_tx_same)
  moreover have "sketh_set_rx_buffer_len ad = Some (Inr ad)"
    unfolding sketh_set_rx_buffer_len_def
    by (intro each_queue_id) (simp add: drop_first_buffer_def r new_ring_def)
  moreover have "fill_queue e 0 ad = Some (Inl Null_pointer)"
  proof -
    have "0 < SKETH_RX_MAX_DESC" by (simp add: SKETH_RX_MAX_DESC_def)
    then have "alloc_rx_loop e SKETH_RX_MAX_DESC 0 (new_ring SKETH_RX_MAX_DESC, ad) = Inl Null_pointer"
      using a by (intro alloc_rx_loop_null) (simp_all add: new_ring_def)
    moreover have "rg_count (new_ring n :: sketh_rx_buffer sketh_ring) = n"
      "rg_next_to_use (new_ring n :: sketh_rx_buffer sketh_ring) = 0" for n by (simp_all add: new_ring_def)
    moreover have "ring_at (ad_rx_ring ad) 0 = Inr (new_ring SKETH_RX_MAX_DESC)"
      using r u by (simp add: unset_rings_def)
    ultimately show ?thesis by (simp add: fill_queue_def sketh_alloc_rx_buffers_def)
  qed
  moreover obtain m where "?n = Suc m" using u by (auto simp: unset_rings_def gr0_conv_Suc)
  then have "[0..<?n] = 0 # [1..<?n]" by (simp add: upt_conv_Cons)
  ultimately show ?thesis by (simp add: sketh_configure_def sketh_configure_rx_def)
qed

text \<open>Both probe functions reach configuration only when every step before it succeeds.\<close>

definition gets_queues :: "sketh_probe_env \<Rightarrow> bool" where
  "gets_queues pe \<longleftrightarrow> pe_netdev pe \<and> 0 < pe_num_queues pe \<and> pe_rx_ring pe \<and> pe_tx_ring pe"

lemma alloc_queues_outcome:
  "sketh_alloc_queues pe (clamp_queues (pe_num_queues pe)) new_adapter =
    (if 0 < pe_num_queues pe \<and> pe_rx_ring pe \<and> pe_tx_ring pe then 0 else - ENOMEM,
     new_adapter\<lparr>
       ad_rx_ring := (if 0 < pe_num_queues pe \<and> pe_rx_ring pe
         then Some (replicate (nat (clamp_queues (pe_num_queues pe))) (new_ring SKETH_RX_MAX_DESC)) else None),
       ad_tx_ring := (if 0 < pe_num_queues pe \<and> pe_tx_ring pe
         then Some (replicate (nat (clamp_queues (pe_num_queues pe))) (new_ring SKETH_TX_MAX_DESC)) else None),
       ad_num_queues := nat (clamp_queues (pe_num_queues pe))\<rparr>)"
  by (simp add: sketh_alloc_queues_def clamp_queues_def SKETH_MAX_NUM_QUEUES_def Let_def)

definition half_queues :: "sketh_probe_env \<Rightarrow> sketh_mem list" where
  "half_queues pe = (if pe_netdev pe \<and> 0 < pe_num_queues pe \<and> pe_rx_ring pe \<noteq> pe_tx_ring pe
     then [if pe_rx_ring pe then Mem_rx_ring else Mem_tx_ring] else [])"

text \<open>Property C19: no probe function can succeed while memory lasts. Configuration posts receive buffers, but the
  buffer arrays are allocated by functions that nothing calls: with one skb allocated, both probe functions
  write through a null pointer. A failure before that point undoes everything, except that a
  ring array is lost when the other one cannot be allocated.\<close>

theorem sketh_probe_outcome:
  assumes "se_alloc e 0" "h = \<lparr>sh_enabled = False, sh_regions = False, sh_netdev = 0, sh_registered = False,
    sh_hook = False, sh_mapped = False, sh_drvdata = None, sh_leaked = []\<rparr>"
  shows "(if pe_enable pe = 0 \<and> pe_regions pe = 0 \<and> gets_queues pe \<and> pe_msix pe
      then sketh_probe pe e h = Some (Inl Null_pointer)
      else \<exists>err. err \<noteq> 0 \<and> sketh_probe pe e h = Some (Inr (err, h\<lparr>sh_leaked :=
        (if pe_enable pe = 0 \<and> pe_regions pe = 0 then half_queues pe else [])\<rparr>))) \<and>
    (if gets_queues pe \<and> pe_res pe \<and> 0 \<le> pe_ioremap pe
      then sketh_platform_probe pe e h = Some (Inl Null_pointer)
      else \<exists>err. err \<noteq> 0 \<and> sketh_platform_probe pe e h = Some (Inr (err, h\<lparr>sh_leaked := half_queues pe\<rparr>)))"
proof -
  have u: "0 < pe_num_queues pe \<Longrightarrow> 0 < clamp_queues (pe_num_queues pe)"
    by (simp add: clamp_queues_def SKETH_MAX_NUM_QUEUES_def)
  have init: "unset_rings (init_netdev pe ad) = unset_rings ad" "ad_next_skb (init_netdev pe ad) = ad_next_skb ad" for ad
    by (simp_all add: init_netdev_def set_all_features_def unset_rings_def)
  have c: "unset_rings ad \<Longrightarrow> ad_next_skb ad = 0 \<Longrightarrow> sketh_configure e (init_netdev pe ad) = Some (Inl Null_pointer)" for ad
    using configure_unset [of "init_netdev pe ad" e] assms(1) by (simp add: init)
  have n: "ad_next_skb new_adapter = 0" "ad_rx_ring new_adapter = None" "ad_tx_ring new_adapter = None"
      "ad_msix_entries new_adapter = None" by (simp_all add: new_adapter_def)
  have "(if pe_enable pe = 0 \<and> pe_regions pe = 0 \<and> gets_queues pe \<and> pe_msix pe
      then sketh_probe pe e h = Some (Inl Null_pointer)
      else \<exists>err. err \<noteq> 0 \<and> sketh_probe pe e h = Some (Inr (err, h\<lparr>sh_leaked :=
        (if pe_enable pe = 0 \<and> pe_regions pe = 0 then half_queues pe else [])\<rparr>)))"
    unfolding sketh_probe_def alloc_queues_outcome Let_def prod.case gets_queues_def half_queues_def
    by (auto simp: assms(2) c u n unset_rings_def pci_release_def free_netdev_def owned_memory_def sketh_free_queues_def)
  moreover have "(if gets_queues pe \<and> pe_res pe \<and> 0 \<le> pe_ioremap pe
      then sketh_platform_probe pe e h = Some (Inl Null_pointer)
      else \<exists>err. err \<noteq> 0 \<and> sketh_platform_probe pe e h = Some (Inr (err, h\<lparr>sh_leaked := half_queues pe\<rparr>)))"
    unfolding sketh_platform_probe_def alloc_queues_outcome Let_def prod.case gets_queues_def half_queues_def
    by (auto simp: assms(2) c u n unset_rings_def free_netdev_def owned_memory_def sketh_free_queues_def
      sketh_get_resources_def)
  ultimately show ?thesis by blast
qed

section \<open>Configuring\<close>

definition fresh_skbs :: "sketh_env \<Rightarrow> sketh_adapter \<Rightarrow> nat \<Rightarrow> (nat \<times> nat) list" where
  "fresh_skbs e ad k = map (\<lambda>n. (n, se_room e (rx_buf_len ad))) [ad_next_skb ad..<ad_next_skb ad + k]"

text \<open>With an allocator that never fails, posting overwrites whatever is in the slots.\<close>

lemma alloc_rx_loop_all:
  assumes "\<forall>n. se_alloc e n \<and> se_map e n" "ring_size (rg_count r)" "rg_buffer r = Some bs" "length bs = rg_count r"
    "rotate c bs = P @ R" "i = (c + length P) mod rg_count r" "k \<le> length R"
  shows "\<exists>bs'. alloc_rx_loop e k i (r, ad) = Inr ((c + length P + k) mod rg_count r, r\<lparr>rg_buffer := Some bs'\<rparr>,
      ad\<lparr>ad_next_skb := ad_next_skb ad + k\<rparr>) \<and> length bs' = rg_count r \<and>
    map rb_skb (rotate c bs') = map rb_skb P @ map Some (fresh_skbs e ad k) @ map rb_skb (drop k R)"
  using assms(2-)
proof (induction k arbitrary: i r bs P R ad)
  case 0
  then show ?case by (intro exI [of _ bs]) (simp add: fresh_skbs_def)
next
  case (Suc k)
  obtain x R' where R: "R = x # R'" using Suc.prems(6) by (cases R) auto
  let ?n = "rg_count r" and ?b = "\<lparr>rb_skb = Some (ad_next_skb ad, se_room e (rx_buf_len ad)), rb_dma = True\<rparr>"
  let ?r = "r\<lparr>rg_buffer := Some (bs[i := ?b])\<rparr>" and ?ad = "ad\<lparr>ad_next_skb := ad_next_skb ad + 1\<rparr>"
  have l: "length P < length bs" using arg_cong [OF Suc.prems(4), of length] R by simp
  then have i: "i < length bs" using Suc.prems(3,5) by auto
  have s: "alloc_rx_loop e (Suc k) i (r, ad) = alloc_rx_loop e k (ring_next i ?n) (?r, ?ad)"
    using assms(1) Suc.prems(2) i by (simp add: Let_def)
  have "rotate c (bs[i := ?b]) = (P @ [?b]) @ R'"
    using rotate_update [OF l, of c ?b] Suc.prems(3,4,5) R by simp
  moreover have "ring_next i ?n = (c + length (P @ [?b])) mod rg_count ?r"
    using Suc.prems(1,5) by (simp add: ring_next_mod mod_Suc_eq)
  ultimately obtain bs' where b: "alloc_rx_loop e k (ring_next i ?n) (?r, ?ad) =
      Inr ((c + length (P @ [?b]) + k) mod rg_count ?r, ?r\<lparr>rg_buffer := Some bs'\<rparr>,
        ?ad\<lparr>ad_next_skb := ad_next_skb ?ad + k\<rparr>)" "length bs' = rg_count ?r"
      "map rb_skb (rotate c bs') = map rb_skb (P @ [?b]) @ map Some (fresh_skbs e ?ad k) @ map rb_skb (drop k R')"
    using Suc.IH [of ?r "bs[i := ?b]" "P @ [?b]" R' "ring_next i ?n" ?ad] Suc.prems R by auto
  have "fresh_skbs e ad (Suc k) = (ad_next_skb ad, se_room e (rx_buf_len ad)) # fresh_skbs e ?ad k"
    by (simp add: fresh_skbs_def rx_buf_len_def upt_rec [of "ad_next_skb ad"])
  then show ?case unfolding s using b R by (intro exI [of _ bs']) simp
qed

text \<open>A ring that is empty or full is filled with new skbs from the start.\<close>

lemma fill_queue_all:
  assumes "\<forall>n. se_alloc e n \<and> se_map e n" "ring_at (ad_rx_ring ad) q = Inr r" "rx_holds r xs"
    "xs = [] \<or> length xs = rg_count r"
  shows "\<exists>r'. fill_queue e q ad = Some (Inr (put_rx q r' (ad\<lparr>ad_next_skb := ad_next_skb ad + rg_count r\<rparr>))) \<and>
    rg_count r' = rg_count r \<and> rx_holds r' (fresh_skbs e ad (rg_count r))"
proof -
  let ?n = "rg_count r" and ?c = "rg_next_to_clean r"
  obtain bs where b: "rg_buffer r = Some bs" "length bs = ?n" "ring_size ?n" "?c < ?n"
      "rg_next_to_use r = (?c + length xs) mod ?n"
    using assms(3) by (auto elim: rx_holdsE)
  have u: "rg_next_to_use r = ?c" using b(4,5) assms(4) by auto
  obtain bs' where a: "alloc_rx_loop e ?n ?c (r, ad) = Inr ((?c + ?n) mod ?n, r\<lparr>rg_buffer := Some bs'\<rparr>,
      ad\<lparr>ad_next_skb := ad_next_skb ad + ?n\<rparr>)" "length bs' = ?n"
      "map rb_skb (rotate ?c bs') = map Some (fresh_skbs e ad ?n)"
    using alloc_rx_loop_all [OF assms(1) b(3,1,2), of ?c "[]" "rotate ?c bs" ?c ?n ad] b by auto
  let ?r = "r\<lparr>rg_buffer := Some bs', rg_next_to_use := ?c\<rparr>"
  have "rx_holds ?r (fresh_skbs e ad ?n)"
    using a b by (simp add: rx_holds_def fresh_skbs_def)
  moreover have "fill_queue e q ad = Some (Inr (put_rx q ?r (ad\<lparr>ad_next_skb := ad_next_skb ad + ?n\<rparr>)))"
    using assms(2) a(1) b(4) u by (simp add: fill_queue_def sketh_alloc_rx_buffers_def)
  ultimately show ?thesis by (intro exI [of _ ?r]) simp
qed

text \<open>Filling all queues: what each ring holds then are skbs allocated meanwhile.\<close>

definition full_of_new :: "nat \<Rightarrow> nat \<Rightarrow> sketh_adapter \<Rightarrow> bool" where
  "full_of_new first q ad \<longleftrightarrow> (\<exists>r ys. ring_at (ad_rx_ring ad) q = Inr r \<and> rx_holds r ys \<and> length ys = rg_count r \<and>
     (\<forall>s\<in>set ys. first \<le> fst s \<and> fst s < ad_next_skb ad))"

lemma fill_queues:
  assumes "\<forall>n. se_alloc e n \<and> se_map e n" "distinct qs" "first \<le> ad_next_skb ad"
    "\<forall>q\<in>set qs. \<exists>r xs. ring_at (ad_rx_ring ad) q = Inr r \<and> rx_holds r xs \<and> (xs = [] \<or> length xs = rg_count r)"
    "\<forall>q\<in>Q. full_of_new first q ad"
  shows "\<exists>ad'. each_queue (fill_queue e) qs ad = Some (Inr ad') \<and> ad_freed ad' = ad_freed ad \<and>
    ad_up ad' = ad_up ad \<and> settings_of ad' = settings_of ad \<and> (\<forall>q\<in>Q \<union> set qs. full_of_new first q ad')"
  using assms(2-)
proof (induction qs arbitrary: ad Q)
  case Nil
  then show ?case by simp
next
  case (Cons q qs)
  obtain r xs where r: "ring_at (ad_rx_ring ad) q = Inr r" "rx_holds r xs" "xs = [] \<or> length xs = rg_count r"
    using Cons.prems(3) by auto
  obtain r' where f: "fill_queue e q ad = Some (Inr (put_rx q r' (ad\<lparr>ad_next_skb := ad_next_skb ad + rg_count r\<rparr>)))"
      "rg_count r' = rg_count r" "rx_holds r' (fresh_skbs e ad (rg_count r))"
    using fill_queue_all [OF assms(1) r] by blast
  let ?ad = "put_rx q r' (ad\<lparr>ad_next_skb := ad_next_skb ad + rg_count r\<rparr>)"
  have at: "ring_at (ad_rx_ring ?ad) q = Inr r'" using r(1) by simp
  have new: "full_of_new first q ?ad"
    unfolding full_of_new_def using Cons.prems(2) f(2,3) at
    by (intro exI [of _ r'] exI [of _ "fresh_skbs e ad (rg_count r)"]) (auto simp: fresh_skbs_def)
  have other: "full_of_new first p ?ad" if "full_of_new first p ad" for p
  proof (cases "p = q")
    case False
    with that show ?thesis unfolding full_of_new_def by fastforce
  qed (use new in simp)
  have "\<exists>ad'. each_queue (fill_queue e) qs ?ad = Some (Inr ad') \<and> ad_freed ad' = ad_freed ?ad \<and>
      ad_up ad' = ad_up ?ad \<and> settings_of ad' = settings_of ?ad \<and> (\<forall>p\<in>insert q Q \<union> set qs. full_of_new first p ad')"
  proof (rule Cons.IH)
    show "\<forall>p\<in>set qs. \<exists>r xs. ring_at (ad_rx_ring ?ad) p = Inr r \<and> rx_holds r xs \<and> (xs = [] \<or> length xs = rg_count r)"
    proof
      fix p assume p: "p \<in> set qs"
      then have "p \<noteq> q" using Cons.prems(1) by auto
      then have "ring_at (ad_rx_ring ?ad) p = ring_at (ad_rx_ring ad) p" by simp
      then show "\<exists>r xs. ring_at (ad_rx_ring ?ad) p = Inr r \<and> rx_holds r xs \<and> (xs = [] \<or> length xs = rg_count r)"
        using Cons.prems(3) p by simp
    qed
    show "\<forall>p\<in>insert q Q. full_of_new first p ?ad" using new other Cons.prems(4) by blast
  qed (use Cons.prems(1,2) in auto)
  moreover have "settings_of ?ad = settings_of ad" by (simp add: settings_of_def put_rx_def)
  ultimately show ?case using f(1) by auto
qed

text \<open>Fact: filling the receive rings with an allocator that never fails leaves every ring full of new skbs.
  On empty rings, as after set-up, this is what it is for; on full rings, as when the device is opened
  after the probe function has filled them, every skb that was posted is lost: it is posted nowhere, not freed, and not handed up.\<close>

theorem sketh_refill_forgets:
  assumes "\<forall>n. se_alloc e n \<and> se_map e n"
    "\<forall>q<ad_num_queues ad. \<exists>r xs. ring_at (ad_rx_ring ad) q = Inr r \<and> \<not> rg_xdp_enabled r \<and> rx_holds r xs \<and>
      (xs = [] \<or> length xs = rg_count r)"
  shows "\<exists>ad'. sketh_configure_rx e ad = Some (Inr ad') \<and> ad_freed ad' = ad_freed ad \<and> ad_up ad' = ad_up ad \<and>
    (\<forall>q<ad_num_queues ad. \<exists>r ys. ring_at (ad_rx_ring ad') q = Inr r \<and> rx_holds r ys \<and> length ys = rg_count r \<and>
      (\<forall>s\<in>set ys. ad_next_skb ad \<le> fst s \<and> fst s < ad_next_skb ad'))"
proof -
  have "drop_first_buffer q ad = Some (Inr ad)" if "q < ad_num_queues ad" for q
    using assms(2) that by (fastforce simp: drop_first_buffer_def)
  then have "sketh_set_rx_buffer_len ad = Some (Inr ad)"
    unfolding sketh_set_rx_buffer_len_def by (intro each_queue_id) simp
  moreover have "\<exists>ad'. each_queue (fill_queue e) [0..<ad_num_queues ad] ad = Some (Inr ad') \<and> ad_freed ad' = ad_freed ad \<and>
    ad_up ad' = ad_up ad \<and> settings_of ad' = settings_of ad \<and>
    (\<forall>q\<in>{} \<union> set [0..<ad_num_queues ad]. full_of_new (ad_next_skb ad) q ad')"
    using assms(2) by (intro fill_queues [OF assms(1)]) fastforce+
  ultimately show ?thesis by (auto simp: sketh_configure_rx_def full_of_new_def)
qed

section \<open>Witnesses\<close>

text \<open>A device with one queue: a full receive ring of two slots, an empty transmit ring of four.\<close>

definition demo_env :: sketh_env where
  "demo_env = \<lparr>se_alloc = \<lambda>_. True, se_room = \<lambda>n. n, se_map = \<lambda>_. True, se_prog = \<lambda>_ _. XDP_PASS, se_xdp_len = \<lambda>_ _ n. n,
     se_redirect = \<lambda>_. True, se_drop = \<lambda>_. False, se_irq = \<lambda>_. 0\<rparr>"

definition demo_rx :: "(nat \<times> nat) option \<Rightarrow> (nat \<times> nat) option \<Rightarrow> sketh_rx_buffer sketh_ring" where
  "demo_rx a b = (new_ring 2)\<lparr>rg_buffer := Some [\<lparr>rb_skb = a, rb_dma = True\<rparr>, \<lparr>rb_skb = b, rb_dma = True\<rparr>],
     rg_desc := Some (replicate 2 empty_tx_desc), rg_desc_dma := True\<rparr>"

definition demo_tx :: "sketh_tx_buffer sketh_ring" where
  "demo_tx = snd (sketh_setup_tx_resources True (Some True) (new_ring 4))"

definition demo_ad :: "sketh_rx_buffer sketh_ring \<Rightarrow> sketh_adapter" where
  "demo_ad r = new_adapter\<lparr>ad_rx_ring := Some [r], ad_tx_ring := Some [demo_tx], ad_num_queues := 1,
     ad_msix_entries := Some [0], ad_next_skb := 2\<rparr>"

definition demo_full :: sketh_adapter where
  "demo_full = demo_ad (demo_rx (Some (0, 1518)) (Some (1, 1518)))"

definition demo_empty :: sketh_adapter where
  "demo_empty = demo_ad (demo_rx None None)"

lemma ring_size_2 [simp]: "ring_size 2"
  using imageI [of 1 "set [0..<17]" "\<lambda>k. 2 ^ k :: nat"] by (simp add: ring_size_def)

lemma ring_size_4 [simp]: "ring_size 4"
  using imageI [of 2 "set [0..<17]" "\<lambda>k. 2 ^ k :: nat"] by (simp add: ring_size_def)

lemma demo_ad_fields [simp]:
  "ad_rx_ring (demo_ad r) = Some [r]" "ad_tx_ring (demo_ad r) = Some [demo_tx]" "ad_num_queues (demo_ad r) = 1"
  "ad_msix_entries (demo_ad r) = Some [0]" "ad_next_skb (demo_ad r) = 2" "ad_mtu (demo_ad r) = 1500"
  "ad_down (demo_ad r) = False" "ad_xdp_prog (demo_ad r) = None" "ad_freed (demo_ad r) = []"
  "ad_up (demo_ad r) = []" "ad_irqs (demo_ad r) = []"
  by (simp_all add: demo_ad_def new_adapter_def)

lemma demo_tx_holds: "tx_holds demo_tx []"
  by (simp add: demo_tx_def sketh_setup_tx_resources_def setup_resources_def new_ring_def tx_holds_def tx_ok_def
    empty_tx_buffer_def)

lemma demo_tx_count [simp]: "rg_count demo_tx = 4"
  by (simp add: demo_tx_def sketh_setup_tx_resources_def setup_resources_def new_ring_def)

lemma demo_txs: "txs_ok (demo_ad r)"
  using demo_tx_holds by (simp add: txs_ok_def tx_holds_def)

lemma demo_rx_full: "rx_holds (demo_rx (Some s) (Some t)) [s, t]"
  by (simp add: demo_rx_def rx_holds_def new_ring_def)

lemma demo_rx_empty: "rx_holds (demo_rx None None) []"
proof -
  have "replicate 2 (None :: (nat \<times> nat) option) = [None, None]" by (simp add: numeral_2_eq_2)
  then show ?thesis by (simp add: demo_rx_def rx_holds_def new_ring_def)
qed

lemma demo_frame [simp]: "rx_frame_len (demo_ad r) = 1514"
  by (simp add: rx_frame_len_def ETH_HLEN_def)

lemma demo_full_ok: "adapter_ok demo_full"
  using demo_rx_full by (fastforce simp: demo_full_def adapter_ok_def demo_txs rxs_ok_def rx_ok_def ETH_HLEN_def VLAN_HLEN_def)

lemma demo_empty_ok: "adapter_ok demo_empty"
  using demo_rx_empty by (fastforce simp: demo_empty_def adapter_ok_def demo_txs rxs_ok_def rx_ok_def ETH_HLEN_def VLAN_HLEN_def)

lemma ring_at_first [simp]: "ring_at (Some (r # rs)) 0 = Inr r"
  by (simp add: ring_at_def)

lemma demo_roomy: "roomy demo_env"
  by (simp add: roomy_def demo_env_def)

lemma demo_memory: "\<forall>n. se_alloc demo_env n \<and> se_map demo_env n"
  by (simp add: demo_env_def)

theorem sketh_rx_conserves_witness:
  "\<exists>r' ad' ys. sketh_clean_rx_ring demo_env 0 1 demo_full = Inr (1, ad') \<and>
     ring_at (ad_rx_ring ad') 0 = Inr r' \<and> rx_holds r' ys \<and> length ys \<le> 2"
  using sketh_rx_conserves [of demo_full 0 _ "[(0, 1518), (1, 1518)]" demo_env 1] demo_txs demo_rx_full
  unfolding demo_full_def by fastforce

theorem sketh_poll_delivers_witness:
  "\<exists>ad'. sketh_napi_poll demo_env 0 64 demo_full = Some (Inr (2, ad')) \<and> ad_up ad' = [(0, 1514), (1, 1514)]"
  using sketh_poll_delivers [OF demo_full_ok _ demo_roomy demo_memory, of 0 _ "[(0, 1518), (1, 1518)]" 64] demo_rx_full
  unfolding demo_full_def by fastforce

theorem sketh_data_path_safe_witness:
  "\<exists>ad''. sketh_exec demo_env (Sk_poll 0 64) (sketh_tx_timeout demo_full) = Some (Inr ad'') \<and> adapter_ok ad''"
proof -
  have "data_step demo_full (demo_env, Sk_timeout) (sketh_tx_timeout demo_full)"
    by (simp add: data_step_def demo_roomy)
  then have "lts_run data_step demo_full [(demo_env, Sk_timeout)] (sketh_tx_timeout demo_full)"
    by (rule lts_more) (rule lts_done)
  moreover have "data_op (sketh_tx_timeout demo_full) (Sk_poll 0 64)"
    by (simp add: sketh_tx_timeout_def demo_full_def)
  ultimately show ?thesis by (rule sketh_data_path_safe [OF demo_full_ok _ _ demo_roomy])
qed

theorem sketh_rx_never_recovers_witness:
  "\<exists>ad''. sketh_napi_poll demo_env 0 64 demo_empty = Some (Inr (0, ad'')) \<and> posted 0 ad'' []"
proof -
  have "posted 0 demo_empty []" using demo_rx_empty by (simp add: posted_def demo_empty_def)
  from sketh_rx_never_recovers [OF demo_empty_ok this lts_done, of demo_env 64]
  show ?thesis using demo_roomy by (simp add: demo_empty_def)
qed

theorem sketh_mtu_raise_panics_witness:
  "sketh_napi_poll demo_env 0 64 (snd (sketh_change_mtu 1600 demo_full)) = Some (Inl Skb_over_panic)"
  using sketh_mtu_raise_panics [of demo_full 0 _ 0 1518 "[(1, 1518)]" 64 1600 demo_env] demo_rx_full
  by (simp add: demo_full_def SKETH_MIN_MTU_def SKETH_MAX_MTU_def ETH_HLEN_def ETH_FCS_LEN_def)

theorem sketh_tx_loops_end_witness:
  "\<exists>ad'. sketh_clean_tx_ring 0 demo_full = Some (Inr ad')"
  using sketh_tx_loops_end [of demo_full 0] demo_txs by (auto simp: demo_full_def)

definition demo_packet :: "nat \<Rightarrow> tx_skb" where
  "demo_packet n = \<lparr>ts_skb = n, ts_len = 60, ts_headlen = 60, ts_queue = 0\<rparr>"

lemma demo_packet_fields [simp]:
  "ts_skb (demo_packet n) = n" "ts_len (demo_packet n) = 60" "ts_queue (demo_packet n) = 0"
  by (simp_all add: demo_packet_def)

theorem sketh_tx_completion_witness:
  "(\<exists>ad1 ad2. send_all demo_env [demo_packet 7] demo_full = Inr ad1 \<and>
     sketh_clean_tx_ring 0 ad1 = Some (Inr ad2) \<and> ad_freed ad2 = [7]) \<and>
   (\<exists>ad1 ad2. send_all demo_env [demo_packet 7, demo_packet 8] demo_full = Inr ad1 \<and>
     sketh_clean_tx_ring 0 ad1 = Some (Inr ad2) \<and> ad_freed ad2 = [])"
  using sketh_tx_completion [of demo_full 0 demo_tx "[demo_packet 7]" demo_env]
    sketh_tx_completion [of demo_full 0 demo_tx "[demo_packet 7, demo_packet 8]" demo_env] demo_tx_holds
  by (simp add: demo_full_def demo_memory del: send_all.simps)

lemma demo_stops: "\<exists>ad. sketh_stop demo_full = Some (Inr (0, ad))"
  by (simp add: sketh_stop_def demo_full_def demo_ad_def napi_rx_def ring_at_def put_rx_def sketh_free_irqs_def
    free_queue_memory_def Let_def new_adapter_def put_tx_def)

theorem sketh_stop_is_final_witness:
  "\<exists>ad. sketh_stop demo_full = Some (Inr (0, ad)) \<and> sketh_open demo_env ad = Some (Inr (- EBUSY, ad))"
proof -
  obtain ad where s: "sketh_stop demo_full = Some (Inr (0, ad))" using demo_stops by blast
  have "foldl sketh_next (Some (Inr ad)) [] = Some (Inr ad)" by simp
  from sketh_stop_is_final [OF s this, of demo_env] s show ?thesis by blast
qed

definition demo_two :: sketh_adapter where
  "demo_two = (demo_ad (demo_rx None None))\<lparr>ad_num_queues := 2, ad_msix_entries := Some [0, 7]\<rparr>"

theorem sketh_irqs_requested_witness:
  "\<exists>ad1 ad2. sketh_request_irqs demo_env demo_two = Inr (0, ad1) \<and> ad_irqs ad1 = [(7, 1), (0, 0)] \<and>
     sketh_free_irqs ad1 = Inr ad2 \<and> ad_irqs ad2 = [(0, 0)]"
  using sketh_irqs_requested [of demo_two "[0, 7]" demo_env]
  by (simp add: demo_two_def demo_env_def handlers_def numeral_2_eq_2) blast

definition demo_probe :: sketh_probe_env where
  "demo_probe = \<lparr>pe_enable = 0, pe_regions = 0, pe_netdev = True, pe_rx_ring = True, pe_tx_ring = True, pe_msix = True,
     pe_res = True, pe_ioremap = 0, pe_register = 0, pe_hook = 0, pe_num_queues = 4, pe_mtu = 1500\<rparr>"

definition idle_host :: sketh_host where
  "idle_host = \<lparr>sh_enabled = False, sh_regions = False, sh_netdev = 0, sh_registered = False,
    sh_hook = False, sh_mapped = False, sh_drvdata = None, sh_leaked = []\<rparr>"

theorem sketh_probe_outcome_witness:
  "sketh_probe demo_probe demo_env idle_host = Some (Inl Null_pointer) \<and>
   (\<exists>err. sketh_platform_probe (demo_probe\<lparr>pe_tx_ring := False\<rparr>) demo_env idle_host =
      Some (Inr (err, idle_host\<lparr>sh_leaked := [Mem_rx_ring]\<rparr>)))"
  using sketh_probe_outcome [of demo_env idle_host demo_probe]
    sketh_probe_outcome [of demo_env idle_host "demo_probe\<lparr>pe_tx_ring := False\<rparr>"]
  by (auto simp: demo_env_def idle_host_def demo_probe_def gets_queues_def half_queues_def)

theorem sketh_refill_forgets_witness:
  "\<exists>ad'. sketh_configure_rx demo_env demo_full = Some (Inr ad') \<and> ad_freed ad' = [] \<and> ad_up ad' = [] \<and>
     (\<exists>r ys. ring_at (ad_rx_ring ad') 0 = Inr r \<and> rx_holds r ys \<and> (\<forall>s\<in>set ys. 2 \<le> fst s))"
proof -
  have x: "\<not> rg_xdp_enabled (demo_rx a b)" "rg_count (demo_rx a b) = 2" for a b
    by (simp_all add: demo_rx_def new_ring_def)
  have "\<forall>q<ad_num_queues demo_full. \<exists>r xs. ring_at (ad_rx_ring demo_full) q = Inr r \<and> \<not> rg_xdp_enabled r \<and> rx_holds r xs \<and>
      (xs = [] \<or> length xs = rg_count r)"
    using demo_rx_full [of "(0, 1518)" "(1, 1518)"] x by (fastforce simp: demo_full_def)
  from sketh_refill_forgets [OF demo_memory this] show ?thesis by (fastforce simp: demo_full_def)
qed

end
