(* ===== verification/Pfc_Pause.thy ===== *)
theory Pfc_Pause
  imports Driver_Prelude
begin

text \<open>
  The command line tool \<open>debug/pfc_pause/pfc_pause.c\<close>: option handling, the frame it builds, and the
  loop that sends it. \<open>getopt\<close>, \<open>strtoul\<close>, \<open>atoi\<close> and the socket calls are parameters: an option comes
  with the number its argument is converted to.
\<close>

section \<open>The program\<close>

definition ETH_P_PAUSE :: u16 where "ETH_P_PAUSE = 0x8808"
definition PFC_OPCODE :: u16 where "PFC_OPCODE = 0x0101"

definition htons :: "u16 \<Rightarrow> u16" where
  "htons w = word_of_nat (bswap 2 (unat w))"

text \<open>The packed structure and its image in memory, on a little endian host.\<close>

record pfc_frame =
  dst_mac :: bytes
  src_mac :: bytes
  ether_type :: u16
  pfc_opcode :: u16
  priority_enable :: u16
  pause_time :: "u16 list"

definition pfc_image :: "pfc_frame \<Rightarrow> bytes" where
  "pfc_image f = dst_mac f @ src_mac f @ le16 (unat (ether_type f)) @ le16 (unat (pfc_opcode f)) @
     le16 (unat (priority_enable f)) @ concat (map (\<lambda>t. le16 (unat t)) (pause_time f))"

definition create_pfc_frame :: "bytes \<Rightarrow> u16 \<Rightarrow> u16 \<Rightarrow> pfc_frame" where
  "create_pfc_frame mac prio time = \<lparr>dst_mac = [0x01, 0x80, 0xC2, 0x00, 0x00, 0x01], src_mac = mac,
     ether_type = htons ETH_P_PAUSE, pfc_opcode = htons PFC_OPCODE, priority_enable = htons prio,
     pause_time = replicate 8 (htons time)\<rparr>"

text \<open>The buffer has room for 94 bytes; the frame is padded with zeros to the length of the shortest
  Ethernet frame.\<close>

definition send_buf_size :: nat where "send_buf_size = 6 * 2 + 2 + 2 + 2 + 16 + 60"

definition padded_frame :: "pfc_frame \<Rightarrow> bytes" where
  "padded_frame f = (let frame_len = length (pfc_image f) in
     pfc_image f @ replicate (60 - frame_len) 0)"

record pfc_args =
  arg_pause :: u16
  arg_prio :: u8
  arg_count :: int
  arg_interval :: int

definition default_args :: pfc_args where
  "default_args = \<lparr>arg_pause = 0xFFFF, arg_prio = 0xFF, arg_count = 1, arg_interval = 1000\<rparr>"

datatype pfc_opt = Opt_t nat | Opt_e nat | Opt_c int | Opt_i int | Opt_h | Opt_bad

text \<open>The loop over the options: the exit status of an early return, or the arguments.\<close>

fun pfc_options :: "pfc_opt list \<Rightarrow> pfc_args \<Rightarrow> int + pfc_args" where
  "pfc_options [] a = Inr a"
| "pfc_options (Opt_t n # os) a = pfc_options os (a\<lparr>arg_pause := word_of_nat n\<rparr>)"
| "pfc_options (Opt_e n # os) a = pfc_options os (a\<lparr>arg_prio := word_of_nat n\<rparr>)"
| "pfc_options (Opt_c n # os) a = pfc_options os (a\<lparr>arg_count := n\<rparr>)"
| "pfc_options (Opt_i n # os) a = pfc_options os (a\<lparr>arg_interval := n\<rparr>)"
| "pfc_options (Opt_h # os) a = Inl 0"
| "pfc_options (Opt_bad # os) a = Inl 1"

text \<open>What the system answers: the address of the interface, whether each of the calls that set up the raw
  socket succeeds, and whether the i-th frame can be sent.\<close>

record pfc_sys =
  py_mac :: "bytes option"
  py_socket :: bool
  py_ifindex :: bool
  py_bind :: bool
  py_send :: "nat \<Rightarrow> bool"

text \<open>\<open>k\<close> frames are left to send, the next is frame \<open>i\<close>; the exit status and the frames sent.\<close>

fun send_loop :: "pfc_sys \<Rightarrow> bytes \<Rightarrow> nat \<Rightarrow> nat \<Rightarrow> int \<times> bytes list" where
  "send_loop y buf 0 i = (0, [])"
| "send_loop y buf (Suc k) i = (if \<not> py_send y i then (1, [])
     else case send_loop y buf k (i + 1) of (err, sent) \<Rightarrow> (err, buf # sent))"

text \<open>\<open>first\<close> is the first argument, if there is one: whether it is \<open>-h\<close>.\<close>

definition pfc_main :: "pfc_sys \<Rightarrow> bool option \<Rightarrow> pfc_opt list \<Rightarrow> int \<times> bytes list" where
  "pfc_main y first os = (case first of None \<Rightarrow> (1, [])
     | Some help \<Rightarrow>
         if help then (0, [])
         else (case pfc_options os default_args of Inl status \<Rightarrow> (status, [])
           | Inr a \<Rightarrow> (case py_mac y of None \<Rightarrow> (1, [])
             | Some mac \<Rightarrow>
                 if \<not> py_socket y \<or> \<not> py_ifindex y \<or> \<not> py_bind y then (1, [])
                 else send_loop y (padded_frame (create_pfc_frame mac (ucast (arg_prio a)) (arg_pause a)))
                   (nat (arg_count a)) 0)))"

section \<open>What is sent\<close>

text \<open>A priority flow control frame as IEEE 802.1Qbb lays it out: the reserved multicast address, the sender, the MAC
  control type and opcode, the class enable vector, and eight times.\<close>

definition pfc_decode :: "bytes \<Rightarrow> (bytes \<times> nat \<times> nat list) option" where
  "pfc_decode bs =
     (if 60 \<le> length bs \<and> window bs 0 6 = [0x01, 0x80, 0xC2, 0, 0, 1] \<and> rd_be (window bs 12 2) = 0x8808 \<and>
        rd_be (window bs 14 2) = 0x0101
      then Some (window bs 6 6, rd_be (window bs 16 2), map (\<lambda>i. rd_be (window bs (18 + 2 * i) 2)) [0..<8])
      else None)"

lemma unat_u16_bound: "unat (w :: u16) < 65536"
  using unsigned_less [of w] by simp

lemma htons_bytes: "le16 (unat (htons w)) = be16 (unat w)"
proof -
  have b: "unat (htons w) = bswap 2 (unat w)"
    using bswap_bound [of 2 "unat w"] by (simp add: htons_def unat_of_nat)
  have "le_bytes (length (be16 (unat w))) (rd_le (be16 (unat w))) = be16 (unat w)" by (rule le_bytes_rd_le)
  then show ?thesis unfolding b by (simp add: bswap_def rd_be_def be_bytes_def)
qed

lemma pfc_image_bytes:
  "pfc_image (create_pfc_frame mac prio time) = [0x01, 0x80, 0xC2, 0, 0, 1] @ mac @ be16 0x8808 @ be16 0x0101 @
     be16 (unat prio) @ concat (replicate 8 (be16 (unat time)))"
  by (simp add: pfc_image_def create_pfc_frame_def htons_bytes ETH_P_PAUSE_def PFC_OPCODE_def)

lemma replicate_8: "replicate 8 x = [x, x, x, x, x, x, x, x]"
  by (simp add: numeral_eq_Suc)

lemma le_bytes_2: "le_bytes 2 n = [word_of_nat n, word_of_nat (n div 256)]"
  by (simp add: numeral_2_eq_2)

lemma length_image: "length mac = 6 \<Longrightarrow> length (pfc_image (create_pfc_frame mac prio time)) = 34"
  by (simp add: pfc_image_bytes length_concat map_replicate sum_list_replicate)

lemma pfc_frame_decodes:
  assumes "length mac = 6"
  shows "length (padded_frame (create_pfc_frame mac prio time)) = 60 \<and>
    pfc_decode (padded_frame (create_pfc_frame mac prio time)) = Some (mac, unat prio, replicate 8 (unat time))"
proof -
  obtain a b c d e f where mac: "mac = [a, b, c, d, e, f]"
    using assms by (auto simp: numeral_eq_Suc length_Suc_conv)
  obtain p q where p: "be16 (unat prio) = [p, q]"
    using length_be_bytes [of 2 "unat prio"] by (auto simp: numeral_2_eq_2 length_Suc_conv simp del: length_be_bytes)
  obtain s t where t: "be16 (unat time) = [s, t]"
    using length_be_bytes [of 2 "unat time"] by (auto simp: numeral_2_eq_2 length_Suc_conv simp del: length_be_bytes)
  have k: "be16 0x8808 = [0x88, 0x08]" "be16 0x0101 = [0x01, 0x01]"
    by (simp_all add: be_bytes_def le_bytes_2)
  have r: "rd_be [p, q] = unat prio" "rd_be [s, t] = unat time" "rd_be [0x88, 0x08] = 0x8808" "rd_be [1, 1] = 0x0101"
    using rd_be_be_bytes [of 2 "unat prio"] rd_be_be_bytes [of 2 "unat time"] unat_u16_bound p t
    by (simp_all add: rd_be_def)
  have i: "pfc_image (create_pfc_frame mac prio time) = [0x01, 0x80, 0xC2, 0, 0, 1] @ [a, b, c, d, e, f] @
      [0x88, 0x08, 0x01, 0x01, p, q] @ [s, t, s, t, s, t, s, t, s, t, s, t, s, t, s, t]"
    unfolding pfc_image_bytes mac p t k by (simp add: replicate_8)
  have l: "length (padded_frame (create_pfc_frame mac prio time)) = 60"
    using length_image [OF assms] by (simp add: padded_frame_def Let_def)
  have up: "[0..<8] = [0, 1, 2, 3, 4, 5, 6, 7 :: nat]" by (simp add: upt_rec)
  show ?thesis unfolding pfc_decode_def l using r
    by (simp add: padded_frame_def i [unfolded mac] window_def mac up replicate_8)
qed

lemma send_loop_frames:
  "send_loop y buf k i = (if \<forall>j<k. py_send y (i + j) then 0 else 1,
     replicate (length (takeWhile (py_send y) [i..<i + k])) buf)"
  by (induction k arbitrary: i) (simp_all add: All_less_Suc2 upt_conv_Cons del: upt_Suc)

text \<open>Fact: when the socket can be set up, the tool sends as many frames as asked for, up to the first that
  cannot be sent, and returns 0 exactly if all were sent. Each is 60 bytes, inside the buffer, and is a
  priority flow control frame of the interface with the vector and the time of the options, taken modulo 256 and
  65536, for all eight classes.\<close>

theorem pfc_sends_frames:
  assumes "py_mac y = Some mac" "length mac = 6" "py_socket y" "py_ifindex y" "py_bind y"
    "pfc_options os default_args = Inr a"
  shows "\<exists>sent. pfc_main y (Some False) os = (if \<forall>i<nat (arg_count a). py_send y i then 0 else 1, sent) \<and>
    length sent = length (takeWhile (py_send y) [0..<nat (arg_count a)]) \<and>
    (\<forall>bs\<in>set sent. length bs = 60 \<and> length bs \<le> send_buf_size \<and>
      pfc_decode bs = Some (mac, unat (arg_prio a), replicate 8 (unat (arg_pause a))))"
proof -
  let ?buf = "padded_frame (create_pfc_frame mac (ucast (arg_prio a)) (arg_pause a))"
  let ?n = "length (takeWhile (py_send y) [0..<nat (arg_count a)])"
  have m: "pfc_main y (Some False) os = (if \<forall>i<nat (arg_count a). py_send y i then 0 else 1, replicate ?n ?buf)"
    using assms by (simp add: pfc_main_def send_loop_frames)
  have "unat (arg_prio a) < 2 ^ LENGTH(8)" by (rule unsigned_less)
  then have u: "unat (ucast (arg_prio a) :: u16) = unat (arg_prio a)"
    by (simp add: unsigned_ucast_eq take_bit_eq_mod)
  have "length ?buf = 60 \<and> pfc_decode ?buf = Some (mac, unat (arg_prio a), replicate 8 (unat (arg_pause a)))"
    using pfc_frame_decodes [OF assms(2)] u by simp
  then show ?thesis unfolding m by (intro exI [of _ "replicate ?n ?buf"]) (auto simp: send_buf_size_def)
qed

definition demo_pfc :: pfc_sys where
  "demo_pfc = \<lparr>py_mac = Some [2, 0, 0, 0, 0, 1], py_socket = True, py_ifindex = True, py_bind = True,
     py_send = \<lambda>i. i < 2\<rparr>"

theorem pfc_sends_frames_witness:
  "\<exists>sent. pfc_main demo_pfc (Some False) [Opt_c 3, Opt_t 65537, Opt_e 1] = (1, sent) \<and> length sent = 2 \<and>
     (\<forall>bs\<in>set sent. pfc_decode bs = Some ([2, 0, 0, 0, 0, 1], 1, replicate 8 1))"
proof -
  have n: "nat 3 = 3" "(\<forall>i<3. i < (2::nat)) = False" "[0..<3] = [0, 1, 2 :: nat]"
    by (auto intro: exI [of _ 2] simp: upt_rec)
  show ?thesis
    using pfc_sends_frames [of demo_pfc "[2, 0, 0, 0, 0, 1]" "[Opt_c 3, Opt_t 65537, Opt_e 1]"]
    by (fastforce simp: demo_pfc_def default_args_def n)
qed

end
