(* ===== verification/Serial_Regread.thy ===== *)
theory Serial_Regread
  imports Driver_Prelude
begin

text \<open>
  The command line tool \<open>debug/serial_regread/serial_regread.c\<close>: it types \<open>devmem\<close> commands on a
  serial console and parses what comes back. The console is a list of events, one for each
  \<open>select\<close>; after the last one nothing arrives any more. The clock is a function of the number of times it is read. Opening
  the device and setting the terminal up are not modelled.
\<close>

section \<open>The console\<close>

datatype serial_event = Ready char | Read_fails | Timed_out | Interrupted | Select_fails

record console =
  con_in :: "serial_event list"
  con_out :: string
  con_reads :: nat

definition serial_write :: "string \<Rightarrow> console \<Rightarrow> console" where
  "serial_write s c = c\<lparr>con_out := con_out c @ s\<rparr>"

definition LF :: char where "LF = CHR 0x0A"
definition CR :: char where "CR = CHR 0x0D"
definition CRLF :: string where "CRLF = [CR, LF]"
definition MAX_LINE :: nat where "MAX_LINE = 256"

text \<open>The loop of \<open>serial_read_line\<close>: the room left in the buffer and what it holds; the result, the
  contents of the buffer and the events left. After an error of \<open>select\<close> the buffer is not terminated; no
  caller looks at it then.\<close>

fun read_line_loop :: "nat \<Rightarrow> string \<Rightarrow> serial_event list \<Rightarrow> int \<times> string \<times> serial_event list" where
  "read_line_loop 0 acc evs = (int (length acc), acc, evs)"
| "read_line_loop (Suc room) acc [] = (int (length acc), acc, [])"
| "read_line_loop (Suc room) acc (Timed_out # evs) = (int (length acc), acc, evs)"
| "read_line_loop (Suc room) acc (Read_fails # evs) = (int (length acc), acc, evs)"
| "read_line_loop (Suc room) acc (Interrupted # evs) = read_line_loop (Suc room) acc evs"
| "read_line_loop (Suc room) acc (Select_fails # evs) = (- 1, acc, evs)"
| "read_line_loop (Suc room) acc (Ready c # evs) =
     (if c = LF \<or> c = CR
      then if acc \<noteq> [] then (int (length acc), acc, evs) else read_line_loop (Suc room) acc evs
      else read_line_loop room (acc @ [c]) evs)"

definition serial_read_line :: "nat \<Rightarrow> console \<Rightarrow> int \<times> string \<times> console" where
  "serial_read_line maxlen c = (case read_line_loop (maxlen - 1) [] (con_in c) of
     (n, line, evs) \<Rightarrow> (n, line, c\<lparr>con_in := evs\<rparr>))"

text \<open>The string functions stop at a null character.\<close>

definition c_string :: "string \<Rightarrow> string" where
  "c_string s = takeWhile (\<lambda>c. c \<noteq> CHR 0x00) s"

definition has_prompt :: "string \<Rightarrow> bool" where
  "has_prompt line \<longleftrightarrow> CHR ''#'' \<in> set (c_string line) \<or> CHR ''$'' \<in> set (c_string line)"

fun c_strstr :: "string \<Rightarrow> string \<Rightarrow> string option" where
  "c_strstr [] pat = (if pat = [] then Some [] else None)"
| "c_strstr (c # s) pat = (if take (length pat) (c # s) = pat then Some (c # s) else c_strstr s pat)"

type_synonym clock = "nat \<Rightarrow> int"

definition now :: "clock \<Rightarrow> console \<Rightarrow> int \<times> console" where
  "now k c = (k (con_reads c), c\<lparr>con_reads := con_reads c + 1\<rparr>)"

text \<open>Waiting for a prompt; a loop that a clock standing still would not leave.\<close>

partial_function (option) prompt_loop :: "clock \<Rightarrow> int \<Rightarrow> int \<Rightarrow> console \<Rightarrow> (int \<times> console) option" where
  "prompt_loop k start secs c = (case now k c of (t, c1) \<Rightarrow>
     if t - start < secs
     then (case serial_read_line MAX_LINE c1 of (n, line, c2) \<Rightarrow>
       if 0 < n \<and> has_prompt line then Some (0, c2) else prompt_loop k start secs c2)
     else Some (- 1, c1))"

definition wait_for_prompt :: "clock \<Rightarrow> int \<Rightarrow> console \<Rightarrow> (int \<times> console) option" where
  "wait_for_prompt k timeout_ms c = (case now k c of (start, c1) \<Rightarrow> prompt_loop k start (timeout_ms div 1000) c1)"

text \<open>Logging in; the call of this function is commented out. The command buffer holds 63 characters.\<close>

definition login_line :: "string \<Rightarrow> string" where
  "login_line username = take 63 (username @ CRLF)"

partial_function (option) login_loop ::
  "clock \<Rightarrow> int \<Rightarrow> int \<Rightarrow> string \<Rightarrow> bool \<Rightarrow> console \<Rightarrow> (int \<times> console) option" where
  "login_loop k start secs username found c = (case now k c of (t, c1) \<Rightarrow>
     if t - start < secs
     then (case serial_read_line MAX_LINE c1 of (n, line, c2) \<Rightarrow>
       if 0 < n \<and> has_prompt line then Some (0, c2)
       else
         let asked = (0 < n \<and> c_strstr (c_string line) ''login:'' \<noteq> None);
             c3 = (if asked then serial_write (login_line username) c2 else c2)
         in if found \<or> asked then login_loop k start secs username True c3
            else (case now k c3 of (t1, c4) \<Rightarrow>
              if 2 < t1 - start
              then login_loop k start secs username True (serial_write (login_line username) c4)
              else login_loop k start secs username False c4))
     else Some (- 1, c1))"

text \<open>The input waiting is discarded first; which events that are is an argument.\<close>

definition login :: "clock \<Rightarrow> nat \<Rightarrow> string \<Rightarrow> int \<Rightarrow> console \<Rightarrow> (int \<times> console) option" where
  "login k waiting username timeout_sec c = (case now k c of (start, c1) \<Rightarrow>
     login_loop k start timeout_sec username False
       (serial_write CRLF (c1\<lparr>con_in := drop waiting (con_in c1)\<rparr>)))"

section \<open>Numbers\<close>

definition hex_digit :: "char \<Rightarrow> nat option" where
  "hex_digit c = (let n = of_char c :: nat in
     if 48 \<le> n \<and> n \<le> 57 then Some (n - 48)
     else if 65 \<le> n \<and> n \<le> 70 then Some (n - 55)
     else if 97 \<le> n \<and> n \<le> 102 then Some (n - 87) else None)"

fun hex_digits :: "string \<Rightarrow> nat list" where
  "hex_digits [] = []"
| "hex_digits (c # s) = (case hex_digit c of None \<Rightarrow> [] | Some d \<Rightarrow> d # hex_digits s)"

definition is_space :: "char \<Rightarrow> bool" where
  "is_space c \<longleftrightarrow> (let n = of_char c :: nat in n = 32 \<or> 9 \<le> n \<and> n \<le> 13)"

text \<open>\<open>sscanf(s, "%lx", &val)\<close>: white space, a sign, an optional prefix, digits; a number above 64 bits becomes the
  largest one.\<close>

definition hex_value :: "nat list \<Rightarrow> nat" where
  "hex_value ds = min (foldl (\<lambda>v d. 16 * v + d) 0 ds) (2 ^ 64 - 1)"

definition scan_unsigned :: "string \<Rightarrow> nat option" where
  "scan_unsigned s = (case (if take 2 s = ''0x'' \<or> take 2 s = ''0X'' then hex_digits (drop 2 s) else hex_digits s) of
     [] \<Rightarrow> None | ds \<Rightarrow> Some (hex_value ds))"

definition scan_hex :: "string \<Rightarrow> nat option" where
  "scan_hex line = (case dropWhile is_space line of [] \<Rightarrow> None
     | c # s \<Rightarrow>
         if c = CHR ''-'' then map_option (\<lambda>v. (2 ^ 64 - v) mod 2 ^ 64) (scan_unsigned s)
         else if c = CHR ''+'' then scan_unsigned s else scan_unsigned (c # s))"

definition parse_devmem_output :: "string \<Rightarrow> nat" where
  "parse_devmem_output line = (case scan_hex (c_string line) of Some v \<Rightarrow> v
     | None \<Rightarrow> (case c_strstr (c_string line) ''0x'' of None \<Rightarrow> 0
       | Some p \<Rightarrow> (case scan_hex p of Some v \<Rightarrow> v | None \<Rightarrow> 0)))"

text \<open>Printing in hexadecimal: \<open>%lx\<close> has no leading zeros, and \<open>devmem\<close> prints eight digits in capitals.\<close>

definition hex_char :: "nat \<Rightarrow> nat \<Rightarrow> char" where
  "hex_char letter d = (if d < 10 then char_of (48 + d) else char_of (letter + d - 10))"

fun hex_fixed :: "nat \<Rightarrow> nat \<Rightarrow> nat \<Rightarrow> string" where
  "hex_fixed letter 0 v = []"
| "hex_fixed letter (Suc k) v = hex_fixed letter k (v div 16) @ [hex_char letter (v mod 16)]"

fun hex_width :: "nat \<Rightarrow> nat \<Rightarrow> nat" where
  "hex_width 0 v = 1"
| "hex_width (Suc k) v = (if v < 16 then 1 else Suc (hex_width k (v div 16)))"

definition print_lx :: "nat \<Rightarrow> string" where
  "print_lx v = hex_fixed 97 (hex_width 15 v) v"

section \<open>Reading the registers\<close>

definition devmem_command :: "nat \<Rightarrow> string" where
  "devmem_command addr = take 63 (''devmem 0x'' @ print_lx addr @ CRLF)"

definition PROMPT_TIMEOUT_MS :: int where "PROMPT_TIMEOUT_MS = 2000"

fun read_registers :: "clock \<Rightarrow> nat list \<Rightarrow> console \<Rightarrow> (nat list \<times> console) option" where
  "read_registers k [] c = Some ([], c)"
| "read_registers k (addr # addrs) c =
     (case serial_read_line MAX_LINE (serial_write (devmem_command addr) c) of (_, _, c1) \<Rightarrow>
       (case serial_read_line MAX_LINE c1 of (n, line, c2) \<Rightarrow>
         let v = (if 0 < n then parse_devmem_output line else 0) in
         (case wait_for_prompt k PROMPT_TIMEOUT_MS c2 of None \<Rightarrow> None
          | Some (_, c3) \<Rightarrow> map_option (\<lambda>(vs, c4). (v # vs, c4)) (read_registers k addrs c3))))"

section \<open>What is read\<close>

definition line_char :: "char \<Rightarrow> bool" where
  "line_char c \<longleftrightarrow> c \<noteq> LF \<and> c \<noteq> CR \<and> c \<noteq> CHR 0x00"

lemma read_line_chars:
  assumes "list_all line_char s"
  shows "read_line_loop (length s + room) acc (map Ready s @ evs) = read_line_loop room (acc @ s) evs"
  using assms by (induction s arbitrary: acc) (simp_all add: line_char_def)

text \<open>A line on the console ends with a carriage return, or with silence; empty lines before it are skipped.\<close>

lemma read_line:
  assumes "list_all line_char s" "s \<noteq> []" "length s < 255" "con_in c = Ready LF # map Ready s @ e # evs \<or> con_in c = map Ready s @ e # evs"
    "e = Ready CR \<or> e = Timed_out"
  shows "serial_read_line MAX_LINE c = (int (length s), s, c\<lparr>con_in := evs\<rparr>)"
proof -
  obtain room where r: "255 = length s + Suc room" using assms(3) by (metis add_Suc_right less_imp_Suc_add)
  have "read_line_loop 255 [] (map Ready s @ e # evs) = (int (length s), s, evs)"
    unfolding r read_line_chars [OF assms(1)] using assms(2,5) by (auto simp: LF_def CR_def)
  moreover have "read_line_loop 255 [] (Ready LF # xs) = read_line_loop 255 [] xs" for xs
    unfolding r by simp
  ultimately have "read_line_loop 255 [] (con_in c) = (int (length s), s, evs)" using assms(4) by auto
  then show ?thesis by (simp add: serial_read_line_def MAX_LINE_def)
qed

lemma of_hex_char:
  assumes "d < 16" "letter = 65 \<or> letter = 97"
  shows "(of_char (hex_char letter d) :: nat) = (if d < 10 then 48 + d else letter + d - 10)"
  using assms by (auto simp: hex_char_def)

lemma line_charI: "13 < (of_char c :: nat) \<Longrightarrow> line_char c"
  by (auto simp: line_char_def LF_def CR_def)

lemma hex_digit_char:
  assumes "d < 16" "letter = 65 \<or> letter = 97"
  shows "hex_digit (hex_char letter d) = Some d" "line_char (hex_char letter d)"
proof -
  show "hex_digit (hex_char letter d) = Some d"
    using assms by (auto simp: hex_digit_def of_hex_char [OF assms] Let_def)
  show "line_char (hex_char letter d)"
    using assms by (intro line_charI) (auto simp: of_hex_char [OF assms])
qed

lemma hex_digits_append:
  "list_all (\<lambda>c. hex_digit c \<noteq> None) xs \<Longrightarrow> hex_digits (xs @ ys) = hex_digits xs @ hex_digits ys"
  by (induction xs) (auto split: option.splits)

lemma hex_fixed_read:
  assumes "letter = 65 \<or> letter = 97"
  shows "list_all line_char (hex_fixed letter k v) \<and> list_all (\<lambda>c. hex_digit c \<noteq> None) (hex_fixed letter k v) \<and>
    length (hex_fixed letter k v) = k \<and> length (hex_digits (hex_fixed letter k v)) = k \<and>
    foldl (\<lambda>w d. 16 * w + d) 0 (hex_digits (hex_fixed letter k v)) = v mod 16 ^ k"
proof (induction k arbitrary: v)
  case 0
  then show ?case by simp
next
  case (Suc k)
  have "16 * (v div 16 mod 16 ^ k) + v mod 16 = v mod (16 * 16 ^ k)"
    by (simp add: mod_mult2_eq)
  moreover have "hex_digits (hex_fixed letter (Suc k) v) = hex_digits (hex_fixed letter k (v div 16)) @ [v mod 16]"
    using Suc.IH [of "v div 16"] hex_digit_char [OF _ assms, of "v mod 16"] by (simp add: hex_digits_append)
  ultimately show ?case using Suc.IH [of "v div 16"] hex_digit_char [OF _ assms, of "v mod 16"] by simp
qed

text \<open>The answer of \<open>devmem\<close> for a 32-bit register.\<close>

definition devmem_answer :: "nat \<Rightarrow> string" where
  "devmem_answer v = ''0x'' @ hex_fixed 65 8 v"

lemma parse_devmem_answer:
  assumes "v < 2 ^ 32" shows "parse_devmem_output (devmem_answer v) = v"
proof -
  note h = hex_fixed_read [of 65 8 v, OF disjI1 [OF refl]]
  have "c_string (devmem_answer v) = devmem_answer v"
    using h by (simp add: c_string_def devmem_answer_def takeWhile_eq_all_conv list_all_iff line_char_def)
  moreover have "hex_value (hex_digits (hex_fixed 65 8 v)) = v"
    using h assms by (simp add: hex_value_def)
  moreover obtain d ds where "hex_digits (hex_fixed 65 8 v) = d # ds" using h by (cases "hex_digits (hex_fixed 65 8 v)") auto
  ultimately show ?thesis
    by (simp add: parse_devmem_output_def scan_hex_def scan_unsigned_def devmem_answer_def is_space_def)
qed

definition devmem_echo :: "nat \<Rightarrow> string" where
  "devmem_echo addr = ''devmem 0x'' @ print_lx addr"

lemma print_lx_chars: "list_all line_char (print_lx v) \<and> length (print_lx v) \<le> 16"
proof -
  have "hex_width k v \<le> Suc k" for k v by (induction k arbitrary: v) auto
  from this [of 15] show ?thesis using hex_fixed_read [of 97 "hex_width 15 v" v] by (simp add: print_lx_def)
qed

lemma devmem_command_echo: "devmem_command addr = devmem_echo addr @ CRLF"
proof -
  have "length (devmem_echo addr @ CRLF) \<le> 63"
    using print_lx_chars [of addr] by (simp add: devmem_echo_def CRLF_def)
  then show ?thesis by (simp only: devmem_command_def devmem_echo_def append_assoc take_all)
qed

text \<open>What a shell that echoes its input sends for one command: the command, the answer, and a prompt that no line
  end follows.\<close>

definition shell_reply :: "nat \<times> nat \<Rightarrow> serial_event list" where
  "shell_reply = (\<lambda>(addr, v). map Ready (devmem_command addr @ devmem_answer v @ CRLF @ ''# '') @ [Timed_out])"

lemma read_one:
  assumes "con_in c = shell_reply (addr, v) @ rest" "v < 2 ^ 32" "k (Suc (con_reads c)) - k (con_reads c) < 2"
  shows "read_registers k (addr # addrs) c = map_option (\<lambda>(vs, c4). (v # vs, c4)) (read_registers k addrs
    (c\<lparr>con_in := rest, con_out := con_out c @ devmem_command addr, con_reads := con_reads c + 2\<rparr>))"
proof -
  let ?c0 = "serial_write (devmem_command addr) c"
  let ?l1 = "Ready LF # map Ready (devmem_answer v) @ Ready CR # Ready LF # map Ready ''# '' @ Timed_out # rest"
  let ?l2 = "Ready LF # map Ready ''# '' @ Timed_out # rest"
  have ch: "list_all line_char (devmem_echo addr)" "list_all line_char (devmem_answer v)" "list_all line_char ''# ''"
      "length (devmem_echo addr) < 255" "length (devmem_answer v) < 255"
    using print_lx_chars [of addr] hex_fixed_read [of 65 8 v]
    by (simp_all add: devmem_echo_def devmem_answer_def line_char_def LF_def CR_def)
  have "con_in ?c0 = map Ready (devmem_echo addr) @ Ready CR # ?l1"
    by (simp add: serial_write_def assms(1) shell_reply_def devmem_command_echo CRLF_def)
  then have r1: "serial_read_line MAX_LINE ?c0 = (int (length (devmem_echo addr)), devmem_echo addr, ?c0\<lparr>con_in := ?l1\<rparr>)"
    using ch by (intro read_line) (auto simp: devmem_echo_def)
  have r2: "serial_read_line MAX_LINE (?c0\<lparr>con_in := ?l1\<rparr>) =
      (int (length (devmem_answer v)), devmem_answer v, ?c0\<lparr>con_in := ?l1\<rparr>\<lparr>con_in := ?l2\<rparr>)"
    using ch by (intro read_line) (auto simp: devmem_answer_def)
  let ?c2 = "?c0\<lparr>con_in := ?l2, con_reads := con_reads c + 2\<rparr>"
  have r3: "serial_read_line MAX_LINE ?c2 = (int (length ''# ''), ''# '', ?c2\<lparr>con_in := rest\<rparr>)"
    using ch by (intro read_line) auto
  have "wait_for_prompt k PROMPT_TIMEOUT_MS (?c0\<lparr>con_in := ?l2\<rparr>) = Some (0, ?c2\<lparr>con_in := rest\<rparr>)"
    using assms(3) r3 unfolding wait_for_prompt_def now_def prod.case
    by (subst prompt_loop.simps)
      (simp add: now_def PROMPT_TIMEOUT_MS_def serial_write_def has_prompt_def c_string_def)
  moreover have "?c2\<lparr>con_in := rest\<rparr> = c\<lparr>con_in := rest, con_out := con_out c @ devmem_command addr,
      con_reads := con_reads c + 2\<rparr>"
    by (cases c) (simp add: serial_write_def)
  ultimately have "wait_for_prompt k PROMPT_TIMEOUT_MS (?c0\<lparr>con_in := ?l2\<rparr>) = Some (0, c\<lparr>con_in := rest,
      con_out := con_out c @ devmem_command addr, con_reads := con_reads c + 2\<rparr>)"
    by simp
  moreover have "0 < length (devmem_answer v)" by (simp add: devmem_answer_def)
  ultimately show ?thesis
    using r1 r2 parse_devmem_answer [OF assms(2)] by (simp add: Let_def serial_write_def)
qed

text \<open>Property C28: on a console that echoes the commands and answers them, and with a clock that does not jump by two
  seconds between the two readings for a prompt, the tool returns exactly the values of the registers, in the
  order of the table, has sent one command for each, and leaves whatever comes after the last prompt unread.\<close>

theorem serial_registers_read:
  assumes "\<forall>r\<in>set rs. snd r < 2 ^ 32" "\<forall>n. k (Suc n) - k n < 2" "con_in c = concat (map shell_reply rs) @ rest"
  shows "read_registers k (map fst rs) c = Some (map snd rs, c\<lparr>con_in := rest,
    con_out := con_out c @ concat (map (devmem_command \<circ> fst) rs), con_reads := con_reads c + 2 * length rs\<rparr>)"
  using assms(1,3)
proof (induction rs arbitrary: c)
  case Nil
  then show ?case by simp
next
  case (Cons r rs)
  obtain addr v where r: "r = (addr, v)" by (cases r)
  let ?c = "c\<lparr>con_in := concat (map shell_reply rs) @ rest, con_out := con_out c @ devmem_command addr,
    con_reads := con_reads c + 2\<rparr>"
  have "read_registers k (map fst (r # rs)) c = map_option (\<lambda>(vs, c4). (v # vs, c4)) (read_registers k (map fst rs) ?c)"
    using read_one [of c addr v "concat (map shell_reply rs) @ rest" k "map fst rs"] Cons.prems r assms(2) by simp
  then show ?case using Cons.IH [of ?c] Cons.prems(1) r by simp
qed

text \<open>Fact: the first line after a command is taken for the echo. On a console that does not echo, the answer itself is
  skipped and the prompt is parsed instead: every register reads 0, whatever it holds. And the message of a shell
  that has no \<open>devmem\<close> reads as the register value 0xde, the hexadecimal digits it begins with.\<close>

theorem serial_misread:
  assumes "con_in c = map Ready (devmem_answer v @ CRLF @ ''# '') @ [Timed_out]" "2 \<le> k (Suc (con_reads c)) - k (con_reads c)"
  shows "(\<exists>c'. read_registers k [addr] c = Some ([0], c')) \<and>
    parse_devmem_output ''devmem: not found'' = 0xde"
proof
  let ?c0 = "serial_write (devmem_command addr) c"
  let ?l1 = "Ready LF # map Ready ''# '' @ Timed_out # []"
  have ch: "list_all line_char (devmem_answer v)" "list_all line_char ''# ''" "length (devmem_answer v) < 255"
    using hex_fixed_read [of 65 8 v] by (simp_all add: devmem_answer_def line_char_def LF_def CR_def)
  have r1: "serial_read_line MAX_LINE ?c0 = (int (length (devmem_answer v)), devmem_answer v, ?c0\<lparr>con_in := ?l1\<rparr>)"
    using ch assms(1) by (intro read_line) (auto simp: devmem_answer_def serial_write_def CRLF_def)
  have r2: "serial_read_line MAX_LINE (?c0\<lparr>con_in := ?l1\<rparr>) = (int (length ''# ''), ''# '', ?c0\<lparr>con_in := ?l1\<rparr>\<lparr>con_in := []\<rparr>)"
    using ch by (intro read_line) auto
  have "parse_devmem_output ''# '' = 0"
    by (simp add: parse_devmem_output_def c_string_def scan_hex_def is_space_def scan_unsigned_def hex_digit_def)
  moreover have "\<exists>c'. wait_for_prompt k PROMPT_TIMEOUT_MS (?c0\<lparr>con_in := []\<rparr>) = Some (- 1, c')"
    using assms(2) unfolding wait_for_prompt_def now_def prod.case
    by (subst prompt_loop.simps) (simp add: now_def PROMPT_TIMEOUT_MS_def serial_write_def)
  ultimately show "\<exists>c'. read_registers k [addr] c = Some ([0], c')"
    using r1 r2 by (auto simp: Let_def)
  show "parse_devmem_output ''devmem: not found'' = 0xde"
    by (simp add: parse_devmem_output_def c_string_def scan_hex_def is_space_def scan_unsigned_def hex_digit_def
      hex_value_def)
qed

definition demo_console :: "serial_event list \<Rightarrow> console" where
  "demo_console evs = \<lparr>con_in = evs, con_out = [], con_reads = 0\<rparr>"

theorem serial_registers_read_witness:
  "\<exists>c. read_registers (\<lambda>n. int n div 4) [0xd055010, 0xd055014]
     (demo_console (shell_reply (0xd055010, 7) @ shell_reply (0xd055014, 0xffffffff))) = Some ([7, 0xffffffff], c)"
proof -
  have "int (Suc n) div 4 - int n div 4 < 2" for n by linarith
  then show ?thesis
    using serial_registers_read [of "[(0xd055010, 7), (0xd055014, 0xffffffff)]" "\<lambda>n. int n div 4"
        "demo_console (shell_reply (0xd055010, 7) @ shell_reply (0xd055014, 0xffffffff))" "[]"]
    by (simp add: demo_console_def del: read_registers.simps)
qed

theorem serial_misread_witness:
  "\<exists>c'. read_registers (\<lambda>n. 5 * int n) [0xd055010]
     (demo_console (map Ready (devmem_answer 7 @ CRLF @ ''# '') @ [Timed_out])) = Some ([0], c')"
  using serial_misread [of "demo_console (map Ready (devmem_answer 7 @ CRLF @ ''# '') @ [Timed_out])" 7 "\<lambda>n. 5 * int n"]
  by (simp add: demo_console_def del: read_registers.simps)

end
