(* ===== verification/Rdma_Verbs.thy ===== *)
theory Rdma_Verbs
  imports Driver_Prelude
begin

text \<open>
  The two programs under \<open>rdma/soft-rdma/\<close>: a server and a client that create verbs objects, exchange
  their addresses over TCP, connect their queue pairs and pass one message. What a program does is a trace of
  events; the libraries answer through parameters. \<open>ledger\<close> is the discipline of libibverbs and
  librdmacm: an object is destroyed once, and after everything that was created from it.
\<close>

section \<open>Objects and their lifetimes\<close>

datatype robj = Devlist | Context | Pd | Cq | Qp | Buf | Mr | Lsock | Csock | Channel | Listener | Peer_id | Ctx_struct

fun needs :: "robj \<Rightarrow> robj list" where
  "needs Pd = [Context]"
| "needs Cq = [Context]"
| "needs Qp = [Pd, Cq, Peer_id]"
| "needs Mr = [Pd, Buf]"
| "needs Listener = [Channel]"
| "needs Peer_id = [Channel]"
| "needs x = []"

record rdma_info =
  ri_qpn :: u32
  ri_rkey :: u32
  ri_vaddr :: u64
  ri_gid :: bytes

text \<open>The attributes \<open>ibv_modify_qp\<close> is called with, those of the address handle included, and the mask that says
  which of them count.\<close>

datatype qp_state = RESET | INIT | RTR | RTS

datatype access_flag = LOCAL_WRITE | REMOTE_WRITE | REMOTE_READ

record ibv_qp_attr =
  qa_state :: qp_state
  qa_pkey_index :: nat
  qa_port_num :: nat
  qa_access_flags :: "access_flag list"
  qa_path_mtu :: nat
  qa_dest_qp_num :: u32
  qa_rq_psn :: nat
  qa_sq_psn :: nat
  qa_max_dest_rd_atomic :: nat
  qa_max_rd_atomic :: nat
  qa_min_rnr_timer :: nat
  qa_timeout :: nat
  qa_retry_cnt :: nat
  qa_rnr_retry :: nat
  ah_dlid :: nat
  ah_sl :: nat
  ah_port_num :: nat
  ah_is_global :: bool
  ah_dgid :: bytes
  ah_sgid_index :: nat
  ah_hop_limit :: nat

definition zero_attr :: ibv_qp_attr where
  "zero_attr = \<lparr>qa_state = RESET, qa_pkey_index = 0, qa_port_num = 0, qa_access_flags = [], qa_path_mtu = 0,
     qa_dest_qp_num = 0, qa_rq_psn = 0, qa_sq_psn = 0, qa_max_dest_rd_atomic = 0, qa_max_rd_atomic = 0,
     qa_min_rnr_timer = 0, qa_timeout = 0, qa_retry_cnt = 0, qa_rnr_retry = 0, ah_dlid = 0, ah_sl = 0,
     ah_port_num = 0, ah_is_global = False, ah_dgid = replicate 16 0, ah_sgid_index = 0, ah_hop_limit = 0\<rparr>"

datatype qp_mask = QP_STATE | QP_PKEY_INDEX | QP_PORT | QP_ACCESS_FLAGS | QP_AV | QP_PATH_MTU | QP_DEST_QPN
  | QP_RQ_PSN | QP_MAX_DEST_RD_ATOMIC | QP_MIN_RNR_TIMER | QP_SQ_PSN | QP_MAX_QP_RD_ATOMIC | QP_RETRY_CNT
  | QP_RNR_RETRY | QP_TIMEOUT

type_synonym qp_change = "ibv_qp_attr \<times> qp_mask list"

datatype rdma_event = Made robj | Unmade robj | Modify qp_change | Send_info bytes | Recv_info bytes | Post_recv nat
  | Post_send nat | Report bool | Disconnect | Reject | Uninitialised

text \<open>The objects alive after a trace; none when the discipline was broken.\<close>

fun ledger :: "rdma_event list \<Rightarrow> robj list \<Rightarrow> robj list option" where
  "ledger [] live = Some live"
| "ledger (Made x # es) live = (if x \<in> set live then None else ledger es (live @ [x]))"
| "ledger (Unmade x # es) live =
     (if x \<in> set live \<and> list_all (\<lambda>y. x \<notin> set (needs y)) live then ledger es (remove1 x live) else None)"
| "ledger (Uninitialised # es) live = None"
| "ledger (e # es) live = ledger es live"

section \<open>Steps that may fail\<close>

text \<open>A program is a list of steps; the first that fails leads to the clean-up code. The state holds the pointers that
  are set and the trace.\<close>

type_synonym rdma_state = "robj list \<times> rdma_event list"

fun run_steps :: "('s \<Rightarrow> 'e + 's) list \<Rightarrow> 's \<Rightarrow> 'e + 's" where
  "run_steps [] s = Inr s"
| "run_steps (f # fs) s = (case f s of Inl e \<Rightarrow> Inl e | Inr s' \<Rightarrow> run_steps fs s')"

definition obj_step :: "robj \<Rightarrow> bool \<Rightarrow> rdma_state \<Rightarrow> rdma_state + rdma_state" where
  "obj_step x ok = (\<lambda>(ptrs, tr). if ok then Inr (ptrs @ [x], tr @ [Made x]) else Inl (ptrs, tr))"

definition call_step :: "rdma_event \<Rightarrow> bool \<Rightarrow> rdma_state \<Rightarrow> rdma_state + rdma_state" where
  "call_step e ok = (\<lambda>(ptrs, tr). (if ok then Inr else Inl) (ptrs, tr @ [e]))"

definition check_step :: "bool \<Rightarrow> 's \<Rightarrow> 's + 's" where
  "check_step ok s = (if ok then Inr s else Inl s)"

definition release :: "robj list \<Rightarrow> rdma_state \<Rightarrow> rdma_event list" where
  "release order = (\<lambda>(ptrs, tr). tr @ map Unmade (filter (\<lambda>x. x \<in> set ptrs) order))"

section \<open>The programs\<close>

datatype poll = No_completion | Poll_error | Completion bool

record verbs_sys =
  vs_devices :: "string list option"
  vs_open :: bool
  vs_pd :: bool
  vs_cq :: bool
  vs_qp :: bool
  vs_qpn :: u32
  vs_init :: bool
  vs_buf :: bool
  vs_addr :: u64
  vs_mr :: bool
  vs_rkey :: u32
  vs_gid :: bytes
  vs_socket :: bool
  vs_bind :: bool
  vs_listen :: bool
  vs_peer :: bool
  vs_received :: nat
  vs_stack :: bytes
  vs_rtr :: bool
  vs_rts :: bool
  vs_post :: bool
  vs_poll :: "nat \<Rightarrow> poll"

definition BUF_SIZE :: nat where "BUF_SIZE = 1024"

definition qp_to_init :: "nat \<Rightarrow> qp_change" where
  "qp_to_init port_num = (zero_attr\<lparr>qa_state := INIT, qa_pkey_index := 0, qa_port_num := port_num,
     qa_access_flags := [REMOTE_WRITE, REMOTE_READ]\<rparr>,
     [QP_STATE, QP_PKEY_INDEX, QP_PORT, QP_ACCESS_FLAGS])"

definition qp_to_rtr :: "u32 \<Rightarrow> bytes \<Rightarrow> nat \<Rightarrow> qp_change" where
  "qp_to_rtr remote_qpn remote_gid port_num = (zero_attr\<lparr>qa_state := RTR, qa_path_mtu := 1024,
     qa_dest_qp_num := remote_qpn, qa_rq_psn := 0, qa_max_dest_rd_atomic := 1, qa_min_rnr_timer := 12,
     ah_dlid := 0, ah_sl := 0, ah_port_num := port_num, ah_is_global := True, ah_dgid := remote_gid,
     ah_hop_limit := 1, ah_sgid_index := 0\<rparr>,
     [QP_STATE, QP_AV, QP_PATH_MTU, QP_DEST_QPN, QP_RQ_PSN, QP_MAX_DEST_RD_ATOMIC, QP_MIN_RNR_TIMER])"

definition qp_to_rts :: qp_change where
  "qp_to_rts = (zero_attr\<lparr>qa_state := RTS, qa_sq_psn := 0, qa_max_rd_atomic := 1, qa_retry_cnt := 7,
     qa_rnr_retry := 7, qa_timeout := 14\<rparr>,
     [QP_STATE, QP_SQ_PSN, QP_MAX_QP_RD_ATOMIC, QP_RETRY_CNT, QP_RNR_RETRY, QP_TIMEOUT])"

definition local_info :: "verbs_sys \<Rightarrow> rdma_info" where
  "local_info y = \<lparr>ri_qpn = vs_qpn y, ri_rkey = vs_rkey y, ri_vaddr = vs_addr y, ri_gid = vs_gid y\<rparr>"

definition info_image :: "rdma_info \<Rightarrow> bytes" where
  "info_image i = le32 (unat (ri_qpn i)) @ le32 (unat (ri_rkey i)) @ le_bytes 8 (unat (ri_vaddr i)) @ ri_gid i"

definition info_read :: "bytes \<Rightarrow> rdma_info" where
  "info_read bs = \<lparr>ri_qpn = word_of_nat (rd_le (window bs 0 4)), ri_rkey = word_of_nat (rd_le (window bs 4 4)),
     ri_vaddr = word_of_nat (rd_le (window bs 8 8)), ri_gid = window bs 16 16\<rparr>"

text \<open>\<open>recv\<close> stores what has arrived, \<open>vs_received\<close> bytes at most; the rest of the structure keeps what was on
  the stack.\<close>

definition received_info :: "verbs_sys \<Rightarrow> bytes \<Rightarrow> bytes" where
  "received_info y incoming = take (vs_received y) (take 32 incoming)"

definition remote_info :: "verbs_sys \<Rightarrow> bytes \<Rightarrow> rdma_info" where
  "remote_info y incoming = info_read (blit (vs_stack y) 0 (received_info y incoming))"

text \<open>Polling: a clock that never shows a completion is never left.\<close>

partial_function (option) poll_loop :: "(nat \<Rightarrow> poll) \<Rightarrow> nat \<Rightarrow> poll option" where
  "poll_loop p i = (if p i = No_completion then poll_loop p (i + 1) else Some (p i))"

definition report :: "poll \<Rightarrow> rdma_event" where
  "report wc = (case wc of Completion ok \<Rightarrow> Report ok | _ \<Rightarrow> Uninitialised)"

definition finish :: "robj list \<Rightarrow> (nat \<Rightarrow> poll) \<Rightarrow> rdma_state + rdma_state \<Rightarrow> (int \<times> rdma_event list) option" where
  "finish order p r = (case r of Inl st \<Rightarrow> Some (0, release order st)
     | Inr (ptrs, tr) \<Rightarrow> map_option (\<lambda>wc. (0, release order (ptrs, tr @ [report wc]))) (poll_loop p 0))"

definition open_steps :: "verbs_sys \<Rightarrow> (rdma_state \<Rightarrow> rdma_state + rdma_state) list" where
  "open_steps y = [obj_step Context (vs_open y), obj_step Pd (vs_pd y), obj_step Cq (vs_cq y),
     obj_step Qp (vs_qp y), call_step (Modify (qp_to_init 1)) (vs_init y), obj_step Buf (vs_buf y),
     obj_step Mr (vs_mr y)]"

definition connect_steps :: "verbs_sys \<Rightarrow> bytes \<Rightarrow> (rdma_state \<Rightarrow> rdma_state + rdma_state) list" where
  "connect_steps y incoming =
     [call_step (Modify (qp_to_rtr (ri_qpn (remote_info y incoming)) (ri_gid (remote_info y incoming)) 1)) (vs_rtr y),
      call_step (Modify qp_to_rts) (vs_rts y)]"

definition server_steps :: "verbs_sys \<Rightarrow> bytes \<Rightarrow> (rdma_state \<Rightarrow> rdma_state + rdma_state) list" where
  "server_steps y incoming = open_steps y @
     [obj_step Lsock (vs_socket y), check_step (vs_bind y), check_step (vs_listen y), obj_step Csock (vs_peer y),
      call_step (Send_info (info_image (local_info y))) True, call_step (Recv_info (received_info y incoming)) True] @
     connect_steps y incoming @ [call_step (Post_recv BUF_SIZE) (vs_post y)]"

definition client_message_len :: nat where "client_message_len = 37 + 1"

definition client_steps :: "verbs_sys \<Rightarrow> bytes \<Rightarrow> (rdma_state \<Rightarrow> rdma_state + rdma_state) list" where
  "client_steps y incoming = open_steps y @
     [obj_step Csock (vs_socket y), check_step (vs_peer y), call_step (Recv_info (received_info y incoming)) True,
      call_step (Send_info (info_image (local_info y))) True] @
     connect_steps y incoming @ [call_step (Post_send client_message_len) (vs_post y)]"

text \<open>The part of \<open>main\<close> both programs share: the device list, and the device of the given name. \<open>None\<close> is a
  program that polls for ever.\<close>

definition rdma_main ::
  "robj list \<Rightarrow> (rdma_state \<Rightarrow> rdma_state + rdma_state) list \<Rightarrow> verbs_sys \<Rightarrow> string \<Rightarrow> (int \<times> rdma_event list) option" where
  "rdma_main order steps y dev_name = (case vs_devices y of None \<Rightarrow> Some (1, [])
     | Some devs \<Rightarrow>
         if devs = [] then Some (1, [Made Devlist])
         else if dev_name \<notin> set devs then Some (1, [Made Devlist, Unmade Devlist])
         else finish order (vs_poll y) (run_steps steps ([Devlist], [Made Devlist])))"

definition rdma_server_main :: "verbs_sys \<Rightarrow> string \<Rightarrow> bytes \<Rightarrow> (int \<times> rdma_event list) option" where
  "rdma_server_main y dev_name incoming =
     rdma_main [Csock, Lsock, Qp, Mr, Buf, Cq, Pd, Context, Devlist] (server_steps y incoming) y dev_name"

definition rdma_client_main :: "verbs_sys \<Rightarrow> string \<Rightarrow> bytes \<Rightarrow> (int \<times> rdma_event list) option" where
  "rdma_client_main y dev_name incoming =
     rdma_main [Csock, Qp, Mr, Buf, Cq, Pd, Context, Devlist] (client_steps y incoming) y dev_name"

section \<open>Clean-up\<close>

lemmas step_defs = obj_step_def call_step_def check_step_def

lemma poll_loop_from: "p n \<noteq> No_completion \<Longrightarrow> \<exists>wc. poll_loop p (n - k) = Some wc \<and> wc \<noteq> No_completion"
proof (induction k)
  case 0
  then show ?case by (subst poll_loop.simps) simp
next
  case (Suc k)
  then have IH: "\<exists>wc. poll_loop p (n - k) = Some wc \<and> wc \<noteq> No_completion" by simp
  show ?case
  proof (cases "k < n")
    case True
    then have "n - Suc k + 1 = n - k" by simp
    then show ?thesis using IH by (subst poll_loop.simps) auto
  qed (use IH in simp)
qed

lemma poll_loop_returns: "p n \<noteq> No_completion \<Longrightarrow> \<exists>wc. poll_loop p 0 = Some wc \<and> wc \<noteq> No_completion"
  using poll_loop_from [of p n n] by simp

lemma poll_loop_result:
  assumes "poll_loop p i = Some wc"
  shows "wc \<noteq> No_completion \<and> (\<exists>n. p n = wc)"
  by (rule poll_loop.raw_induct [OF _ assms]) (auto split: if_splits)

lemma poll_loop_forever: "poll_loop p 0 = None \<longleftrightarrow> (\<forall>n. p n = No_completion)"
  using poll_loop_returns poll_loop_result by (metis not_Some_eq option.distinct(1))

lemma report_ledger: "wc \<noteq> No_completion \<Longrightarrow> wc \<noteq> Poll_error \<Longrightarrow> \<exists>ok. report wc = Report ok"
  by (cases wc) (simp_all add: report_def)

definition verbs_polls :: "verbs_sys \<Rightarrow> bool" where
  "verbs_polls y \<longleftrightarrow> (\<exists>n. vs_poll y n \<noteq> No_completion) \<and> (\<forall>n. vs_poll y n \<noteq> Poll_error)"

lemma verbs_polls_report: "verbs_polls y \<Longrightarrow> \<exists>wc ok. poll_loop (vs_poll y) 0 = Some wc \<and> report wc = Report ok"
  unfolding verbs_polls_def using poll_loop_returns poll_loop_result report_ledger by metis

text \<open>Property C26: whatever fails, the two programs that use sockets leave nothing behind: every object that was made is destroyed once, after
  those that depend on it, if polling ends without an error. The exit status is 1 only when there is no such device: every later failure exits
  with 0. An empty device list is not freed.\<close>

theorem rdma_cleans_up:
  assumes "verbs_polls y" "vs_devices y \<noteq> Some []"
  shows "\<exists>ts tc. let status = (case vs_devices y of None \<Rightarrow> 1 | Some ds \<Rightarrow> if dev_name \<in> set ds then 0 else 1) in
    rdma_server_main y dev_name incoming = Some (status, ts) \<and> ledger ts [] = Some [] \<and>
    rdma_client_main y dev_name incoming = Some (status, tc) \<and> ledger tc [] = Some []"
proof -
  obtain wc ok where w: "poll_loop (vs_poll y) 0 = Some wc" "report wc = Report ok"
    using verbs_polls_report [OF assms(1)] by blast
  have "\<exists>ts. finish [Csock, Lsock, Qp, Mr, Buf, Cq, Pd, Context, Devlist] (vs_poll y)
      (run_steps (server_steps y incoming) ([Devlist], [Made Devlist])) = Some (0, ts) \<and> ledger ts [] = Some []"
    by (simp add: finish_def w server_steps_def open_steps_def connect_steps_def step_defs release_def)
  moreover have "\<exists>ts. finish [Csock, Qp, Mr, Buf, Cq, Pd, Context, Devlist] (vs_poll y)
      (run_steps (client_steps y incoming) ([Devlist], [Made Devlist])) = Some (0, ts) \<and> ledger ts [] = Some []"
    by (simp add: finish_def w client_steps_def open_steps_def connect_steps_def step_defs release_def)
  ultimately show ?thesis
    using assms(2) by (auto simp: rdma_server_main_def rdma_client_main_def rdma_main_def split: option.splits)
qed

section \<open>Connecting\<close>

definition info_parse :: "bytes \<Rightarrow> (rdma_info \<times> bytes) option" where
  "info_parse bs = (if length bs < 32 then None else Some (info_read (take 32 bs), drop 32 bs))"

lemma length_info_image: "length (ri_gid i) = 16 \<Longrightarrow> length (info_image i) = 32"
  by (simp add: info_image_def)

lemma info_read_image: "length (ri_gid i) = 16 \<Longrightarrow> info_read (info_image i) = i"
  using unat_u32_bound [of "ri_qpn i"] unat_u32_bound [of "ri_rkey i"] unat_u64_bound [of "ri_vaddr i"]
  by (simp add: info_read_def info_image_def window_def drop_append)

interpretation rdma_wire: byte_codec info_image info_parse "\<lambda>i. length (ri_gid i) = 16"
  by unfold_locales (simp add: info_parse_def length_info_image info_read_image)

definition verbs_works :: "verbs_sys \<Rightarrow> bool" where
  "verbs_works y \<longleftrightarrow> vs_open y \<and> vs_pd y \<and> vs_cq y \<and> vs_qp y \<and> vs_init y \<and> vs_buf y \<and> vs_mr y \<and> vs_socket y \<and>
     vs_bind y \<and> vs_listen y \<and> vs_peer y \<and> vs_rtr y \<and> vs_rts y \<and> vs_post y \<and> length (vs_gid y) = 16 \<and>
     length (vs_stack y) = 32 \<and> 32 \<le> vs_received y \<and> verbs_polls y"

lemma received_info_whole:
  assumes "verbs_works y" "verbs_works z"
  shows "received_info y (info_image (local_info z)) = info_image (local_info z)"
  using assms length_info_image [of "local_info z"] by (simp add: received_info_def verbs_works_def local_info_def)

lemma remote_info_read:
  assumes "verbs_works y" "verbs_works z"
  shows "remote_info y (info_image (local_info z)) = local_info z"
proof -
  have l: "length (info_image (local_info z)) = 32" "ri_gid (local_info z) = vs_gid z" "length (vs_stack y) = 32"
    using assms by (simp_all add: verbs_works_def local_info_def length_info_image)
  then have "blit (vs_stack y) 0 (received_info y (info_image (local_info z))) = info_image (local_info z)"
    by (simp add: received_info_whole [OF assms] blit_def)
  then show ?thesis using assms(2) l by (simp add: remote_info_def info_read_image verbs_works_def)
qed

text \<open>A queue pair of a reliable connection: the attributes that each change of state must carry, and what is
  known of the peer after a sequence of changes. A change that is not allowed gives \<open>None\<close>.\<close>

record qp_view =
  qv_state :: qp_state
  qv_peer :: "u32 \<times> bytes"
  qv_rq_psn :: nat
  qv_sq_psn :: nat

definition qp_required :: "qp_state \<Rightarrow> qp_state \<Rightarrow> qp_mask list option" where
  "qp_required s t = (if s = RESET \<and> t = INIT then Some [QP_STATE, QP_PKEY_INDEX, QP_PORT, QP_ACCESS_FLAGS]
     else if s = INIT \<and> t = RTR then Some [QP_STATE, QP_AV, QP_PATH_MTU, QP_DEST_QPN, QP_RQ_PSN,
       QP_MAX_DEST_RD_ATOMIC, QP_MIN_RNR_TIMER]
     else if s = RTR \<and> t = RTS then Some [QP_STATE, QP_SQ_PSN, QP_MAX_QP_RD_ATOMIC, QP_RETRY_CNT, QP_RNR_RETRY,
       QP_TIMEOUT]
     else None)"

fun qp_run :: "qp_change list \<Rightarrow> qp_view \<Rightarrow> qp_view option" where
  "qp_run [] v = Some v"
| "qp_run ((a, ms) # cs) v = (case qp_required (qv_state v) (qa_state a) of None \<Rightarrow> None
     | Some req \<Rightarrow>
         if \<not> set req \<subseteq> set ms then None
         else qp_run cs (v\<lparr>qv_state := qa_state a,
           qv_peer := (if QP_DEST_QPN \<in> set ms then (qa_dest_qp_num a, ah_dgid a) else qv_peer v),
           qv_rq_psn := (if QP_RQ_PSN \<in> set ms then qa_rq_psn a else qv_rq_psn v),
           qv_sq_psn := (if QP_SQ_PSN \<in> set ms then qa_sq_psn a else qv_sq_psn v)\<rparr>))"

definition fresh_qp :: qp_view where
  "fresh_qp = \<lparr>qv_state = RESET, qv_peer = (0, []), qv_rq_psn = 0, qv_sq_psn = 0\<rparr>"

definition changes :: "rdma_event list \<Rightarrow> qp_change list" where
  "changes tr = List.concat (map (\<lambda>e. case e of Modify a \<Rightarrow> [a] | _ \<Rightarrow> []) tr)"

text \<open>What a trace put on the socket and took from it, in that order.\<close>

definition infos :: "rdma_event list \<Rightarrow> rdma_event list" where
  "infos tr = filter (\<lambda>e. case e of Send_info _ \<Rightarrow> True | Recv_info _ \<Rightarrow> True | _ \<Rightarrow> False) tr"

lemma qp_connects:
  "\<exists>v. qp_run [qp_to_init p, qp_to_rtr qpn gid p', qp_to_rts] fresh_qp = Some v \<and> qv_state v = RTS \<and>
     qv_peer v = (qpn, gid) \<and> qv_rq_psn v = 0 \<and> qv_sq_psn v = 0"
  by (simp add: qp_to_init_def qp_to_rtr_def qp_to_rts_def zero_attr_def fresh_qp_def qp_required_def)

text \<open>Property C25: two programs that run against each other, with all calls working and the structures received whole, connect
  their queue pairs: each goes through INIT, RTR and RTS with all the attributes a reliable connection asks for, is
  pointed at the number and the address of the other one, and expects the sequence number the other one starts with. The server
  sends before it receives and the client receives before it sends, so neither waits for the other. The server's
  buffer holds the client's message.\<close>

theorem rdma_connected:
  assumes "verbs_works ys" "verbs_works yc"
    "vs_devices ys = Some ds" "s_dev \<in> set ds" "vs_devices yc = Some dc" "c_dev \<in> set dc"
  shows "\<exists>ts tc vs vc. rdma_server_main ys s_dev (info_image (local_info yc)) = Some (0, ts) \<and>
    rdma_client_main yc c_dev (info_image (local_info ys)) = Some (0, tc) \<and>
    infos ts = [Send_info (info_image (local_info ys)), Recv_info (info_image (local_info yc))] \<and>
    infos tc = [Recv_info (info_image (local_info ys)), Send_info (info_image (local_info yc))] \<and>
    qp_run (changes ts) fresh_qp = Some vs \<and> qp_run (changes tc) fresh_qp = Some vc \<and>
    qv_state vs = RTS \<and> qv_state vc = RTS \<and>
    qv_peer vs = (vs_qpn yc, vs_gid yc) \<and> qv_peer vc = (vs_qpn ys, vs_gid ys) \<and>
    qv_rq_psn vs = qv_sq_psn vc \<and> qv_rq_psn vc = qv_sq_psn vs \<and>
    (\<exists>n. Post_recv n \<in> set ts \<and> Post_send client_message_len \<in> set tc \<and> client_message_len \<le> n)"
proof -
  note r = remote_info_read [OF assms(1,2)] remote_info_read [OF assms(2,1)]
    received_info_whole [OF assms(1,2)] received_info_whole [OF assms(2,1)]
  obtain ws oks where s: "poll_loop (vs_poll ys) 0 = Some ws" "report ws = Report oks"
    using verbs_polls_report assms(1) unfolding verbs_works_def by blast
  obtain wc okc where c: "poll_loop (vs_poll yc) 0 = Some wc" "report wc = Report okc"
    using verbs_polls_report assms(2) unfolding verbs_works_def by blast
  have l: "ri_qpn (local_info y) = vs_qpn y" "ri_gid (local_info y) = vs_gid y" for y
    by (simp_all add: local_info_def)
  have d: "ds \<noteq> []" "dc \<noteq> []" using assms(4,6) by auto
  obtain ts where ts: "rdma_server_main ys s_dev (info_image (local_info yc)) = Some (0, ts)"
    "infos ts = [Send_info (info_image (local_info ys)), Recv_info (info_image (local_info yc))]" "Post_recv BUF_SIZE \<in> set ts"
    "changes ts = [qp_to_init 1, qp_to_rtr (vs_qpn yc) (vs_gid yc) 1, qp_to_rts]"
    using assms(1,3,4) s d unfolding verbs_works_def
    by (simp add: rdma_server_main_def rdma_main_def finish_def server_steps_def open_steps_def connect_steps_def
      step_defs release_def r changes_def infos_def l)
  obtain tc where tc: "rdma_client_main yc c_dev (info_image (local_info ys)) = Some (0, tc)"
    "infos tc = [Recv_info (info_image (local_info ys)), Send_info (info_image (local_info yc))]" "Post_send client_message_len \<in> set tc"
    "changes tc = [qp_to_init 1, qp_to_rtr (vs_qpn ys) (vs_gid ys) 1, qp_to_rts]"
    using assms(2,5,6) c d unfolding verbs_works_def
    by (simp add: rdma_client_main_def rdma_main_def finish_def client_steps_def open_steps_def connect_steps_def
      step_defs release_def r changes_def infos_def l)
  obtain vs where vs: "qp_run (changes ts) fresh_qp = Some vs" "qv_state vs = RTS" "qv_peer vs = (vs_qpn yc, vs_gid yc)"
    "qv_rq_psn vs = 0" "qv_sq_psn vs = 0"
    unfolding ts(4) using qp_connects by blast
  obtain vc where vc: "qp_run (changes tc) fresh_qp = Some vc" "qv_state vc = RTS" "qv_peer vc = (vs_qpn ys, vs_gid ys)"
    "qv_rq_psn vc = 0" "qv_sq_psn vc = 0"
    unfolding tc(4) using qp_connects by blast
  show ?thesis
    using ts(1-3) tc(1-3) vs vc by (auto simp: client_message_len_def BUF_SIZE_def)
qed

definition demo_verbs :: "u32 \<Rightarrow> verbs_sys" where
  "demo_verbs qpn = \<lparr>vs_devices = Some [''rxe0''], vs_open = True, vs_pd = True, vs_cq = True, vs_qp = True,
     vs_qpn = qpn, vs_init = True, vs_buf = True, vs_addr = 4096, vs_mr = True, vs_rkey = 7,
     vs_gid = replicate 16 1, vs_socket = True, vs_bind = True, vs_listen = True, vs_peer = True,
     vs_received = 32, vs_stack = replicate 32 0, vs_rtr = True, vs_rts = True, vs_post = True,
     vs_poll = \<lambda>n. if n = 2 then Completion True else No_completion\<rparr>"

lemma demo_verbs_works: "verbs_works (demo_verbs qpn)"
  by (auto simp: verbs_works_def verbs_polls_def demo_verbs_def)

theorem rdma_cleans_up_witness:
  "\<exists>ts tc. rdma_server_main (demo_verbs 17\<lparr>vs_mr := False\<rparr>) ''rxe0'' [] = Some (0, ts) \<and> ledger ts [] = Some [] \<and>
     rdma_client_main (demo_verbs 17\<lparr>vs_mr := False\<rparr>) ''rxe0'' [] = Some (0, tc) \<and> ledger tc [] = Some []"
proof -
  have "verbs_polls (demo_verbs 17\<lparr>vs_mr := False\<rparr>)" by (auto simp: verbs_polls_def demo_verbs_def)
  from rdma_cleans_up [OF this, of "''rxe0''" "[]"] show ?thesis by (simp add: demo_verbs_def)
qed

theorem rdma_connected_witness:
  "\<exists>ts tc vs. rdma_server_main (demo_verbs 17) ''rxe0'' (info_image (local_info (demo_verbs 18))) = Some (0, ts) \<and>
    rdma_client_main (demo_verbs 18) ''rxe0'' (info_image (local_info (demo_verbs 17))) = Some (0, tc) \<and>
    qp_run (changes ts) fresh_qp = Some vs \<and> qv_peer vs = (18, replicate 16 1)"
proof -
  have "vs_devices (demo_verbs q) = Some [''rxe0'']" "vs_gid (demo_verbs q) = replicate 16 1" "vs_qpn (demo_verbs q) = q" for q
    by (simp_all add: demo_verbs_def)
  then show ?thesis
    using rdma_connected [OF demo_verbs_works demo_verbs_works, of 17 "[''rxe0'']" "''rxe0''" 18 "[''rxe0'']" "''rxe0''"]
    by simp blast
qed

end
