(* ===== verification/Rdma_Cm.thy ===== *)
theory Rdma_Cm
  imports Rdma_Verbs
begin

text \<open>
  The two programs under \<open>rdma/soft-rdma-ok/\<close>, which connect through the RDMA connection manager: the server
  echoes a greeting for every message, the client sends one message and waits for the answer. Traces, steps
  and the ledger are those of \<open>Rdma_Verbs\<close>.
\<close>

section \<open>The server\<close>

datatype cm_event = Connect_request | Established | Addr_resolved | Route_resolved | Connect_response
  | Rejected | Connect_error | Other_event

text \<open>What a poll of the completion queue returns.\<close>

datatype cm_poll = Empty_queue | Poll_fails | Failed_wc | Send_wc | Recv_wc | Other_wc

record cm_sys =
  cs_channel :: bool
  cs_id :: bool
  cs_bind :: bool
  cs_listen :: bool
  cs_event1 :: "cm_event option"
  cs_verbs :: bool
  cs_ctx :: bool
  cs_pd :: bool
  cs_cq :: bool
  cs_buf :: bool
  cs_mr :: bool
  cs_qp :: bool
  cs_accept :: bool
  cs_event2 :: "cm_event option"
  cs_poll :: "nat \<Rightarrow> cm_poll"
  cs_resolve :: bool
  cs_route :: bool
  cs_connect :: bool
  cs_event3 :: "cm_event option"

definition CM_BUFFER_SIZE :: nat where "CM_BUFFER_SIZE = 4096"

text \<open>A failure leads to a label, with the trace so far; the jumps to \<open>cleanup\<close> say what the local variable
  \<open>client\<close> holds there.\<close>

datatype client_ptr = Unset | Null | Set

datatype label = Return | Cleanup client_ptr | Ctx_cleanup | Qp_cleanup

type_synonym cm_step = "rdma_event list \<Rightarrow> label \<times> rdma_event list + rdma_event list"

text \<open>On success \<open>good\<close> happens, on a failure \<open>bad\<close>.\<close>

definition cm_step :: "bool \<Rightarrow> rdma_event list \<Rightarrow> rdma_event list \<Rightarrow> label \<Rightarrow> rdma_event list \<Rightarrow>
    label \<times> rdma_event list + rdma_event list" where
  "cm_step ok good bad l tr = (if ok then Inr (tr @ good) else Inl (l, tr @ bad))"

definition cm_server_accepts :: "cm_sys \<Rightarrow> cm_step list" where
  "cm_server_accepts y = [
     cm_step (cs_channel y) [Made Channel] [] Return,
     cm_step (cs_id y) [Made Listener] [Unmade Channel] Return,
     cm_step (cs_bind y) [] [] (Cleanup Unset),
     cm_step (cs_listen y) [] [] (Cleanup Unset),
     cm_step (cs_event1 y = Some Connect_request) [Made Peer_id] [] (Cleanup Null),
     cm_step (cs_verbs y) [] [] (Cleanup Set),
     cm_step (cs_ctx y) [Made Ctx_struct] [Reject] (Cleanup Set),
     cm_step (cs_pd y) [Made Pd] [Unmade Ctx_struct, Reject] (Cleanup Set),
     cm_step (cs_cq y) [Made Cq] [Unmade Pd, Unmade Ctx_struct, Reject] (Cleanup Set),
     cm_step (cs_buf y) [Made Buf] [Unmade Cq, Unmade Pd, Unmade Ctx_struct, Reject] (Cleanup Set),
     cm_step (cs_mr y) [Made Mr] [Unmade Buf, Unmade Cq, Unmade Pd, Unmade Ctx_struct, Reject] (Cleanup Set),
     cm_step (cs_qp y) [Made Qp] [] Ctx_cleanup,
     cm_step (cs_accept y) [] [] Qp_cleanup,
     cm_step (cs_event2 y = Some Established) [Post_recv CM_BUFFER_SIZE] [] Qp_cleanup]"

text \<open>The polling loop: the failure of a post is only printed. It ends on an error.\<close>

definition cm_server_answer :: "cm_poll \<Rightarrow> rdma_event list" where
  "cm_server_answer wc = (if wc = Recv_wc then [Report True, Post_send 64, Post_recv CM_BUFFER_SIZE] else [])"

partial_function (option) cm_server_loop :: "(nat \<Rightarrow> cm_poll) \<Rightarrow> nat \<Rightarrow> rdma_event list \<Rightarrow> rdma_event list option" where
  "cm_server_loop p i tr = (if p i = Poll_fails \<or> p i = Failed_wc then Some tr
     else cm_server_loop p (i + 1) (tr @ cm_server_answer (p i)))"

definition cm_server_cleanup :: "client_ptr \<Rightarrow> rdma_event list" where
  "cm_server_cleanup c = (case c of Unset \<Rightarrow> [Uninitialised] | Null \<Rightarrow> [] | Set \<Rightarrow> [Disconnect]) @
     [Unmade Listener, Unmade Channel]"

fun cm_server_label :: "label \<Rightarrow> rdma_event list" where
  "cm_server_label Return = []"
| "cm_server_label (Cleanup c) = cm_server_cleanup c"
| "cm_server_label Ctx_cleanup = [Unmade Mr, Unmade Buf, Unmade Cq, Unmade Pd, Unmade Ctx_struct] @ cm_server_cleanup Set"
| "cm_server_label Qp_cleanup =
     [Disconnect, Unmade Mr, Unmade Buf, Unmade Cq, Unmade Pd, Unmade Ctx_struct] @ cm_server_cleanup Set"

definition cm_run_server :: "cm_sys \<Rightarrow> rdma_event list option" where
  "cm_run_server y = (case run_steps (cm_server_accepts y) [] of Inl (l, tr) \<Rightarrow> Some (tr @ cm_server_label l)
     | Inr tr \<Rightarrow> map_option (\<lambda>tr'. tr' @ cm_server_label Qp_cleanup) (cm_server_loop (cs_poll y) 0 tr))"

section \<open>The client\<close>

text \<open>The pointers in the context structure; those of objects destroyed again are not cleared.\<close>

definition client_obj :: "bool \<Rightarrow> robj \<Rightarrow> robj list \<Rightarrow> rdma_state \<Rightarrow> rdma_state + rdma_state" where
  "client_obj ok x undo = (\<lambda>(ptrs, tr). if ok then Inr (ptrs @ [x], tr @ [Made x]) else Inl (ptrs, tr @ map Unmade undo))"

definition resolve_and_connect :: "cm_sys \<Rightarrow> (rdma_state \<Rightarrow> rdma_state + rdma_state) list" where
  "resolve_and_connect y = [
     check_step (cs_resolve y), check_step (cs_event1 y = Some Addr_resolved), check_step (cs_verbs y),
     client_obj (cs_pd y) Pd [],
     client_obj (cs_cq y) Cq [Pd],
     client_obj (cs_buf y) Buf [Cq, Pd],
     client_obj (cs_mr y) Mr [Buf, Cq, Pd],
     client_obj (cs_qp y) Qp [],
     check_step (cs_route y), check_step (cs_event2 y = Some Route_resolved), check_step (cs_connect y),
     check_step (cs_event3 y = Some Established \<or> cs_event3 y = Some Connect_response)]"

definition client_release :: "rdma_state \<Rightarrow> rdma_event list" where
  "client_release st = release [Mr, Buf, Qp, Cq, Pd] st @ [Unmade Ctx_struct, Unmade Peer_id, Unmade Channel]"

partial_function (option) cm_client_loop :: "(nat \<Rightarrow> cm_poll) \<Rightarrow> nat \<Rightarrow> rdma_event list \<Rightarrow> rdma_event list option" where
  "cm_client_loop p i tr = (if p i = Poll_fails \<or> p i = Failed_wc then Some tr
     else if p i = Recv_wc then Some (tr @ [Report True])
     else cm_client_loop p (i + 1) tr)"

definition cm_client_main :: "cm_sys \<Rightarrow> (int \<times> rdma_event list) option" where
  "cm_client_main y =
     (if \<not> cs_channel y then Some (1, [])
      else if \<not> cs_id y then Some (1, [Made Channel, Unmade Channel])
      else if \<not> cs_ctx y then Some (1, [Made Channel, Made Peer_id, Unmade Peer_id, Unmade Channel])
      else case run_steps (resolve_and_connect y) ([], [Made Channel, Made Peer_id, Made Ctx_struct]) of
        Inl st \<Rightarrow> Some (1, client_release st)
      | Inr (ptrs, tr) \<Rightarrow> (case cm_client_loop (cs_poll y) 0 (tr @ [Post_send 64, Post_recv CM_BUFFER_SIZE]) of None \<Rightarrow> None
        | Some tr' \<Rightarrow> Some (0, client_release (ptrs, tr' @ [Disconnect]))))"

section \<open>Lifetimes\<close>

definition loop_ends :: "(nat \<Rightarrow> cm_poll) \<Rightarrow> nat \<Rightarrow> bool" where
  "loop_ends p n \<longleftrightarrow> (p n = Poll_fails \<or> p n = Failed_wc) \<and> (\<forall>k<n. p k \<noteq> Poll_fails \<and> p k \<noteq> Failed_wc)"

lemma cm_server_loop_runs:
  assumes "loop_ends p n" "i \<le> n"
  shows "cm_server_loop p i tr = Some (tr @ concat (map (cm_server_answer \<circ> p) [i..<n]))"
  using assms(2)
proof (induction "n - i" arbitrary: i tr)
  case 0
  then show ?case using assms(1) by (subst cm_server_loop.simps) (simp add: loop_ends_def)
next
  case (Suc k)
  then have "i < n" "k = n - (i + 1)" by simp_all
  then show ?case
    using assms(1) Suc.hyps(1) [of "i + 1"] by (subst cm_server_loop.simps) (simp add: loop_ends_def upt_conv_Cons)
qed

lemma cm_server_loop_stops: "cm_server_loop p i tr = Some tr' \<Longrightarrow> \<exists>n. p n = Poll_fails \<or> p n = Failed_wc"
  by (erule cm_server_loop.raw_induct [rotated]) (auto split: if_splits)

lemma loop_ends_ex: "p n = Poll_fails \<or> p n = Failed_wc \<Longrightarrow> \<exists>n. loop_ends p n"
proof (induction n rule: less_induct)
  case (less n)
  then show ?case unfolding loop_ends_def by (cases "\<exists>k<n. p k = Poll_fails \<or> p k = Failed_wc") auto
qed

definition server_set_up :: "cm_sys \<Rightarrow> bool" where
  "server_set_up y \<longleftrightarrow> cs_channel y \<and> cs_id y \<and> cs_bind y \<and> cs_listen y \<and> cs_event1 y = Some Connect_request \<and>
     cs_verbs y \<and> cs_ctx y \<and> cs_pd y \<and> cs_cq y \<and> cs_buf y \<and> cs_mr y \<and> cs_qp y \<and> cs_accept y \<and>
     cs_event2 y = Some Established"

definition occurs :: "rdma_event \<Rightarrow> rdma_event list \<Rightarrow> nat" where
  "occurs e tr = count_list tr e"

lemma occurs_answers:
  "occurs (Post_send 64) (concat (map (cm_server_answer \<circ> p) ks)) = length (filter (\<lambda>k. p k = Recv_wc) ks) \<and>
   occurs (Post_recv CM_BUFFER_SIZE) (concat (map (cm_server_answer \<circ> p) ks)) = length (filter (\<lambda>k. p k = Recv_wc) ks)"
  by (induction ks) (simp_all add: occurs_def cm_server_answer_def)

text \<open>Fact: a connected server returns exactly if a poll or a completion fails at some time. It has then
  posted one answer for every message completed before the first failure, and one receive more than that: a receive
  was posted whenever a message could come.\<close>

theorem cm_server_answers:
  assumes "server_set_up y"
  shows "case cm_run_server y of
      None \<Rightarrow> \<forall>n. cs_poll y n \<noteq> Poll_fails \<and> cs_poll y n \<noteq> Failed_wc
    | Some tr \<Rightarrow> \<exists>n. loop_ends (cs_poll y) n \<and>
        occurs (Post_send 64) tr = length (filter (\<lambda>k. cs_poll y k = Recv_wc) [0..<n]) \<and>
        occurs (Post_recv CM_BUFFER_SIZE) tr = occurs (Post_send 64) tr + 1"
proof (cases "\<exists>n. cs_poll y n = Poll_fails \<or> cs_poll y n = Failed_wc")
  case True
  then obtain n where n: "loop_ends (cs_poll y) n" using loop_ends_ex by blast
  have "cm_run_server y = Some ([Made Channel, Made Listener, Made Peer_id, Made Ctx_struct, Made Pd, Made Cq, Made Buf,
      Made Mr, Made Qp, Post_recv CM_BUFFER_SIZE] @ concat (map (cm_server_answer \<circ> cs_poll y) [0..<n]) @ cm_server_label Qp_cleanup)"
    using assms cm_server_loop_runs [OF n le0]
    by (simp add: cm_run_server_def cm_server_accepts_def cm_step_def server_set_up_def)
  then show ?thesis
    using n occurs_answers [of "cs_poll y" "[0..<n]"]
    by (auto simp: occurs_def cm_server_cleanup_def intro!: exI [of _ n])
next
  case False
  then have "cm_run_server y = None"
    using assms cm_server_loop_stops [of "cs_poll y" 0]
    by (cases "cm_run_server y") (auto simp: cm_run_server_def cm_server_accepts_def cm_step_def server_set_up_def)
  then show ?thesis using False by simp
qed

lemma ledger_append: "ledger (xs @ ys) live = (case ledger xs live of None \<Rightarrow> None | Some l \<Rightarrow> ledger ys l)"
  by (induction xs live rule: ledger.induct) simp_all

lemma ledger_answers: "ledger (concat (map (cm_server_answer \<circ> p) ks)) live = Some live"
  by (induction ks) (simp_all add: cm_server_answer_def)

lemma answers_unmade: "Unmade x \<notin> set (cm_server_answer wc)"
  by (simp add: cm_server_answer_def)

text \<open>Fact: once a client has asked to connect, the server breaks the discipline of the library on every path: the connection's
  identifier is never destroyed, though the channel it belongs to is; and a connected server destroys the completion
  queue and the protection domain under the queue pair, which is never destroyed.\<close>

theorem cm_server_leaks:
  assumes "cm_run_server y = Some tr" "cs_channel y" "cs_id y" "cs_bind y" "cs_listen y" "cs_event1 y = Some Connect_request"
  shows "Made Peer_id \<in> set tr \<and> Unmade Peer_id \<notin> set tr \<and> Unmade Qp \<notin> set tr \<and> ledger tr [] = None"
proof (cases "server_set_up y")
  case True
  obtain tr' where "cm_server_loop (cs_poll y) 0 [Made Channel, Made Listener, Made Peer_id, Made Ctx_struct, Made Pd,
      Made Cq, Made Buf, Made Mr, Made Qp, Post_recv CM_BUFFER_SIZE] = Some tr'"
    using True assms(1) by (auto simp: cm_run_server_def cm_server_accepts_def cm_step_def server_set_up_def)
  then obtain n where n: "loop_ends (cs_poll y) n" using cm_server_loop_stops loop_ends_ex by metis
  have "tr = [Made Channel, Made Listener, Made Peer_id, Made Ctx_struct, Made Pd, Made Cq, Made Buf,
      Made Mr, Made Qp, Post_recv CM_BUFFER_SIZE] @ concat (map (cm_server_answer \<circ> cs_poll y) [0..<n]) @ cm_server_label Qp_cleanup"
    using True assms(1) cm_server_loop_runs [OF n le0]
    by (simp add: cm_run_server_def cm_server_accepts_def cm_step_def server_set_up_def)
  then show ?thesis
    by (simp add: ledger_append ledger_answers answers_unmade cm_server_cleanup_def)
next
  case False
  then show ?thesis
    using assms by (auto simp: cm_run_server_def cm_server_accepts_def cm_step_def server_set_up_def cm_server_cleanup_def
      split: if_splits)
qed

lemma cm_client_loop_keeps: "cm_client_loop p i tr = Some tr' \<Longrightarrow> tr' = tr \<or> tr' = tr @ [Report True]"
  by (erule cm_client_loop.raw_induct [rotated]) (auto split: if_splits)

text \<open>Property C31: the client destroys everything once and in order on every path but three: when the completion queue, the buffer or the memory
  region cannot be made, what was made before is destroyed on the spot and again by the caller, the buffer by
  a second \<open>free\<close>.\<close>

theorem cm_client_double_free:
  assumes "cm_client_main y = Some (status, tr)"
  shows "ledger tr [] = (if cs_channel y \<and> cs_id y \<and> cs_ctx y \<and> cs_resolve y \<and> cs_event1 y = Some Addr_resolved \<and>
      cs_verbs y \<and> cs_pd y \<and> \<not> (cs_cq y \<and> cs_buf y \<and> cs_mr y) then None else Some [])"
  using assms
  by (auto simp: cm_client_main_def resolve_and_connect_def client_obj_def check_step_def client_release_def release_def
    ledger_append dest!: cm_client_loop_keeps split: if_splits option.splits)

definition demo_cm :: "cm_event \<Rightarrow> cm_sys" where
  "demo_cm e = \<lparr>cs_channel = True, cs_id = True, cs_bind = True, cs_listen = True, cs_event1 = Some e,
     cs_verbs = True, cs_ctx = True, cs_pd = True, cs_cq = True, cs_buf = True, cs_mr = True, cs_qp = True,
     cs_accept = True, cs_event2 = Some Established,
     cs_poll = \<lambda>n. if n = 1 then Recv_wc else if n = 2 then Send_wc else if n < 4 then Empty_queue else Failed_wc,
     cs_resolve = True, cs_route = True, cs_connect = True, cs_event3 = Some Connect_response\<rparr>"

lemma demo_cm_loop: "loop_ends (cs_poll (demo_cm e)) n \<longleftrightarrow> n = 4"
proof
  assume "loop_ends (cs_poll (demo_cm e)) n"
  then have "\<not> n < 4" and "\<forall>k<n. \<not> (k \<ge> 4)" by (auto simp: loop_ends_def demo_cm_def split: if_splits)
  then show "n = 4" by (metis linorder_neqE_nat order_refl)
qed (simp add: loop_ends_def demo_cm_def)

theorem cm_server_answers_witness:
  "\<exists>tr. cm_run_server (demo_cm Connect_request) = Some tr \<and> occurs (Post_send 64) tr = 1 \<and> occurs (Post_recv CM_BUFFER_SIZE) tr = 2"
proof -
  let ?y = "demo_cm Connect_request"
  have s: "server_set_up ?y" by (simp add: server_set_up_def demo_cm_def)
  have p: "cs_poll ?y 4 = Failed_wc" "filter (\<lambda>k. cs_poll ?y k = Recv_wc) [0..<4] = [1]"
    by (simp_all add: demo_cm_def upt_rec)
  show ?thesis
  proof (cases "cm_run_server ?y")
    case None
    then have "cs_poll ?y 4 \<noteq> Failed_wc" using cm_server_answers [OF s] by simp
    then show ?thesis using p(1) by contradiction
  next
    case (Some tr)
    then show ?thesis using cm_server_answers [OF s] p(2) by (auto simp: demo_cm_loop)
  qed
qed

theorem cm_server_leaks_witness:
  "\<exists>tr. cm_run_server (demo_cm Connect_request\<lparr>cs_qp := False\<rparr>) = Some tr \<and> ledger tr [] = None"
proof -
  obtain tr where t: "cm_run_server (demo_cm Connect_request\<lparr>cs_qp := False\<rparr>) = Some tr"
    by (simp add: cm_run_server_def cm_server_accepts_def cm_step_def demo_cm_def)
  show ?thesis using cm_server_leaks [OF t] t by (simp add: demo_cm_def)
qed

theorem cm_client_double_free_witness:
  "\<exists>tr. cm_client_main (demo_cm Addr_resolved\<lparr>cs_mr := False\<rparr>) = Some (1, tr) \<and> ledger tr [] = None"
proof -
  obtain tr where t: "cm_client_main (demo_cm Addr_resolved\<lparr>cs_mr := False\<rparr>) = Some (1, tr)"
    by (simp add: cm_client_main_def resolve_and_connect_def client_obj_def check_step_def demo_cm_def)
  show ?thesis using cm_client_double_free [OF t] t by (simp add: demo_cm_def)
qed

end
