(* ===== verification/Usb_File.thy ===== *)
theory Usb_File
  imports Driver_Prelude "HOL-Library.Multiset"
begin

text \<open>
  The file transfer programs under \<open>libusb-test/\<close>: \<open>libusb_usb_client.c\<close> sends a file to
  \<open>usb_file_server.c\<close> on the device, and \<open>libusb_getfile.c\<close> asks \<open>rawbulk_server.c\<close> for one. Both
  use bulk transfers of up to 512 bytes, one per \<open>read\<close> of the device; a queue of transfers is a list of
  packets. libusb, the files and the device nodes answer through parameters; files are read in blocks
  until their end, and written whole unless the code looks at the result.
\<close>

section \<open>Blocks of a file\<close>

definition BUFFER_SIZE :: nat where "BUFFER_SIZE = 512"

text \<open>What \<open>read(fd, buffer, 512)\<close> returns until the end of the file.\<close>

fun file_blocks :: "bytes \<Rightarrow> bytes list" where
  "file_blocks [] = []"
| "file_blocks (b # bs) = take BUFFER_SIZE (b # bs) # file_blocks (drop (BUFFER_SIZE - 1) bs)"

lemma BUFFER_SIZE_pos: "0 < BUFFER_SIZE"
  by (simp add: BUFFER_SIZE_def)

lemma file_blocks_eq:
  "bs \<noteq> [] \<Longrightarrow> file_blocks bs = take BUFFER_SIZE bs # file_blocks (drop BUFFER_SIZE bs)"
  by (cases bs) (simp_all add: drop_Cons' BUFFER_SIZE_def)

lemma concat_file_blocks [simp]: "concat (file_blocks bs) = bs"
proof (induction bs rule: length_induct)
  case (1 bs)
  show ?case
  proof (cases "bs = []")
    case False
    then have "concat (file_blocks (drop BUFFER_SIZE bs)) = drop BUFFER_SIZE bs"
      using 1 BUFFER_SIZE_pos by simp
    then show ?thesis using file_blocks_eq [OF False] by simp
  qed simp
qed

text \<open>The computer: setting libusb up, opening and claiming the device, and the local file.\<close>

record usb_host =
  uh_init :: bool
  uh_list :: bool
  uh_device :: bool
  uh_claim :: bool

definition usb_ready :: "usb_host \<Rightarrow> bool" where
  "usb_ready h \<longleftrightarrow> uh_init h \<and> uh_list h \<and> uh_device h \<and> uh_claim h"

section \<open>Sending a file to the device\<close>

text \<open>The client forks before it sends. The child waits for data from the device and then, since it never exits,
  runs the same sending loop as its parent, on the same open file: each block goes to whichever process
  reads it. Blocks whose transfer fails are skipped.\<close>

datatype usb_proc = Receiving | Reading | Holding bytes | Over

record upload =
  up_left :: "bytes list"
  up_parent :: usb_proc
  up_child :: usb_proc
  up_sent :: "bytes list"
  up_lost :: "bytes list"

text \<open>One step of a process: the end of the child's receiving, a read of the file, or a transfer and whether it succeeds.\<close>

fun proc_step :: "bool \<Rightarrow> usb_proc \<Rightarrow> upload \<Rightarrow> usb_proc \<times> upload" where
  "proc_step ok Receiving u = (Reading, u)"
| "proc_step ok Reading u = (case up_left u of [] \<Rightarrow> (Over, u) | b # bs \<Rightarrow> (Holding b, u\<lparr>up_left := bs\<rparr>))"
| "proc_step ok (Holding b) u = (Reading, if ok then u\<lparr>up_sent := up_sent u @ [b]\<rparr> else u\<lparr>up_lost := up_lost u @ [b]\<rparr>)"
| "proc_step ok Over u = (Over, u)"

datatype usb_action = Parent bool | Child bool

fun upload_step :: "upload \<Rightarrow> usb_action \<Rightarrow> upload" where
  "upload_step u (Parent ok) = (case proc_step ok (up_parent u) u of (p, u1) \<Rightarrow> u1\<lparr>up_parent := p\<rparr>)"
| "upload_step u (Child ok) = (case proc_step ok (up_child u) u of (p, u1) \<Rightarrow> u1\<lparr>up_child := p\<rparr>)"

text \<open>\<open>content\<close> is the file named by the first argument, if it is given and can be read: an early exit, or the two processes
  at the start. The last statement returns nothing from \<open>main\<close>, which is 0.\<close>

definition client_start :: "usb_host \<Rightarrow> bool \<Rightarrow> bytes option \<Rightarrow> bool \<Rightarrow> bool \<Rightarrow> int + upload" where
  "client_start h has_arg content can_open fork_ok =
     (if \<not> has_arg then Inl 0
      else case content of None \<Rightarrow> Inl 0
      | Some bs \<Rightarrow>
          if \<not> can_open then Inl (- 1)
          else if \<not> usb_ready h then Inl 1
          else Inr \<lparr>up_left = file_blocks bs, up_parent = Reading, up_child = (if fork_ok then Receiving else Over),
            up_sent = [], up_lost = []\<rparr>)"

datatype usb_read = Packet bytes | Read_error

datatype server_end = Finished int bytes | Waiting bytes

text \<open>The loop of the server: the next write is write \<open>i\<close>, \<open>acc\<close> is in the file. When nothing has arrived
  the read does not return.\<close>

fun server_loop :: "(nat \<Rightarrow> bool) \<Rightarrow> nat \<Rightarrow> bytes \<Rightarrow> usb_read list \<Rightarrow> server_end" where
  "server_loop wok i acc [] = Waiting acc"
| "server_loop wok i acc (Read_error # ps) = Finished 0 acc"
| "server_loop wok i acc (Packet p # ps) =
     (if p = [] then Finished 0 acc
      else if \<not> wok i then Finished 1 acc
      else if length p < BUFFER_SIZE then Finished 0 (acc @ p)
      else server_loop wok (i + 1) (acc @ p) ps)"

definition server_main :: "nat \<Rightarrow> bool \<Rightarrow> bool \<Rightarrow> (nat \<Rightarrow> bool) \<Rightarrow> usb_read list \<Rightarrow> server_end" where
  "server_main argc dev_ok file_ok wok ps =
     (if argc \<noteq> 3 \<or> \<not> dev_ok \<or> \<not> file_ok then Finished 1 [] else server_loop wok 0 [] ps)"

section \<open>Getting a file from the device\<close>

datatype usb_fault = Request_not_terminated

definition firmware_path :: "bytes \<Rightarrow> bytes" where
  "firmware_path name = take 62 (map (\<lambda>c. word_of_nat (of_char c)) ''/mnt/firmware/'' @ name)"

text \<open>The server's answer to one request: the files it can read, the request, and whether each write to the
  device is whole. The buffer is cleared before the request is read into it, so that a shorter request
  ends with a null character.\<close>

fun send_blocks :: "(nat \<Rightarrow> bool) \<Rightarrow> nat \<Rightarrow> bytes list \<Rightarrow> bytes list" where
  "send_blocks wok i [] = []"
| "send_blocks wok i (b # bs) = (if \<not> wok i then [] else if length b < BUFFER_SIZE then [b]
     else b # send_blocks wok (i + 1) bs)"

definition answer_request ::
  "(bytes \<Rightarrow> bytes option) \<Rightarrow> (nat \<Rightarrow> bool) \<Rightarrow> bytes \<Rightarrow> usb_fault + bytes list" where
  "answer_request fs wok request =
     (if request = [] then Inr []
      else if BUFFER_SIZE \<le> length request \<and> 0 \<notin> set request then Inl Request_not_terminated
      else (case fs (firmware_path (takeWhile (\<lambda>b. b \<noteq> 0) request)) of None \<Rightarrow> Inr []
        | Some content \<Rightarrow> Inr (send_blocks wok 0 (file_blocks content))))"

text \<open>Old packets are read and dropped, up to a time-out or an empty one.\<close>

fun clean_buffer :: "bytes list \<Rightarrow> bytes list" where
  "clean_buffer [] = []"
| "clean_buffer (p # ps) = (if p = [] then ps else clean_buffer ps)"

text \<open>The receiving loop; with no packet left the transfer times out with nothing transferred.\<close>

fun get_loop :: "bytes list \<Rightarrow> bytes" where
  "get_loop [] = []"
| "get_loop (p # ps) = (if length p < BUFFER_SIZE then p else p @ get_loop ps)"

text \<open>The exit status and the saved file, if it was created. \<open>old\<close> is queued before the request is sent,
  \<open>reply\<close> is what the device answers.\<close>

definition getfile_main ::
  "usb_host \<Rightarrow> bool \<Rightarrow> bool \<Rightarrow> bool \<Rightarrow> bytes list \<Rightarrow> bytes list \<Rightarrow> int \<times> bytes option" where
  "getfile_main h has_arg can_create request_ok old reply =
     (if \<not> has_arg then (0, None)
      else if \<not> usb_ready h then (1, None)
      else if \<not> can_create then (- 1, None)
      else if \<not> request_ok then (- 1, Some [])
      else (0, Some (get_loop (clean_buffer old @ reply))))"

section \<open>What arrives\<close>

fun proc_holds :: "usb_proc \<Rightarrow> bytes list" where
  "proc_holds (Holding b) = [b]"
| "proc_holds p = []"

definition all_blocks :: "upload \<Rightarrow> bytes multiset" where
  "all_blocks u = mset (up_sent u) + mset (up_lost u) + mset (proc_holds (up_parent u)) + mset (proc_holds (up_child u)) +
     mset (up_left u)"

lemma upload_step_blocks: "all_blocks (upload_step u a) = all_blocks u"
  by (cases a; cases "up_parent u"; cases "up_child u") (simp_all add: all_blocks_def split: list.splits)

lemma upload_blocks: "all_blocks (foldl upload_step u as) = all_blocks u"
  by (induction as arbitrary: u) (simp_all add: upload_step_blocks)

text \<open>The parent alone keeps the order.\<close>

definition parent_order :: "bytes list \<Rightarrow> upload \<Rightarrow> bool" where
  "parent_order bs u \<longleftrightarrow> up_sent u @ proc_holds (up_parent u) @ up_left u = bs \<and> up_lost u = [] \<and>
     up_child u = Receiving \<and> (up_parent u = Over \<longrightarrow> up_left u = [])"

lemma parent_alone: "parent_order bs u \<Longrightarrow> parent_order bs (upload_step u (Parent True))"
  by (cases "up_parent u") (auto simp: parent_order_def split: list.splits)

lemma parent_runs: "parent_order bs u \<Longrightarrow> parent_order bs (foldl upload_step u (replicate n (Parent True)))"
  by (induction n arbitrary: u) (simp_all add: parent_alone del: upload_step.simps)

lemma server_receives:
  fixes wok :: "nat \<Rightarrow> bool"
  assumes "\<forall>j. wok j"
  shows "server_loop wok i acc (map Packet (file_blocks bs)) =
    (if length bs mod BUFFER_SIZE = 0 then Waiting (acc @ bs) else Finished 0 (acc @ bs))"
proof (induction bs arbitrary: i acc rule: length_induct)
  case (1 bs)
  have w: "wok i" using assms by simp
  show ?case
  proof (cases "bs = []")
    case False
    then have t: "take BUFFER_SIZE bs \<noteq> []" using BUFFER_SIZE_pos by simp
    show ?thesis
    proof (cases "length bs < BUFFER_SIZE")
      case True
      then show ?thesis using False t w by (simp add: file_blocks_eq [OF False])
    next
      case long: False
      let ?r = "drop BUFFER_SIZE bs"
      have "length ?r < length bs" using False BUFFER_SIZE_pos by simp
      then have "server_loop wok (i + 1) (acc @ take BUFFER_SIZE bs) (map Packet (file_blocks ?r)) =
        (if length ?r mod BUFFER_SIZE = 0 then Waiting ((acc @ take BUFFER_SIZE bs) @ ?r)
         else Finished 0 ((acc @ take BUFFER_SIZE bs) @ ?r))" using 1 by blast
      moreover have "length ?r mod BUFFER_SIZE = length bs mod BUFFER_SIZE"
        using long by (simp add: le_mod_geq)
      moreover have "\<not> length (take BUFFER_SIZE bs) < BUFFER_SIZE" using long by simp
      ultimately show ?thesis using t w by (simp add: file_blocks_eq [OF False] del: length_take length_drop)
    qed
  qed simp
qed

text \<open>Property C27: however the two processes of the client interleave and whatever transfers fail, every block of the file is read once and sent or
  skipped once. While the child waits the blocks are sent in order, and the device stores exactly the file. But the server ends only
  on a block shorter than 512 bytes, and the client sends no empty packet: for a file
  whose length is a multiple of 512, the empty file included, the server waits for ever.\<close>

theorem usb_upload_arrives:
  assumes "client_start h True (Some content) True fork_ok = Inr u"
  shows "(\<forall>as. let v = foldl upload_step u as in up_parent v = Over \<and> up_child v = Over \<and> up_left v = [] \<longrightarrow>
      mset (up_sent v) + mset (up_lost v) = mset (file_blocks content)) \<and>
    (\<forall>n wok. let v = foldl upload_step u (replicate n (Parent True)) in
      fork_ok \<and> up_parent v = Over \<and> (\<forall>j. wok j) \<longrightarrow>
      server_main 3 True True wok (map Packet (up_sent v)) =
        (if length content mod 512 = 0 then Waiting content else Finished 0 content))"
proof (intro conjI allI)
  fix as
  have "all_blocks u = mset (file_blocks content)"
    using assms by (auto simp: client_start_def all_blocks_def split: if_splits)
  then show "let v = foldl upload_step u as in up_parent v = Over \<and> up_child v = Over \<and> up_left v = [] \<longrightarrow>
      mset (up_sent v) + mset (up_lost v) = mset (file_blocks content)"
    using upload_blocks [of u as] by (auto simp: Let_def all_blocks_def)
next
  fix n and wok :: "nat \<Rightarrow> bool"
  let ?v = "foldl upload_step u (replicate n (Parent True))"
  have "fork_ok \<Longrightarrow> parent_order (file_blocks content) u"
    using assms by (auto simp: client_start_def parent_order_def split: if_splits)
  then have "fork_ok \<Longrightarrow> up_parent ?v = Over \<Longrightarrow> up_sent ?v = file_blocks content"
    using parent_runs [of "file_blocks content" u n] by (auto simp: parent_order_def)
  then show "let v = foldl upload_step u (replicate n (Parent True)) in
      fork_ok \<and> up_parent v = Over \<and> (\<forall>j. wok j) \<longrightarrow>
      server_main 3 True True wok (map Packet (up_sent v)) =
        (if length content mod 512 = 0 then Waiting content else Finished 0 content)"
    using server_receives [of wok 0 "[]" content] by (simp add: Let_def server_main_def BUFFER_SIZE_def)
qed

text \<open>Fact: when the child's receiving ends while the parent is sending, blocks can overtake each other: for a file of 513 to 1023 bytes
  the device may store its last bytes only and end, though every transfer succeeded.\<close>

theorem usb_child_reorders:
  assumes "client_start h True (Some content) True True = Inr u" "512 < length content" "length content < 1024"
  shows "\<exists>as. let v = foldl upload_step u as in up_lost v = [] \<and> up_parent v = Over \<and> up_child v = Over \<and>
    server_main 3 True True (\<lambda>_. True) (map Packet (up_sent v)) = Finished 0 (drop 512 content)"
proof -
  let ?a = "take BUFFER_SIZE content" and ?b = "drop BUFFER_SIZE content"
  have ne: "content \<noteq> []" "?b \<noteq> []" "length ?b < BUFFER_SIZE" using assms(2,3) by (auto simp: BUFFER_SIZE_def)
  have "file_blocks content = [?a, ?b]"
    using ne(3) by (simp add: file_blocks_eq [OF ne(1)] file_blocks_eq [OF ne(2)] del: drop_drop length_drop)
  then have "u = \<lparr>up_left = [?a, ?b], up_parent = Reading, up_child = Receiving, up_sent = [], up_lost = []\<rparr>"
    using assms(1) by (auto simp: client_start_def split: if_splits)
  then have "foldl upload_step u [Child True, Parent True, Child True, Child True, Parent True, Parent True, Child True] =
      \<lparr>up_left = [], up_parent = Over, up_child = Over, up_sent = [?b, ?a], up_lost = []\<rparr>"
    by simp
  moreover have "server_main 3 True True (\<lambda>_. True) (map Packet [?b, ?a]) = Finished 0 (drop 512 content)"
    using ne by (simp add: server_main_def BUFFER_SIZE_def)
  ultimately show ?thesis by (metis (no_types, lifting) upload.select_convs)
qed

lemma get_blocks:
  fixes wok :: "nat \<Rightarrow> bool"
  assumes "\<forall>j. wok j"
  shows "get_loop (send_blocks wok i (file_blocks bs)) = bs"
proof (induction bs arbitrary: i rule: length_induct)
  case (1 bs)
  have w: "wok i" using assms by simp
  show ?case
  proof (cases "bs = []")
    case False
    then have "length (drop BUFFER_SIZE bs) < length bs" using BUFFER_SIZE_pos by simp
    then have "get_loop (send_blocks wok (i + 1) (file_blocks (drop BUFFER_SIZE bs))) = drop BUFFER_SIZE bs"
      using 1 by blast
    then show ?thesis using w by (simp add: file_blocks_eq [OF False])
  qed simp
qed

lemma clean_buffer_all: "[] \<notin> set old \<Longrightarrow> clean_buffer old = []"
  by (induction old) auto

text \<open>Fact: a request for a file the device can read brings back exactly that file, whatever its length and whatever non-empty
  packets were left over from before. A request for a file it cannot read is not answered, and the client
  saves an empty file and exits with status 0, as for an empty file. The path is cut off after 62 characters.\<close>

theorem usb_download_arrives:
  fixes wok :: "nat \<Rightarrow> bool"
  assumes "usb_ready h" "\<forall>j. wok j" "[] \<notin> set old" "name \<noteq> []" "0 \<notin> set name" "length name < 512"
  shows "\<exists>reply. answer_request fs wok name = Inr reply \<and> getfile_main h True True True old reply =
    (0, Some (case fs (firmware_path name) of None \<Rightarrow> [] | Some content \<Rightarrow> content))"
proof -
  have t: "takeWhile (\<lambda>b. b \<noteq> 0) name = name" using assms(5) by (auto simp: takeWhile_eq_all_conv)
  have l: "\<not> (BUFFER_SIZE \<le> length name)" using assms(6) by (simp add: BUFFER_SIZE_def)
  show ?thesis
    using assms(1,3,4) get_blocks [OF assms(2)]
    by (cases "fs (firmware_path name)") (simp_all add: t l answer_request_def getfile_main_def clean_buffer_all)
qed

definition demo_host :: usb_host where
  "demo_host = \<lparr>uh_init = True, uh_list = True, uh_device = True, uh_claim = True\<rparr>"

definition demo_upload :: "bytes \<Rightarrow> upload" where
  "demo_upload bs = \<lparr>up_left = file_blocks bs, up_parent = Reading, up_child = Receiving, up_sent = [], up_lost = []\<rparr>"

lemma demo_upload_start: "client_start demo_host True (Some bs) True True = Inr (demo_upload bs)"
  by (simp add: client_start_def demo_host_def usb_ready_def demo_upload_def)

theorem usb_upload_arrives_witness:
  "let v = foldl upload_step (demo_upload [1, 2, 3]) (replicate 3 (Parent True)) in
     up_parent v = Over \<and> server_main 3 True True (\<lambda>_. True) (map Packet (up_sent v)) = Finished 0 [1, 2, 3]"
proof -
  have "file_blocks [1, 2, 3] = [[1, 2, 3]]" by (simp add: file_blocks_eq BUFFER_SIZE_def)
  then have "up_parent (foldl upload_step (demo_upload [1, 2, 3]) (replicate 3 (Parent True))) = Over"
    by (simp add: demo_upload_def numeral_eq_Suc)
  then show ?thesis
    using usb_upload_arrives [OF demo_upload_start [of "[1, 2, 3]"]] by (auto simp: Let_def)
qed

theorem usb_child_reorders_witness:
  "\<exists>as. let v = foldl upload_step (demo_upload (replicate 512 7 @ [1, 2])) as in up_lost v = [] \<and>
    server_main 3 True True (\<lambda>_. True) (map Packet (up_sent v)) = Finished 0 [1, 2]"
  using usb_child_reorders [OF demo_upload_start [of "replicate 512 7 @ [1, 2]"]] by (auto simp: Let_def)

theorem usb_download_arrives_witness:
  "\<exists>reply. answer_request (\<lambda>p. if p = firmware_path [65] then Some [1, 2] else None) (\<lambda>_. True) [65] = Inr reply \<and>
     getfile_main demo_host True True True [[9]] reply = (0, Some [1, 2])"
proof -
  have "usb_ready demo_host" by (simp add: usb_ready_def demo_host_def)
  from usb_download_arrives [OF this, of "\<lambda>_. True" "[[9]]" "[65]" "\<lambda>p. if p = firmware_path [65] then Some [1, 2] else None"]
  show ?thesis by simp
qed

end
