(* ===== verification/Usb_Copy.thy ===== *)
theory Usb_Copy
  imports Usb_File "HOL-Library.Sublist"
begin

text \<open>
  The copy programs under \<open>libusb-test/\<close>: \<open>read_bulk_file.c\<close> and \<open>read_write_loop.c\<close>, which copy what they read, and
  \<open>blkser_multi_write.c\<close>, whose two children send a file each on one device while their parent sends back
  what it receives there.
\<close>

section \<open>One process\<close>

text \<open>What a \<open>write\<close> puts out: \<open>None\<close> is a whole write, \<open>Some n\<close> one that stops after \<open>n\<close> bytes (0 for
  an error). The programs compare the number of bytes written with the number asked for.\<close>

definition written :: "nat option \<Rightarrow> bytes \<Rightarrow> bytes" where
  "written w b = (case w of None \<Rightarrow> b | Some n \<Rightarrow> take n b)"

lemma written_prefix: "prefix (written w b) b"
  by (simp add: written_def take_is_prefix split: option.split)

text \<open>The exit status, none while the program waits for input, and what was written; write \<open>i\<close> is the next
  and \<open>wr i\<close> its outcome.\<close>

fun read_bulk_file :: "(nat \<Rightarrow> nat option) \<Rightarrow> nat \<Rightarrow> usb_read list \<Rightarrow> int option \<times> bytes list" where
  "read_bulk_file wr i [] = (None, [])"
| "read_bulk_file wr i (Read_error # rs) = (Some 1, [])"
| "read_bulk_file wr i (Packet p # rs) =
     (if p = [] then (Some 0, []) else if written (wr i) p \<noteq> p then (Some 1, [written (wr i) p])
      else apsnd ((#) p) (read_bulk_file wr (i + 1) rs))"

fun read_write_loop :: "(nat \<Rightarrow> nat option) \<Rightarrow> nat \<Rightarrow> usb_read list \<Rightarrow> int option \<times> bytes list" where
  "read_write_loop wr i [] = (None, [])"
| "read_write_loop wr i (Read_error # rs) = (Some 1, [])"
| "read_write_loop wr i (Packet p # rs) =
     (if p = [] then read_write_loop wr i rs
      else if written (wr i) p \<noteq> p then (Some 1, [written (wr i) p])
      else apsnd ((#) p) (read_write_loop wr (i + 1) rs))"

section \<open>Several processes\<close>

text \<open>A copying process: what is left of its file, the block between its read and its write, and at the end
  its exit status.\<close>

datatype copy_state = Copying | Copy_holds bytes | Copy_exit int

record copy_proc =
  cp_state :: copy_state
  cp_left :: "bytes list"

text \<open>The two steps of the loop of \<open>copy_file\<close>. A read gives the next block, or ends the loop: at the end of the
  file, and in the same way when it fails. A write puts its bytes on the device; when it is short,
  what was written stays there and the process exits with status 1.\<close>

definition copy_file_read :: "bool \<Rightarrow> copy_proc \<Rightarrow> copy_proc" where
  "copy_file_read ok c = (case cp_state c of
     Copying \<Rightarrow> if \<not> ok then c\<lparr>cp_state := Copy_exit 0\<rparr>
       else (case cp_left c of [] \<Rightarrow> c\<lparr>cp_state := Copy_exit 0\<rparr>
         | b # bs \<Rightarrow> \<lparr>cp_state = Copy_holds b, cp_left = bs\<rparr>)
   | _ \<Rightarrow> c)"

definition copy_file_write :: "nat option \<Rightarrow> copy_proc \<Rightarrow> copy_proc \<times> bytes" where
  "copy_file_write w c = (case cp_state c of
     Copy_holds b \<Rightarrow> (c\<lparr>cp_state := if written w b = b then Copying else Copy_exit 1\<rparr>, written w b)
   | _ \<Rightarrow> (c, []))"

text \<open>The children, whether the parent still sends back, and what is on the device: the process that wrote it and
  the bytes. The parent is \<open>None\<close>. It stops after a short packet, an empty one, an error or a short write.\<close>

record blkser =
  bk_procs :: "copy_proc list"
  bk_echo :: bool
  bk_out :: "(nat option \<times> bytes) list"

datatype blk_action = Copy_read nat bool | Copy_write nat "nat option" | Echo usb_read "nat option"

fun blkser_step :: "blkser \<Rightarrow> blk_action \<Rightarrow> blkser" where
  "blkser_step s (Copy_read i ok) =
     (if i < length (bk_procs s)
      then s\<lparr>bk_procs := (bk_procs s)[i := copy_file_read ok (bk_procs s ! i)]\<rparr> else s)"
| "blkser_step s (Copy_write i w) =
     (if i < length (bk_procs s)
      then (case copy_file_write w (bk_procs s ! i) of (c, out) \<Rightarrow>
        s\<lparr>bk_procs := (bk_procs s)[i := c], bk_out := bk_out s @ [(Some i, out)]\<rparr>)
      else s)"
| "blkser_step s (Echo r w) =
     (if \<not> bk_echo s then s
      else case r of Read_error \<Rightarrow> s\<lparr>bk_echo := False\<rparr>
      | Packet p \<Rightarrow>
          if p = [] then s\<lparr>bk_echo := False\<rparr>
          else s\<lparr>bk_out := bk_out s @ [(None, written w p)],
                 bk_echo := written w p = p \<and> BUFFER_SIZE \<le> length p\<rparr>)"

text \<open>The start of \<open>main\<close>: the files that can be opened; the check of the result looks at the
  device again. The first read of the device only waits.\<close>

definition blkser_start :: "nat \<Rightarrow> bool \<Rightarrow> bytes option \<Rightarrow> bytes option \<Rightarrow> int + blkser" where
  "blkser_start argc dev_ok f1 f2 =
     (if argc < 3 \<or> \<not> dev_ok then Inl 1
      else Inr \<lparr>bk_procs = map (\<lambda>f. \<lparr>cp_state = Copying, cp_left = file_blocks (the f)\<rparr>)
          (filter (\<lambda>f. f \<noteq> None) (f1 # (if 4 \<le> argc then [f2] else []))),
        bk_echo = True, bk_out = []\<rparr>)"

section \<open>What is written\<close>

definition from_proc :: "nat \<Rightarrow> blkser \<Rightarrow> bytes" where
  "from_proc i s = concat (map snd (filter (\<lambda>x. fst x = Some i) (bk_out s)))"

fun copy_held :: "copy_state \<Rightarrow> bytes" where
  "copy_held (Copy_holds b) = b"
| "copy_held c = []"

text \<open>What process \<open>i\<close> has written, holds and has left is its file, until a write of it is short; then what it wrote
  is a prefix of its file. A process that ends well has nothing left unless a read of its file failed.\<close>

definition copy_good :: "bytes \<Rightarrow> nat \<Rightarrow> blkser \<Rightarrow> bool" where
  "copy_good bs i s \<longleftrightarrow> i < length (bk_procs s) \<and>
     (if cp_state (bk_procs s ! i) = Copy_exit 1 then prefix (from_proc i s) bs
      else from_proc i s @ copy_held (cp_state (bk_procs s ! i)) @ concat (cp_left (bk_procs s ! i)) = bs)"

definition copy_whole :: "bytes \<Rightarrow> nat \<Rightarrow> blkser \<Rightarrow> bool" where
  "copy_whole bs i s \<longleftrightarrow> copy_good bs i s \<and>
     (cp_state (bk_procs s ! i) = Copy_exit 0 \<longrightarrow> cp_left (bk_procs s ! i) = [])"

lemma from_proc_step:
  "from_proc i (blkser_step s a) = from_proc i s @ (case a of
     Copy_write j w \<Rightarrow> if j = i \<and> j < length (bk_procs s) then snd (copy_file_write w (bk_procs s ! j)) else []
   | _ \<Rightarrow> [])"
  by (cases a) (auto simp: from_proc_def split: prod.splits usb_read.splits)

lemma procs_step:
  "length (bk_procs (blkser_step s a)) = length (bk_procs s) \<and>
   (i < length (bk_procs s) \<longrightarrow> bk_procs (blkser_step s a) ! i = (case a of Echo r w \<Rightarrow> bk_procs s ! i
     | Copy_read j ok \<Rightarrow> if j = i then copy_file_read ok (bk_procs s ! j) else bk_procs s ! i
     | Copy_write j w \<Rightarrow> if j = i then fst (copy_file_write w (bk_procs s ! j)) else bk_procs s ! i))"
  by (cases a) (auto split: prod.splits usb_read.splits)

lemma copy_step_read: "copy_good bs i s \<Longrightarrow> copy_good bs i (blkser_step s (Copy_read j ok))"
  using procs_step [of s "Copy_read j ok" i] from_proc_step [of i s "Copy_read j ok"]
  by (cases "cp_state (bk_procs s ! i)"; cases "cp_left (bk_procs s ! i)")
    (auto simp: copy_good_def copy_file_read_def simp del: blkser_step.simps split: if_splits)

lemma copy_step_write:
  assumes "copy_good bs i s"
  shows "copy_good bs i (blkser_step s (Copy_write j w))"
proof -
  note st = procs_step [of s "Copy_write j w" i] from_proc_step [of i s "Copy_write j w"]
  show ?thesis
  proof (cases "j = i \<and> (\<exists>b. cp_state (bk_procs s ! i) = Copy_holds b)")
    case True
    then obtain b where b: "cp_state (bk_procs s ! i) = Copy_holds b" "j = i" by blast
    obtain r where "b = written w b @ r" using written_prefix [of w b] by (auto simp: prefix_def)
    then have "from_proc i s @ b @ rest = (from_proc i s @ written w b) @ r @ rest" for rest by simp
    then have "prefix (from_proc i s @ written w b) (from_proc i s @ b @ rest)" for rest
      using prefixI by blast
    then show ?thesis using assms st b
      by (auto simp: copy_good_def copy_file_write_def simp del: blkser_step.simps split: if_splits)
  next
    case False
    then have "bk_procs (blkser_step s (Copy_write j w)) ! i = bk_procs s ! i"
        "from_proc i (blkser_step s (Copy_write j w)) = from_proc i s"
      using assms st by (auto simp: copy_good_def copy_file_write_def simp del: blkser_step.simps
          split: copy_state.splits)
    then show ?thesis using assms st(1) by (simp add: copy_good_def del: blkser_step.simps)
  qed
qed

lemma copy_step_good: "copy_good bs i s \<Longrightarrow> copy_good bs i (blkser_step s a)"
proof (cases a)
  case (Echo r w)
  then show "copy_good bs i s \<Longrightarrow> ?thesis"
    using procs_step [of s a i] from_proc_step [of i s a]
    by (auto simp: copy_good_def simp del: blkser_step.simps)
qed (simp_all only: copy_step_read copy_step_write)

lemma copy_step_whole:
  assumes "copy_whole bs i s" "a \<noteq> Copy_read i False"
  shows "copy_whole bs i (blkser_step s a)"
proof -
  have "cp_left (bk_procs (blkser_step s a) ! i) = []" if e: "cp_state (bk_procs (blkser_step s a) ! i) = Copy_exit 0"
  proof -
    have "i < length (bk_procs s)" using assms(1) by (simp add: copy_whole_def copy_good_def)
    then have "bk_procs (blkser_step s a) ! i = (case a of Echo r w \<Rightarrow> bk_procs s ! i
     | Copy_read j ok \<Rightarrow> if j = i then copy_file_read ok (bk_procs s ! j) else bk_procs s ! i
     | Copy_write j w \<Rightarrow> if j = i then fst (copy_file_write w (bk_procs s ! j)) else bk_procs s ! i)"
      using procs_step [of s a i] by simp
    then show ?thesis using e assms
      by (cases a) (auto simp: copy_whole_def copy_file_read_def copy_file_write_def simp del: blkser_step.simps
          split: if_splits copy_state.splits list.splits)
  qed
  then show ?thesis using copy_step_good assms(1) by (simp add: copy_whole_def del: blkser_step.simps)
qed

interpretation blk: step_system blkser_step "copy_good bs i" for bs i
  by unfold_locales (rule copy_step_good)

text \<open>A run in which no read of process \<open>i\<close> fails.\<close>

interpretation blk_whole: step_system
  "\<lambda>s a. if a = Copy_read i False then s else blkser_step s a" "copy_whole bs i" for bs i
  by unfold_locales (simp add: copy_step_whole del: blkser_step.simps)

lemma reads_ok_run:
  "Copy_read i False \<notin> set as \<Longrightarrow>
     foldl (\<lambda>s a. if a = Copy_read i False then s else blkser_step s a) s as = foldl blkser_step s as"
  by (induction as arbitrary: s) (auto simp del: blkser_step.simps)

lemma copy_run:
  assumes "copy_whole bs i s"
  shows "prefix (from_proc i (foldl blkser_step s as)) bs \<and>
    (cp_state (bk_procs (foldl blkser_step s as) ! i) = Copy_exit 0 \<and> Copy_read i False \<notin> set as \<longrightarrow>
      from_proc i (foldl blkser_step s as) = bs)"
proof -
  have g: "copy_good bs i (foldl blkser_step s as)"
    using assms by (intro blk.run_inv) (simp add: copy_whole_def)
  have w: "copy_whole bs i (foldl blkser_step s as)" if "Copy_read i False \<notin> set as"
    using blk_whole.run_inv [OF assms, of as] reads_ok_run [OF that] by simp
  show ?thesis
  proof
    show "prefix (from_proc i (foldl blkser_step s as)) bs"
      using g by (auto simp: copy_good_def split: if_splits)
    show "cp_state (bk_procs (foldl blkser_step s as) ! i) = Copy_exit 0 \<and> Copy_read i False \<notin> set as \<longrightarrow>
        from_proc i (foldl blkser_step s as) = bs"
    proof (intro impI, elim conjE)
      assume "cp_state (bk_procs (foldl blkser_step s as) ! i) = Copy_exit 0" "Copy_read i False \<notin> set as"
      then show "from_proc i (foldl blkser_step s as) = bs"
        using g w by (simp add: copy_good_def copy_whole_def)
    qed
  qed
qed

text \<open>Property C39: however the children and the parent take turns, and whichever reads and writes fail or stop half
  way, what each child has put on the device is a prefix of its own file, byte for byte; and it is all
  of the file when the child exits with status 0 and no read of its file failed. (A failed read ends
  the loop like the end of the file does, and the child exits with status 0.)\<close>

theorem blkser_keeps_order:
  assumes "blkser_start argc True f1 f2 = Inr s" "4 \<le> argc" "f1 = Some c1" "f2 = Some c2" "v = foldl blkser_step s as"
  shows "prefix (from_proc 0 v) c1 \<and> prefix (from_proc 1 v) c2 \<and>
    (cp_state (bk_procs v ! 0) = Copy_exit 0 \<and> Copy_read 0 False \<notin> set as \<longrightarrow> from_proc 0 v = c1) \<and>
    (cp_state (bk_procs v ! 1) = Copy_exit 0 \<and> Copy_read 1 False \<notin> set as \<longrightarrow> from_proc 1 v = c2)"
proof -
  have "copy_whole c1 0 s" "copy_whole c2 1 s"
    using assms(1-4)
    by (auto simp: blkser_start_def copy_whole_def copy_good_def from_proc_def concat_file_blocks split: if_splits)
  then show ?thesis unfolding assms(5) using copy_run by blast
qed

text \<open>Fact: the loop-back program writes back every non-empty packet in order and never exits with status 0.\<close>

theorem usb_loopback_echoes:
  "fst (read_write_loop wr i rs) \<noteq> Some 0 \<and>
   (\<forall>ps. rs = map Packet ps \<and> (\<forall>j. wr j = None) \<longrightarrow> read_write_loop wr i rs = (None, filter (\<lambda>p. p \<noteq> []) ps))"
proof (induction wr i rs rule: read_write_loop.induct)
  case (3 wr i p rs)
  then show ?case by (auto simp: apsnd_def map_prod_def written_def split: prod.splits)
qed auto

theorem usb_loopback_echoes_witness:
  "read_write_loop (\<lambda>_. None) 0 (map Packet [[1], [], [2]]) = (None, [[1], [2]])"
proof -
  have "\<forall>ps. map Packet [[1], [], [2]] = map Packet ps \<and> (\<forall>j :: nat. (None :: nat option) = None) \<longrightarrow>
      read_write_loop (\<lambda>_. None) 0 (map Packet [[1], [], [2]]) = (None, filter (\<lambda>p. p \<noteq> []) ps)"
    using usb_loopback_echoes [of "\<lambda>_. None" 0 "map Packet [[1], [], [2]]"] by (rule conjunct2)
  from this [rule_format, of "[[1], [], [2]]"] show ?thesis by simp
qed

theorem blkser_keeps_order_witness:
  "\<exists>s. blkser_start 4 True (Some [1, 2, 3]) (Some [4]) = Inr s \<and>
     prefix (from_proc 0 (foldl blkser_step s [Copy_read 1 True, Copy_read 0 True, Copy_write 0 (Some 2)])) [1, 2, 3]"
proof -
  obtain s where s: "blkser_start 4 True (Some [1, 2, 3]) (Some [4]) = Inr s" by (simp add: blkser_start_def)
  then show ?thesis
    using blkser_keeps_order [OF s _ refl refl refl] by (metis order_refl)
qed

end
