(* ===== verification/Nm_Cli.thy ===== *)
theory Nm_Cli
  imports Driver_Prelude
begin

text \<open>
  The command line client under \<open>dbus/network-manager/\<close>: the command functions of \<open>nm_cli.c\<close> and the
  command table of \<open>main.c\<close>. What libnm answers is a record; a command returns its status and the lines
  it prints. libcli (sessions, dispatch by prefix) is not modelled.
\<close>

section \<open>What libnm answers\<close>

datatype nm_device_type = NM_ETHERNET | NM_WIFI | NM_MODEM | NM_BOND | NM_BRIDGE | NM_VLAN | NM_LOOPBACK | NM_TUN
  | NM_VETH | NM_PPP | NM_OTHER_TYPE

datatype nm_device_state = NM_UNKNOWN | NM_UNMANAGED | NM_UNAVAILABLE | NM_DISCONNECTED | NM_PREPARE | NM_CONFIG
  | NM_NEED_AUTH | NM_IP_CONFIG | NM_IP_CHECK | NM_SECONDARIES | NM_ACTIVATED | NM_DEACTIVATING | NM_FAILED | NM_OTHER_STATE

record nm_ap =
  ap_ssid :: "string option"
  ap_bssid :: string
  ap_strength :: u8
  ap_flags :: u32

record nm_dev =
  nd_iface :: string
  nd_type :: nm_device_type
  nd_state :: nm_device_state
  nd_mtu :: nat
  nd_active :: "nm_ap option"
  nd_aps :: "nm_ap list"

record nm_con =
  nc_id :: string
  nc_uuid :: string
  nc_type :: string

text \<open>A connection may have no connection setting.\<close>

record nm_client =
  nm_version :: string
  nm_running :: bool
  nm_connections :: "nm_con option list"
  nm_devices :: "nm_dev list"
  nm_by_iface :: "string \<Rightarrow> nm_dev option"

fun device_type_to_string :: "nm_device_type \<Rightarrow> string" where
  "device_type_to_string NM_ETHERNET = ''Ethernet''"
| "device_type_to_string NM_WIFI = ''Wi-Fi''"
| "device_type_to_string NM_MODEM = ''Modem''"
| "device_type_to_string NM_BOND = ''Bond''"
| "device_type_to_string NM_BRIDGE = ''Bridge''"
| "device_type_to_string NM_VLAN = ''VLAN''"
| "device_type_to_string NM_LOOPBACK = ''Loopback''"
| "device_type_to_string NM_TUN = ''Tun''"
| "device_type_to_string NM_VETH = ''Veth''"
| "device_type_to_string NM_PPP = ''PPP''"
| "device_type_to_string NM_OTHER_TYPE = ''Unknown''"

fun device_state_to_string :: "nm_device_state \<Rightarrow> string" where
  "device_state_to_string NM_UNKNOWN = ''unknown''"
| "device_state_to_string NM_UNMANAGED = ''unmanaged''"
| "device_state_to_string NM_UNAVAILABLE = ''unavailable''"
| "device_state_to_string NM_DISCONNECTED = ''disconnected''"
| "device_state_to_string NM_PREPARE = ''prepare''"
| "device_state_to_string NM_CONFIG = ''config''"
| "device_state_to_string NM_NEED_AUTH = ''need-auth''"
| "device_state_to_string NM_IP_CONFIG = ''ip-config''"
| "device_state_to_string NM_IP_CHECK = ''ip-check''"
| "device_state_to_string NM_SECONDARIES = ''secondaries''"
| "device_state_to_string NM_ACTIVATED = ''activated''"
| "device_state_to_string NM_DEACTIVATING = ''deactivating''"
| "device_state_to_string NM_FAILED = ''failed''"
| "device_state_to_string NM_OTHER_STATE = ''unknown''"

section \<open>Printing\<close>

text \<open>\<open>%-15s\<close>: the string, filled up with spaces. \<open>%u\<close>: decimal digits.\<close>

definition pad :: "nat \<Rightarrow> string \<Rightarrow> string" where
  "pad n s = s @ replicate (n - length s) CHR 0x20"

fun print_u :: "nat \<Rightarrow> string" where
  "print_u n = (if n < 10 then [char_of (48 + n)] else print_u (n div 10) @ [char_of (48 + n mod 10)])"

declare print_u.simps [simp del]

definition dashes :: "nat \<Rightarrow> string" where
  "dashes n = replicate n CHR ''-''"

definition row3 :: "nat \<Rightarrow> nat \<Rightarrow> nat \<Rightarrow> string \<Rightarrow> string \<Rightarrow> string \<Rightarrow> string" where
  "row3 w1 w2 w3 a b c = pad w1 a @ '' '' @ pad w2 b @ '' '' @ pad w3 c"

datatype cli_status = CLI_OK | CLI_ERROR

type_synonym nm_command = "nm_client option \<Rightarrow> string list \<Rightarrow> cli_status \<times> string list"

section \<open>The commands\<close>

definition not_connected :: "cli_status \<times> string list" where
  "not_connected = (CLI_ERROR, [''Error: Not connected to NetworkManager''])"

definition cmd_show_status :: nm_command where
  "cmd_show_status client argv = (case client of None \<Rightarrow> not_connected
     | Some nm \<Rightarrow> (CLI_OK, [''NetworkManager Status:'', dashes 22, ''NM Version: '' @ nm_version nm,
         ''Running: '' @ (if nm_running nm then ''Yes'' else ''No'')]))"

definition connection_row :: "nm_con \<Rightarrow> string" where
  "connection_row c = row3 40 20 15 (nc_id c) (nc_uuid c) (nc_type c)"

definition cmd_show_connections :: nm_command where
  "cmd_show_connections client argv = (case client of None \<Rightarrow> not_connected
     | Some nm \<Rightarrow> (CLI_OK, [''Saved Connections:'', row3 40 20 15 ''Name'' ''UUID'' ''Type'',
         row3 40 20 15 (dashes 40) (dashes 20) (dashes 15)] @
         map connection_row (map the (filter (\<lambda>c. c \<noteq> None) (nm_connections nm)))))"

definition device_row :: "nm_dev \<Rightarrow> string" where
  "device_row d = row3 15 10 15 (nd_iface d) (device_type_to_string (nd_type d)) (device_state_to_string (nd_state d))"

definition cmd_show_devices :: nm_command where
  "cmd_show_devices client argv = (case client of None \<Rightarrow> not_connected
     | Some nm \<Rightarrow> (CLI_OK, [''Network Devices:'', row3 15 10 15 ''Device'' ''Type'' ''State'',
         row3 15 10 15 (dashes 15) (dashes 10) (dashes 15)] @ map device_row (nm_devices nm)))"

definition cmd_show_device :: nm_command where
  "cmd_show_device client argv = (case argv of [] \<Rightarrow> (CLI_ERROR, [''Usage: show device <interface>''])
     | iface # _ \<Rightarrow> (case client of None \<Rightarrow> not_connected
       | Some nm \<Rightarrow> (case nm_by_iface nm iface of
           None \<Rightarrow> (CLI_ERROR, [''Error: Device '' @ iface @ '' not found''])
         | Some d \<Rightarrow> (CLI_OK, [''Device: '' @ nd_iface d, ''  Type: '' @ device_type_to_string (nd_type d),
             ''  State: '' @ device_state_to_string (nd_state d), ''  MTU: '' @ print_u (nd_mtu d),
             ''  Interface: '' @ nd_iface d]))))"

text \<open>The loop over the connections that \<open>connect\<close> and \<open>delete\<close> share.\<close>

fun find_connection :: "string \<Rightarrow> nm_con option list \<Rightarrow> nm_con option" where
  "find_connection name [] = None"
| "find_connection name (None # cs) = find_connection name cs"
| "find_connection name (Some c # cs) = (if nc_id c = name then Some c else find_connection name cs)"

definition quoted :: "string \<Rightarrow> string" where
  "quoted s = CHR 0x27 # s @ [CHR 0x27]"

definition not_found :: "string \<Rightarrow> cli_status \<times> string list" where
  "not_found name = (CLI_ERROR, [''Error: Connection '' @ quoted name @ '' not found''])"

definition cmd_connect :: nm_command where
  "cmd_connect client argv = (case argv of [] \<Rightarrow> (CLI_ERROR, [''Usage: connect <connection-name>''])
     | conn_name # _ \<Rightarrow> (case client of None \<Rightarrow> not_connected
       | Some nm \<Rightarrow> (case find_connection conn_name (nm_connections nm) of None \<Rightarrow> not_found conn_name
         | Some c \<Rightarrow> (CLI_OK, [''Activating connection '' @ quoted conn_name @ ''...'']))))"

definition cmd_disconnect :: nm_command where
  "cmd_disconnect client argv = (case client of None \<Rightarrow> not_connected
     | Some nm \<Rightarrow> (CLI_OK, map (\<lambda>d. ''Deactivating '' @ nd_iface d @ ''...'')
         (filter (\<lambda>d. nd_state d = NM_ACTIVATED) (nm_devices nm))))"

definition cmd_reconnect :: nm_command where
  "cmd_reconnect client argv = (CLI_OK, [''Reconnecting...''])"

definition ssid_of :: "nm_ap \<Rightarrow> string" where
  "ssid_of ap = (case ap_ssid ap of None \<Rightarrow> [] | Some s \<Rightarrow> s)"

definition wireless_row :: "nm_dev \<Rightarrow> string" where
  "wireless_row d = row3 15 10 20 (nd_iface d) (device_state_to_string (nd_state d))
     (case nd_active d of None \<Rightarrow> [] | Some ap \<Rightarrow> ssid_of ap)"

definition cmd_show_wireless :: nm_command where
  "cmd_show_wireless client argv = (case client of None \<Rightarrow> not_connected
     | Some nm \<Rightarrow> (CLI_OK, [''Wireless Devices:'', row3 15 10 20 ''Interface'' ''State'' ''SSID'',
         row3 15 10 20 (dashes 15) (dashes 10) (dashes 20)] @
         map wireless_row (filter (\<lambda>d. nd_type d = NM_WIFI) (nm_devices nm))))"

definition KEY_MGMT_PSK :: u32 where "KEY_MGMT_PSK = 0x100"
definition KEY_MGMT_SAE :: u32 where "KEY_MGMT_SAE = 0x400"

definition ap_security :: "nm_ap \<Rightarrow> string" where
  "ap_security ap = (if ap_flags ap AND KEY_MGMT_PSK \<noteq> 0 then ''WPA2''
     else if ap_flags ap AND KEY_MGMT_SAE \<noteq> 0 then ''WPA3'' else ''Open'')"

definition ap_row :: "nm_ap \<Rightarrow> string" where
  "ap_row ap = pad 35 (ssid_of ap) @ '' '' @ pad 10 (ap_bssid ap) @ '' '' @ pad 8 (print_u (unat (ap_strength ap))) @
     '' '' @ ap_security ap"

definition ap_heading :: "string \<Rightarrow> string \<Rightarrow> string \<Rightarrow> string \<Rightarrow> string" where
  "ap_heading a b c d = pad 35 a @ '' '' @ pad 10 b @ '' '' @ pad 8 c @ '' '' @ d"

definition cmd_device_wifi_list :: nm_command where
  "cmd_device_wifi_list client argv = (case client of None \<Rightarrow> not_connected
     | Some nm \<Rightarrow> (CLI_OK, concat (map (\<lambda>d. [''Wi-Fi networks on '' @ nd_iface d @ '':'',
           ap_heading ''SSID'' ''BSSID'' ''Signal'' ''Security'',
           ap_heading (dashes 35) (dashes 10) (dashes 8) (dashes 8)] @ map ap_row (nd_aps d))
         (filter (\<lambda>d. nd_type d = NM_WIFI) (nm_devices nm)))))"

definition cmd_device_wifi_connect :: nm_command where
  "cmd_device_wifi_connect client argv = (case argv of
       [] \<Rightarrow> (CLI_ERROR, [''Usage: device wifi connect <ssid> [password]''])
     | ssid # _ \<Rightarrow> (CLI_OK, [''Connecting to Wi-Fi network '' @ quoted ssid @ ''...'']))"

definition cmd_delete_connection :: nm_command where
  "cmd_delete_connection client argv = (case argv of [] \<Rightarrow> (CLI_ERROR, [''Usage: delete connection <name>''])
     | conn_name # _ \<Rightarrow> (case client of None \<Rightarrow> not_connected
       | Some nm \<Rightarrow> (case find_connection conn_name (nm_connections nm) of None \<Rightarrow> not_found conn_name
         | Some c \<Rightarrow> (CLI_OK, [''Deleting connection '' @ quoted conn_name @ ''...'']))))"

definition cmd_reload :: nm_command where
  "cmd_reload client argv = (case client of None \<Rightarrow> not_connected
     | Some nm \<Rightarrow> (CLI_OK, [''Reloading NetworkManager configuration...'']))"

definition cmd_version :: nm_command where
  "cmd_version client argv = (case client of None \<Rightarrow> not_connected
     | Some nm \<Rightarrow> (CLI_OK, [''NetworkManager version: '' @ nm_version nm]))"

section \<open>The command table\<close>

text \<open>The commands the help text shows, with the words that follow in angle brackets left out, and those that are registered.\<close>

definition help_commands :: "string list list" where
  "help_commands = [[''show'', ''status''], [''show'', ''connections''], [''show'', ''devices''], [''show'', ''device''],
     [''show'', ''wireless''], [''device'', ''wifi'', ''list''], [''device'', ''wifi'', ''connect''], [''connect''],
     [''disconnect''], [''reconnect''], [''delete'', ''connection''], [''reload''], [''version''], [''help''], [''exit''],
     [''quit'']]"

definition registered :: "(string list \<times> nm_command) list" where
  "registered = [([''version''], cmd_version), ([''show'', ''status''], cmd_show_status),
     ([''show'', ''connections''], cmd_show_connections), ([''show'', ''devices''], cmd_show_devices),
     ([''show'', ''device''], cmd_show_device), ([''show'', ''wireless''], cmd_show_wireless),
     ([''connect''], cmd_connect), ([''disconnect''], cmd_disconnect), ([''reconnect''], cmd_reconnect),
     ([''reload''], cmd_reload), ([''device'', ''wifi'', ''list''], cmd_device_wifi_list),
     ([''device'', ''wifi'', ''connect''], cmd_device_wifi_connect),
     ([''connection'', ''delete''], cmd_delete_connection)]"

text \<open>Commands of \<open>main.c\<close> itself: they do not look at libnm.\<close>

definition local_commands :: "string list list" where
  "local_commands = [[''help''], [''exit''], [''quit'']]"

section \<open>Reading a table back\<close>

definition strip :: "string \<Rightarrow> string" where
  "strip s = rev (dropWhile (\<lambda>c. c = CHR 0x20) (rev s))"

lemma strip_pad: "s = [] \<or> last s \<noteq> CHR 0x20 \<Longrightarrow> strip (pad n s) = s"
proof -
  have d: "dropWhile (\<lambda>c. c = CHR 0x20) (replicate k CHR 0x20 @ xs) = dropWhile (\<lambda>c. c = CHR 0x20) xs" for k xs
    by (induction k) simp_all
  assume "s = [] \<or> last s \<noteq> CHR 0x20"
  then have "dropWhile (\<lambda>c. c = CHR 0x20) (rev s) = rev s" by (cases s rule: rev_cases) auto
  then show ?thesis by (simp add: strip_def pad_def d)
qed

definition read_row3 :: "nat \<Rightarrow> nat \<Rightarrow> string \<Rightarrow> string \<times> string \<times> string" where
  "read_row3 w1 w2 l = (strip (take w1 l), strip (take w2 (drop (w1 + 1) l)), strip (drop (w1 + w2 + 2) l))"

lemma length_pad: "length s \<le> n \<Longrightarrow> length (pad n s) = n"
  by (simp add: pad_def)

definition no_trail :: "string \<Rightarrow> bool" where
  "no_trail s \<longleftrightarrow> s = [] \<or> last s \<noteq> CHR 0x20"

lemma read_row3:
  assumes "length a \<le> w1" "length b \<le> w2" "no_trail a" "no_trail b" "no_trail c"
  shows "read_row3 w1 w2 (row3 w1 w2 w3 a b c) = (a, b, c)"
  using assms strip_pad by (simp add: read_row3_def row3_def length_pad no_trail_def drop_append take_append)

lemma type_string: "length (device_type_to_string t) \<le> 10 \<and> no_trail (device_type_to_string t)"
  by (cases t) (simp_all add: no_trail_def)

lemma state_string: "no_trail (device_state_to_string s)"
  by (cases s) (simp_all add: no_trail_def)

text \<open>Fact: the table of devices has one line for each device, in order, from which name, type and state can be read back:
  no name of an interface, at most 15 characters, and no type is longer than its column.\<close>

theorem nm_device_table:
  assumes "\<forall>d\<in>set (nm_devices nm). length (nd_iface d) \<le> 15 \<and> no_trail (nd_iface d)"
  shows "\<exists>ls. cmd_show_devices (Some nm) argv = (CLI_OK, ls) \<and> map (read_row3 15 10) (drop 3 ls) =
    map (\<lambda>d. (nd_iface d, device_type_to_string (nd_type d), device_state_to_string (nd_state d))) (nm_devices nm)"
  using assms read_row3 type_string state_string by (auto simp: cmd_show_devices_def device_row_def)

lemma find_connection_first:
  "find_connection name cs = find (\<lambda>c. nc_id c = name) (map the (filter (\<lambda>c. c \<noteq> None) cs))"
  by (induction name cs rule: find_connection.induct) simp_all

text \<open>Fact: connecting and deleting succeed exactly for the name of a saved connection that has settings, and name it in what they print; otherwise they
  say which name was not found. Neither does more than print.\<close>

theorem nm_connect_delete:
  assumes "argv = conn_name # others" "cmd \<in> {cmd_connect, cmd_delete_connection}"
  shows "fst (cmd (Some nm) argv) = (if \<exists>c. Some c \<in> set (nm_connections nm) \<and> nc_id c = conn_name then CLI_OK else CLI_ERROR) \<and>
    (fst (cmd (Some nm) argv) = CLI_ERROR \<longrightarrow>
      snd (cmd (Some nm) argv) = [''Error: Connection '' @ quoted conn_name @ '' not found'']) \<and>
    cmd None argv = not_connected \<and> fst (cmd None argv) = CLI_ERROR"
proof -
  have "(find_connection conn_name (nm_connections nm) = None) \<longleftrightarrow>
      \<not> (\<exists>c. Some c \<in> set (nm_connections nm) \<and> nc_id c = conn_name)"
    by (force simp: find_connection_first find_None_iff image_iff)
  then show ?thesis
    using assms by (cases "find_connection conn_name (nm_connections nm)")
      (auto simp: cmd_connect_def cmd_delete_connection_def not_found_def not_connected_def)
qed

text \<open>Fact: the flags looked at are not those that hold key management: with any of the documented flags of an access point
  (bits 0 to 3) every network is listed as open.\<close>

theorem nm_wifi_always_open:
  assumes "ap_flags ap < 16"
  shows "\<exists>front. ap_row ap = front @ ''Open''"
proof -
  have "ap_flags ap AND mask 4 = ap_flags ap" using assms by (intro less_mask_eq) simp
  then have f: "ap_flags ap AND m = ap_flags ap AND (mask 4 AND m)" for m by (metis and.assoc)
  have "mask 4 AND KEY_MGMT_PSK = 0" "mask 4 AND KEY_MGMT_SAE = 0"
    by (simp_all add: KEY_MGMT_PSK_def KEY_MGMT_SAE_def mask_eq_exp_minus_1)
  then have "ap_flags ap AND KEY_MGMT_PSK = 0" "ap_flags ap AND KEY_MGMT_SAE = 0"
    using f [of KEY_MGMT_PSK] f [of KEY_MGMT_SAE] by simp_all
  then have "ap_security ap = ''Open''" by (simp add: ap_security_def)
  then show ?thesis by (simp add: ap_row_def)
qed

text \<open>Fact: of the commands in the help text every one is registered except \<open>delete connection\<close>, whose words are registered in the other order.\<close>

theorem nm_help_text:
  "filter (\<lambda>h. h \<notin> set (map fst registered) \<union> set local_commands) help_commands = [[''delete'', ''connection'']] \<and>
   filter (\<lambda>r. r \<notin> set help_commands) (map fst registered) = [[''connection'', ''delete'']]"
proof -
  have names: "map fst registered = [[''version''], [''show'', ''status''], [''show'', ''connections''], [''show'', ''devices''],
      [''show'', ''device''], [''show'', ''wireless''], [''connect''], [''disconnect''], [''reconnect''], [''reload''],
      [''device'', ''wifi'', ''list''], [''device'', ''wifi'', ''connect''], [''connection'', ''delete'']]"
    by (simp add: registered_def)
  show ?thesis unfolding names by code_simp
qed

definition demo_dev :: nm_dev where
  "demo_dev = \<lparr>nd_iface = ''wlan0'', nd_type = NM_WIFI, nd_state = NM_ACTIVATED, nd_mtu = 1500, nd_active = None,
     nd_aps = []\<rparr>"

definition demo_nm :: nm_client where
  "demo_nm = \<lparr>nm_version = ''1.40'', nm_running = True,
     nm_connections = [None, Some \<lparr>nc_id = ''home'', nc_uuid = ''u'', nc_type = ''wifi''\<rparr>], nm_devices = [demo_dev],
     nm_by_iface = (\<lambda>i. if i = ''wlan0'' then Some demo_dev else None)\<rparr>"

theorem nm_device_table_witness:
  "\<exists>ls. cmd_show_devices (Some demo_nm) [] = (CLI_OK, ls) \<and>
     map (read_row3 15 10) (drop 3 ls) = [(''wlan0'', ''Wi-Fi'', ''activated'')]"
  using nm_device_table [of demo_nm "[]"] by (simp add: demo_nm_def demo_dev_def no_trail_def)

theorem nm_connect_delete_witness:
  "fst (cmd_connect (Some demo_nm) [''home'']) = CLI_OK \<and> fst (cmd_delete_connection (Some demo_nm) [''work'']) = CLI_ERROR"
  using nm_connect_delete [of "[''home'']" "''home''" "[]" cmd_connect demo_nm]
    nm_connect_delete [of "[''work'']" "''work''" "[]" cmd_delete_connection demo_nm]
  by (simp add: demo_nm_def)

theorem nm_wifi_always_open_witness:
  "\<exists>front. ap_row \<lparr>ap_ssid = None, ap_bssid = ''b'', ap_strength = 40, ap_flags = 1\<rparr> = front @ ''Open''"
  by (rule nm_wifi_always_open) simp

end
