(* ===== verification/Spec2Isabelle.thy ===== *)
theory Spec2Isabelle
  imports Soft_Dma Vpci_Core Ncm_Rx Ncm_Bind Wdm_Claims Uoe_Sys Sketh_Claims Pfc_Pause Serial_Regread
    Rdma_Cm Usb_Copy Nm_Cli
begin

text \<open>
  A collection of Linux kernel drivers and test tools, verified in part. The development follows
  the C code file by file: a struct is a record, an enum or a tagged state a datatype, a function
  one definition of the same name, an error a negative \<open>int\<close> or the left side of a sum, and what
  would corrupt the kernel (a read or write outside a buffer, a use after free, a lock taken twice)
  a value of a fault type of the component. Calls into the kernel and the hardware are parameters:
  what they return is an argument of the definition that makes the call, and what a theorem needs
  of them is one of its hypotheses.

  \<^bold>\<open>The parts and how they interact.\<close> The drivers do not call each other; each talks to the kernel
  core above it and to a device or a peer below it.
  \<^item> \<open>modules/dma/soft-dma/soft_dma.c\<close>: a DMA controller in software, one channel and one thread.
  \<^item> \<open>modules/virtual_pcie\<close>: a PCIe device whose configuration space and memory windows are
    reached by packets over a TCP connection.
  \<^item> \<open>modules/ncm/cdc_ncm.c\<close>: network frames packed into USB transfer blocks and back.
  \<^item> \<open>modules/cdc-wdm/cdc-wdm.c\<close>: a character device and a WWAN port over the management channel of
    a modem.
  \<^item> \<open>modules/dummy_usb\<close>: a host controller and a device controller that are to reach each other
    by UDP datagrams.
  \<^item> \<open>modules/sketh_plat\<close> and \<open>modules/sketh_pci\<close>: a network driver with descriptor rings, bound to a
    platform or a PCI device; the same text but for the binding.
  \<^item> \<open>rdma/soft-rdma\<close> and \<open>rdma/soft-rdma-ok\<close>: two pairs of programs that connect queue pairs, over a TCP
    socket and over the RDMA connection manager.
  \<^item> \<open>libusb-test\<close>: file transfers between a program on the host and one on the USB device.
  \<^item> \<open>debug/pfc_pause\<close>, \<open>debug/serial_regread\<close>, \<open>dbus/network-manager\<close>: command line tools.

  \<^bold>\<open>Theories.\<close>
  \<^item> \<open>Driver_Prelude\<close>: machine integers, error numbers, windows of byte buffers, byte order, and the
    interfaces as locales: \<open>step_system\<close> and \<open>lts\<close> (an operation set or a labelled transition
    relation that keeps an invariant), \<open>simulation\<close> (the steps of an abstract system), \<open>byte_codec\<close>
    (a wire format) and \<open>byte_region\<close> (a bounds-checked store of bytes).
  \<^item> \<open>Soft_Dma\<close>: descriptors with identities on the lists of the channel (\<open>sdma_chan\<close>), the operations
    of the DMA engine (\<open>soft_dma_prep_dma_memcpy\<close>, \<open>soft_dma_issue_pending\<close>, \<open>soft_dma_tx_status\<close>,
    \<open>soft_dma_terminate_all\<close>, ...), the channel's thread cut at its lock regions, and module initialisation; \<open>sdma_client_step\<close> is a client that
    may call only what the driver registers. Shown: no operation loses or duplicates a descriptor; what the thread transfers when
    ranges do not overlap (an overlap is a fault, the code uses \<open>memcpy\<close>), and that as the operations are wired up
    it never transfers anything, because no descriptor has a submit hook; a use after free on termination; the order in which initialisation unwinds.
  \<^item> \<open>Vpci_Store\<close>, \<open>Vpci_Packet\<close>, \<open>Vpci_Net\<close>, \<open>Vpci_Core\<close>: the store
    (\<open>virtual_pcie_shmem.c\<close>), the message handlers (\<open>virtual_pcie_pkt.c\<close>), the connection and its
    threads (\<open>virtual_pcie_net.c\<close>), devices, files and ids (\<open>virtual_pcie_core.c\<close>). Shown: what
    is written is read back, also through two packets; which accesses leave a buffer; every request
    is answered once, unless the socket is gone or the answer cannot be allocated; ids stay unique; connecting leaks nothing and returns the first error; and the places where
    transport and core fail (receiving, the keepalive packet, closing after removal).
  \<^item> \<open>Ncm_Param\<close>, \<open>Ncm_Bind\<close>, \<open>Ncm_Tx\<close>, \<open>Ncm_Ntb\<close>, \<open>Ncm_Rx\<close>: negotiation and sysfs, binding,
    \<open>cdc_ncm_fill_tx_frame\<close> and its helpers, what a transfer block carries (\<open>ntb_frames\<close>), and
    reception. Shown: the negotiated parameters respect the device's; after any sequence of transmit
    calls the blocks sent carry exactly the frames accepted, in order, and a receiver that reads
    them delivers exactly those; every frame delivered lies inside the block; binding gives everything
    back when it fails, and unbinding does whichever interface it comes through; the receiver's table
    check can read past the block and, through an index that wraps, before it.
  \<^item> \<open>Wdm_Device\<close>, \<open>Wdm_Life\<close>, \<open>Wdm_Sys\<close>, \<open>Wdm_Inv\<close>, \<open>Wdm_Claims\<close>: the completion handlers, work
    items and file operations; creation, open and release, the WWAN port, suspend, reset and
    disconnection; the step relation \<open>wdm_step\<close> that interleaves them where the code sleeps or
    drops a lock; its invariant; and what follows. The power callback of the
    subdriver's client is the parameter \<open>wdm_power\<close>. Shown: for readers the driver refines a byte
    queue; no buffer is overrun; the command buffer belongs to the URB exactly while that is in
    flight; nothing runs after clean-up; and four ways in which the device hangs.
  \<^item> \<open>Uoe_Net\<close>, \<open>Uoe_Udc\<close>, \<open>Uoe_Inv\<close>, \<open>Uoe_Claims\<close>, \<open>Uoe_Hcd\<close>, \<open>Uoe_Sys\<close>: the packets of USB over
    Ethernet and its sockets (\<open>usb_over_net.c\<close>); the device controller (\<open>udc.c\<close>: \<open>dummy_queue\<close>,
    \<open>nuke\<close>, \<open>handle_control_request\<close>, one packet of \<open>uoe_udc_poll_loop\<close>, ...), the invariant of its
    queues under the events of \<open>udc_step\<close>, and its properties; the host controller (\<open>hcd.c\<close>) and what
    both do together. Shown: requests are conserved and memory is safe under the rules of the gadget
    API (a queued request that is freed stays on its queue, dangling); disabling an endpoint returns; headers survive the wire, and data does not; no answer
    reaches a peer; the host never sees a connection, completes a port reset or an URB,
    whatever the network, the poll thread and the data channel do; probing
    unwinds in the device controller and crashes in the host controller.
  \<^item> \<open>Sketh_Ring\<close>, \<open>Sketh_Dev\<close>, \<open>Sketh_Inv\<close>, \<open>Sketh_Tx\<close>, \<open>Sketh_Sys\<close>, \<open>Sketh_Claims\<close>: the rings, transmit,
    receive, polling and XDP; configuration, interrupts, open, stop and both bindings; the invariant
    of the receive rings; the transmit ring; the operations of a registered device as a transition
    system; its properties. Shown: the masked indices are arithmetic modulo the ring size; no skb is
    lost or doubled by receiving; no sequence of data path calls faults or hangs on rings that are set
    up; packets are freed in order after transmission, but not when they fill half a ring; and
    that probing dereferences a null pointer, a receive ring never recovers, a stopped device
    never comes up again, and raising the MTU on running rings panics when a frame no longer fits.
  \<^item> \<open>Rdma_Verbs\<close>, \<open>Rdma_Cm\<close>: the programs as sequences of steps that may fail, each a trace of events;
    \<open>ledger\<close> is the rule in which order objects may be destroyed. Shown: the socket programs clean up
    on every path and connect to each other, sending and receiving in complementary order; the other server leaks on every path and its client
    frees twice on three.
  \<^item> \<open>Usb_File\<close>, \<open>Usb_Copy\<close>: the two sending processes of the upload as interleaved steps, its server, and the
    download; the copy programs. Shown: no block is lost or doubled by interleaving; the file arrives when one process
    sends; the blocks can overtake each other; the download returns the file;
    two children that share a device each send their file in order, up to the block in which a write was short.
  \<^item> \<open>Pfc_Pause\<close>, \<open>Serial_Regread\<close>, \<open>Nm_Cli\<close>: the frame sent is the frame asked for; on an echoing console the
    register values come back in order; the tables and searches of the NetworkManager client.

  \<^bold>\<open>Bounds and fuel.\<close> \<open>wdm_read_run\<close> gets seven segments: a read that need not wait passes each of its
  at most six segments once. \<open>rx_tables\<close> follows at most 50 tables, the bound in the code itself.
  The reconnect loop runs over a given list of attempts. \<open>nuke\<close> is a partial function whose \<open>None\<close> is
  a loop that does not end, and which is shown to return when an endpoint is disabled. The loops over
  the transmit ring of the network driver (\<open>clean_tx_loop\<close>, \<open>alloc_tx_loop\<close>) are partial functions too, and
  shown to end at any indices; ring sizes are the powers of two up to 65536 that 16-bit indices
  reach. The polling loops of the RDMA programs and the time-outs of the serial tool (\<open>poll_loop\<close>,
  \<open>cm_server_loop\<close>, \<open>cm_client_loop\<close>, \<open>prompt_loop\<close>, \<open>login_loop\<close>) do not end when nothing ever
  completes or the clock stands still; when they do is stated with each theorem about them. All other loops are structural recursions over the data they visit.

  \<^bold>\<open>Concurrency.\<close> A lock region is one step. Where a function sleeps, drops its lock or calls back, it
  is cut, and the step relations and operation sequences of the theories interleave the pieces.
  Memory ordering below that level, interrupt latency and timing are not modelled.

  \<^bold>\<open>Not modelled.\<close> Log output, debugfs, sysfs files that only print, and reference counting that is
  the kernel core's. Of the network driver the driver tables and \<open>get_drvinfo\<close>; of the tools what only
  sets a terminal, a socket or a library up (\<open>serial_open\<close>, \<open>get_interface_mac\<close>, \<open>create_listen_socket\<close>, the libcli
  session loop). The autosuspend test driver, whose behaviour is in the power management core, and the kprobe that prints. The files
  under \<open>gadget_win_driver/\<close> and \<open>doc/\<close> and the build output hold no code.
\<close>

end
